(* ===== verification/SF_Prelude.thy ===== *)
theory SF_Prelude
  imports Main "HOL-Library.Product_Lexorder"
begin

text \<open>
  Vocabulary shared by every component.

  \<^item> \<open>uuid\<close>, \<open>instant\<close>: a Python \<open>UUID\<close> is its integer value (PostgreSQL orders the type the
    same way); an aware \<open>datetime\<close> is a count of microseconds, so that adding
    \<open>timedelta(seconds=n)\<close> is adding \<open>seconds n\<close>.
  \<^item> \<open>ustr\<close>: a Python \<open>str\<close> whose characters matter (file names, message bodies, extracted
    text) is its list of code points; identifier-like strings are HOL \<open>string\<close>s.
  \<^item> a fallible operation returns \<open>'e + 'a\<close> with \<open>Inl\<close> for the exception it raises.
  \<^item> a table is the list of its rows; \<open>order_by\<close>, \<open>limit_offset\<close>, \<open>first_by\<close> and \<open>upd_row\<close> are
    the SQL fragments the repositories use.
\<close>

type_synonym uuid = nat
type_synonym instant = int
type_synonym ustr = "nat list"
type_synonym byte = nat

named_theorems row_simps \<open>how table operations act on keys, membership and lookups\<close>
named_theorems inv_intros \<open>preservation lemmas for the invariants of the pipeline\<close>

definition seconds :: "int \<Rightarrow> int" where
  "seconds n = n * 1000000"

lemma seconds_pos [simp]: "0 < seconds n \<longleftrightarrow> 0 < n"
  by (simp add: seconds_def)

lemma seconds_mono [simp]: "seconds m \<le> seconds n \<longleftrightarrow> m \<le> n"
  by (simp add: seconds_def)

subsection \<open>Strings\<close>

definition is_space :: "nat \<Rightarrow> bool" where
  \<comment> \<open>\<open>str.isspace\<close>: the code points \<open>str.strip\<close> removes.\<close>
  "is_space c \<longleftrightarrow> (9 \<le> c \<and> c \<le> 13) \<or> (28 \<le> c \<and> c \<le> 32) \<or> c = 133 \<or> c = 160 \<or> c = 5760 \<or>
     (8192 \<le> c \<and> c \<le> 8202) \<or> c = 8232 \<or> c = 8233 \<or> c = 8239 \<or> c = 8287 \<or> c = 12288"

definition strip_by :: "('a \<Rightarrow> bool) \<Rightarrow> 'a list \<Rightarrow> 'a list" where
  "strip_by p xs = rev (dropWhile p (rev (dropWhile p xs)))"

definition ustrip :: "ustr \<Rightarrow> ustr" where
  "ustrip = strip_by is_space"

definition sstrip :: "string \<Rightarrow> string" where
  "sstrip = strip_by (\<lambda>c. is_space (of_char c))"

definition u :: "string \<Rightarrow> ustr" where
  \<comment> \<open>a string literal of the source as code points\<close>
  "u s = map of_char s"

fun split_on :: "'a \<Rightarrow> 'a list \<Rightarrow> 'a list list" where
  \<comment> \<open>\<open>str.split(sep)\<close> for a one-character separator\<close>
  "split_on c [] = [[]]"
| "split_on c (x # xs) = (if x = c then [] # split_on c xs
     else (case split_on c xs of [] \<Rightarrow> [[x]] | w # ws \<Rightarrow> (x # w) # ws))"

fun join_with :: "'a \<Rightarrow> 'a list list \<Rightarrow> 'a list" where
  "join_with c [] = []"
| "join_with c [w] = w"
| "join_with c (w # v # ws) = w @ c # join_with c (v # ws)"

lemma split_on_absent: "c \<notin> set xs \<Longrightarrow> split_on c xs = [xs]"
  by (induction xs) auto

lemma split_on_append: "c \<notin> set xs \<Longrightarrow> split_on c (xs @ c # ys) = xs # split_on c ys"
  by (induction xs) auto

lemma split_on_join: "ws \<noteq> [] \<Longrightarrow> list_all (\<lambda>w. c \<notin> set w) ws \<Longrightarrow> split_on c (join_with c ws) = ws"
  by (induction c ws rule: join_with.induct) (auto simp: split_on_absent split_on_append)

lemma join_split [simp]: "join_with c (split_on c xs) = xs"
proof (induction xs)
  case (Cons x xs)
  then show ?case by (cases "split_on c xs"; cases "tl (split_on c xs)") auto
qed simp

lemma dropWhile_fix_iff: "dropWhile p xs = xs \<longleftrightarrow> xs = [] \<or> \<not> p (hd xs)"
proof (cases xs)
  case (Cons x ys)
  have "length (dropWhile p ys) < length (x # ys)"
    by (simp add: length_dropWhile_le le_imp_less_Suc)
  then have "dropWhile p ys \<noteq> x # ys" by auto
  with Cons show ?thesis by simp
qed simp

lemma strip_by_idem [simp]: "strip_by p (strip_by p xs) = strip_by p xs"
proof -
  let ?ys = "dropWhile p xs"
  let ?zs = "rev (dropWhile p (rev ?ys))"
  have end_ok: "dropWhile p (rev ?zs) = rev ?zs"
    by (simp only: rev_rev_ident dropWhile_fix_iff) (metis hd_dropWhile)
  have "?zs = [] \<or> \<not> p (hd ?zs)"
  proof (cases "?zs = []")
    case False
    obtain ws where ws: "?ys = ?zs @ ws"
      by (metis rev_append rev_rev_ident takeWhile_dropWhile_id)
    with False have "hd ?zs = hd ?ys" by (metis hd_append2)
    moreover from ws False have "?ys \<noteq> []" by (metis append_is_Nil_conv)
    ultimately show ?thesis by (metis hd_dropWhile)
  qed simp
  then have "dropWhile p ?zs = ?zs" by (simp only: dropWhile_fix_iff)
  with end_ok show ?thesis by (simp add: strip_by_def)
qed

lemma strip_by_fix: "xs \<noteq> [] \<Longrightarrow> \<not> p (hd xs) \<Longrightarrow> \<not> p (last xs) \<Longrightarrow> strip_by p xs = xs"
proof -
  assume xs: "xs \<noteq> []" and h: "\<not> p (hd xs)" and l: "\<not> p (last xs)"
  have "dropWhile p xs = xs" using h by (simp add: dropWhile_fix_iff)
  moreover have "dropWhile p (rev xs) = rev xs"
    using xs l by (simp add: dropWhile_fix_iff hd_rev)
  ultimately show "strip_by p xs = xs" by (simp add: strip_by_def)
qed

lemma strip_by_hd: "strip_by p xs \<noteq> [] \<Longrightarrow> \<not> p (hd (strip_by p xs))"
proof -
  assume ne: "strip_by p xs \<noteq> []"
  obtain ws where ws: "dropWhile p xs = strip_by p xs @ ws"
    unfolding strip_by_def by (metis rev_append rev_rev_ident takeWhile_dropWhile_id)
  then have "hd (dropWhile p xs) = hd (strip_by p xs)" using ne by simp
  then show ?thesis using ne ws by (metis append_is_Nil_conv hd_dropWhile)
qed

lemma length_strip_by: "length (strip_by p xs) \<le> length xs"
  unfolding strip_by_def
  by (metis length_dropWhile_le length_rev order_trans)

lemma set_strip_by: "set (strip_by p xs) \<subseteq> set xs"
  unfolding strip_by_def by (auto dest!: set_dropWhileD)

subsection \<open>Results\<close>

definition bindE :: "'e + 'a \<Rightarrow> ('a \<Rightarrow> 'e + 'b) \<Rightarrow> 'e + 'b" where
  "bindE m f = (case m of Inl e \<Rightarrow> Inl e | Inr x \<Rightarrow> f x)"

lemma bindE_simps [simp]: "bindE (Inl e) f = Inl e" "bindE (Inr x) f = f x"
  by (simp_all add: bindE_def)

lemma bindE_Inr_iff: "bindE m f = Inr y \<longleftrightarrow> (\<exists>x. m = Inr x \<and> f x = Inr y)"
  by (cases m) auto

definition guardE :: "bool \<Rightarrow> 'e \<Rightarrow> 'e + unit" where
  "guardE b e = (if b then Inr () else Inl e)"

lemma guardE_Inr_iff [simp]: "guardE b e = Inr x \<longleftrightarrow> b"
  by (simp add: guardE_def)

subsection \<open>Tables\<close>

definition order_by :: "('r \<Rightarrow> 'k::linorder) \<Rightarrow> 'r list \<Rightarrow> 'r list" where
  "order_by key rows = sort_key key rows"

definition order_by_desc :: "('r \<Rightarrow> 'k::linorder) \<Rightarrow> 'r list \<Rightarrow> 'r list" where
  "order_by_desc key rows = rev (sort_key key rows)"

definition limit_offset :: "nat \<Rightarrow> nat \<Rightarrow> 'r list \<Rightarrow> 'r list" where
  "limit_offset n k rows = take n (drop k rows)"

definition first_by :: "('r \<Rightarrow> 'k::linorder) \<Rightarrow> 'r list \<Rightarrow> 'r option" where
  \<comment> \<open>\<open>ORDER BY key LIMIT 1\<close> read by \<open>session.scalar\<close>\<close>
  "first_by key rows = (case order_by key rows of [] \<Rightarrow> None | r # _ \<Rightarrow> Some r)"

definition upd_row :: "('r \<Rightarrow> 'k) \<Rightarrow> 'k \<Rightarrow> ('r \<Rightarrow> 'r) \<Rightarrow> 'r list \<Rightarrow> 'r list" where
  "upd_row key k f rows = map (\<lambda>r. if key r = k then f r else r) rows"

lemma set_order_by [simp]: "set (order_by key rows) = set rows"
  by (simp add: order_by_def)

lemma length_order_by [simp]: "length (order_by key rows) = length rows"
  by (simp add: order_by_def)

lemma distinct_order_by [simp]: "distinct (order_by key rows) = distinct rows"
  by (simp add: order_by_def)

lemma first_by_None [simp]: "first_by key rows = None \<longleftrightarrow> rows = []"
proof -
  have "order_by key rows = [] \<longleftrightarrow> rows = []"
    by (metis length_0_conv length_order_by)
  then show ?thesis by (auto simp: first_by_def split: list.split)
qed

lemma first_by_mem: "first_by key rows = Some r \<Longrightarrow> r \<in> set rows"
  by (metis (no_types, lifting) first_by_def list.case_eq_if list.set_sel(1) option.discI
      option.inject set_order_by)

lemma first_by_least: "first_by key rows = Some r \<Longrightarrow> x \<in> set rows \<Longrightarrow> key r \<le> key x"
proof -
  assume f: "first_by key rows = Some r" and x: "x \<in> set rows"
  then obtain rest where rest: "sort_key key rows = r # rest"
    by (auto simp: first_by_def order_by_def split: list.splits)
  have "sorted (map key (sort_key key rows))" by simp
  moreover have "x \<in> set (r # rest)" using x rest by (metis set_sort)
  ultimately show ?thesis using rest by auto
qed

lemma map_upd_row_key [row_simps, simp]:
  "(\<And>r. key (f r) = key r) \<Longrightarrow> map key (upd_row key k f rows) = map key rows"
  by (auto simp: upd_row_def)

lemma map_upd_row_field:
  "(\<And>r. g (f r) = g r) \<Longrightarrow> map g (upd_row key k f rows) = map g rows"
  by (auto simp: upd_row_def)

lemma length_upd_row [simp]: "length (upd_row key k f rows) = length rows"
  by (simp add: upd_row_def)

lemma mem_upd_row [row_simps]: "r \<in> set (upd_row key k f rows) \<longleftrightarrow>
    (\<exists>r0 \<in> set rows. r = (if key r0 = k then f r0 else r0))"
  by (simp only: upd_row_def set_map image_iff)

lemma upd_row_idle: "k \<notin> key ` set rows \<Longrightarrow> upd_row key k f rows = rows"
  by (induction rows) (auto simp: upd_row_def)

lemma distinct_key_unique:
  "distinct (map key rows) \<Longrightarrow> r \<in> set rows \<Longrightarrow> r' \<in> set rows \<Longrightarrow> key r = key r' \<Longrightarrow> r = r'"
  by (auto simp: distinct_map dest: inj_onD)

lemma find_key: "distinct (map key rows) \<Longrightarrow> r \<in> set rows \<Longrightarrow>
    find (\<lambda>x. key x = key r) rows = Some r"
  by (induction rows) auto

lemma find_SomeD: "find p rows = Some r \<Longrightarrow> r \<in> set rows \<and> p r"
  by (auto simp: find_Some_iff)

lemma find_NoneD: "find p rows = None \<Longrightarrow> r \<in> set rows \<Longrightarrow> \<not> p r"
  by (auto simp: find_None_iff)

lemma find_append [row_simps]:
  "find p (xs @ ys) = (case find p xs of None \<Rightarrow> find p ys | Some x \<Rightarrow> Some x)"
  by (induction xs) auto

lemma find_upd_row [row_simps]:
  "(\<And>r. key (f r) = key r) \<Longrightarrow>
   find (\<lambda>r. key r = j) (upd_row key k f rows) =
     map_option (\<lambda>r. if key r = k then f r else r) (find (\<lambda>r. key r = j) rows)"
  by (induction rows) (auto simp: upd_row_def)

lemma length_filter_upd_row:
  "(\<And>r. r \<in> set rows \<Longrightarrow> key r = k \<Longrightarrow> p (f r) = p r) \<Longrightarrow>
   length (filter p (upd_row key k f rows)) = length (filter p rows)"
  by (induction rows) (auto simp: upd_row_def)

subsection \<open>Paged listings\<close>

text \<open>
  The contract shared by the list operations of the repositories (audit events, tickets,
  organization members): a page is a window of one ordered list of visible rows, and the total
  is that list's length. A client that walks the pages sees every visible row once, in order.
\<close>

locale paged_listing =
  fixes page :: "'s \<Rightarrow> 'q \<Rightarrow> nat \<Rightarrow> nat \<Rightarrow> 'r list \<times> nat"
    and visible :: "'s \<Rightarrow> 'q \<Rightarrow> 'r list"
  assumes page_items: "fst (page s q limit offset) = take limit (drop offset (visible s q))"
    and page_total: "snd (page s q limit offset) = length (visible s q)"
begin

lemma page_size: "length (fst (page s q limit offset)) \<le> limit"
  by (simp add: page_items)

lemma page_subset: "set (fst (page s q limit offset)) \<subseteq> set (visible s q)"
  by (auto simp: page_items dest: in_set_takeD in_set_dropD)

lemma page_beyond: "snd (page s q limit offset) \<le> offset \<Longrightarrow> fst (page s q limit offset) = []"
  by (simp add: page_items page_total)

lemma pages_prefix:
  "concat (map (\<lambda>k. fst (page s q limit (k * limit))) [0..<m]) = take (m * limit) (visible s q)"
proof (induction m)
  case (Suc m)
  have "take (Suc m * limit) (visible s q) =
      take (m * limit) (visible s q) @ take limit (drop (m * limit) (visible s q))"
  proof -
    have "Suc m * limit = m * limit + limit" by simp
    then show ?thesis by (simp only: take_add)
  qed
  with Suc show ?case by (simp add: page_items)
qed simp

lemma pages_cover:
  "snd (page s q limit 0) \<le> m * limit \<Longrightarrow>
   concat (map (\<lambda>k. fst (page s q limit (k * limit))) [0..<m]) = visible s q"
  by (simp add: pages_prefix page_total)

end

end
