(* ===== verification/SF_Models.thy ===== *)
theory SF_Models
  imports SF_Prelude
begin

text \<open>
  The persisted data of the program: the enumerations, one record per mapped class of
  \<open>app/identity/models.py\<close>, \<open>app/tickets/models.py\<close>, \<open>app/documents/models.py\<close>,
  \<open>app/audit/models.py\<close> and \<open>app/classification/models.py\<close>, the constraints their
  \<open>__table_args__\<close> declare, and the database as the record of its tables. \<open>commit\<close> is the
  database's verdict on a transaction: the new state if every declared constraint holds in it,
  and no change otherwise, with \<open>DataError\<close> when a value does not fit its column's type and
  \<open>IntegrityError\<close> when a constraint is violated.
\<close>

subsection \<open>Enumerations\<close>

datatype organization_status = ORG_ACTIVE | ORG_SUSPENDED
datatype user_status = USER_ACTIVE | USER_DISABLED
datatype membership_role = ADMIN | AGENT
datatype membership_status = MEMBER_ACTIVE | MEMBER_INACTIVE

datatype ticket_status = OPEN | PROCESSING | WAITING_FOR_AGENT | RESOLVED | CLOSED
datatype ticket_source_type = MANUAL | API
datatype message_author_type = AUTHOR_CUSTOMER | AUTHOR_AGENT | AUTHOR_SYSTEM

datatype document_source_type = UPLOAD
datatype document_media_type = PDF | TEXT | MARKDOWN
datatype document_processing_status = QUEUED | EXTRACTING | READY | FAILED

datatype document_error_code =
    DISPATCH_FAILED | STORAGE_UNAVAILABLE | SCANNER_UNAVAILABLE | MALWARE_DETECTED
  | UNSUPPORTED_DOCUMENT | EXTRACTION_FAILED | EXTRACTION_LIMIT_EXCEEDED
  | RETRY_EXHAUSTED | DATABASE_UNAVAILABLE

fun membership_role_value :: "membership_role \<Rightarrow> string" where
  "membership_role_value ADMIN = ''admin''"
| "membership_role_value AGENT = ''agent''"

fun ticket_status_value :: "ticket_status \<Rightarrow> string" where
  "ticket_status_value OPEN = ''open''"
| "ticket_status_value PROCESSING = ''processing''"
| "ticket_status_value WAITING_FOR_AGENT = ''waiting_for_agent''"
| "ticket_status_value RESOLVED = ''resolved''"
| "ticket_status_value CLOSED = ''closed''"

fun ticket_source_value :: "ticket_source_type \<Rightarrow> string" where
  "ticket_source_value MANUAL = ''manual''"
| "ticket_source_value API = ''api''"

fun media_type_value :: "document_media_type \<Rightarrow> string" where
  "media_type_value PDF = ''application/pdf''"
| "media_type_value TEXT = ''text/plain''"
| "media_type_value MARKDOWN = ''text/markdown''"

fun error_code_value :: "document_error_code \<Rightarrow> string" where
  "error_code_value DISPATCH_FAILED = ''dispatch_failed''"
| "error_code_value STORAGE_UNAVAILABLE = ''storage_unavailable''"
| "error_code_value SCANNER_UNAVAILABLE = ''scanner_unavailable''"
| "error_code_value MALWARE_DETECTED = ''malware_detected''"
| "error_code_value UNSUPPORTED_DOCUMENT = ''unsupported_document''"
| "error_code_value EXTRACTION_FAILED = ''extraction_failed''"
| "error_code_value EXTRACTION_LIMIT_EXCEEDED = ''extraction_limit_exceeded''"
| "error_code_value RETRY_EXHAUSTED = ''retry_exhausted''"
| "error_code_value DATABASE_UNAVAILABLE = ''database_unavailable''"

definition terminal_status :: "document_processing_status \<Rightarrow> bool" where
  "terminal_status st \<longleftrightarrow> st = READY \<or> st = FAILED"

lemma terminal_status_simps [simp]:
  "terminal_status READY" "terminal_status FAILED"
  "\<not> terminal_status QUEUED" "\<not> terminal_status EXTRACTING"
  by (simp_all add: terminal_status_def)

subsection \<open>Rows\<close>

record organization =
  o_id :: uuid
  o_name :: ustr
  o_slug :: string
  o_status :: organization_status

record user =
  u_id :: uuid
  u_email :: string
  u_password_hash :: string
  u_status :: user_status

record organization_member =
  m_organization_id :: uuid
  m_user_id :: uuid
  m_role :: membership_role
  m_status :: membership_status
  m_created_at :: instant

record customer =
  c_id :: uuid
  c_organization_id :: uuid
  c_name :: ustr
  c_email :: "string option"
  c_external_id :: "string option"

record ticket =
  t_id :: uuid
  t_organization_id :: uuid
  t_customer_id :: "uuid option"
  t_source_type :: ticket_source_type
  t_external_id :: "string option"
  t_subject :: ustr
  t_status :: ticket_status
  t_created_at :: instant
  t_updated_at :: instant

record ticket_message =
  tm_id :: uuid
  tm_organization_id :: uuid
  tm_ticket_id :: uuid
  tm_author_type :: message_author_type
  tm_author_user_id :: "uuid option"
  tm_author_customer_id :: "uuid option"
  tm_body :: ustr
  tm_created_at :: instant

record document =
  d_id :: uuid
  d_organization_id :: uuid
  d_source_type :: document_source_type
  d_external_id :: "string option"
  d_display_filename :: ustr
  d_created_by_user_id :: uuid
  d_created_at :: instant
  d_updated_at :: instant

record document_version =
  v_id :: uuid
  v_organization_id :: uuid
  v_document_id :: uuid
  v_version_number :: int
  v_media_type :: document_media_type
  v_size_bytes :: int
  v_content_sha256 :: string
  v_storage_key :: string
  v_status :: document_processing_status
  v_extracted_text :: "ustr option"
  v_attempt_count :: int
  v_processing_task_id :: "string option"
  v_processing_started_at :: "instant option"
  v_error_code :: "string option"
  v_created_at :: instant
  v_updated_at :: instant

record ingestion_intent =
  i_id :: uuid
  i_organization_id :: uuid
  i_document_version_id :: uuid
  i_task_id :: string
  i_available_at :: instant
  i_published_at :: "instant option"
  i_settled_at :: "instant option"
  i_unresolved_at :: "instant option"
  i_lease_token :: "uuid option"
  i_lease_expires_at :: "instant option"
  i_publish_attempts :: int
  i_recovery_attempts :: int
  i_recovery_grants :: int
  i_last_error :: "string option"
  i_created_at :: instant

datatype meta_value = MStr string | MInt int

record audit_event =
  a_id :: uuid
  a_organization_id :: uuid
  a_actor_user_id :: "uuid option"
  a_action :: string
  a_resource_type :: string
  a_resource_id :: "uuid option"
  a_metadata :: "(string \<times> meta_value) list"
  a_created_at :: instant

record classification_operation =
  op_id :: uuid
  op_organization_id :: uuid
  op_ticket_id :: uuid
  op_requesting_actor_user_id :: uuid
  op_opening_message_id :: "uuid option"
  op_input_fingerprint :: string
  op_config_digest :: string
  op_configuration_version :: string
  op_input_policy_version :: string
  op_taxonomy_version :: string
  op_schema_version :: string
  op_prompt_version :: string
  op_adapter_version :: string
  op_provider :: string
  op_model :: string
  op_mode :: string
  op_state :: string
  op_outcome :: "string option"
  op_category :: "string option"
  op_error_code :: "string option"
  op_attempt_count :: int
  op_elapsed_ms :: "int option"
  op_input_tokens :: "int option"
  op_output_tokens :: "int option"
  op_cost :: "int option"
  op_created_at :: instant
  op_expires_at :: instant
  op_completed_at :: "instant option"

record db =
  organizations :: "organization list"
  users :: "user list"
  organization_members :: "organization_member list"
  customers :: "customer list"
  tickets :: "ticket list"
  ticket_messages :: "ticket_message list"
  documents :: "document list"
  document_versions :: "document_version list"
  ingestion_intents :: "ingestion_intent list"
  audit_events :: "audit_event list"
  classification_operations :: "classification_operation list"

definition empty_db :: db where
  "empty_db = \<lparr>organizations = [], users = [], organization_members = [], customers = [],
     tickets = [], ticket_messages = [], documents = [], document_versions = [],
     ingestion_intents = [], audit_events = [], classification_operations = []\<rparr>"

subsection \<open>Declared constraints\<close>

text \<open>
  Each \<open>_ok\<close> predicate is the conjunction of the \<open>CHECK\<close> and foreign-key constraints of one table
  for one row, each \<open>_types\<close> predicate what its column types accept (\<open>varchar(n)\<close> lengths, and
  that PostgreSQL text holds no \<open>NUL\<close>); \<open>unique_by\<close> is a \<open>UNIQUE\<close> constraint, where SQL ignores keys with a
  \<open>NULL\<close> component (\<open>unique_opt\<close>).
\<close>

definition pg_trim :: "ustr \<Rightarrow> ustr" where
  "pg_trim = strip_by (\<lambda>c. c = 32)"

definition pg_trim_s :: "string \<Rightarrow> string" where
  "pg_trim_s = strip_by (\<lambda>c. c = CHR '' '')"

definition lower_char :: "char \<Rightarrow> char" where
  "lower_char c = (if 65 \<le> (of_char c :: nat) \<and> (of_char c :: nat) \<le> 90
     then char_of (of_char c + 32 :: nat) else c)"

definition lower_s :: "string \<Rightarrow> string" where
  "lower_s = map lower_char"

definition is_hex64 :: "string \<Rightarrow> bool" where
  "is_hex64 s \<longleftrightarrow> length s = 64 \<and> list_all (\<lambda>c. c \<in> set ''0123456789abcdef'') s"

definition unique_by :: "('r \<Rightarrow> 'k) \<Rightarrow> 'r list \<Rightarrow> bool" where
  "unique_by key rows \<longleftrightarrow> distinct (map key rows)"

definition unique_opt :: "('r \<Rightarrow> 'k option) \<Rightarrow> 'r list \<Rightarrow> bool" where
  "unique_opt key rows \<longleftrightarrow> distinct (filter (\<lambda>k. k \<noteq> None) (map key rows))"

definition has_org :: "db \<Rightarrow> uuid \<Rightarrow> bool" where
  "has_org s oid \<longleftrightarrow> list_ex (\<lambda>r. o_id r = oid) (organizations s)"

definition has_member :: "db \<Rightarrow> uuid \<Rightarrow> uuid \<Rightarrow> bool" where
  "has_member s oid uid \<longleftrightarrow>
     list_ex (\<lambda>r. m_organization_id r = oid \<and> m_user_id r = uid) (organization_members s)"

definition has_customer :: "db \<Rightarrow> uuid \<Rightarrow> uuid \<Rightarrow> bool" where
  "has_customer s oid c \<longleftrightarrow> list_ex (\<lambda>r. c_organization_id r = oid \<and> c_id r = c) (customers s)"

definition organization_ok :: "organization \<Rightarrow> bool" where
  "organization_ok r \<longleftrightarrow> o_slug r = lower_s (o_slug r)"

definition user_ok :: "user \<Rightarrow> bool" where
  "user_ok r \<longleftrightarrow> u_email r = lower_s (u_email r)"

definition member_ok :: "db \<Rightarrow> organization_member \<Rightarrow> bool" where
  "member_ok s r \<longleftrightarrow> has_org s (m_organization_id r) \<and>
     list_ex (\<lambda>x. u_id x = m_user_id r) (users s)"

definition customer_ok :: "db \<Rightarrow> customer \<Rightarrow> bool" where
  "customer_ok s r \<longleftrightarrow> has_org s (c_organization_id r) \<and>
     c_name r = pg_trim (c_name r) \<and> c_name r \<noteq> [] \<and>
     (case c_email r of None \<Rightarrow> True | Some e \<Rightarrow> e = lower_s e)"

definition ticket_ok :: "db \<Rightarrow> ticket \<Rightarrow> bool" where
  "ticket_ok s r \<longleftrightarrow> has_org s (t_organization_id r) \<and>
     t_subject r = pg_trim (t_subject r) \<and> t_subject r \<noteq> [] \<and>
     (case t_customer_id r of None \<Rightarrow> True | Some c \<Rightarrow> has_customer s (t_organization_id r) c)"

definition valid_author_identity :: "ticket_message \<Rightarrow> bool" where
  "valid_author_identity r \<longleftrightarrow>
     (case tm_author_type r of
        AUTHOR_CUSTOMER \<Rightarrow> tm_author_user_id r = None \<and> tm_author_customer_id r \<noteq> None
      | AUTHOR_AGENT \<Rightarrow> tm_author_user_id r \<noteq> None \<and> tm_author_customer_id r = None
      | AUTHOR_SYSTEM \<Rightarrow> tm_author_user_id r = None \<and> tm_author_customer_id r = None)"

definition message_ok :: "db \<Rightarrow> ticket_message \<Rightarrow> bool" where
  "message_ok s r \<longleftrightarrow> has_org s (tm_organization_id r) \<and>
     tm_body r = pg_trim (tm_body r) \<and> tm_body r \<noteq> [] \<and> valid_author_identity r \<and>
     list_ex (\<lambda>t. t_organization_id t = tm_organization_id r \<and> t_id t = tm_ticket_id r)
       (tickets s) \<and>
     (case tm_author_user_id r of None \<Rightarrow> True | Some x \<Rightarrow> has_member s (tm_organization_id r) x) \<and>
     (case tm_author_customer_id r of None \<Rightarrow> True
      | Some c \<Rightarrow> has_customer s (tm_organization_id r) c \<and>
          list_ex (\<lambda>t. t_organization_id t = tm_organization_id r \<and> t_id t = tm_ticket_id r \<and>
             t_customer_id t = Some c) (tickets s))"

definition document_ok :: "db \<Rightarrow> document \<Rightarrow> bool" where
  "document_ok s r \<longleftrightarrow> has_org s (d_organization_id r) \<and>
     d_display_filename r = pg_trim (d_display_filename r) \<and> d_display_filename r \<noteq> [] \<and>
     has_member s (d_organization_id r) (d_created_by_user_id r)"

definition MAX_DOCUMENT_BYTES :: int where
  "MAX_DOCUMENT_BYTES = 10 * 1024 * 1024"

definition version_ok :: "db \<Rightarrow> document_version \<Rightarrow> bool" where
  "version_ok s r \<longleftrightarrow> has_org s (v_organization_id r) \<and>
     0 < v_version_number r \<and>
     0 < v_size_bytes r \<and> v_size_bytes r \<le> MAX_DOCUMENT_BYTES \<and>
     is_hex64 (v_content_sha256 r) \<and>
     v_storage_key r = pg_trim_s (v_storage_key r) \<and> v_storage_key r \<noteq> [] \<and>
     0 \<le> v_attempt_count r \<and>
     list_ex (\<lambda>d. d_organization_id d = v_organization_id r \<and> d_id d = v_document_id r)
       (documents s)"

definition intent_ok :: "db \<Rightarrow> ingestion_intent \<Rightarrow> bool" where
  "intent_ok s r \<longleftrightarrow>
     list_ex (\<lambda>v. v_organization_id v = i_organization_id r \<and> v_id v = i_document_version_id r)
       (document_versions s) \<and>
     i_task_id r = pg_trim_s (i_task_id r) \<and> i_task_id r \<noteq> [] \<and>
     0 \<le> i_publish_attempts r \<and> 0 \<le> i_recovery_attempts r \<and>
     0 \<le> i_recovery_grants r \<and> i_recovery_grants r \<le> 3 \<and>
     (i_lease_token r = None \<longleftrightarrow> i_lease_expires_at r = None) \<and>
     (case i_last_error r of None \<Rightarrow> True
      | Some e \<Rightarrow> e \<in> {''publish_unavailable'', ''attempts_exhausted'', ''ownership_ambiguous''})"

definition ident_part :: "string \<Rightarrow> bool" where
  \<comment> \<open>the regular expression \<open>[a-z][a-z0-9_]*\<close>\<close>
  "ident_part w \<longleftrightarrow> (case w of [] \<Rightarrow> False | c # cs \<Rightarrow>
     c \<in> set ''abcdefghijklmnopqrstuvwxyz'' \<and>
     list_all (\<lambda>x. x \<in> set ''abcdefghijklmnopqrstuvwxyz0123456789_'') cs)"

definition dotted_action :: "string \<Rightarrow> bool" where
  "dotted_action w \<longleftrightarrow> 2 \<le> length (split_on (CHR ''.'') w) \<and> list_all ident_part (split_on (CHR ''.'') w)"

definition audit_ok :: "db \<Rightarrow> audit_event \<Rightarrow> bool" where
  "audit_ok s r \<longleftrightarrow> has_org s (a_organization_id r) \<and>
     a_action r = lower_s (a_action r) \<and> dotted_action (a_action r) \<and>
     a_resource_type r = lower_s (a_resource_type r) \<and> ident_part (a_resource_type r) \<and>
     (case a_actor_user_id r of None \<Rightarrow> True | Some x \<Rightarrow> has_member s (a_organization_id r) x)"

definition operation_states :: "string list" where
  "operation_states = [''in_progress'', ''succeeded'', ''stale'', ''failed'', ''unknown'']"

definition classification_categories :: "string list" where
  "classification_categories =
     [''account_access'', ''billing'', ''technical_issue'', ''how_to'', ''feature_request'', ''other'']"

definition result_pair :: "classification_operation \<Rightarrow> bool" where
  "result_pair r \<longleftrightarrow>
     (if op_state r = ''succeeded'' then
        op_error_code r = None \<and> op_completed_at r \<noteq> None \<and>
        ((op_outcome r = Some ''classified'' \<and>
            (case op_category r of None \<Rightarrow> False | Some c \<Rightarrow> c \<in> set classification_categories)) \<or>
         (op_outcome r = Some ''insufficient_context'' \<and> op_category r = None))
      else op_outcome r = None \<and> op_category r = None)"

definition operation_ok :: "db \<Rightarrow> classification_operation \<Rightarrow> bool" where
  "operation_ok s r \<longleftrightarrow>
     list_ex (\<lambda>t. t_organization_id t = op_organization_id r \<and> t_id t = op_ticket_id r)
       (tickets s) \<and>
     has_member s (op_organization_id r) (op_requesting_actor_user_id r) \<and>
     op_state r \<in> set operation_states \<and> op_mode r = ''fake'' \<and>
     op_attempt_count r \<in> {0, 1} \<and>
     (case op_elapsed_ms r of None \<Rightarrow> True | Some e \<Rightarrow> 0 \<le> e) \<and>
     op_input_tokens r = None \<and> op_output_tokens r = None \<and> op_cost r = None \<and>
     result_pair r \<and> (op_state r = ''succeeded'' \<longrightarrow> op_outcome r \<noteq> None)"

definition primary_keys_ok :: "db \<Rightarrow> bool" where
  "primary_keys_ok s \<longleftrightarrow>
     unique_by o_id (organizations s) \<and> unique_by u_id (users s) \<and>
     unique_by (\<lambda>r. (m_organization_id r, m_user_id r)) (organization_members s) \<and>
     unique_by c_id (customers s) \<and> unique_by t_id (tickets s) \<and>
     unique_by tm_id (ticket_messages s) \<and> unique_by d_id (documents s) \<and>
     unique_by v_id (document_versions s) \<and> unique_by i_id (ingestion_intents s) \<and>
     unique_by a_id (audit_events s) \<and> unique_by op_id (classification_operations s)"

definition unique_keys_ok :: "db \<Rightarrow> bool" where
  \<comment> \<open>the \<open>UNIQUE\<close> constraints that do not follow from a primary key\<close>
  "unique_keys_ok s \<longleftrightarrow>
     unique_by o_slug (organizations s) \<and> unique_by u_email (users s) \<and>
     unique_opt (\<lambda>r. map_option (\<lambda>e. (c_organization_id r, e)) (c_external_id r)) (customers s) \<and>
     unique_opt (\<lambda>r. map_option (\<lambda>e. (t_organization_id r, t_source_type r, e)) (t_external_id r))
       (tickets s) \<and>
     unique_opt (\<lambda>r. map_option (\<lambda>e. (d_organization_id r, d_source_type r, e)) (d_external_id r))
       (documents s) \<and>
     unique_by (\<lambda>r. (v_organization_id r, v_document_id r, v_version_number r))
       (document_versions s) \<and>
     unique_by v_storage_key (document_versions s) \<and>
     unique_by (\<lambda>r. (i_organization_id r, i_document_version_id r)) (ingestion_intents s) \<and>
     unique_by i_task_id (ingestion_intents s) \<and>
     unique_by (\<lambda>r. (op_organization_id r, op_ticket_id r, op_input_fingerprint r,
        op_config_digest r)) (classification_operations s)"

definition rows_ok :: "db \<Rightarrow> bool" where
  "rows_ok s \<longleftrightarrow>
     list_all organization_ok (organizations s) \<and> list_all user_ok (users s) \<and>
     list_all (member_ok s) (organization_members s) \<and>
     list_all (customer_ok s) (customers s) \<and> list_all (ticket_ok s) (tickets s) \<and>
     list_all (message_ok s) (ticket_messages s) \<and> list_all (document_ok s) (documents s) \<and>
     list_all (version_ok s) (document_versions s) \<and>
     list_all (intent_ok s) (ingestion_intents s) \<and> list_all (audit_ok s) (audit_events s) \<and>
     list_all (operation_ok s) (classification_operations s)"

definition text_ok :: "ustr \<Rightarrow> bool" where
  "text_ok t \<longleftrightarrow> 0 \<notin> set t"

definition utext :: "nat \<Rightarrow> ustr \<Rightarrow> bool" where
  "utext n t \<longleftrightarrow> length t \<le> n \<and> text_ok t"

definition vchar :: "nat \<Rightarrow> string \<Rightarrow> bool" where
  "vchar n t \<longleftrightarrow> length t \<le> n \<and> CHR 0x00 \<notin> set t"

definition on_some :: "('a \<Rightarrow> bool) \<Rightarrow> 'a option \<Rightarrow> bool" where
  "on_some p x \<longleftrightarrow> (case x of None \<Rightarrow> True | Some y \<Rightarrow> p y)"

lemma on_some_simps [simp]: "on_some p None" "on_some p (Some y) = p y"
  by (simp_all add: on_some_def)

definition version_types :: "document_version \<Rightarrow> bool" where
  "version_types r \<longleftrightarrow> vchar 64 (v_content_sha256 r) \<and> vchar 500 (v_storage_key r) \<and>
     on_some text_ok (v_extracted_text r) \<and> on_some (vchar 255) (v_processing_task_id r) \<and>
     on_some (vchar 100) (v_error_code r)"

definition intent_types :: "ingestion_intent \<Rightarrow> bool" where
  "intent_types r \<longleftrightarrow> vchar 255 (i_task_id r) \<and> on_some (vchar 32) (i_last_error r)"

definition document_types :: "document \<Rightarrow> bool" where
  "document_types r \<longleftrightarrow> on_some (vchar 255) (d_external_id r) \<and> utext 200 (d_display_filename r)"

definition audit_types :: "audit_event \<Rightarrow> bool" where
  "audit_types r \<longleftrightarrow> vchar 100 (a_action r) \<and> vchar 100 (a_resource_type r)"

definition ticket_types :: "ticket \<Rightarrow> bool" where
  "ticket_types r \<longleftrightarrow> on_some (vchar 255) (t_external_id r) \<and> utext 300 (t_subject r)"

definition message_types :: "ticket_message \<Rightarrow> bool" where
  "message_types r \<longleftrightarrow> text_ok (tm_body r)"

definition operation_types :: "classification_operation \<Rightarrow> bool" where
  "operation_types r \<longleftrightarrow> vchar 64 (op_input_fingerprint r) \<and> vchar 64 (op_config_digest r) \<and>
     vchar 100 (op_configuration_version r) \<and> vchar 100 (op_input_policy_version r) \<and>
     vchar 100 (op_taxonomy_version r) \<and> vchar 100 (op_schema_version r) \<and>
     vchar 100 (op_prompt_version r) \<and> vchar 100 (op_adapter_version r) \<and>
     vchar 100 (op_provider r) \<and> vchar 100 (op_model r) \<and> vchar 10 (op_mode r) \<and>
     vchar 20 (op_state r) \<and> on_some (vchar 30) (op_outcome r) \<and>
     on_some (vchar 30) (op_category r) \<and> on_some (vchar 60) (op_error_code r)"

definition types_ok :: "db \<Rightarrow> bool" where
  \<comment> \<open>lengths and characters of text; the range of \<open>Integer\<close> columns is not represented\<close>
  "types_ok s \<longleftrightarrow>
     list_all (\<lambda>r. utext 200 (o_name r) \<and> vchar 100 (o_slug r)) (organizations s) \<and>
     list_all (\<lambda>r. vchar 320 (u_email r) \<and> vchar 512 (u_password_hash r)) (users s) \<and>
     list_all (\<lambda>r. utext 200 (c_name r) \<and> on_some (vchar 320) (c_email r) \<and>
        on_some (vchar 255) (c_external_id r)) (customers s) \<and>
     list_all ticket_types (tickets s) \<and> list_all message_types (ticket_messages s) \<and>
     list_all document_types (documents s) \<and> list_all version_types (document_versions s) \<and>
     list_all intent_types (ingestion_intents s) \<and> list_all audit_types (audit_events s) \<and>
     list_all operation_types (classification_operations s)"

definition constraints_ok :: "db \<Rightarrow> bool" where
  "constraints_ok s \<longleftrightarrow> primary_keys_ok s \<and> unique_keys_ok s \<and> rows_ok s"

definition db_ok :: "db \<Rightarrow> bool" where
  "db_ok s \<longleftrightarrow> types_ok s \<and> constraints_ok s"

datatype db_error = IntegrityError | DataError

definition commit :: "db \<Rightarrow> db_error + db" where
  "commit s = (if \<not> types_ok s then Inl DataError
     else if \<not> constraints_ok s then Inl IntegrityError else Inr s)"

subsection \<open>What the constraints give\<close>

lemma commit_Inr_iff [simp]: "commit s = Inr t \<longleftrightarrow> db_ok s \<and> t = s"
  by (auto simp: commit_def db_ok_def)

lemma commit_InlD: "commit s = Inl e \<Longrightarrow> \<not> db_ok s"
  by (auto simp: commit_def db_ok_def split: if_splits)

lemmas db_ok_defs = db_ok_def types_ok_def constraints_ok_def primary_keys_ok_def
  unique_keys_ok_def rows_ok_def unique_by_def

lemma empty_db_ok: "db_ok empty_db"
  by (simp add: db_ok_defs empty_db_def unique_opt_def)

lemma db_ok_version_ids: "db_ok s \<Longrightarrow> distinct (map v_id (document_versions s))"
  by (simp add: db_ok_defs)

lemma db_ok_intent_ids: "db_ok s \<Longrightarrow> distinct (map i_id (ingestion_intents s))"
  by (simp add: db_ok_defs)

lemma db_ok_document_ids: "db_ok s \<Longrightarrow> distinct (map d_id (documents s))"
  by (simp add: db_ok_defs)

lemma db_ok_ticket_ids: "db_ok s \<Longrightarrow> distinct (map t_id (tickets s))"
  by (simp add: db_ok_defs)

lemma db_ok_intent_versions: "db_ok s \<Longrightarrow>
    distinct (map (\<lambda>r. (i_organization_id r, i_document_version_id r)) (ingestion_intents s))"
  by (simp add: db_ok_defs)

lemma db_ok_intent: "db_ok s \<Longrightarrow> i \<in> set (ingestion_intents s) \<Longrightarrow> intent_ok s i"
  by (auto simp: db_ok_defs list_all_iff)

lemma db_ok_version: "db_ok s \<Longrightarrow> v \<in> set (document_versions s) \<Longrightarrow> version_ok s v"
  by (auto simp: db_ok_defs list_all_iff)

subsection \<open>Frame rules: a constraint does not depend on the tables it does not read\<close>

lemma has_org_frame [simp]:
  "has_org (s\<lparr>audit_events := x_aud\<rparr>) = has_org s"
  "has_org (s\<lparr>ingestion_intents := x_ing\<rparr>) = has_org s"
  "has_org (s\<lparr>document_versions := x_doc\<rparr>) = has_org s"
  "has_org (s\<lparr>documents := x_dcs\<rparr>) = has_org s"
  "has_org (s\<lparr>ticket_messages := x_tms\<rparr>) = has_org s"
  "has_org (s\<lparr>tickets := x_tic\<rparr>) = has_org s"
  "has_org (s\<lparr>classification_operations := x_cla\<rparr>) = has_org s"
  "has_org (s\<lparr>organization_members := x_oms\<rparr>) = has_org s"
  "has_org (s\<lparr>users := x_use\<rparr>) = has_org s"
  by (simp_all add: fun_eq_iff has_org_def)

lemma has_member_frame [simp]:
  "has_member (s\<lparr>audit_events := x_aud\<rparr>) = has_member s"
  "has_member (s\<lparr>ingestion_intents := x_ing\<rparr>) = has_member s"
  "has_member (s\<lparr>document_versions := x_doc\<rparr>) = has_member s"
  "has_member (s\<lparr>documents := x_dcs\<rparr>) = has_member s"
  "has_member (s\<lparr>ticket_messages := x_tms\<rparr>) = has_member s"
  "has_member (s\<lparr>tickets := x_tic\<rparr>) = has_member s"
  "has_member (s\<lparr>classification_operations := x_cla\<rparr>) = has_member s"
  "has_member (s\<lparr>users := x_use\<rparr>) = has_member s"
  "has_member (s\<lparr>organizations := x_org\<rparr>) = has_member s"
  by (simp_all add: fun_eq_iff has_member_def)

lemma has_customer_frame [simp]:
  "has_customer (s\<lparr>audit_events := x_aud\<rparr>) = has_customer s"
  "has_customer (s\<lparr>ingestion_intents := x_ing\<rparr>) = has_customer s"
  "has_customer (s\<lparr>document_versions := x_doc\<rparr>) = has_customer s"
  "has_customer (s\<lparr>documents := x_dcs\<rparr>) = has_customer s"
  "has_customer (s\<lparr>ticket_messages := x_tms\<rparr>) = has_customer s"
  "has_customer (s\<lparr>tickets := x_tic\<rparr>) = has_customer s"
  "has_customer (s\<lparr>classification_operations := x_cla\<rparr>) = has_customer s"
  "has_customer (s\<lparr>organization_members := x_oms\<rparr>) = has_customer s"
  "has_customer (s\<lparr>users := x_use\<rparr>) = has_customer s"
  "has_customer (s\<lparr>organizations := x_org\<rparr>) = has_customer s"
  by (simp_all add: fun_eq_iff has_customer_def)

lemma member_ok_frame [simp]:
  "member_ok (s\<lparr>audit_events := x_aud\<rparr>) = member_ok s"
  "member_ok (s\<lparr>ingestion_intents := x_ing\<rparr>) = member_ok s"
  "member_ok (s\<lparr>document_versions := x_doc\<rparr>) = member_ok s"
  "member_ok (s\<lparr>documents := x_dcs\<rparr>) = member_ok s"
  "member_ok (s\<lparr>ticket_messages := x_tms\<rparr>) = member_ok s"
  "member_ok (s\<lparr>tickets := x_tic\<rparr>) = member_ok s"
  "member_ok (s\<lparr>classification_operations := x_cla\<rparr>) = member_ok s"
  "member_ok (s\<lparr>organization_members := x_oms\<rparr>) = member_ok s"
  by (simp_all add: fun_eq_iff member_ok_def)

lemma customer_ok_frame [simp]:
  "customer_ok (s\<lparr>audit_events := x_aud\<rparr>) = customer_ok s"
  "customer_ok (s\<lparr>ingestion_intents := x_ing\<rparr>) = customer_ok s"
  "customer_ok (s\<lparr>document_versions := x_doc\<rparr>) = customer_ok s"
  "customer_ok (s\<lparr>documents := x_dcs\<rparr>) = customer_ok s"
  "customer_ok (s\<lparr>ticket_messages := x_tms\<rparr>) = customer_ok s"
  "customer_ok (s\<lparr>tickets := x_tic\<rparr>) = customer_ok s"
  "customer_ok (s\<lparr>classification_operations := x_cla\<rparr>) = customer_ok s"
  "customer_ok (s\<lparr>organization_members := x_oms\<rparr>) = customer_ok s"
  "customer_ok (s\<lparr>users := x_use\<rparr>) = customer_ok s"
  by (simp_all add: fun_eq_iff customer_ok_def)

lemma ticket_ok_frame [simp]:
  "ticket_ok (s\<lparr>audit_events := x_aud\<rparr>) = ticket_ok s"
  "ticket_ok (s\<lparr>ingestion_intents := x_ing\<rparr>) = ticket_ok s"
  "ticket_ok (s\<lparr>document_versions := x_doc\<rparr>) = ticket_ok s"
  "ticket_ok (s\<lparr>documents := x_dcs\<rparr>) = ticket_ok s"
  "ticket_ok (s\<lparr>ticket_messages := x_tms\<rparr>) = ticket_ok s"
  "ticket_ok (s\<lparr>tickets := x_tic\<rparr>) = ticket_ok s"
  "ticket_ok (s\<lparr>classification_operations := x_cla\<rparr>) = ticket_ok s"
  "ticket_ok (s\<lparr>organization_members := x_oms\<rparr>) = ticket_ok s"
  "ticket_ok (s\<lparr>users := x_use\<rparr>) = ticket_ok s"
  by (simp_all add: fun_eq_iff ticket_ok_def split: option.split)

lemma message_ok_frame [simp]:
  "message_ok (s\<lparr>audit_events := x_aud\<rparr>) = message_ok s"
  "message_ok (s\<lparr>ingestion_intents := x_ing\<rparr>) = message_ok s"
  "message_ok (s\<lparr>document_versions := x_doc\<rparr>) = message_ok s"
  "message_ok (s\<lparr>documents := x_dcs\<rparr>) = message_ok s"
  "message_ok (s\<lparr>ticket_messages := x_tms\<rparr>) = message_ok s"
  "message_ok (s\<lparr>classification_operations := x_cla\<rparr>) = message_ok s"
  "message_ok (s\<lparr>users := x_use\<rparr>) = message_ok s"
  by (simp_all add: fun_eq_iff message_ok_def split: option.split)

lemma document_ok_frame [simp]:
  "document_ok (s\<lparr>audit_events := x_aud\<rparr>) = document_ok s"
  "document_ok (s\<lparr>ingestion_intents := x_ing\<rparr>) = document_ok s"
  "document_ok (s\<lparr>document_versions := x_doc\<rparr>) = document_ok s"
  "document_ok (s\<lparr>documents := x_dcs\<rparr>) = document_ok s"
  "document_ok (s\<lparr>ticket_messages := x_tms\<rparr>) = document_ok s"
  "document_ok (s\<lparr>tickets := x_tic\<rparr>) = document_ok s"
  "document_ok (s\<lparr>classification_operations := x_cla\<rparr>) = document_ok s"
  "document_ok (s\<lparr>users := x_use\<rparr>) = document_ok s"
  by (simp_all add: fun_eq_iff document_ok_def)

lemma version_ok_frame [simp]:
  "version_ok (s\<lparr>audit_events := x_aud\<rparr>) = version_ok s"
  "version_ok (s\<lparr>ingestion_intents := x_ing\<rparr>) = version_ok s"
  "version_ok (s\<lparr>document_versions := x_doc\<rparr>) = version_ok s"
  "version_ok (s\<lparr>ticket_messages := x_tms\<rparr>) = version_ok s"
  "version_ok (s\<lparr>tickets := x_tic\<rparr>) = version_ok s"
  "version_ok (s\<lparr>classification_operations := x_cla\<rparr>) = version_ok s"
  "version_ok (s\<lparr>organization_members := x_oms\<rparr>) = version_ok s"
  "version_ok (s\<lparr>users := x_use\<rparr>) = version_ok s"
  by (simp_all add: fun_eq_iff version_ok_def)

lemma intent_ok_frame [simp]:
  "intent_ok (s\<lparr>audit_events := x_aud\<rparr>) = intent_ok s"
  "intent_ok (s\<lparr>ingestion_intents := x_ing\<rparr>) = intent_ok s"
  "intent_ok (s\<lparr>documents := x_dcs\<rparr>) = intent_ok s"
  "intent_ok (s\<lparr>ticket_messages := x_tms\<rparr>) = intent_ok s"
  "intent_ok (s\<lparr>tickets := x_tic\<rparr>) = intent_ok s"
  "intent_ok (s\<lparr>classification_operations := x_cla\<rparr>) = intent_ok s"
  "intent_ok (s\<lparr>organization_members := x_oms\<rparr>) = intent_ok s"
  "intent_ok (s\<lparr>users := x_use\<rparr>) = intent_ok s"
  "intent_ok (s\<lparr>organizations := x_org\<rparr>) = intent_ok s"
  by (simp_all add: fun_eq_iff intent_ok_def)

lemma audit_ok_frame [simp]:
  "audit_ok (s\<lparr>audit_events := x_aud\<rparr>) = audit_ok s"
  "audit_ok (s\<lparr>ingestion_intents := x_ing\<rparr>) = audit_ok s"
  "audit_ok (s\<lparr>document_versions := x_doc\<rparr>) = audit_ok s"
  "audit_ok (s\<lparr>documents := x_dcs\<rparr>) = audit_ok s"
  "audit_ok (s\<lparr>ticket_messages := x_tms\<rparr>) = audit_ok s"
  "audit_ok (s\<lparr>tickets := x_tic\<rparr>) = audit_ok s"
  "audit_ok (s\<lparr>classification_operations := x_cla\<rparr>) = audit_ok s"
  "audit_ok (s\<lparr>users := x_use\<rparr>) = audit_ok s"
  by (simp_all add: fun_eq_iff audit_ok_def split: option.split)

lemma operation_ok_frame [simp]:
  "operation_ok (s\<lparr>audit_events := x_aud\<rparr>) = operation_ok s"
  "operation_ok (s\<lparr>ingestion_intents := x_ing\<rparr>) = operation_ok s"
  "operation_ok (s\<lparr>document_versions := x_doc\<rparr>) = operation_ok s"
  "operation_ok (s\<lparr>documents := x_dcs\<rparr>) = operation_ok s"
  "operation_ok (s\<lparr>ticket_messages := x_tms\<rparr>) = operation_ok s"
  "operation_ok (s\<lparr>classification_operations := x_cla\<rparr>) = operation_ok s"
  "operation_ok (s\<lparr>users := x_use\<rparr>) = operation_ok s"
  "operation_ok (s\<lparr>organizations := x_org\<rparr>) = operation_ok s"
  by (simp_all add: fun_eq_iff operation_ok_def)

lemma db_ok_audit_append:
  assumes "db_ok s" and "audit_ok s e" and "audit_types e" and "a_id e \<notin> a_id ` set (audit_events s)"
  shows "db_ok (s\<lparr>audit_events := audit_events s @ [e]\<rparr>)"
  using assms by (simp add: db_ok_defs)

subsection \<open>A small database for concrete runs\<close>

definition sample_db :: db where
  \<comment> \<open>organization 1 with administrator 10 and agent 11, organization 2 with administrator 20\<close>
  "sample_db = empty_db\<lparr>
     organizations := [\<lparr>o_id = 1, o_name = u ''Acme'', o_slug = ''acme'', o_status = ORG_ACTIVE\<rparr>,
       \<lparr>o_id = 2, o_name = u ''Beta'', o_slug = ''beta'', o_status = ORG_ACTIVE\<rparr>],
     users := [\<lparr>u_id = 10, u_email = ''ann@acme.test'', u_password_hash = ''h1'', u_status = USER_ACTIVE\<rparr>,
       \<lparr>u_id = 11, u_email = ''bob@acme.test'', u_password_hash = ''h2'', u_status = USER_ACTIVE\<rparr>,
       \<lparr>u_id = 20, u_email = ''cas@beta.test'', u_password_hash = ''h3'', u_status = USER_ACTIVE\<rparr>],
     organization_members := [
       \<lparr>m_organization_id = 1, m_user_id = 10, m_role = ADMIN, m_status = MEMBER_ACTIVE, m_created_at = 0\<rparr>,
       \<lparr>m_organization_id = 1, m_user_id = 11, m_role = AGENT, m_status = MEMBER_ACTIVE, m_created_at = 0\<rparr>,
       \<lparr>m_organization_id = 2, m_user_id = 20, m_role = ADMIN, m_status = MEMBER_ACTIVE, m_created_at = 0\<rparr>],
     customers := [\<lparr>c_id = 30, c_organization_id = 1, c_name = u ''Dee'', c_email = None,
       c_external_id = None\<rparr>]\<rparr>"

lemma sample_db_ok: "db_ok sample_db"
  by (simp add: db_ok_defs unique_opt_def sample_db_def empty_db_def organization_ok_def user_ok_def
      member_ok_def customer_ok_def has_org_def pg_trim_def strip_by_def u_def lower_s_def
      lower_char_def utext_def text_ok_def vchar_def)

lemma sample_members [simp]: "has_member sample_db 1 10" "has_member sample_db 1 11"
    "has_member sample_db 2 20" "has_org sample_db 1" "has_org sample_db 2"
  by (simp_all add: has_member_def has_org_def sample_db_def)

lemma sample_tables [simp]: "tickets sample_db = []" "ticket_messages sample_db = []"
    "documents sample_db = []" "document_versions sample_db = []" "ingestion_intents sample_db = []"
    "audit_events sample_db = []" "classification_operations sample_db = []"
  by (simp_all add: sample_db_def empty_db_def)

end
