(* ===== verification/SF_Audit.thy ===== *)
theory SF_Audit
  imports SF_Models "HOL-Library.Multiset"
begin

text \<open>
  \<open>app/audit\<close>: the action and resource names, \<open>AuditEventService\<close> with its per-action allowlists
  (\<open>app/audit/service.py\<close>), the append-only \<open>AuditEventRepository\<close> and the listing endpoint of
  \<open>app/api/audit_events.py\<close>. A recording operation takes the transaction's clock and the fresh
  row identifier (\<open>uuid4\<close> as the column default) and appends to the pending state; the caller
  commits. \<open>as_str\<close> stands for how the response model validates a metadata value as \<open>str\<close>.
\<close>

datatype audit_action =
    ORGANIZATION_MEMBER_CREATED | TICKET_CREATED | TICKET_MESSAGE_CREATED | TICKET_STATUS_CHANGED
  | DOCUMENT_UPLOADED | DOCUMENT_READY | DOCUMENT_FAILED | DOCUMENT_DISPATCH_REARMED
  | CLASSIFICATION_FINISHED

datatype audit_resource_type =
    ORGANIZATION_MEMBER | TICKET | TICKET_MESSAGE | DOCUMENT | DOCUMENT_VERSION
  | CLASSIFICATION_OPERATION

fun audit_action_value :: "audit_action \<Rightarrow> string" where
  "audit_action_value ORGANIZATION_MEMBER_CREATED = ''organization_member.created''"
| "audit_action_value TICKET_CREATED = ''ticket.created''"
| "audit_action_value TICKET_MESSAGE_CREATED = ''ticket_message.created''"
| "audit_action_value TICKET_STATUS_CHANGED = ''ticket.status_changed''"
| "audit_action_value DOCUMENT_UPLOADED = ''document.uploaded''"
| "audit_action_value DOCUMENT_READY = ''document.ready''"
| "audit_action_value DOCUMENT_FAILED = ''document.failed''"
| "audit_action_value DOCUMENT_DISPATCH_REARMED = ''document.dispatch_rearmed''"
| "audit_action_value CLASSIFICATION_FINISHED = ''classification.finished''"

fun audit_resource_value :: "audit_resource_type \<Rightarrow> string" where
  "audit_resource_value ORGANIZATION_MEMBER = ''organization_member''"
| "audit_resource_value TICKET = ''ticket''"
| "audit_resource_value TICKET_MESSAGE = ''ticket_message''"
| "audit_resource_value DOCUMENT = ''document''"
| "audit_resource_value DOCUMENT_VERSION = ''document_version''"
| "audit_resource_value CLASSIFICATION_OPERATION = ''classification_operation''"

definition TICKET_STATUSES :: "string list" where
  "TICKET_STATUSES = map ticket_status_value [OPEN, PROCESSING, WAITING_FOR_AGENT, RESOLVED, CLOSED]"

definition TICKET_SOURCE_TYPES :: "string list" where
  "TICKET_SOURCE_TYPES = map ticket_source_value [MANUAL, API]"

definition MEMBERSHIP_ROLES :: "string list" where
  "MEMBERSHIP_ROLES = map membership_role_value [ADMIN, AGENT]"

definition DOCUMENT_MEDIA_TYPES :: "string list" where
  "DOCUMENT_MEDIA_TYPES = map media_type_value [PDF, TEXT, MARKDOWN]"

definition DOCUMENT_ERROR_CODES :: "string list" where
  "DOCUMENT_ERROR_CODES = map error_code_value
     [DISPATCH_FAILED, STORAGE_UNAVAILABLE, SCANNER_UNAVAILABLE, MALWARE_DETECTED,
      UNSUPPORTED_DOCUMENT, EXTRACTION_FAILED, EXTRACTION_LIMIT_EXCEEDED, RETRY_EXHAUSTED,
      DATABASE_UNAVAILABLE]"

datatype audit_error = AuditMetadataError | AuditOrganizationMismatch

definition repository_add :: "uuid \<Rightarrow> audit_event \<Rightarrow> db \<Rightarrow> audit_error + db" where
  "repository_add org e s =
     (if a_organization_id e \<noteq> org then Inl AuditOrganizationMismatch
      else Inr (s\<lparr>audit_events := audit_events s @ [e]\<rparr>))"

definition record_event :: "instant \<Rightarrow> uuid \<Rightarrow> uuid \<Rightarrow> audit_action \<Rightarrow> uuid option \<Rightarrow>
    audit_resource_type \<Rightarrow> uuid option \<Rightarrow> (string \<times> meta_value) list \<Rightarrow> db \<Rightarrow> audit_error + db" where
  "record_event now eid org action actor resource_type resource_id metadata s =
     repository_add org
       \<lparr>a_id = eid, a_organization_id = org, a_actor_user_id = actor,
        a_action = audit_action_value action, a_resource_type = audit_resource_value resource_type,
        a_resource_id = resource_id, a_metadata = metadata, a_created_at = now\<rparr> s"

definition record_organization_member_created ::
    "instant \<Rightarrow> uuid \<Rightarrow> uuid \<Rightarrow> uuid \<Rightarrow> uuid \<Rightarrow> string \<Rightarrow> db \<Rightarrow> audit_error + db" where
  "record_organization_member_created now eid org actor member role s =
     (if role \<notin> set MEMBERSHIP_ROLES then Inl AuditMetadataError
      else record_event now eid org ORGANIZATION_MEMBER_CREATED (Some actor) ORGANIZATION_MEMBER
             (Some member) [(''role'', MStr role)] s)"

definition record_ticket_created ::
    "instant \<Rightarrow> uuid \<Rightarrow> uuid \<Rightarrow> uuid \<Rightarrow> uuid \<Rightarrow> string \<Rightarrow> db \<Rightarrow> audit_error + db" where
  "record_ticket_created now eid org actor ticket source s =
     (if source \<notin> set TICKET_SOURCE_TYPES then Inl AuditMetadataError
      else record_event now eid org TICKET_CREATED (Some actor) TICKET (Some ticket)
             [(''source_type'', MStr source)] s)"

definition record_ticket_message_created ::
    "instant \<Rightarrow> uuid \<Rightarrow> uuid \<Rightarrow> uuid option \<Rightarrow> uuid \<Rightarrow> db \<Rightarrow> audit_error + db" where
  "record_ticket_message_created now eid org actor message s =
     record_event now eid org TICKET_MESSAGE_CREATED actor TICKET_MESSAGE (Some message) [] s"

definition record_ticket_status_changed ::
    "instant \<Rightarrow> uuid \<Rightarrow> uuid \<Rightarrow> uuid \<Rightarrow> uuid \<Rightarrow> string \<Rightarrow> string \<Rightarrow> db \<Rightarrow> audit_error + db" where
  "record_ticket_status_changed now eid org actor ticket previous new s =
     (if previous \<notin> set TICKET_STATUSES \<or> new \<notin> set TICKET_STATUSES then Inl AuditMetadataError
      else record_event now eid org TICKET_STATUS_CHANGED (Some actor) TICKET (Some ticket)
             [(''previous_status'', MStr previous), (''new_status'', MStr new)] s)"

definition record_document_uploaded ::
    "instant \<Rightarrow> uuid \<Rightarrow> uuid \<Rightarrow> uuid \<Rightarrow> uuid \<Rightarrow> int \<Rightarrow> string \<Rightarrow> int \<Rightarrow> db \<Rightarrow> audit_error + db" where
  "record_document_uploaded now eid org actor document version_number media_type size_bytes s =
     (if media_type \<notin> set DOCUMENT_MEDIA_TYPES \<or> version_number < 1 \<or> size_bytes < 1
      then Inl AuditMetadataError
      else record_event now eid org DOCUMENT_UPLOADED (Some actor) DOCUMENT (Some document)
             [(''version_number'', MInt version_number), (''media_type'', MStr media_type),
              (''size_bytes'', MInt size_bytes)] s)"

definition record_document_ready ::
    "instant \<Rightarrow> uuid \<Rightarrow> uuid \<Rightarrow> uuid \<Rightarrow> int \<Rightarrow> int \<Rightarrow> int \<Rightarrow> db \<Rightarrow> audit_error + db" where
  "record_document_ready now eid org version version_number attempt_count chars s =
     (if version_number < 1 \<or> attempt_count < 1 \<or> chars < 0 then Inl AuditMetadataError
      else record_event now eid org DOCUMENT_READY None DOCUMENT_VERSION (Some version)
             [(''version_number'', MInt version_number), (''attempt_count'', MInt attempt_count),
              (''extracted_character_count'', MInt chars)] s)"

definition record_document_failed ::
    "instant \<Rightarrow> uuid \<Rightarrow> uuid \<Rightarrow> uuid \<Rightarrow> int \<Rightarrow> string \<Rightarrow> int \<Rightarrow> db \<Rightarrow> audit_error + db" where
  "record_document_failed now eid org version version_number error_code attempt_count s =
     (if error_code \<notin> set DOCUMENT_ERROR_CODES \<or> version_number < 1 \<or> attempt_count < 0
      then Inl AuditMetadataError
      else record_event now eid org DOCUMENT_FAILED None DOCUMENT_VERSION (Some version)
             [(''version_number'', MInt version_number), (''error_code'', MStr error_code),
              (''attempt_count'', MInt attempt_count)] s)"

definition record_document_dispatch_rearmed ::
    "instant \<Rightarrow> uuid \<Rightarrow> uuid \<Rightarrow> uuid \<Rightarrow> uuid \<Rightarrow> int \<Rightarrow> db \<Rightarrow> audit_error + db" where
  "record_document_dispatch_rearmed now eid org actor version grant_number s =
     (if \<not> (1 \<le> grant_number \<and> grant_number \<le> 3) then Inl AuditMetadataError
      else record_event now eid org DOCUMENT_DISPATCH_REARMED (Some actor) DOCUMENT_VERSION
             (Some version)
             [(''reason'', MStr ''dependency_repaired''), (''grant_number'', MInt grant_number)] s)"

definition record_classification_finished ::
    "instant \<Rightarrow> uuid \<Rightarrow> uuid \<Rightarrow> uuid \<Rightarrow> uuid \<Rightarrow> string \<Rightarrow> db \<Rightarrow> audit_error + db" where
  "record_classification_finished now eid org actor operation state s =
     (if state \<notin> {''succeeded'', ''failed'', ''stale'', ''unknown''} then Inl AuditMetadataError
      else record_event now eid org CLASSIFICATION_FINISHED (Some actor) CLASSIFICATION_OPERATION
             (Some operation) [(''mode'', MStr ''fake''), (''state'', MStr state)] s)"

subsection \<open>Listing\<close>

definition visible_events :: "db \<Rightarrow> uuid \<Rightarrow> audit_event list" where
  "visible_events s org = order_by_desc (\<lambda>e. (a_created_at e, a_id e))
     (filter (\<lambda>e. a_organization_id e = org) (audit_events s))"

definition list_events :: "db \<Rightarrow> uuid \<Rightarrow> nat \<Rightarrow> nat \<Rightarrow> audit_event list \<times> nat" where
  "list_events s org limit offset =
     (limit_offset limit offset (order_by_desc (\<lambda>e. (a_created_at e, a_id e))
        (filter (\<lambda>e. a_organization_id e = org) (audit_events s))),
      length (filter (\<lambda>e. a_organization_id e = org) (audit_events s)))"

definition action_of_value :: "string \<Rightarrow> audit_action option" where
  "action_of_value w = find (\<lambda>a. audit_action_value a = w)
     [ORGANIZATION_MEMBER_CREATED, TICKET_CREATED, TICKET_MESSAGE_CREATED, TICKET_STATUS_CHANGED,
      DOCUMENT_UPLOADED, DOCUMENT_READY, DOCUMENT_FAILED, DOCUMENT_DISPATCH_REARMED,
      CLASSIFICATION_FINISHED]"

definition resource_of_value :: "string \<Rightarrow> audit_resource_type option" where
  "resource_of_value w = find (\<lambda>a. audit_resource_value a = w)
     [ORGANIZATION_MEMBER, TICKET, TICKET_MESSAGE, DOCUMENT, DOCUMENT_VERSION,
      CLASSIFICATION_OPERATION]"

record audit_event_view =
  ae_id :: uuid
  ae_actor_user_id :: "uuid option"
  ae_action :: audit_action
  ae_resource_type :: audit_resource_type
  ae_resource_id :: "uuid option"
  ae_metadata :: "(string \<times> string) list"
  ae_created_at :: instant

datatype response_error = EnumValueError | ResponseValidationError

fun metadata_as_str :: "(meta_value \<Rightarrow> string option) \<Rightarrow> (string \<times> meta_value) list \<Rightarrow>
    (string \<times> string) list option" where
  "metadata_as_str as_str [] = Some []"
| "metadata_as_str as_str ((k, v) # rest) =
     (case as_str v of None \<Rightarrow> None
      | Some w \<Rightarrow> map_option (Cons (k, w)) (metadata_as_str as_str rest))"

definition audit_event_response ::
    "(meta_value \<Rightarrow> string option) \<Rightarrow> audit_event \<Rightarrow> response_error + audit_event_view" where
  "audit_event_response as_str e =
     (case action_of_value (a_action e) of None \<Rightarrow> Inl EnumValueError
      | Some act \<Rightarrow>
     (case resource_of_value (a_resource_type e) of None \<Rightarrow> Inl EnumValueError
      | Some rt \<Rightarrow>
     (case metadata_as_str as_str (a_metadata e) of None \<Rightarrow> Inl ResponseValidationError
      | Some md \<Rightarrow> Inr \<lparr>ae_id = a_id e, ae_actor_user_id = a_actor_user_id e, ae_action = act,
           ae_resource_type = rt, ae_resource_id = a_resource_id e, ae_metadata = md,
           ae_created_at = a_created_at e\<rparr>)))"

fun all_responses :: "(meta_value \<Rightarrow> string option) \<Rightarrow> audit_event list \<Rightarrow>
    response_error + audit_event_view list" where
  "all_responses as_str [] = Inr []"
| "all_responses as_str (e # es) =
     bindE (audit_event_response as_str e) (\<lambda>r.
     bindE (all_responses as_str es) (\<lambda>rs. Inr (r # rs)))"

definition list_audit_events :: "(meta_value \<Rightarrow> string option) \<Rightarrow> uuid \<Rightarrow> nat \<Rightarrow> nat \<Rightarrow> db \<Rightarrow>
    response_error + audit_event_view list \<times> nat \<times> nat \<times> nat" where
  "list_audit_events as_str org limit offset s =
     (let (items, total) = list_events s org limit offset in
      bindE (all_responses as_str items) (\<lambda>rs. Inr (rs, limit, offset, total)))"

lemmas record_defs = record_organization_member_created_def record_ticket_created_def
  record_ticket_message_created_def record_ticket_status_changed_def record_document_uploaded_def
  record_document_ready_def record_document_failed_def record_document_dispatch_rearmed_def
  record_classification_finished_def

subsection \<open>Recording\<close>

lemma record_event_Inr:
  "record_event now eid org act actor rt rid md s = Inr (s\<lparr>audit_events := audit_events s @
     [\<lparr>a_id = eid, a_organization_id = org, a_actor_user_id = actor,
       a_action = audit_action_value act, a_resource_type = audit_resource_value rt,
       a_resource_id = rid, a_metadata = md, a_created_at = now\<rparr>]\<rparr>)"
  by (simp add: record_event_def repository_add_def)

lemma action_names_ok:
  "audit_action_value act = lower_s (audit_action_value act)"
  "dotted_action (audit_action_value act)" "vchar 100 (audit_action_value act)"
  by (cases act; simp add: lower_s_def lower_char_def dotted_action_def ident_part_def vchar_def)+

lemma resource_names_ok:
  "audit_resource_value rt = lower_s (audit_resource_value rt)"
  "ident_part (audit_resource_value rt)" "vchar 100 (audit_resource_value rt)"
  by (cases rt; simp add: lower_s_def lower_char_def ident_part_def vchar_def)+

lemma action_of_value_value [simp]: "action_of_value (audit_action_value act) = Some act"
  by (cases act) (simp_all add: action_of_value_def)

lemma resource_of_value_value [simp]: "resource_of_value (audit_resource_value rt) = Some rt"
  by (cases rt) (simp_all add: resource_of_value_def)

lemma record_event_db_ok:
  assumes "db_ok s" and "has_org s org" and "eid \<notin> a_id ` set (audit_events s)"
    and "\<And>x. actor = Some x \<Longrightarrow> has_member s org x"
    and "record_event now eid org act actor rt rid md s = Inr s'"
  shows "db_ok s'"
proof -
  let ?e = "\<lparr>a_id = eid, a_organization_id = org, a_actor_user_id = actor,
       a_action = audit_action_value act, a_resource_type = audit_resource_value rt,
       a_resource_id = rid, a_metadata = md, a_created_at = now\<rparr>"
  have s': "s' = s\<lparr>audit_events := audit_events s @ [?e]\<rparr>"
    using assms(5) by (simp add: record_event_Inr)
  have "audit_ok s ?e"
    using assms(2,4) by (auto simp: audit_ok_def action_names_ok(2) resource_names_ok(2)
        simp flip: action_names_ok(1) resource_names_ok(1) split: option.split)
  with assms(1,3) show ?thesis
    by (simp add: s' db_ok_audit_append audit_types_def action_names_ok(3) resource_names_ok(3))
qed

interpretation audit_pages: paged_listing list_events visible_events
  by unfold_locales (simp_all add: list_events_def visible_events_def limit_offset_def
      order_by_desc_def)

lemma visible_events_org: "e \<in> set (visible_events s org) \<longleftrightarrow> e \<in> set (audit_events s) \<and> a_organization_id e = org"
  by (auto simp: visible_events_def order_by_desc_def)

text \<open>
  The audit listing is complete and isolated: walking the pages of any size yields every event
  of the organization exactly as often as it was recorded, newest first, and no event of another
  organization.
\<close>

lemma audit_pages_complete:
  assumes "snd (list_events s org limit 0) \<le> n * limit"
  shows "concat (map (\<lambda>k. fst (list_events s org limit (k * limit))) [0..<n]) = visible_events s org \<and>
    mset (visible_events s org) = mset (filter (\<lambda>e. a_organization_id e = org) (audit_events s)) \<and>
    sorted (map (\<lambda>e. (a_created_at e, a_id e)) (rev (visible_events s org))) \<and>
    (\<forall>e \<in> set (visible_events s org). a_organization_id e = org)"
proof -
  have "sorted (map (\<lambda>e. (a_created_at e, a_id e)) (rev (visible_events s org)))"
    unfolding visible_events_def order_by_desc_def rev_rev_ident by (rule sorted_sort_key)
  then show ?thesis using audit_pages.pages_cover [OF assms] visible_events_org
    by (auto simp: visible_events_def order_by_desc_def)
qed

text \<open>Two events of organization 1 around one of organization 2.\<close>

definition sample_events :: "audit_event list" where
  "sample_events = map (\<lambda>(i, org, t). \<lparr>a_id = i, a_organization_id = org, a_actor_user_id = None,
     a_action = ''ticket.created'', a_resource_type = ''ticket'', a_resource_id = None, a_metadata = [],
     a_created_at = t\<rparr>) [(1, 1, 5), (2, 2, 6), (3, 1, 7)]"

lemma audit_pages_complete_example:
  "concat (map (\<lambda>k. fst (list_events (sample_db\<lparr>audit_events := sample_events\<rparr>) 1 1 (k * 1))) [0..<2]) =
     visible_events (sample_db\<lparr>audit_events := sample_events\<rparr>) 1"
proof -
  have "snd (list_events (sample_db\<lparr>audit_events := sample_events\<rparr>) 1 1 0) \<le> 2 * 1"
    by (simp add: list_events_def sample_events_def)
  from audit_pages_complete [OF this] show ?thesis by blast
qed

lemma all_responses_Inl: "e \<in> set es \<Longrightarrow> audit_event_response as_str e = Inl err \<Longrightarrow>
    \<exists>err'. all_responses as_str es = Inl err'"
proof (induction es)
  case (Cons x xs)
  then show ?case by (cases "audit_event_response as_str x") auto
qed simp

lemma metadata_int_None: "as_str (MInt n) = None \<Longrightarrow> (k, MInt n) \<in> set md \<Longrightarrow> metadata_as_str as_str md = None"
  by (induction md) (auto split: option.split)

inductive document_recorded :: "uuid \<Rightarrow> uuid \<Rightarrow> db \<Rightarrow> db \<Rightarrow> bool" for eid org where
  Uploaded: "record_document_uploaded now eid org actor d vn media size_b s = Inr s' \<Longrightarrow> document_recorded eid org s s'"
| Ready: "record_document_ready now eid org v vn attempts chars s = Inr s' \<Longrightarrow> document_recorded eid org s s'"
| Failed: "record_document_failed now eid org v vn code attempts s = Inr s' \<Longrightarrow> document_recorded eid org s s'"
| Rearmed: "record_document_dispatch_rearmed now eid org actor v grant s = Inr s' \<Longrightarrow> document_recorded eid org s s'"

lemma recorded_event:
  assumes "record_event now eid org act actor rt rid md s = Inr s'"
  shows "\<exists>e. e \<in> set (audit_events s') \<and> a_id e = eid \<and> a_organization_id e = org \<and> a_metadata e = md"
proof -
  from assms have "last (audit_events s') \<in> set (audit_events s') \<and> a_id (last (audit_events s')) = eid \<and>
      a_organization_id (last (audit_events s')) = org \<and> a_metadata (last (audit_events s')) = md"
    by (auto simp: record_event_Inr)
  then show ?thesis by blast
qed

lemma document_event:
  assumes "document_recorded eid org s s'"
  shows "\<exists>e k n. e \<in> set (audit_events s') \<and> a_id e = eid \<and> a_organization_id e = org \<and> (k, MInt n) \<in> set (a_metadata e)"
proof -
  have new: ?thesis if r: "record_event now eid org act actor rt rid ((k, MInt n) # md) s = Inr s' \<or>
      record_event now eid org act actor rt rid [x, (k, MInt n)] s = Inr s'" for now act actor rt rid k n md x
  proof -
    from r obtain e where "e \<in> set (audit_events s')" "a_id e = eid" "a_organization_id e = org"
        "a_metadata e = (k, MInt n) # md \<or> a_metadata e = [x, (k, MInt n)]"
      using recorded_event by metis
    then show ?thesis by (intro exI [of _ e] exI [of _ k] exI [of _ n]) auto
  qed
  from assms show ?thesis
  proof cases
    case Uploaded
    then show ?thesis by (intro new) (auto simp: record_document_uploaded_def split: if_splits)
  next
    case Ready
    then show ?thesis by (intro new) (auto simp: record_document_ready_def split: if_splits)
  next
    case Failed
    then show ?thesis by (intro new) (auto simp: record_document_failed_def split: if_splits)
  next
    case Rearmed
    then show ?thesis by (intro new disjI2) (auto simp: record_document_dispatch_rearmed_def split: if_splits)
  qed
qed

lemma integer_event_fails:
  assumes "\<And>n. as_str (MInt n) = None" and "(k, MInt n) \<in> set (a_metadata e)" and "e \<in> set (fst (list_events s org limit offset))"
  shows "\<exists>err. list_audit_events as_str org limit offset s = Inl err"
proof -
  have "metadata_as_str as_str (a_metadata e) = None" by (rule metadata_int_None [of as_str n k, OF assms(1) assms(2)])
  then have "\<exists>err. audit_event_response as_str e = Inl err"
    by (auto simp: audit_event_response_def split: option.split)
  then obtain err where "all_responses as_str (fst (list_events s org limit offset)) = Inl err"
    using all_responses_Inl [OF assms(3)] by blast
  then show ?thesis by (auto simp: list_audit_events_def split: prod.split)
qed

lemma page_of_one:
  assumes "e \<in> set (visible_events s org)"
  shows "\<exists>offset. e \<in> set (fst (list_events s org 1 offset))"
proof -
  from assms obtain n where n: "n < length (visible_events s org)" "visible_events s org ! n = e"
    by (auto simp: in_set_conv_nth)
  then have "drop n (visible_events s org) = e # drop (Suc n) (visible_events s org)"
    using Cons_nth_drop_Suc [OF n(1)] by simp
  then show ?thesis
    by (intro exI [of _ n]) (simp add: list_events_def limit_offset_def flip: visible_events_def)
qed

text \<open>
  C39. The listing endpoint cannot show document events: the response model declares metadata values
  as \<open>str\<close>, the four document actions (uploaded, ready, failed, dispatch rearmed) record integers, and
  pydantic does not turn an integer into a string. At any time after one of them recorded its event, every
  page of the organization that contains the event fails, whatever its size and offset, and there are
  such pages; the event itself was recorded as intended.
\<close>

theorem document_events_break_listing:
  assumes "\<And>n. as_str (MInt n) = None" and "document_recorded eid org s s'"
    and "set (audit_events s') \<subseteq> set (audit_events s2)" and "db_ok s2"
  shows "(\<forall>limit offset. eid \<in> a_id ` set (fst (list_events s2 org limit offset)) \<longrightarrow>
      (\<exists>err. list_audit_events as_str org limit offset s2 = Inl err)) \<and>
    (\<exists>offset err. eid \<in> a_id ` set (fst (list_events s2 org 1 offset)) \<and>
      list_audit_events as_str org 1 offset s2 = Inl err)"
proof -
  from document_event [OF assms(2)] obtain e k n where e: "e \<in> set (audit_events s')" "a_id e = eid"
      "a_organization_id e = org" "(k, MInt n) \<in> set (a_metadata e)" by blast
  have mem: "e \<in> set (audit_events s2)" using e(1) assms(3) by blast
  have ids: "distinct (map a_id (audit_events s2))" using assms(4) by (simp add: db_ok_defs)
  have "x = e" if "x \<in> set (fst (list_events s2 org limit offset))" "a_id x = eid" for x limit offset
  proof -
    have "x \<in> set (visible_events s2 org)" using audit_pages.page_subset that(1) by blast
    then have "x \<in> set (audit_events s2)" by (simp add: visible_events_org)
    with distinct_key_unique [OF ids _ mem] e(2) that(2) show ?thesis by blast
  qed
  then have all: "\<exists>err. list_audit_events as_str org limit offset s2 = Inl err"
    if "eid \<in> a_id ` set (fst (list_events s2 org limit offset))" for limit offset
    using integer_event_fails [of as_str k n e] assms(1) e(4) that by blast
  obtain offset where "e \<in> set (fst (list_events s2 org 1 offset))"
    using page_of_one [of e s2 org] mem e(3) by (auto simp: visible_events_org)
  with all e(2) show ?thesis by blast
qed

text \<open>The witness: a failed document, and a message to a ticket recorded after it.\<close>

theorem document_events_break_listing_witness:
  "\<exists>s1 s2 offset err. record_document_failed 5 50 1 60 1 ''retry_exhausted'' 3 sample_db = Inr s1 \<and>
     record_ticket_message_created 6 51 1 None 61 s1 = Inr s2 \<and>
     list_audit_events (\<lambda>v. case v of MStr w \<Rightarrow> Some w | MInt n \<Rightarrow> None) 1 1 offset s2 = Inl err"
proof -
  obtain s1 where s1: "record_document_failed 5 50 1 60 1 ''retry_exhausted'' 3 sample_db = Inr s1"
    by (auto simp: record_document_failed_def record_event_Inr DOCUMENT_ERROR_CODES_def)
  then have r1: "record_event 5 50 1 DOCUMENT_FAILED None DOCUMENT_VERSION (Some 60) [(''version_number'', MInt 1),
      (''error_code'', MStr ''retry_exhausted''), (''attempt_count'', MInt 3)] sample_db = Inr s1"
    by (simp add: record_document_failed_def split: if_splits)
  obtain s2 where s2: "record_ticket_message_created 6 51 1 None 61 s1 = Inr s2"
    by (auto simp: record_ticket_message_created_def record_event_Inr)
  have org: "has_org sample_db 1" by (simp add: has_org_def sample_db_def)
  have e1: "audit_events s1 = [\<lparr>a_id = 50, a_organization_id = 1, a_actor_user_id = None,
      a_action = audit_action_value DOCUMENT_FAILED, a_resource_type = audit_resource_value DOCUMENT_VERSION,
      a_resource_id = Some 60, a_metadata = [(''version_number'', MInt 1),
      (''error_code'', MStr ''retry_exhausted''), (''attempt_count'', MInt 3)], a_created_at = 5\<rparr>]"
    using r1 by (auto simp: record_event_Inr sample_db_def empty_db_def)
  have ok1: "db_ok s1" by (rule record_event_db_ok [OF sample_db_ok org _ _ r1]) (simp_all add: sample_db_def empty_db_def)
  have "has_org s1 1" using r1 org by (auto simp: record_event_Inr has_org_def)
  then have ok2: "db_ok s2"
    by (rule record_event_db_ok [OF ok1 _ _ _ s2 [unfolded record_ticket_message_created_def]]) (simp_all add: e1)
  have sub: "set (audit_events s1) \<subseteq> set (audit_events s2)"
    using s2 by (auto simp: record_ticket_message_created_def record_event_Inr)
  from document_events_break_listing [OF _ document_recorded.Failed [OF s1] sub ok2,
      of "\<lambda>v. case v of MStr w \<Rightarrow> Some w | MInt n \<Rightarrow> None"] s1 s2
  show ?thesis by fastforce
qed

end
