(* ===== verification/SF_Storage.thy ===== *)
theory SF_Storage
  imports SF_Models "HOL-Library.AList"
begin

text \<open>
  Private object storage: \<open>build_storage_key\<close> of \<open>app/documents/service.py\<close> and the adapters of
  \<open>app/documents/storage.py\<close>. \<open>PurePosixPath(key).parts\<close> drops empty and \<open>.\<close> components, as
  \<open>posix_parts\<close> does. The in-memory adapter is its dictionary; the local adapter is the files
  below its root (a path is its list of components; symbolic links and empty directories are not
  represented), where \<open>copy_ok\<close> says whether copying the source into the temporary file works.
\<close>

subsection \<open>Identifiers as text\<close>

definition hex_digit :: "nat \<Rightarrow> char" where
  "hex_digit d = ''0123456789abcdef'' ! (d mod 16)"

fun to_hex :: "nat \<Rightarrow> nat \<Rightarrow> string" where
  "to_hex 0 n = []"
| "to_hex (Suc w) n = to_hex w (n div 16) @ [hex_digit n]"

definition uuid_str :: "uuid \<Rightarrow> string" where
  \<comment> \<open>\<open>str(UUID)\<close>: 8-4-4-4-12 lowercase hexadecimal digits\<close>
  "uuid_str n = (let h = to_hex 32 n in
     take 8 h @ ''-'' @ take 4 (drop 8 h) @ ''-'' @ take 4 (drop 12 h) @ ''-'' @
     take 4 (drop 16 h) @ ''-'' @ drop 20 h)"

definition uuid_range :: "uuid \<Rightarrow> bool" where
  "uuid_range n \<longleftrightarrow> n < 16 ^ 32"

definition build_storage_key :: "uuid \<Rightarrow> uuid \<Rightarrow> uuid \<Rightarrow> string" where
  "build_storage_key organization_id document_id version_id =
     ''organizations/'' @ uuid_str organization_id @ ''/documents/'' @ uuid_str document_id @
     ''/versions/'' @ uuid_str version_id"

subsection \<open>Keys\<close>

datatype storage_error = InvalidStorageKeyError | StorageMissing | StorageOSError

definition posix_parts :: "string \<Rightarrow> string list" where
  "posix_parts key = filter (\<lambda>p. p \<noteq> [] \<and> p \<noteq> ''.'') (split_on (CHR ''/'') key)"

definition validate_storage_key :: "string \<Rightarrow> storage_error + string list" where
  "validate_storage_key key =
     (if key = [] \<or> take 1 key = ''/'' \<or> CHR 0x5C \<in> set key \<or>
         list_ex (\<lambda>part. part \<in> {[], ''.'', ''..''}) (posix_parts key)
      then Inl InvalidStorageKeyError else Inr (posix_parts key))"

subsection \<open>The in-memory adapter\<close>

type_synonym memory_store = "string \<rightharpoonup> byte list"

definition memory_put :: "string \<Rightarrow> byte list \<Rightarrow> memory_store \<Rightarrow> storage_error + memory_store" where
  "memory_put key source st = bindE (validate_storage_key key) (\<lambda>_. Inr (st(key \<mapsto> source)))"

definition memory_open :: "string \<Rightarrow> memory_store \<Rightarrow> storage_error + byte list" where
  "memory_open key st = bindE (validate_storage_key key) (\<lambda>_.
     case st key of None \<Rightarrow> Inl StorageMissing | Some b \<Rightarrow> Inr b)"

definition memory_delete :: "string \<Rightarrow> memory_store \<Rightarrow> storage_error + memory_store" where
  "memory_delete key st = bindE (validate_storage_key key) (\<lambda>_. Inr (st(key := None)))"

subsection \<open>The local adapter\<close>

type_synonym local_store = "(string list \<times> byte list) list"

definition proper_prefix :: "'a list \<Rightarrow> 'a list \<Rightarrow> bool" where
  "proper_prefix p q \<longleftrightarrow> length p < length q \<and> take (length p) q = p"

definition not_a_file :: "string list \<Rightarrow> local_store \<Rightarrow> bool" where
  \<comment> \<open>the path is a directory, or lies below a regular file\<close>
  "not_a_file p fs \<longleftrightarrow> p = [] \<or> list_ex (\<lambda>(q, _). proper_prefix p q \<or> proper_prefix q p) fs"

definition local_put :: "bool \<Rightarrow> string \<Rightarrow> byte list \<Rightarrow> local_store \<Rightarrow> storage_error + local_store" where
  "local_put copy_ok key source fs = bindE (validate_storage_key key) (\<lambda>target.
     if not_a_file target fs then Inl StorageOSError
     else if \<not> copy_ok then Inl StorageOSError
     else Inr (AList.update target source fs))"

definition local_open :: "string \<Rightarrow> local_store \<Rightarrow> storage_error + byte list" where
  "local_open key fs = bindE (validate_storage_key key) (\<lambda>target.
     if not_a_file target fs then Inl StorageOSError
     else case map_of fs target of None \<Rightarrow> Inl StorageMissing | Some b \<Rightarrow> Inr b)"

definition local_delete :: "bool \<Rightarrow> string \<Rightarrow> local_store \<Rightarrow> storage_error + local_store" where
  \<comment> \<open>\<open>unlink_ok\<close>: whether the operating system removes the file\<close>
  "local_delete unlink_ok key fs = bindE (validate_storage_key key) (\<lambda>target.
     if not_a_file target fs then Inl StorageOSError
     else if \<not> unlink_ok then Inl StorageOSError
     else Inr (AList.delete target fs))"

subsection \<open>Keys built by the service\<close>

lemma length_to_hex [simp]: "length (to_hex w n) = w"
  by (induction w arbitrary: n) auto

definition HEX :: "char set" where
  "HEX = set ''0123456789abcdef''"

lemma hex_digit_mem: "hex_digit d \<in> HEX"
proof -
  have "d mod 16 < length ''0123456789abcdef''" by simp
  then show ?thesis unfolding hex_digit_def HEX_def by (rule nth_mem)
qed

lemma hex_digit_inj: "hex_digit m = hex_digit n \<Longrightarrow> m mod 16 = n mod 16"
proof -
  have "distinct ''0123456789abcdef''" by simp
  moreover have "m mod 16 < length ''0123456789abcdef''" "n mod 16 < length ''0123456789abcdef''"
    by simp_all
  ultimately show "hex_digit m = hex_digit n \<Longrightarrow> m mod 16 = n mod 16"
    unfolding hex_digit_def by (simp only: nth_eq_iff_index_eq)
qed

lemma set_to_hex: "set (to_hex w n) \<subseteq> HEX"
  by (induction w arbitrary: n) (simp_all add: hex_digit_mem)

lemma to_hex_inj: "to_hex w m = to_hex w n \<Longrightarrow> m < 16 ^ w \<Longrightarrow> n < 16 ^ w \<Longrightarrow> m = n"
proof (induction w arbitrary: m n)
  case (Suc w)
  from Suc.prems(1) have h: "to_hex w (m div 16) = to_hex w (n div 16)" "m mod 16 = n mod 16"
    by (auto dest: hex_digit_inj)
  moreover have "m div 16 < 16 ^ w" "n div 16 < 16 ^ w"
    using Suc.prems(2,3) by (auto simp: less_mult_imp_div_less mult.commute)
  ultimately have "m div 16 = n div 16" using Suc.IH by blast
  with h(2) show ?case by (metis div_mult_mod_eq)
qed simp

lemma length_uuid_str [simp]: "length (uuid_str n) = 36"
  by (simp add: uuid_str_def Let_def)

lemma set_uuid_str: "set (uuid_str n) \<subseteq> insert (CHR ''-'') HEX"
proof -
  have *: "set (take k (drop j (to_hex 32 n))) \<subseteq> HEX" "set (take k (to_hex 32 n)) \<subseteq> HEX"
    "set (drop j (to_hex 32 n)) \<subseteq> HEX" for j k
    by (meson set_drop_subset set_take_subset set_to_hex subset_trans)+
  show ?thesis unfolding uuid_str_def Let_def set_append
    by (intro Un_least subset_trans [OF *(1) subset_insertI] subset_trans [OF *(2) subset_insertI]
        subset_trans [OF *(3) subset_insertI]) simp_all
qed

lemma uuid_str_inj: "uuid_str m = uuid_str n \<Longrightarrow> uuid_range m \<Longrightarrow> uuid_range n \<Longrightarrow> m = n"
proof -
  let ?h = "to_hex 32 m" and ?k = "to_hex 32 n"
  assume eq: "uuid_str m = uuid_str n" and r: "uuid_range m" "uuid_range n"
  have parts: "take 8 ?h = take 8 ?k" "take 4 (drop 8 ?h) = take 4 (drop 8 ?k)"
    "take 4 (drop 12 ?h) = take 4 (drop 12 ?k)" "take 4 (drop 16 ?h) = take 4 (drop 16 ?k)"
    "drop 20 ?h = drop 20 ?k"
    using eq unfolding uuid_str_def Let_def by (auto simp: append_eq_append_conv)
  have cut: "xs = take 8 xs @ take 4 (drop 8 xs) @ take 4 (drop 12 xs) @ take 4 (drop 16 xs) @
      drop 20 xs" for xs :: string
    using append_take_drop_id [of 8 xs] append_take_drop_id [of 4 "drop 8 xs"]
      append_take_drop_id [of 4 "drop 12 xs"] append_take_drop_id [of 4 "drop 16 xs"]
    by (simp del: append_take_drop_id take_drop)
  have "?h = ?k" using cut [of ?h] cut [of ?k] parts by simp
  then show ?thesis using r unfolding uuid_range_def by (rule to_hex_inj)
qed

lemma uuid_str_clean:
  "CHR ''/'' \<notin> set (uuid_str n)" "CHR 0x5C \<notin> set (uuid_str n)" "CHR '' '' \<notin> set (uuid_str n)"
  "CHR 0x00 \<notin> set (uuid_str n)" "CHR ''.'' \<notin> set (uuid_str n)"
  using set_uuid_str [of n] by (auto simp: HEX_def)

lemma uuid_str_nonempty [simp]: "uuid_str n \<noteq> []"
  by (metis length_uuid_str list.size(3) zero_neq_numeral)

definition key_parts :: "uuid \<Rightarrow> uuid \<Rightarrow> uuid \<Rightarrow> string list" where
  "key_parts org d v = [''organizations'', uuid_str org, ''documents'', uuid_str d,
     ''versions'', uuid_str v]"

lemma build_storage_key_join: "build_storage_key org d v = join_with (CHR ''/'') (key_parts org d v)"
  by (simp add: build_storage_key_def key_parts_def)

lemma split_storage_key: "split_on (CHR ''/'') (build_storage_key org d v) = key_parts org d v"
  unfolding build_storage_key_join
  by (rule split_on_join) (simp_all add: key_parts_def uuid_str_clean)

lemma uuid_str_not_dots: "uuid_str n \<noteq> ''.''" "uuid_str n \<noteq> ''..''"
  by (metis length_uuid_str One_nat_def length_0_conv list.size(4) add_0 one_eq_numeral_iff
      num.distinct(1) num.distinct(3) numeral_One,
      metis uuid_str_clean(5) list.set_intros(1))

lemma posix_parts_key: "posix_parts (build_storage_key org d v) = key_parts org d v"
  unfolding posix_parts_def split_storage_key by (simp add: key_parts_def uuid_str_not_dots)

lemma validate_built_key:
  "validate_storage_key (build_storage_key org d v) = Inr (key_parts org d v)"
proof -
  have "CHR 0x5C \<notin> set (build_storage_key org d v)"
    by (simp add: build_storage_key_def uuid_str_clean)
  moreover have "take 1 (build_storage_key org d v) \<noteq> ''/''" "build_storage_key org d v \<noteq> []"
    by (simp_all add: build_storage_key_def)
  ultimately show ?thesis
    unfolding validate_storage_key_def posix_parts_key
    by (simp add: key_parts_def uuid_str_not_dots)
qed

lemma key_parts_inj:
  assumes "key_parts org d v = key_parts org' d' v'"
    and "uuid_range org" "uuid_range d" "uuid_range v"
    and "uuid_range org'" "uuid_range d'" "uuid_range v'"
  shows "org = org' \<and> d = d' \<and> v = v'"
  using assms by (auto simp: key_parts_def dest: uuid_str_inj)

subsection \<open>The storage contract\<close>

text \<open>
  What the upload service and the worker rely on. \<open>locate\<close> is the object a key denotes; two keys
  of different versions never denote the same object.
\<close>

locale document_storage =
  fixes put :: "string \<Rightarrow> byte list \<Rightarrow> 's \<Rightarrow> storage_error + 's"
    and open_key :: "string \<Rightarrow> 's \<Rightarrow> storage_error + byte list"
    and delete :: "string \<Rightarrow> 's \<Rightarrow> storage_error + 's"
    and locate :: "string \<Rightarrow> 'l"
  assumes put_open: "put k b st = Inr st' \<Longrightarrow> open_key k st' = Inr b"
    and put_keeps: "put k b st = Inr st' \<Longrightarrow> open_key k' st = Inr c \<Longrightarrow> locate k' \<noteq> locate k \<Longrightarrow>
      open_key k' st' = Inr c"
    and delete_gone: "delete k st = Inr st' \<Longrightarrow> open_key k st' \<noteq> Inr c"
    and delete_keeps: "delete k st = Inr st' \<Longrightarrow> open_key k' st = Inr c \<Longrightarrow>
      locate k' \<noteq> locate k \<Longrightarrow> open_key k' st' = Inr c"
    and locate_built: "locate (build_storage_key org d v) = locate (build_storage_key org' d' v') \<Longrightarrow>
      key_parts org d v = key_parts org' d' v'"
begin

lemma other_version_kept:
  assumes "put (build_storage_key org d v) b st = Inr st'"
    and "open_key (build_storage_key org' d' v') st = Inr c"
    and "(org, d, v) \<noteq> (org', d', v')" and "list_all uuid_range [org, d, v, org', d', v']"
  shows "open_key (build_storage_key org' d' v') st' = Inr c"
proof -
  have "locate (build_storage_key org' d' v') \<noteq> locate (build_storage_key org d v)"
    using assms(3,4) by (auto dest!: locate_built key_parts_inj)
  with assms(1,2) show ?thesis by (rule put_keeps)
qed

lemma put_delete_gone:
  "put k b st = Inr st1 \<Longrightarrow> delete k st1 = Inr st2 \<Longrightarrow> open_key k' st = Inr c \<Longrightarrow>
   locate k' \<noteq> locate k \<Longrightarrow> open_key k' st2 = Inr c \<and> open_key k st2 \<noteq> Inr b'"
  using put_keeps delete_keeps delete_gone by metis

end

interpretation memory: document_storage memory_put memory_open memory_delete id
  by unfold_locales (auto simp: memory_put_def memory_open_def memory_delete_def bindE_Inr_iff
      split_storage_key [symmetric] split: option.splits)

lemma not_a_file_update: "\<not> not_a_file p fs \<Longrightarrow> \<not> not_a_file q fs \<Longrightarrow>
    \<not> proper_prefix q p \<Longrightarrow> \<not> proper_prefix p q \<Longrightarrow> \<not> not_a_file q (AList.update p b fs)"
  by (induction fs) (auto simp: not_a_file_def)

lemma not_a_file_delete: "\<not> not_a_file q fs \<Longrightarrow> \<not> not_a_file q (AList.delete p fs)"
  by (auto simp: not_a_file_def list_ex_iff AList.delete_eq)

lemma stored_not_prefix: "\<not> not_a_file p fs \<Longrightarrow> map_of fs q = Some c \<Longrightarrow>
    \<not> proper_prefix q p \<and> \<not> proper_prefix p q"
  by (auto simp: not_a_file_def list_ex_iff dest: map_of_SomeD)

interpretation local: document_storage "local_put copy_ok" local_open "local_delete unlink_ok"
    validate_storage_key for copy_ok unlink_ok
proof
  fix k b st st'
  assume "local_put copy_ok k b st = Inr st'"
  then show "local_open k st' = Inr b"
    by (auto simp: local_put_def local_open_def bindE_Inr_iff proper_prefix_def
        not_a_file_update update_conv' split: if_splits)
next
  fix k b st st' k' c
  assume p: "local_put copy_ok k b st = Inr st'" and o: "local_open k' st = Inr c"
    and ne: "validate_storage_key k' \<noteq> validate_storage_key k"
  from p obtain x where x: "validate_storage_key k = Inr x" "\<not> not_a_file x st"
      "st' = AList.update x b st"
    by (auto simp: local_put_def bindE_Inr_iff split: if_splits)
  from o obtain y where y: "validate_storage_key k' = Inr y" "\<not> not_a_file y st"
      "map_of st y = Some c"
    by (auto simp: local_open_def bindE_Inr_iff split: if_splits option.splits)
  have "\<not> not_a_file y st'"
    unfolding x(3) using x(2) y(2) stored_not_prefix [OF x(2) y(3)] by (simp add: not_a_file_update)
  with x y ne show "local_open k' st' = Inr c"
    by (simp add: local_open_def update_conv')
next
  fix k st st' c
  assume "local_delete unlink_ok k st = Inr st'"
  then show "local_open k st' \<noteq> Inr c"
    by (auto simp: local_delete_def local_open_def bindE_Inr_iff delete_conv'
        split: if_splits option.splits)
next
  fix k st st' k' c
  assume p: "local_delete unlink_ok k st = Inr st'" and o: "local_open k' st = Inr c"
    and ne: "validate_storage_key k' \<noteq> validate_storage_key k"
  from p obtain x where x: "validate_storage_key k = Inr x" "st' = AList.delete x st"
    by (auto simp: local_delete_def bindE_Inr_iff split: if_splits)
  from o obtain y where y: "validate_storage_key k' = Inr y" "\<not> not_a_file y st"
      "map_of st y = Some c"
    by (auto simp: local_open_def bindE_Inr_iff split: if_splits option.splits)
  from x y ne show "local_open k' st' = Inr c"
    by (simp add: local_open_def not_a_file_delete delete_conv')
next
  fix org d v org' d' v'
  assume "validate_storage_key (build_storage_key org d v) =
    validate_storage_key (build_storage_key org' d' v')"
  then show "key_parts org d v = key_parts org' d' v'" by (simp add: validate_built_key)
qed

text \<open>
  Storage keys are safe and identify their version: every key the service builds is accepted
  by \<open>validate_storage_key\<close> with its six components (so it never leaves the storage root), fits the
  500-character column, and two different (organization, document, version) triples never share
  a key.
\<close>

lemma storage_keys_separate_versions:
  assumes "list_all uuid_range [org, d, v, org', d', v']"
  shows "validate_storage_key (build_storage_key org d v) = Inr (key_parts org d v) \<and>
    length (key_parts org d v) = 6 \<and> ''..'' \<notin> set (key_parts org d v) \<and>
    length (build_storage_key org d v) \<le> 500 \<and>
    (build_storage_key org d v = build_storage_key org' d' v' \<longleftrightarrow> org = org' \<and> d = d' \<and> v = v')"
proof -
  have "org = org' \<and> d = d' \<and> v = v'" if "build_storage_key org d v = build_storage_key org' d' v'"
  proof -
    have "key_parts org d v = key_parts org' d' v'" using that by (metis split_storage_key)
    then show ?thesis using assms by (intro key_parts_inj) simp_all
  qed
  moreover have "length (build_storage_key org d v) \<le> 500" by (simp add: build_storage_key_def)
  moreover have "''..'' \<notin> set (key_parts org d v)"
    using uuid_str_not_dots(2) [of org] uuid_str_not_dots(2) [of d] uuid_str_not_dots(2) [of v]
    by (simp add: key_parts_def)
  ultimately show ?thesis by (auto simp: validate_built_key) (simp add: key_parts_def)
qed

lemma storage_keys_separate_versions_example: "build_storage_key 1 2 3 \<noteq> build_storage_key 1 2 4"
  using storage_keys_separate_versions [of 1 2 3 1 2 4] by (simp add: uuid_range_def)

end
