(* ===== verification/SF_Extraction.thy ===== *)
theory SF_Extraction
  imports SF_Models
begin

text \<open>
  \<open>app/documents/extraction.py\<close>: strict UTF-8 text extraction, bounded PDF extraction and the
  registry. \<open>bytes.decode("utf-8", errors="strict")\<close> is the executable \<open>utf8_decode\<close>. The PDF
  reader (pypdf) is a parameter \<open>read_pdf\<close>: what constructing the reader does on the bytes, and
  what each page's \<open>extract_text\<close> does.
\<close>

subsection \<open>UTF-8\<close>

definition cont :: "byte \<Rightarrow> bool" where
  "cont b \<longleftrightarrow> 128 \<le> b \<and> b \<le> 191"

fun utf8_decode :: "byte list \<Rightarrow> ustr option" where
  "utf8_decode [] = Some []"
| "utf8_decode (b # bs) =
     (if b < 128 then map_option (Cons b) (utf8_decode bs)
      else if 194 \<le> b \<and> b \<le> 223 then
        (case bs of
           c1 # r \<Rightarrow> if cont c1
             then map_option (Cons ((b - 192) * 64 + (c1 - 128))) (utf8_decode r) else None
         | _ \<Rightarrow> None)
      else if 224 \<le> b \<and> b \<le> 239 then
        (case bs of
           c1 # c2 # r \<Rightarrow>
             if cont c1 \<and> cont c2 \<and> (b = 224 \<longrightarrow> 160 \<le> c1) \<and> (b = 237 \<longrightarrow> c1 \<le> 159)
             then map_option (Cons ((b - 224) * 4096 + (c1 - 128) * 64 + (c2 - 128)))
               (utf8_decode r) else None
         | _ \<Rightarrow> None)
      else if 240 \<le> b \<and> b \<le> 244 then
        (case bs of
           c1 # c2 # c3 # r \<Rightarrow>
             if cont c1 \<and> cont c2 \<and> cont c3 \<and> (b = 240 \<longrightarrow> 144 \<le> c1) \<and> (b = 244 \<longrightarrow> c1 \<le> 143)
             then map_option (Cons ((b - 240) * 262144 + (c1 - 128) * 4096 + (c2 - 128) * 64 +
               (c3 - 128))) (utf8_decode r) else None
         | _ \<Rightarrow> None)
      else None)"

definition utf8_char :: "nat \<Rightarrow> byte list" where
  "utf8_char c =
     (if c < 128 then [c]
      else if c < 2048 then [192 + c div 64, 128 + c mod 64]
      else if c < 65536 then [224 + c div 4096, 128 + c div 64 mod 64, 128 + c mod 64]
      else [240 + c div 262144, 128 + c div 4096 mod 64, 128 + c div 64 mod 64, 128 + c mod 64])"

definition utf8_encode :: "ustr \<Rightarrow> byte list" where
  "utf8_encode t = concat (map utf8_char t)"

definition scalar_value :: "nat \<Rightarrow> bool" where
  "scalar_value c \<longleftrightarrow> c < 55296 \<or> (57344 \<le> c \<and> c < 1114112)"

subsection \<open>Extractors\<close>

record extraction_limits =
  max_pdf_pages :: nat
  max_characters :: nat

datatype extract_exn = Permanent document_error_code | SoftTimeLimitExceeded | OtherException

definition text_extract :: "byte list \<Rightarrow> extraction_limits \<Rightarrow> extract_exn + ustr" where
  "text_extract content limits =
     (case (if 0 \<in> set content then None else utf8_decode content) of
        None \<Rightarrow> Inl (Permanent UNSUPPORTED_DOCUMENT)
      | Some text \<Rightarrow>
          if max_characters limits < length text
          then Inl (Permanent EXTRACTION_LIMIT_EXCEEDED) else Inr text)"

datatype pdf_exn = PdfHandled \<comment> \<open>\<open>PdfReadError\<close>, \<open>OSError\<close> or \<open>ValueError\<close>\<close>
  | PdfSoftTimeLimit | PdfOther

record pdf_reader =
  is_encrypted :: bool
  pages :: "(pdf_exn + ustr option) list"

type_synonym pdf_library = "byte list \<Rightarrow> pdf_exn + pdf_reader"

definition pdf_raise :: "pdf_exn \<Rightarrow> extract_exn" where
  \<comment> \<open>the two \<open>except\<close> clauses of \<open>PdfDocumentExtractor.extract\<close>\<close>
  "pdf_raise e = (case e of PdfHandled \<Rightarrow> Permanent EXTRACTION_FAILED
     | PdfSoftTimeLimit \<Rightarrow> SoftTimeLimitExceeded | PdfOther \<Rightarrow> OtherException)"

fun pdf_pages :: "nat \<Rightarrow> (pdf_exn + ustr option) list \<Rightarrow> ustr list \<Rightarrow> nat \<Rightarrow>
    extract_exn + ustr list" where
  "pdf_pages limit [] parts count = Inr parts"
| "pdf_pages limit (page # rest) parts count =
     (case page of
        Inl e \<Rightarrow> Inl (pdf_raise e)
      | Inr t \<Rightarrow>
          let page_text = (case t of None \<Rightarrow> [] | Some x \<Rightarrow> x);
              count1 = count + length page_text;
              count2 = (if parts \<noteq> [] then count1 + 1 else count1)
          in if limit < count2 then Inl (Permanent EXTRACTION_LIMIT_EXCEEDED)
             else pdf_pages limit rest (parts @ [page_text]) count2)"

fun join_lines :: "ustr list \<Rightarrow> ustr" where
  "join_lines [] = []"
| "join_lines [x] = x"
| "join_lines (x # y # ys) = x @ 10 # join_lines (y # ys)"

definition pdf_extract :: "pdf_library \<Rightarrow> byte list \<Rightarrow> extraction_limits \<Rightarrow> extract_exn + ustr" where
  "pdf_extract read_pdf content limits =
     (case read_pdf content of
        Inl e \<Rightarrow> Inl (pdf_raise e)
      | Inr reader \<Rightarrow>
          if is_encrypted reader then Inl (Permanent EXTRACTION_FAILED)
          else if max_pdf_pages limits < length (pages reader)
          then Inl (Permanent EXTRACTION_LIMIT_EXCEEDED)
          else bindE (pdf_pages (max_characters limits) (pages reader) [] 0)
                 (\<lambda>parts. Inr (join_lines parts)))"

type_synonym extractor = "byte list \<Rightarrow> extraction_limits \<Rightarrow> extract_exn + ustr"

definition registry_get :: "pdf_library \<Rightarrow> document_media_type \<Rightarrow> extractor" where
  "registry_get read_pdf media_type =
     (case media_type of PDF \<Rightarrow> pdf_extract read_pdf | TEXT \<Rightarrow> text_extract
      | MARKDOWN \<Rightarrow> text_extract)"

subsection \<open>UTF-8 facts\<close>

lemma digit64: "(t::nat) < 64 \<Longrightarrow> (x * 64 + t) div 64 = x" "t < 64 \<Longrightarrow> (x * 64 + t) mod 64 = t"
  by simp_all

lemma div_4096: "(c::nat) div 4096 = c div 64 div 64"
  by (simp add: div_mult2_eq [symmetric])

lemma div_262144: "(c::nat) div 262144 = c div 64 div 64 div 64"
  by (simp add: div_mult2_eq [symmetric])

lemma utf8_char_2:
  assumes "2 \<le> r" "r < 32" "t < 64"
  shows "utf8_char (r * 64 + t) = [192 + r, 128 + t]" "scalar_value (r * 64 + t)"
  using assms digit64 [of t r] by (auto simp: utf8_char_def scalar_value_def)

lemma utf8_char_3:
  assumes "q < 16" "r < 64" "t < 64" "q = 0 \<longrightarrow> 32 \<le> r" "q = 13 \<longrightarrow> r < 32"
  shows "utf8_char (q * 4096 + r * 64 + t) = [224 + q, 128 + r, 128 + t]"
    "scalar_value (q * 4096 + r * 64 + t)"
proof -
  let ?c = "q * 4096 + r * 64 + t"
  have e: "?c = (q * 64 + r) * 64 + t" by simp
  have d: "?c div 4096 = q" "?c div 64 mod 64 = r" "?c mod 64 = t"
    unfolding e div_4096 using assms(2,3) by (simp_all only: digit64)
  have "2048 \<le> ?c" "?c < 65536" using assms by (cases "q = 0"; simp)+
  then show "utf8_char ?c = [224 + q, 128 + r, 128 + t]"
    unfolding utf8_char_def d by simp
  show "scalar_value ?c" using assms unfolding scalar_value_def
    by (cases "q < 13"; cases "q = 13"; simp)
qed

lemma utf8_char_4:
  assumes "p < 5" "q < 64" "r < 64" "t < 64" "p = 0 \<longrightarrow> 16 \<le> q" "p = 4 \<longrightarrow> q < 16"
  shows "utf8_char (p * 262144 + q * 4096 + r * 64 + t) = [240 + p, 128 + q, 128 + r, 128 + t]"
    "scalar_value (p * 262144 + q * 4096 + r * 64 + t)"
proof -
  let ?c = "p * 262144 + q * 4096 + r * 64 + t"
  have e: "?c = ((p * 64 + q) * 64 + r) * 64 + t" by simp
  have d: "?c div 262144 = p" "?c div 4096 mod 64 = q" "?c div 64 mod 64 = r" "?c mod 64 = t"
    unfolding e div_4096 div_262144 using assms(2-4) by (simp_all only: digit64)
  have b: "65536 \<le> ?c" using assms by (cases "p = 0"; simp)
  then show "utf8_char ?c = [240 + p, 128 + q, 128 + r, 128 + t]"
    unfolding utf8_char_def d by simp
  have "?c < 1114112" using assms by (cases "p = 4"; simp)
  with b show "scalar_value ?c" by (simp add: scalar_value_def)
qed

text \<open>Every scalar value is encoded in one of the four shapes.\<close>

lemma scalar_cases:
  assumes "scalar_value c"
  obtains "c < 128"
  | r t where "c = r * 64 + t" "2 \<le> r" "r < 32" "t < 64"
  | q r t where "c = q * 4096 + r * 64 + t" "q < 16" "r < 64" "t < 64" "q = 0 \<longrightarrow> 32 \<le> r"
      "q = 13 \<longrightarrow> r < 32"
  | p q r t where "c = p * 262144 + q * 4096 + r * 64 + t" "p < 5" "q < 64" "r < 64" "t < 64"
      "p = 0 \<longrightarrow> 16 \<le> q" "p = 4 \<longrightarrow> q < 16"
proof -
  define t m r n q p where "t = c mod 64" and "m = c div 64" and "r = m mod 64" and "n = m div 64"
    and "q = n mod 64" and "p = n div 64"
  have c: "c = m * 64 + t" "m = n * 64 + r" "n = p * 64 + q" "t < 64" "r < 64" "q < 64"
    by (simp_all add: t_def m_def r_def n_def q_def p_def)
  from assms consider "c < 128" | "128 \<le> c" "c < 2048" | "2048 \<le> c" "c < 65536"
    "c < 55296 \<or> 57344 \<le> c" | "65536 \<le> c" "c < 1114112"
    unfolding scalar_value_def by linarith
  then show thesis
  proof cases
    case 1 then show thesis by (rule that(1))
  next
    case 2 then show thesis using c by (intro that(2) [of m t]) auto
  next
    case 3
    have cn: "c = n * 4096 + r * 64 + t" using c by simp
    with 3 have n: "n < 16" by simp
    have lo: "n = 0 \<longrightarrow> 32 \<le> r" using 3(1) cn c(4) by auto
    have "n = 13 \<longrightarrow> r < 32" using 3(3) cn c(4,5) by auto
    then show thesis using cn n lo c by (intro that(3) [of n r t])
  next
    case 4
    then have "p < 5" using c by simp
    then show thesis using c 4 by (intro that(4) [of p q r t]) auto
  qed
qed

lemma utf8_decode_1: "b < 128 \<Longrightarrow> utf8_decode (b # bs) = map_option (Cons b) (utf8_decode bs)"
  by simp

lemma utf8_decode_2: "194 \<le> b \<Longrightarrow> b \<le> 223 \<Longrightarrow> utf8_decode (b # bs) =
    (case bs of c1 # r \<Rightarrow> if cont c1
       then map_option (Cons ((b - 192) * 64 + (c1 - 128))) (utf8_decode r) else None
     | _ \<Rightarrow> None)"
  by (simp split del: if_split)

lemma utf8_decode_3: "224 \<le> b \<Longrightarrow> b \<le> 239 \<Longrightarrow> utf8_decode (b # bs) =
    (case bs of c1 # c2 # r \<Rightarrow>
       if cont c1 \<and> cont c2 \<and> (b = 224 \<longrightarrow> 160 \<le> c1) \<and> (b = 237 \<longrightarrow> c1 \<le> 159)
       then map_option (Cons ((b - 224) * 4096 + (c1 - 128) * 64 + (c2 - 128))) (utf8_decode r)
       else None
     | _ \<Rightarrow> None)"
  by (simp split del: if_split)

lemma utf8_decode_4: "240 \<le> b \<Longrightarrow> b \<le> 244 \<Longrightarrow> utf8_decode (b # bs) =
    (case bs of c1 # c2 # c3 # r \<Rightarrow>
       if cont c1 \<and> cont c2 \<and> cont c3 \<and> (b = 240 \<longrightarrow> 144 \<le> c1) \<and> (b = 244 \<longrightarrow> c1 \<le> 143)
       then map_option (Cons ((b - 240) * 262144 + (c1 - 128) * 4096 + (c2 - 128) * 64 +
          (c3 - 128))) (utf8_decode r) else None
     | _ \<Rightarrow> None)"
  by (simp split del: if_split)

lemma utf8_decode_5: "\<not> b < 128 \<Longrightarrow> \<not> (194 \<le> b \<and> b \<le> 223) \<Longrightarrow> \<not> (224 \<le> b \<and> b \<le> 239) \<Longrightarrow>
    \<not> (240 \<le> b \<and> b \<le> 244) \<Longrightarrow> utf8_decode (b # bs) = None"
  by (simp only: utf8_decode.simps if_False)

declare utf8_decode.simps(2) [simp del]

lemmas utf8_decode_cases = utf8_decode_1 utf8_decode_2 utf8_decode_3 utf8_decode_4

lemma utf8_decode_char:
  assumes "scalar_value c"
  shows "utf8_decode (utf8_char c @ bs) = map_option (Cons c) (utf8_decode bs)"
  using assms
proof (cases c rule: scalar_cases)
  case 1 then show ?thesis by (simp add: utf8_char_def utf8_decode_cases)
next
  case (2 r t) then show ?thesis by (simp add: utf8_char_2 cont_def utf8_decode_cases)
next
  case (3 q r t) then show ?thesis by (auto simp: utf8_char_3 cont_def utf8_decode_cases)
next
  case (4 p q r t) then show ?thesis by (auto simp: utf8_char_4 cont_def utf8_decode_cases)
qed

lemma utf8_decode_encode: "list_all scalar_value t \<Longrightarrow> utf8_decode (utf8_encode t) = Some t"
  by (induction t) (simp_all add: utf8_encode_def utf8_decode_char)

text \<open>Conversely, a decoding step consumes exactly the encoding of one scalar value.\<close>

lemma utf8_decode_step:
  assumes "utf8_decode (b # bs) = Some t"
  obtains c rest t' where "t = c # t'" "b # bs = utf8_char c @ rest" "scalar_value c"
    "utf8_decode rest = Some t'"
proof -
  consider (a) "b < 128" | (b) "194 \<le> b" "b \<le> 223" | (c) "224 \<le> b" "b \<le> 239"
    | (d) "240 \<le> b" "b \<le> 244"
    using utf8_decode_5 [of b bs] assms by fastforce
  then show thesis
  proof cases
    case a
    then show thesis using assms that [of b _ bs]
      by (auto simp: utf8_char_def scalar_value_def utf8_decode_1)
  next
    case b
    from assms obtain c1 rest t' where *: "bs = c1 # rest" "cont c1" "utf8_decode rest = Some t'"
      "t = ((b - 192) * 64 + (c1 - 128)) # t'"
      unfolding utf8_decode_2 [OF b] by (auto split: list.splits if_splits)
    from b *(2) obtain r x where v: "b = 192 + r" "c1 = 128 + x" "x < 64"
      by (auto simp: cont_def dest!: le_Suc_ex)
    show thesis using utf8_char_2 [of r x] b v * by (intro that [of "r * 64 + x" t' rest]) simp_all
  next
    case c
    from assms obtain c1 c2 rest t' where *: "bs = c1 # c2 # rest" "cont c1" "cont c2"
      "b = 224 \<longrightarrow> 160 \<le> c1" "b = 237 \<longrightarrow> c1 \<le> 159" "utf8_decode rest = Some t'"
      "t = ((b - 224) * 4096 + (c1 - 128) * 64 + (c2 - 128)) # t'"
      unfolding utf8_decode_3 [OF c] by (auto split: list.splits if_splits)
    from c *(2,3) obtain q r x where v: "b = 224 + q" "c1 = 128 + r" "r < 64" "c2 = 128 + x" "x < 64"
      by (auto simp: cont_def dest!: le_Suc_ex)
    have "q = 13 \<longrightarrow> r < 32" using *(5) v by auto
    then show thesis using utf8_char_3 [of q r x] c v *
      by (intro that [of "q * 4096 + r * 64 + x" t' rest]) simp_all
  next
    case d
    from assms obtain c1 c2 c3 rest t' where *: "bs = c1 # c2 # c3 # rest" "cont c1" "cont c2"
      "cont c3" "b = 240 \<longrightarrow> 144 \<le> c1" "b = 244 \<longrightarrow> c1 \<le> 143" "utf8_decode rest = Some t'"
      "t = ((b - 240) * 262144 + (c1 - 128) * 4096 + (c2 - 128) * 64 + (c3 - 128)) # t'"
      unfolding utf8_decode_4 [OF d] by (auto split: list.splits if_splits)
    from d *(2-4) obtain q r x y where v: "b = 240 + q" "c1 = 128 + r" "r < 64" "c2 = 128 + x"
        "x < 64" "c3 = 128 + y" "y < 64"
      by (auto simp: cont_def dest!: le_Suc_ex)
    have "q = 4 \<longrightarrow> r < 16" using *(6) v by auto
    then show thesis using utf8_char_4 [of q r x y] d v *
      by (intro that [of "q * 262144 + r * 4096 + x * 64 + y" t' rest]) simp_all
  qed
qed

lemma utf8_decode_sound:
  "utf8_decode bs = Some t \<Longrightarrow> utf8_encode t = bs \<and> list_all scalar_value t"
proof (induction t arbitrary: bs)
  case Nil
  then have "bs = []" by (metis list.exhaust list.simps(3) utf8_decode_step)
  then show ?case by (simp add: utf8_encode_def)
next
  case (Cons x xs)
  then obtain b bs' where bs: "bs = b # bs'" by (cases bs) auto
  with Cons.prems have "utf8_decode (b # bs') = Some (x # xs)" by simp
  then obtain rest where "b # bs' = utf8_char x @ rest" "scalar_value x"
    "utf8_decode rest = Some xs"
    by (rule utf8_decode_step) auto
  with Cons.IH bs show ?case by (auto simp: utf8_encode_def)
qed

subsection \<open>Bounded extraction\<close>

lemma length_join_lines: "length (join_lines (ps @ [x])) =
    length (join_lines ps) + length x + (if ps = [] then 0 else 1)"
  by (induction ps rule: join_lines.induct) auto

lemma pdf_pages_bound:
  "pdf_pages limit ts parts count = Inr out \<Longrightarrow> count = length (join_lines parts) \<Longrightarrow>
   count \<le> limit \<Longrightarrow> length (join_lines out) \<le> limit \<and> length out = length parts + length ts"
proof (induction limit ts parts count rule: pdf_pages.induct)
  case (2 limit page rest parts count)
  then show ?case
    by (auto simp: Let_def length_join_lines split: sum.splits option.splits if_splits)
qed simp

text \<open>
  What the ingestion service relies on: an extractor either raises or returns a text within the
  configured character limit.
\<close>

locale bounded_extractor =
  fixes extr :: "byte list \<Rightarrow> extraction_limits \<Rightarrow> extract_exn + ustr"
  assumes within_limit: "extr content limits = Inr text \<Longrightarrow> length text \<le> max_characters limits"
begin

lemma over_limit_raises:
  "(\<And>text. extr content limits = Inr text \<Longrightarrow> max_characters limits < length text) \<Longrightarrow>
   \<exists>e. extr content limits = Inl e"
  using within_limit by (cases "extr content limits") force+

end

interpretation text_extractor: bounded_extractor text_extract
  by unfold_locales (auto simp: text_extract_def split: option.splits if_splits)

interpretation pdf_extractor: bounded_extractor "pdf_extract read_pdf" for read_pdf
proof
  fix content limits res
  assume "pdf_extract read_pdf content limits = Inr res"
  then obtain ps out where "pdf_pages (max_characters limits) ps [] 0 = Inr out"
      and "res = join_lines out"
    by (auto simp: pdf_extract_def bindE_Inr_iff split: sum.splits if_splits)
  then show "length res \<le> max_characters limits"
    using pdf_pages_bound [of "max_characters limits" ps "[]" 0 out] by simp
qed

lemma registry_text: "m \<noteq> PDF \<Longrightarrow> registry_get read_pdf m = text_extract"
  by (cases m) (simp_all add: registry_get_def)

text \<open>
  What the registered extractors return: never more characters than configured, and for text
  and Markdown exactly the characters of the file, every byte of it accounted for and none of
  them \<open>NUL\<close>; for a PDF at most the configured number of pages was read and the file was not
  encrypted.
\<close>

lemma extraction_faithful:
  assumes "registry_get read_pdf m content limits = Inr t"
  shows "length t \<le> max_characters limits \<and>
    (if m = PDF
     then \<exists>reader parts. read_pdf content = Inr reader \<and> \<not> is_encrypted reader \<and>
       length (pages reader) \<le> max_pdf_pages limits \<and> length parts = length (pages reader) \<and> t = join_lines parts
     else utf8_encode t = content \<and> list_all scalar_value t \<and> 0 \<notin> set content)"
proof (cases "m = PDF")
  case True
  with assms have run: "pdf_extract read_pdf content limits = Inr t" by (simp add: registry_get_def)
  then obtain reader parts where r: "read_pdf content = Inr reader" "\<not> is_encrypted reader"
      "length (pages reader) \<le> max_pdf_pages limits"
      "pdf_pages (max_characters limits) (pages reader) [] 0 = Inr parts" "t = join_lines parts"
    by (auto simp: pdf_extract_def bindE_Inr_iff split: sum.splits if_splits)
  with pdf_pages_bound [OF r(4)] pdf_extractor.within_limit [OF run] True show ?thesis by auto
next
  case False
  with assms have run: "text_extract content limits = Inr t" by (simp add: registry_text)
  then have "utf8_decode content = Some t" "0 \<notin> set content"
    by (auto simp: text_extract_def split: option.splits if_splits)
  with utf8_decode_sound text_extractor.within_limit [OF run] False show ?thesis by auto
qed

lemma extraction_faithful_example:
  "\<exists>t. registry_get (\<lambda>_. Inl PdfHandled) MARKDOWN [195, 169] \<lparr>max_pdf_pages = 1, max_characters = 5\<rparr> = Inr t \<and>
     utf8_encode t = [195, 169]"
proof -
  have run: "registry_get (\<lambda>_. Inl PdfHandled) MARKDOWN [195, 169] \<lparr>max_pdf_pages = 1, max_characters = 5\<rparr> = Inr [233]"
    by (simp add: registry_get_def text_extract_def utf8_decode.simps cont_def)
  from extraction_faithful [OF run] run show ?thesis by auto
qed

end
