(* ===== verification/SF_Upload.thy ===== *)
theory SF_Upload
  imports SF_Audit SF_Storage SF_Extraction
begin

text \<open>
  Accepting an upload: \<open>app/documents/validation.py\<close>, \<open>app/documents/outbox.py\<close>,
  \<open>DocumentService\<close> and \<open>DocumentRepository\<close>, and the error mapping of \<open>app/api/documents.py\<close>.

  A readable source is the list of what its successive \<open>read\<close> calls do (\<open>stream\<close>): a chunk, the
  empty chunk at the end, or an exception. The Unicode database (\<open>unicodedata.normalize\<close>,
  \<open>unicodedata.category\<close>, \<open>str.lower\<close>) and SHA-256 are parameters; the storage adapter is given by
  its \<open>put\<close> and \<open>delete\<close>. \<open>db_fault\<close> says what the database connection does at commit:
  \<open>AckLost\<close> is a commit that took effect although the client saw an exception.
\<close>

record unicode_data =
  nfkc :: "ustr \<Rightarrow> ustr"
  category_other :: "nat \<Rightarrow> bool" \<comment> \<open>\<open>category(c).startswith("C")\<close>\<close>
  lower :: "ustr \<Rightarrow> ustr"

type_synonym stream = "byte list option list"

subsection \<open>Validation\<close>

datatype validation_error =
  DocumentTooLargeError | UnsupportedDocumentTypeError | UnsafeDocumentFilenameError
  | EmptyDocumentError

fun validation_code :: "validation_error \<Rightarrow> string" where
  "validation_code DocumentTooLargeError = ''document_too_large''"
| "validation_code UnsupportedDocumentTypeError = ''unsupported_document_type''"
| "validation_code UnsafeDocumentFilenameError = ''unsafe_document_filename''"
| "validation_code EmptyDocumentError = ''empty_document''"

definition READ_CHUNK_BYTES :: nat where
  "READ_CHUNK_BYTES = 64 * 1024"

definition DISPLAY_FILENAME_MAX_CHARS :: nat where
  "DISPLAY_FILENAME_MAX_CHARS = 200"

definition MEDIA_TYPE_BY_EXTENSION :: "(ustr \<times> document_media_type) list" where
  "MEDIA_TYPE_BY_EXTENSION =
     [(u ''.pdf'', PDF), (u ''.txt'', TEXT), (u ''.md'', MARKDOWN), (u ''.markdown'', MARKDOWN)]"

fun rfind :: "'a \<Rightarrow> 'a list \<Rightarrow> nat option" where
  \<comment> \<open>\<open>str.rfind\<close>, with \<open>None\<close> for its \<open>-1\<close>\<close>
  "rfind c [] = None"
| "rfind c (x # xs) =
     (case rfind c xs of Some k \<Rightarrow> Some (Suc k) | None \<Rightarrow> if x = c then Some 0 else None)"

definition unsafe_filename :: "unicode_data \<Rightarrow> ustr \<Rightarrow> bool" where
  "unsafe_filename ucd normalized \<longleftrightarrow>
     normalized = [] \<or> normalized = u ''.'' \<or> normalized = u ''..'' \<or>
     47 \<in> set normalized \<or> 92 \<in> set normalized \<or>
     list_ex (category_other ucd) normalized \<or>
     DISPLAY_FILENAME_MAX_CHARS < length normalized"

definition normalize_display_filename ::
    "unicode_data \<Rightarrow> ustr option \<Rightarrow> validation_error + ustr \<times> ustr" where
  "normalize_display_filename ucd filename =
     (case filename of
        None \<Rightarrow> Inl UnsafeDocumentFilenameError
      | Some f \<Rightarrow>
          let normalized = ustrip (nfkc ucd f) in
          if unsafe_filename ucd normalized then Inl UnsafeDocumentFilenameError
          else (case rfind 46 normalized of
                  None \<Rightarrow> Inl UnsupportedDocumentTypeError
                | Some 0 \<Rightarrow> Inl UnsupportedDocumentTypeError
                | Some dot_index \<Rightarrow>
                    let extension = lower ucd (drop dot_index normalized) in
                    if extension \<notin> fst ` set MEDIA_TYPE_BY_EXTENSION
                    then Inl UnsupportedDocumentTypeError
                    else Inr (take dot_index normalized @ extension, extension)))"

definition PDF_PREFIX :: "byte list" where
  "PDF_PREFIX = u ''%PDF-''"

definition validate_content :: "document_media_type \<Rightarrow> byte list \<Rightarrow> validation_error + unit" where
  "validate_content media_type content =
     (let prefix = take 5 content in
      if media_type = PDF then
        if prefix \<noteq> PDF_PREFIX then Inl UnsupportedDocumentTypeError else Inr ()
      else if prefix = PDF_PREFIX then Inl UnsupportedDocumentTypeError
      else if 0 \<in> set content then Inl UnsupportedDocumentTypeError
      else if utf8_decode content = None then Inl UnsupportedDocumentTypeError
      else Inr ())"

datatype read_outcome = ReadOk "byte list" | ReadTooLarge | ReadRaised

fun read_bounded :: "int \<Rightarrow> stream \<Rightarrow> byte list \<Rightarrow> read_outcome" where
  "read_bounded limit [] staged = ReadOk staged"
| "read_bounded limit (None # rest) staged = ReadRaised"
| "read_bounded limit (Some chunk # rest) staged =
     (if chunk = [] then ReadOk staged
      else if limit < int (length staged + length chunk) then ReadTooLarge
      else read_bounded limit rest (staged @ chunk))"

record validated_upload =
  vu_display_filename :: ustr
  vu_media_type :: document_media_type
  vu_size_bytes :: int
  vu_content_sha256 :: string
  vu_stream :: "byte list"

datatype upload_exn =
    Invalid validation_error
  | SourceReadError
  | DocumentStorageUnavailableError
  | DocumentPersistenceError
  | DocumentDispatchError uuid

definition stage_document_upload :: "unicode_data \<Rightarrow> (byte list \<Rightarrow> string) \<Rightarrow> ustr option \<Rightarrow>
    stream \<Rightarrow> int \<Rightarrow> upload_exn + validated_upload" where
  "stage_document_upload ucd sha256 filename source max_bytes =
     (case normalize_display_filename ucd filename of
        Inl e \<Rightarrow> Inl (Invalid e)
      | Inr (display_filename, extension) \<Rightarrow>
     (case map_of MEDIA_TYPE_BY_EXTENSION extension of
        None \<Rightarrow> Inl (Invalid UnsupportedDocumentTypeError)
      | Some media_type \<Rightarrow>
     (case read_bounded max_bytes source [] of
        ReadRaised \<Rightarrow> Inl SourceReadError
      | ReadTooLarge \<Rightarrow> Inl (Invalid DocumentTooLargeError)
      | ReadOk staged \<Rightarrow>
          if staged = [] then Inl (Invalid EmptyDocumentError)
          else (case validate_content media_type staged of
                  Inl e \<Rightarrow> Inl (Invalid e)
                | Inr _ \<Rightarrow> Inr \<lparr>vu_display_filename = display_filename, vu_media_type = media_type,
                     vu_size_bytes = int (length staged), vu_content_sha256 = sha256 staged,
                     vu_stream = staged\<rparr>))))"

subsection \<open>The transactional outbox\<close>

datatype stage_exn = StageValueError | StageDb db_error | StageAudit audit_error

definition new_intent :: "instant \<Rightarrow> uuid \<Rightarrow> uuid \<Rightarrow> uuid \<Rightarrow> string \<Rightarrow> ingestion_intent" where
  \<comment> \<open>a row with the column defaults of \<open>DocumentIngestionIntent\<close>\<close>
  "new_intent now iid org version_id task_id =
     \<lparr>i_id = iid, i_organization_id = org, i_document_version_id = version_id, i_task_id = task_id,
      i_available_at = now, i_published_at = None, i_settled_at = None, i_unresolved_at = None,
      i_lease_token = None, i_lease_expires_at = None, i_publish_attempts = 0,
      i_recovery_attempts = 0, i_recovery_grants = 0, i_last_error = None, i_created_at = now\<rparr>"

definition intent_add :: "instant \<Rightarrow> uuid \<Rightarrow> uuid \<Rightarrow> uuid \<Rightarrow> string \<Rightarrow> db \<Rightarrow> stage_exn + db" where
  "intent_add now iid org version_id task_id s =
     (if task_id = [] \<or> task_id \<noteq> sstrip task_id \<or> 255 < length task_id then Inl StageValueError
      else Inr (s\<lparr>ingestion_intents := ingestion_intents s @
             [new_intent now iid org version_id task_id]\<rparr>))"

definition get_for_version :: "uuid \<Rightarrow> uuid \<Rightarrow> db \<Rightarrow> ingestion_intent option" where
  "get_for_version org version_id s =
     find (\<lambda>i. i_organization_id i = org \<and> i_document_version_id i = version_id)
       (ingestion_intents s)"

definition flush :: "db \<Rightarrow> stage_exn + db" where
  "flush s = (case commit s of Inl e \<Rightarrow> Inl (StageDb e) | Inr s' \<Rightarrow> Inr s')"

definition lift_audit :: "audit_error + db \<Rightarrow> stage_exn + db" where
  "lift_audit r = (case r of Inl e \<Rightarrow> Inl (StageAudit e) | Inr s \<Rightarrow> Inr s)"

record fresh_ids =
  f_document :: uuid
  f_version :: uuid
  f_event :: uuid
  f_intent :: uuid
  f_task :: uuid

definition stage_upload_with_intent :: "instant \<Rightarrow> fresh_ids \<Rightarrow> uuid \<Rightarrow> document \<Rightarrow>
    document_version \<Rightarrow> db \<Rightarrow> stage_exn + db" where
  "stage_upload_with_intent now ids org document version s =
     (if d_organization_id document \<noteq> org \<or> v_organization_id version \<noteq> org \<or>
         v_document_id version \<noteq> d_id document \<or> v_status version \<noteq> QUEUED \<or>
         v_processing_task_id version \<noteq> None \<or> v_attempt_count version \<noteq> 0
      then Inl StageValueError
      else
        bindE (flush (s\<lparr>documents := documents s @ [document],
                 document_versions := document_versions s @ [version]\<rparr>)) (\<lambda>s1.
        bindE (lift_audit (record_document_uploaded now (f_event ids) org
                 (d_created_by_user_id document) (d_id document) (v_version_number version)
                 (media_type_value (v_media_type version)) (v_size_bytes version) s1)) (\<lambda>s2.
        bindE (intent_add now (f_intent ids) org (v_id version) (uuid_str (f_task ids)) s2) flush)))"

subsection \<open>The document service\<close>

datatype db_fault = NoFault | Aborted | AckLost

definition new_document :: "instant \<Rightarrow> uuid \<Rightarrow> uuid \<Rightarrow> ustr \<Rightarrow> uuid \<Rightarrow> document" where
  "new_document now document_id org display_filename actor =
     \<lparr>d_id = document_id, d_organization_id = org, d_source_type = UPLOAD, d_external_id = None,
      d_display_filename = display_filename, d_created_by_user_id = actor,
      d_created_at = now, d_updated_at = now\<rparr>"

definition new_version :: "instant \<Rightarrow> uuid \<Rightarrow> uuid \<Rightarrow> uuid \<Rightarrow> string \<Rightarrow> validated_upload \<Rightarrow>
    document_version" where
  "new_version now version_id org document_id storage_key staged =
     \<lparr>v_id = version_id, v_organization_id = org, v_document_id = document_id,
      v_version_number = 1, v_media_type = vu_media_type staged,
      v_size_bytes = vu_size_bytes staged, v_content_sha256 = vu_content_sha256 staged,
      v_storage_key = storage_key, v_status = QUEUED, v_extracted_text = None,
      v_attempt_count = 0, v_processing_task_id = None, v_processing_started_at = None,
      v_error_code = None, v_created_at = now, v_updated_at = now\<rparr>"

definition delete_after_failed_persistence ::
    "(string \<Rightarrow> 'st \<Rightarrow> storage_error + 'st) \<Rightarrow> string \<Rightarrow> 'st \<Rightarrow> 'st" where
  \<comment> \<open>a failing delete is logged and swallowed\<close>
  "delete_after_failed_persistence delete key st =
     (case delete key st of Inl _ \<Rightarrow> st | Inr st' \<Rightarrow> st')"

definition create_upload :: "unicode_data \<Rightarrow> (byte list \<Rightarrow> string) \<Rightarrow>
    (string \<Rightarrow> byte list \<Rightarrow> 'st \<Rightarrow> storage_error + 'st) \<Rightarrow> (string \<Rightarrow> 'st \<Rightarrow> storage_error + 'st) \<Rightarrow>
    int \<Rightarrow> db_fault \<Rightarrow> instant \<Rightarrow> fresh_ids \<Rightarrow> uuid \<Rightarrow> uuid \<Rightarrow> ustr option \<Rightarrow> stream \<Rightarrow> 'st \<Rightarrow> db \<Rightarrow>
    (upload_exn + document \<times> document_version) \<times> 'st \<times> db" where
  "create_upload ucd sha256 put delete max_upload_bytes fault now ids org actor filename source st s =
     (case stage_document_upload ucd sha256 filename source max_upload_bytes of
        Inl e \<Rightarrow> (Inl e, st, s)
      | Inr staged \<Rightarrow>
          let storage_key = build_storage_key org (f_document ids) (f_version ids) in
          (case put storage_key (vu_stream staged) st of
             Inl _ \<Rightarrow> (Inl DocumentStorageUnavailableError, st, s)
           | Inr st1 \<Rightarrow>
               let document = new_document now (f_document ids) org (vu_display_filename staged) actor;
                   version = new_version now (f_version ids) org (f_document ids) storage_key staged
               in (case stage_upload_with_intent now ids org document version s of
                     Inl _ \<Rightarrow> (Inl DocumentPersistenceError,
                        delete_after_failed_persistence delete storage_key st1, s)
                   | Inr s' \<Rightarrow>
                       (case fault of
                          NoFault \<Rightarrow> (Inr (document, version), st1, s')
                        | Aborted \<Rightarrow> (Inl DocumentPersistenceError,
                            delete_after_failed_persistence delete storage_key st1, s)
                        | AckLost \<Rightarrow> (Inl DocumentPersistenceError,
                            delete_after_failed_persistence delete storage_key st1, s')))))"

definition get_with_latest_version :: "uuid \<Rightarrow> uuid \<Rightarrow> db \<Rightarrow> (document \<times> document_version) option" where
  "get_with_latest_version org document_id s =
     (case order_by_desc (\<lambda>(d, v). v_version_number v)
        (filter (\<lambda>(d, v). v_organization_id v = d_organization_id d \<and> v_document_id v = d_id d \<and>
             d_organization_id d = org \<and> d_id d = document_id \<and> v_organization_id v = org)
           (List.product (documents s) (document_versions s)))
      of [] \<Rightarrow> None | row # _ \<Rightarrow> Some row)"

datatype status_exn = DocumentNotFoundError

definition get_status :: "uuid \<Rightarrow> uuid \<Rightarrow> db \<Rightarrow> status_exn + document \<times> document_version" where
  "get_status org document_id s =
     (case get_with_latest_version org document_id s of
        None \<Rightarrow> Inl DocumentNotFoundError | Some r \<Rightarrow> Inr r)"

subsection \<open>The upload endpoint\<close>

record http_error =
  h_status :: nat
  h_code :: string
  h_location :: "uuid option"

definition upload_http_error :: "upload_exn \<Rightarrow> http_error" where
  \<comment> \<open>the \<open>except\<close> clauses of \<open>upload_document\<close>; anything else is the generic 500 handler\<close>
  "upload_http_error e = (case e of
     Invalid v \<Rightarrow> \<lparr>h_status = (if v = DocumentTooLargeError then 413 else 422),
        h_code = validation_code v, h_location = None\<rparr>
   | DocumentStorageUnavailableError \<Rightarrow>
        \<lparr>h_status = 503, h_code = ''document_storage_unavailable'', h_location = None\<rparr>
   | DocumentPersistenceError \<Rightarrow>
        \<lparr>h_status = 409, h_code = ''document_persistence_failed'', h_location = None\<rparr>
   | DocumentDispatchError d \<Rightarrow>
        \<lparr>h_status = 503, h_code = error_code_value DISPATCH_FAILED, h_location = Some d\<rparr>
   | SourceReadError \<Rightarrow> \<lparr>h_status = 500, h_code = ''internal_error'', h_location = None\<rparr>)"

definition safe_error_message :: "string \<Rightarrow> string" where
  "safe_error_message code = (if code = error_code_value DISPATCH_FAILED
     then ''Document processing could not be queued'' else ''Document processing failed'')"

record version_status_view =
  vs_id :: uuid
  vs_version_number :: int
  vs_media_type :: document_media_type
  vs_size_bytes :: int
  vs_status :: document_processing_status
  vs_error_code :: "string option"
  vs_error_message :: "string option"
  vs_created_at :: instant
  vs_updated_at :: instant

record document_status_view =
  ds_id :: uuid
  ds_source_type :: document_source_type
  ds_display_filename :: ustr
  ds_created_at :: instant
  ds_updated_at :: instant
  ds_version :: version_status_view

definition document_status_response :: "document \<times> document_version \<Rightarrow> document_status_view" where
  "document_status_response r = (let (document, version) = r in
     \<lparr>ds_id = d_id document, ds_source_type = d_source_type document,
      ds_display_filename = d_display_filename document, ds_created_at = d_created_at document,
      ds_updated_at = d_updated_at document,
      ds_version = \<lparr>vs_id = v_id version, vs_version_number = v_version_number version,
        vs_media_type = v_media_type version, vs_size_bytes = v_size_bytes version,
        vs_status = v_status version, vs_error_code = v_error_code version,
        vs_error_message = map_option safe_error_message (v_error_code version),
        vs_created_at = v_created_at version, vs_updated_at = v_updated_at version\<rparr>\<rparr>)"

subsection \<open>File names\<close>

lemma rfind_Some: "rfind c xs = Some k \<Longrightarrow> k < length xs \<and> xs ! k = c"
  by (induction xs arbitrary: k) (auto split: option.splits if_splits)

lemma extension_lengths: "e \<in> fst ` set MEDIA_TYPE_BY_EXTENSION \<Longrightarrow>
    e \<noteq> [] \<and> hd e = 46 \<and> list_all (\<lambda>c. 46 \<le> c \<and> c < 128 \<and> c \<noteq> 47 \<and> c \<noteq> 92) e \<and> last e \<noteq> 32"
  by (auto simp: MEDIA_TYPE_BY_EXTENSION_def u_def)

definition ucd_laws :: "unicode_data \<Rightarrow> bool" where
  \<comment> \<open>\<open>NUL\<close> is a control character, and a text whose lower case is ASCII keeps its length\<close>
  "ucd_laws ucd \<longleftrightarrow> category_other ucd 0 \<and>
     (\<forall>t. list_all (\<lambda>c. c < 128) (lower ucd t) \<longrightarrow> length (lower ucd t) = length t)"

lemma normalize_InrD:
  assumes "normalize_display_filename ucd filename = Inr (name, ext)"
  obtains f k where "filename = Some f" "\<not> unsafe_filename ucd (ustrip (nfkc ucd f))"
    "rfind 46 (ustrip (nfkc ucd f)) = Some (Suc k)"
    "ext = lower ucd (drop (Suc k) (ustrip (nfkc ucd f)))"
    "ext \<in> fst ` set MEDIA_TYPE_BY_EXTENSION"
    "name = take (Suc k) (ustrip (nfkc ucd f)) @ ext"
proof -
  from assms obtain f where f: "filename = Some f"
    by (auto simp: normalize_display_filename_def split: option.splits)
  let ?n = "ustrip (nfkc ucd f)"
  from assms f have safe: "\<not> unsafe_filename ucd ?n"
    by (auto simp: normalize_display_filename_def Let_def)
  from assms f safe obtain k where k: "rfind 46 ?n = Some (Suc k)"
    by (auto simp: normalize_display_filename_def Let_def split: option.splits nat.splits)
  from assms f safe k have "ext = lower ucd (drop (Suc k) ?n)"
      and "ext \<in> fst ` set MEDIA_TYPE_BY_EXTENSION" and "name = take (Suc k) ?n @ ext"
    by (auto simp: normalize_display_filename_def Let_def split: if_splits)
  with f safe k show thesis by (rule that)
qed

lemma ustrip_hd: "ustrip t \<noteq> [] \<Longrightarrow> \<not> is_space (hd (ustrip t))"
  by (metis strip_by_hd ustrip_def)

lemma extension_text: "e \<in> fst ` set MEDIA_TYPE_BY_EXTENSION \<Longrightarrow>
    list_all (\<lambda>c. c < 128) e \<and> 0 \<notin> set e \<and> 47 \<notin> set e \<and> 92 \<notin> set e"
  using extension_lengths by (force simp: list_all_iff)

lemma accepted_filename:
  assumes "ucd_laws ucd" and "normalize_display_filename ucd filename = Inr (name, ext)"
  shows "name \<noteq> [] \<and> length name \<le> 200 \<and> name = pg_trim name \<and>
    0 \<notin> set name \<and> 47 \<notin> set name \<and> 92 \<notin> set name"
proof -
  from assms(2) obtain f k where f: "\<not> unsafe_filename ucd (ustrip (nfkc ucd f))"
      "rfind 46 (ustrip (nfkc ucd f)) = Some (Suc k)"
      "ext = lower ucd (drop (Suc k) (ustrip (nfkc ucd f)))"
      "ext \<in> fst ` set MEDIA_TYPE_BY_EXTENSION" "name = take (Suc k) (ustrip (nfkc ucd f)) @ ext"
    by (rule normalize_InrD)
  define n where "n = ustrip (nfkc ucd f)"
  note f = f [folded n_def]
  note ext = extension_text [OF f(4)] extension_lengths [OF f(4)]
  have k: "Suc k < length n" using rfind_Some [OF f(2)] by simp
  then have "n \<noteq> []" by auto
  with k have hd: "hd name = hd n" "name \<noteq> []" using f(5) by (simp_all add: hd_append)
  have last: "last name = last ext" using f(5) ext(2) by simp
  have len: "length ext = length n - Suc k"
    using assms(1) ext(1) f(3) unfolding ucd_laws_def by (metis length_drop)
  have nul: "0 \<notin> set n" using f(1) assms(1)
    by (auto simp: unsafe_filename_def ucd_laws_def list_ex_iff)
  have sub: "set (take (Suc k) n) \<subseteq> set n" by (rule set_take_subset)
  have "\<not> is_space (hd n)" using \<open>n \<noteq> []\<close> unfolding n_def by (rule ustrip_hd)
  moreover have "is_space 32" by (simp add: is_space_def)
  ultimately have "hd name \<noteq> 32" using hd(1) by metis
  then have "name = pg_trim name" using last ext(2) hd(2) by (simp add: pg_trim_def strip_by_fix)
  moreover have "length name \<le> 200" using f(1,5) len k
    by (simp add: unsafe_filename_def DISPLAY_FILENAME_MAX_CHARS_def)
  moreover have "0 \<notin> set name \<and> 47 \<notin> set name \<and> 92 \<notin> set name"
    using f(1,5) ext(1) nul sub by (auto simp: unsafe_filename_def)
  ultimately show ?thesis using hd(2) by simp
qed

subsection \<open>Rows of an upload\<close>

lemma version_ok_more_documents:
  "version_ok s r \<Longrightarrow> version_ok (s\<lparr>documents := documents s @ ds\<rparr>) r"
  by (auto simp: version_ok_def has_org_def)

lemma intent_ok_more_versions:
  "intent_ok s r \<Longrightarrow> intent_ok (s\<lparr>document_versions := document_versions s @ vs\<rparr>) r"
  by (auto simp: intent_ok_def)

lemma db_ok_document_append:
  assumes "db_ok s" and "document_ok s d" and "document_types d" and "d_external_id d = None"
    and "d_id d \<notin> d_id ` set (documents s)"
  shows "db_ok (s\<lparr>documents := documents s @ [d]\<rparr>)"
  using assms by (auto simp: db_ok_defs unique_opt_def list_all_iff version_ok_more_documents)

lemma db_ok_version_append:
  assumes "db_ok s" and "version_ok s v" and "version_types v"
    and "v_id v \<notin> v_id ` set (document_versions s)"
    and "v_storage_key v \<notin> v_storage_key ` set (document_versions s)"
    and "v_document_id v \<notin> v_document_id ` set (document_versions s)"
  shows "db_ok (s\<lparr>document_versions := document_versions s @ [v]\<rparr>)"
proof -
  have "(v_organization_id v, v_document_id v, v_version_number v) \<notin>
      (\<lambda>r. (v_organization_id r, v_document_id r, v_version_number r)) ` set (document_versions s)"
    using assms(6) by auto
  with assms show ?thesis by (simp add: db_ok_defs list_all_iff intent_ok_more_versions)
qed

lemma db_ok_intent_append:
  assumes "db_ok s" and "intent_ok s i" and "intent_types i"
    and "i_id i \<notin> i_id ` set (ingestion_intents s)"
    and "i_task_id i \<notin> i_task_id ` set (ingestion_intents s)"
    and "(i_organization_id i, i_document_version_id i) \<notin>
      (\<lambda>r. (i_organization_id r, i_document_version_id r)) ` set (ingestion_intents s)"
  shows "db_ok (s\<lparr>ingestion_intents := ingestion_intents s @ [i]\<rparr>)"
  using assms by (simp add: db_ok_defs)

lemma version_document_exists: "db_ok s \<Longrightarrow> v \<in> set (document_versions s) \<Longrightarrow>
    v_document_id v \<in> d_id ` set (documents s)"
  by (drule (1) db_ok_version) (simp add: version_ok_def list_ex_iff, metis image_eqI)

lemma intent_refers_to_version: "db_ok s \<Longrightarrow> i \<in> set (ingestion_intents s) \<Longrightarrow>
    i_document_version_id i \<in> v_id ` set (document_versions s)"
  by (drule (1) db_ok_intent) (simp add: intent_ok_def list_ex_iff, metis image_eqI)

definition fresh_for :: "fresh_ids \<Rightarrow> uuid \<Rightarrow> db \<Rightarrow> bool" where
  \<comment> \<open>the \<open>uuid4\<close> values drawn by one upload do not occur yet\<close>
  "fresh_for ids org s \<longleftrightarrow>
     f_document ids \<notin> d_id ` set (documents s) \<and>
     f_version ids \<notin> v_id ` set (document_versions s) \<and>
     f_event ids \<notin> a_id ` set (audit_events s) \<and>
     f_intent ids \<notin> i_id ` set (ingestion_intents s) \<and>
     uuid_str (f_task ids) \<notin> i_task_id ` set (ingestion_intents s) \<and>
     build_storage_key org (f_document ids) (f_version ids) \<notin>
       v_storage_key ` set (document_versions s)"

lemma space_free_trim: "CHR '' '' \<notin> set t \<Longrightarrow> pg_trim_s t = t"
  unfolding pg_trim_s_def
  by (cases "t = []") (simp add: strip_by_def, metis (full_types) hd_in_set last_in_set strip_by_fix)

lemma uuid_str_stripped: "sstrip (uuid_str n) = uuid_str n"
proof -
  have ns: "c \<in> set (uuid_str n) \<Longrightarrow> \<not> is_space (of_char c)" for c
    using set_uuid_str [of n] by (auto simp: HEX_def is_space_def)
  show ?thesis unfolding sstrip_def by (rule strip_by_fix) (simp_all add: ns)
qed

lemma storage_key_clean: "CHR '' '' \<notin> set (build_storage_key org d v)"
    "CHR 0x00 \<notin> set (build_storage_key org d v)" "length (build_storage_key org d v) = 143"
    "build_storage_key org d v \<noteq> []"
  by (simp_all add: build_storage_key_def uuid_str_clean)

subsection \<open>Staging and committing an upload\<close>

lemma stage_document_upload_InrD:
  assumes "stage_document_upload ucd sha256 filename source max_bytes = Inr staged"
  obtains ext where "normalize_display_filename ucd filename = Inr (vu_display_filename staged, ext)"
    "map_of MEDIA_TYPE_BY_EXTENSION ext = Some (vu_media_type staged)"
    "read_bounded max_bytes source [] = ReadOk (vu_stream staged)" "vu_stream staged \<noteq> []"
    "validate_content (vu_media_type staged) (vu_stream staged) = Inr ()"
    "vu_size_bytes staged = int (length (vu_stream staged))"
    "vu_content_sha256 staged = sha256 (vu_stream staged)"
  using assms unfolding stage_document_upload_def
  by (auto split: sum.splits option.splits read_outcome.splits if_splits)

lemma read_bounded_length:
  "read_bounded limit source staged = ReadOk b \<Longrightarrow> int (length staged) \<le> limit \<Longrightarrow>
   int (length b) \<le> limit"
  by (induction limit source staged rule: read_bounded.induct) (auto split: if_splits)

lemma read_bounded_content:
  "read_bounded limit source staged = ReadOk b \<Longrightarrow>
   \<exists>k \<le> length source. (\<forall>c \<in> set (take k source). c \<noteq> None \<and> c \<noteq> Some []) \<and>
     b = staged @ concat (map the (take k source)) \<and>
     (k = length source \<or> source ! k = Some [])"
proof (induction limit source staged rule: read_bounded.induct)
  case (3 limit chunk rest staged)
  show ?case
  proof (cases "chunk = []")
    case True
    with "3.prems" show ?thesis by (intro exI [of _ 0]) auto
  next
    case False
    with "3.prems" have "\<not> limit < int (length staged + length chunk)"
      "read_bounded limit rest (staged @ chunk) = ReadOk b" by (auto split: if_splits)
    from "3.IH" [OF False this] obtain k where k: "k \<le> length rest"
      "\<forall>c \<in> set (take k rest). c \<noteq> None \<and> c \<noteq> Some []"
      "b = (staged @ chunk) @ concat (map the (take k rest))"
      "k = length rest \<or> rest ! k = Some []" by blast
    with False show ?thesis by (intro exI [of _ "Suc k"]) auto
  qed
qed auto

definition upload_rows :: "instant \<Rightarrow> fresh_ids \<Rightarrow> uuid \<Rightarrow> document \<Rightarrow> document_version \<Rightarrow> db \<Rightarrow> db" where
  \<comment> \<open>the rows one accepted upload adds\<close>
  "upload_rows now ids org document version s =
     s\<lparr>documents := documents s @ [document],
       document_versions := document_versions s @ [version],
       audit_events := audit_events s @
         [\<lparr>a_id = f_event ids, a_organization_id = org,
           a_actor_user_id = Some (d_created_by_user_id document),
           a_action = audit_action_value DOCUMENT_UPLOADED,
           a_resource_type = audit_resource_value DOCUMENT, a_resource_id = Some (d_id document),
           a_metadata = [(''version_number'', MInt (v_version_number version)),
             (''media_type'', MStr (media_type_value (v_media_type version))),
             (''size_bytes'', MInt (v_size_bytes version))],
           a_created_at = now\<rparr>],
       ingestion_intents := ingestion_intents s @
         [new_intent now (f_intent ids) org (v_id version) (uuid_str (f_task ids))]\<rparr>"

lemma flush_Inr_iff [simp]: "flush s = Inr s' \<longleftrightarrow> db_ok s \<and> s' = s"
  by (cases "db_ok s") (auto simp: flush_def split: sum.splits dest: commit_InlD)

lemma lift_audit_Inr_iff [simp]: "lift_audit r = Inr s \<longleftrightarrow> r = Inr s"
  by (auto simp: lift_audit_def split: sum.splits)

lemma stage_upload_Inr:
  "stage_upload_with_intent now ids org document version s = Inr s' \<Longrightarrow>
   s' = upload_rows now ids org document version s \<and> db_ok s'"
  by (auto simp: stage_upload_with_intent_def bindE_Inr_iff record_document_uploaded_def
      record_event_Inr intent_add_def upload_rows_def split: if_splits)

lemma media_types_listed: "media_type_value m \<in> set DOCUMENT_MEDIA_TYPES"
  by (cases m) (simp_all add: DOCUMENT_MEDIA_TYPES_def)

lemma is_hex64_vchar: "is_hex64 t \<Longrightarrow> vchar 64 t"
proof -
  assume t: "is_hex64 t"
  then have "c \<in> set t \<Longrightarrow> c \<in> set ''0123456789abcdef''" for c
    by (simp only: is_hex64_def list_all_iff)
  from this [of "CHR 0x00"] t show "vchar 64 t" by (auto simp: vchar_def is_hex64_def)
qed

lemma new_intent_ok:
  assumes "version \<in> set (document_versions s)" and "v_organization_id version = org"
  shows "intent_ok s (new_intent now iid org (v_id version) (uuid_str task))"
    and "intent_types (new_intent now iid org (v_id version) (uuid_str task))"
  using assms by (auto simp: intent_ok_def new_intent_def intent_types_def vchar_def list_ex_iff
      space_free_trim uuid_str_clean)

lemma upload_rows_ok:
  assumes "db_ok s" and "has_member s org actor" and "has_org s org" and "fresh_for ids org s"
    and "name \<noteq> []" "length name \<le> 200" "name = pg_trim name" "0 \<notin> set name"
    and "0 < vu_size_bytes staged" "vu_size_bytes staged \<le> MAX_DOCUMENT_BYTES"
    and "is_hex64 (vu_content_sha256 staged)"
    and d: "d = new_document now (f_document ids) org name actor"
    and v: "v = new_version now (f_version ids) org (f_document ids)
      (build_storage_key org (f_document ids) (f_version ids)) staged"
  shows "db_ok (s\<lparr>documents := documents s @ [d], document_versions := document_versions s @ [v]\<rparr>)"
    and "db_ok (upload_rows now ids org d v s)"
proof -
  let ?s1 = "s\<lparr>documents := documents s @ [d]\<rparr>"
  let ?s2 = "?s1\<lparr>document_versions := document_versions ?s1 @ [v]\<rparr>"
  have "document_ok s d" "document_types d"
    using assms(2,3,5-8) by (simp_all add: d new_document_def document_ok_def document_types_def
        utext_def text_ok_def)
  then have s1: "db_ok ?s1"
    using assms(1,4) by (intro db_ok_document_append) (simp_all add: d new_document_def fresh_for_def)
  have "v_document_id v \<notin> v_document_id ` set (document_versions s)"
    using assms(1,4) version_document_exists by (auto simp: v new_version_def fresh_for_def)
  moreover have "version_ok ?s1 v"
    using assms(3,9-11) by (simp add: version_ok_def v d new_version_def new_document_def
        space_free_trim storage_key_clean)
  moreover have "version_types v"
    using assms(11) by (simp add: version_types_def v new_version_def is_hex64_vchar vchar_def
        storage_key_clean is_hex64_vchar [unfolded vchar_def])
  ultimately show s2: "db_ok (s\<lparr>documents := documents s @ [d],
      document_versions := document_versions s @ [v]\<rparr>)"
    using db_ok_version_append [OF s1, of v] assms(4) by (simp add: fresh_for_def v new_version_def)
  define s3 where "s3 = ?s2\<lparr>ingestion_intents := ingestion_intents s @
    [new_intent now (f_intent ids) org (v_id v) (uuid_str (f_task ids))]\<rparr>"
  have "f_version ids \<notin> i_document_version_id ` set (ingestion_intents s)"
    using assms(1,4) intent_refers_to_version by (force simp: fresh_for_def)
  then have "db_ok s3"
    using db_ok_intent_append [of ?s2 "new_intent now (f_intent ids) org (v_id v) (uuid_str (f_task ids))"]
      s2 assms(4) new_intent_ok [of v ?s2 org now "f_intent ids" "f_task ids"]
    by (auto simp: s3_def fresh_for_def new_intent_def v new_version_def)
  moreover have "has_org s3 org" "has_member s3 org actor" "f_event ids \<notin> a_id ` set (audit_events s3)"
    using assms(2-4) by (simp_all add: s3_def fresh_for_def)
  ultimately have ok: "record_event now (f_event ids) org act (Some actor) rt rid md s3 = Inr t \<Longrightarrow> db_ok t"
    for act rt rid md t
    using record_event_db_ok [of s3 org "f_event ids" "Some actor"] by blast
  have "record_event now (f_event ids) org DOCUMENT_UPLOADED (Some actor) DOCUMENT (Some (d_id d))
      [(''version_number'', MInt (v_version_number v)),
       (''media_type'', MStr (media_type_value (v_media_type v))),
       (''size_bytes'', MInt (v_size_bytes v))] s3 = Inr (upload_rows now ids org d v s)"
    by (simp add: record_event_Inr s3_def upload_rows_def d new_document_def)
  then show "db_ok (upload_rows now ids org d v s)" by (rule ok)
qed

lemma member_org: "db_ok s \<Longrightarrow> has_member s org actor \<Longrightarrow> has_org s org"
  by (auto simp: db_ok_defs has_member_def list_ex_iff list_all_iff member_ok_def)

lemma stage_upload_ok:
  assumes "db_ok s" and "has_member s org actor" and "fresh_for ids org s" and "ucd_laws ucd"
    and "\<forall>b. is_hex64 (sha256 b)" and "max_bytes \<le> MAX_DOCUMENT_BYTES"
    and staged: "stage_document_upload ucd sha256 filename source max_bytes = Inr staged"
    and d: "d = new_document now (f_document ids) org (vu_display_filename staged) actor"
    and v: "v = new_version now (f_version ids) org (f_document ids)
      (build_storage_key org (f_document ids) (f_version ids)) staged"
  shows "stage_upload_with_intent now ids org d v s = Inr (upload_rows now ids org d v s)"
    and "db_ok (upload_rows now ids org d v s)"
proof -
  from staged obtain ext where
    x: "normalize_display_filename ucd filename = Inr (vu_display_filename staged, ext)"
      "read_bounded max_bytes source [] = ReadOk (vu_stream staged)" "vu_stream staged \<noteq> []"
      "vu_size_bytes staged = int (length (vu_stream staged))"
      "vu_content_sha256 staged = sha256 (vu_stream staged)"
    by (rule stage_document_upload_InrD)
  have size: "0 < vu_size_bytes staged" using x(3,4) by simp
  have "vu_size_bytes staged \<le> MAX_DOCUMENT_BYTES"
  proof (cases "0 \<le> max_bytes")
    case True
    then show ?thesis using read_bounded_length [OF x(2)] x(4) assms(6) by simp
  next
    case False
    then show ?thesis using x(2,3) by (cases source; cases "hd source") (auto split: if_splits)
  qed
  note rows = upload_rows_ok [OF assms(1,2) member_org [OF assms(1,2)] assms(3), OF _ _ _ _ size this
    _ d v]
  have name: "vu_display_filename staged \<noteq> []" "length (vu_display_filename staged) \<le> 200"
      "vu_display_filename staged = pg_trim (vu_display_filename staged)"
      "0 \<notin> set (vu_display_filename staged)"
    using accepted_filename [OF assms(4) x(1)] by blast+
  have hex: "is_hex64 (vu_content_sha256 staged)" using assms(5) x(5) by simp
  show ok: "db_ok (upload_rows now ids org d v s)" by (rule rows(2) [OF name hex])
  have fields: "d_organization_id d = org" "v_organization_id v = org" "v_document_id v = d_id d"
      "v_status v = QUEUED" "v_processing_task_id v = None" "v_attempt_count v = 0"
      "v_version_number v = 1" "0 < v_size_bytes v"
    using size by (simp_all add: d v new_document_def new_version_def)
  show "stage_upload_with_intent now ids org d v s = Inr (upload_rows now ids org d v s)"
    using rows(1) [OF name hex] ok fields uuid_str_stripped [of "f_task ids"]
    by (simp add: stage_upload_with_intent_def bindE_Inr_iff record_document_uploaded_def
        media_types_listed record_event_Inr intent_add_def upload_rows_def)
qed

subsection \<open>The outcome of an upload\<close>

text \<open>What the service makes of any storage adapter, whatever fails.\<close>

context document_storage begin

lemma stored_after_upload:
  assumes "create_upload ucd sha256 put delete max_bytes fault now ids org actor filename source st s =
      (Inr (d, v), st', s')"
  shows "\<exists>b. open_key (v_storage_key v) st' = Inr b \<and> v_size_bytes v = int (length b) \<and>
      v_content_sha256 v = sha256 b"
  using assms put_open unfolding create_upload_def
  by (auto simp: Let_def new_version_def split: sum.splits db_fault.splits
      elim!: stage_document_upload_InrD)

lemma rows_after_upload:
  assumes "create_upload ucd sha256 put delete max_bytes fault now ids org actor filename source st s =
      (Inr (d, v), st', s')"
  shows "s' = upload_rows now ids org d v s \<and> db_ok s' \<and>
    v_storage_key v = build_storage_key org (f_document ids) (f_version ids)"
  using assms unfolding create_upload_def
  by (auto simp: Let_def new_version_def dest!: stage_upload_Inr split: sum.splits db_fault.splits)

lemma failed_upload:
  \<comment> \<open>an object stays behind only when the transaction failed and its removal was refused too\<close>
  assumes "create_upload ucd sha256 put delete max_bytes fault now ids org actor filename source st s =
      (Inl e, st', s')"
    and "fault \<noteq> AckLost"
    and "\<And>c. open_key (build_storage_key org (f_document ids) (f_version ids)) st \<noteq> Inr c"
  shows "s' = s \<and> (open_key (build_storage_key org (f_document ids) (f_version ids)) st' = Inr c \<longrightarrow>
    e = DocumentPersistenceError \<and>
    (\<exists>x. delete (build_storage_key org (f_document ids) (f_version ids)) st' = Inl x))"
proof -
  let ?k = "build_storage_key org (f_document ids) (f_version ids)"
  have gone: "\<exists>x. delete ?k (delete_after_failed_persistence delete ?k st1) = Inl x"
    if "open_key ?k (delete_after_failed_persistence delete ?k st1) = Inr c" for st1
    using that delete_gone unfolding delete_after_failed_persistence_def by (fastforce split: sum.splits)
  show ?thesis
    using assms gone unfolding create_upload_def
    by (auto simp: Let_def split: sum.splits db_fault.splits)
qed

lemma others_after_upload:
  assumes "create_upload ucd sha256 put delete max_bytes fault now ids org actor filename source st s =
      (r, st', s')"
    and "open_key k st = Inr c"
    and "locate k \<noteq> locate (build_storage_key org (f_document ids) (f_version ids))"
  shows "open_key k st' = Inr c"
proof -
  let ?k = "build_storage_key org (f_document ids) (f_version ids)"
  have put: "open_key k st1 = Inr c" if "put ?k b st = Inr st1" for b st1
    using put_keeps [OF that assms(2,3)] .
  have del: "open_key k (delete_after_failed_persistence delete ?k st1) = Inr c"
    if "put ?k b st = Inr st1" for b st1
    using put [OF that] delete_keeps [OF _ put [OF that] assms(3)]
    unfolding delete_after_failed_persistence_def by (auto split: sum.split)
  show ?thesis
    using assms(1,2) put del unfolding create_upload_def
    by (auto simp: Let_def split: sum.splits db_fault.splits)
qed

end

lemma filter_product_last:
  assumes "\<And>x y. x \<in> set xs \<Longrightarrow> \<not> p (x, y)" and "\<And>y. y \<in> set ys \<Longrightarrow> \<not> p (a, y)" and "p (a, b)"
  shows "filter p (List.product (xs @ [a]) (ys @ [b])) = [(a, b)]"
proof -
  have "filter p (List.product xs (ys @ [b])) = []" using assms(1) by (auto simp: filter_empty_conv)
  moreover have "filter p (map (Pair a) ys) = []" using assms(2) by (auto simp: filter_empty_conv)
  ultimately show ?thesis using assms(3) by (simp add: product_concat_map)
qed

lemma get_status_after_upload:
  assumes "d_id d \<notin> d_id ` set (documents s)" and "v_document_id v \<notin> v_document_id ` set (document_versions s)"
    and "d_organization_id d = org" "v_organization_id v = org" "v_document_id v = d_id d"
  shows "get_status org (d_id d) (upload_rows now ids org d v s) = Inr (d, v)"
proof -
  have fresh: "x \<in> set (documents s) \<Longrightarrow> d_id x \<noteq> d_id d"
      "y \<in> set (document_versions s) \<Longrightarrow> v_document_id y \<noteq> d_id d" for x y
    using assms(1,2,5) by (metis image_eqI)+
  have "filter (\<lambda>(d', v'). v_organization_id v' = d_organization_id d' \<and> v_document_id v' = d_id d' \<and>
             d_organization_id d' = org \<and> d_id d' = d_id d \<and> v_organization_id v' = org)
           (List.product (documents s @ [d]) (document_versions s @ [v])) = [(d, v)]"
    by (rule filter_product_last) (use fresh assms(3-5) in auto)
  then show ?thesis
    by (simp add: get_status_def get_with_latest_version_def upload_rows_def order_by_desc_def)
qed

text \<open>
  C7. A valid upload by a member of the organization, under fresh identifiers, is always
  accepted: the transaction commits (every declared constraint holds afterwards), exactly the
  document, its first version in state \<open>queued\<close>, the audit event and the ingestion intent are
  added, and the status endpoint finds the new version. The hypotheses on \<open>ucd\<close> and \<open>sha256\<close> are
  documented facts of \<open>unicodedata\<close>/\<open>str.lower\<close> and \<open>hashlib\<close>.
\<close>

theorem upload_accepted:
  assumes "db_ok s" and "has_member s org actor" and "fresh_for ids org s"
    and "ucd_laws ucd" and "\<forall>b. is_hex64 (sha256 b)" and "max_bytes \<le> MAX_DOCUMENT_BYTES"
    and "stage_document_upload ucd sha256 filename source max_bytes = Inr staged"
    and "put (build_storage_key org (f_document ids) (f_version ids)) (vu_stream staged) st = Inr st1"
  shows "\<exists>d v. create_upload ucd sha256 put delete max_bytes NoFault now ids org actor filename source st s =
        (Inr (d, v), st1, upload_rows now ids org d v s) \<and>
      db_ok (upload_rows now ids org d v s) \<and> v_status v = QUEUED \<and>
      d_display_filename d = vu_display_filename staged \<and>
      get_status org (d_id d) (upload_rows now ids org d v s) = Inr (d, v)"
proof -
  define d where "d = new_document now (f_document ids) org (vu_display_filename staged) actor"
  define v where "v = new_version now (f_version ids) org (f_document ids)
    (build_storage_key org (f_document ids) (f_version ids)) staged"
  note ok = stage_upload_ok [OF assms(1-7) d_def v_def]
  have "f_document ids \<notin> v_document_id ` set (document_versions s)"
    using assms(1,3) version_document_exists by (force simp: fresh_for_def)
  then have "get_status org (d_id d) (upload_rows now ids org d v s) = Inr (d, v)"
    using assms(3)
    by (intro get_status_after_upload) (simp_all add: d_def v_def new_document_def new_version_def fresh_for_def)
  moreover have "create_upload ucd sha256 put delete max_bytes NoFault now ids org actor filename source st s =
        (Inr (d, v), st1, upload_rows now ids org d v s)"
    using ok(1) assms(7,8) by (simp add: create_upload_def Let_def flip: d_def v_def)
  ultimately show ?thesis
    using ok(2) by (intro exI [of _ d] exI [of _ v]) (simp add: d_def v_def new_document_def new_version_def)
qed

text \<open>A concrete upload: the two-byte file \<open>a.md\<close> of administrator 10 in \<open>sample_db\<close>.\<close>

definition sample_ucd :: unicode_data where
  "sample_ucd = \<lparr>nfkc = id, category_other = (\<lambda>c. c < 32),
     lower = map (\<lambda>c. if 65 \<le> c \<and> c \<le> 90 then c + 32 else c)\<rparr>"

definition sample_sha :: "byte list \<Rightarrow> string" where
  "sample_sha b = replicate 64 (CHR ''0'')"

definition sample_ids :: fresh_ids where
  "sample_ids = \<lparr>f_document = 100, f_version = 101, f_event = 102, f_intent = 103, f_task = 104\<rparr>"

definition sample_staged :: validated_upload where
  "sample_staged = \<lparr>vu_display_filename = u ''a.md'', vu_media_type = MARKDOWN, vu_size_bytes = 2,
     vu_content_sha256 = sample_sha [104, 105], vu_stream = [104, 105]\<rparr>"

lemma sample_laws: "ucd_laws sample_ucd" "is_hex64 (sample_sha b)" "fresh_for sample_ids 1 sample_db"
  by (simp_all add: ucd_laws_def sample_ucd_def is_hex64_def sample_sha_def list_all_iff fresh_for_def)

lemma sample_stage: "stage_document_upload sample_ucd sample_sha (Some (u ''a.md'')) [Some [104, 105]] 100 =
    Inr sample_staged"
  by (simp add: stage_document_upload_def normalize_display_filename_def sample_ucd_def u_def
      ustrip_def strip_by_def is_space_def unsafe_filename_def DISPLAY_FILENAME_MAX_CHARS_def
      MEDIA_TYPE_BY_EXTENSION_def validate_content_def PDF_PREFIX_def sample_staged_def
      utf8_decode.simps Let_def)

theorem upload_accepted_witness:
  "\<exists>d v st. create_upload sample_ucd sample_sha memory_put memory_delete 100 NoFault 7 sample_ids 1 10
       (Some (u ''a.md'')) [Some [104, 105]] Map.empty sample_db =
     (Inr (d, v), st, upload_rows 7 sample_ids 1 d v sample_db) \<and>
     get_status 1 (d_id d) (upload_rows 7 sample_ids 1 d v sample_db) = Inr (d, v)"
proof -
  obtain st where "memory_put (build_storage_key 1 (f_document sample_ids) (f_version sample_ids))
      (vu_stream sample_staged) Map.empty = Inr st"
    by (simp add: memory_put_def validate_built_key)
  from upload_accepted [OF sample_db_ok sample_members(1) sample_laws(3,1) _ _ sample_stage,
      of memory_put "Map.empty", OF _ _ this, where delete = memory_delete and now = 7]
  show ?thesis by (fastforce simp: sample_laws MAX_DOCUMENT_BYTES_def)
qed

lemma refused_delete: "local_open k fs = Inr c \<Longrightarrow> local_delete unlink_ok k fs = Inl x \<Longrightarrow> \<not> unlink_ok"
  by (auto simp: local_open_def local_delete_def bindE_Inr_iff split: if_splits)

text \<open>
  C8. An upload over the local storage adapter is all or nothing, whatever the file name, the source,
  the copy and the removal of the file do, as long as the outcome of the commit is known: on success
  the rows of the upload are in the database and the stored object has the recorded size and digest;
  on every error the database is unchanged, and an object stays behind under the key in one case
  only: the transaction failed and the operating system then refused to remove the file (the service
  logs that and goes on). Objects of other keys are readable as before in every case.
\<close>

theorem upload_atomic:
  assumes "create_upload ucd sha256 (local_put copy_ok) (local_delete unlink_ok) max_bytes fault now ids org actor
      filename source fs s = (r, fs', s')"
    and "fault \<noteq> AckLost"
    and "\<forall>c. local_open (build_storage_key org (f_document ids) (f_version ids)) fs \<noteq> Inr c"
  shows "(case r of
       Inl e \<Rightarrow> s' = s \<and>
         (\<forall>c. local_open (build_storage_key org (f_document ids) (f_version ids)) fs' = Inr c \<longrightarrow>
            e = DocumentPersistenceError \<and> \<not> unlink_ok)
     | Inr (d, v) \<Rightarrow> s' = upload_rows now ids org d v s \<and> db_ok s' \<and>
         (\<exists>b. local_open (v_storage_key v) fs' = Inr b \<and> v_size_bytes v = int (length b) \<and>
            v_content_sha256 v = sha256 b)) \<and>
     (\<forall>k c. local_open k fs = Inr c \<and> validate_storage_key k \<noteq>
        validate_storage_key (build_storage_key org (f_document ids) (f_version ids)) \<longrightarrow>
        local_open k fs' = Inr c)"
proof (cases r)
  case (Inl e)
  have "s' = s \<and> (\<forall>c. local_open (build_storage_key org (f_document ids) (f_version ids)) fs' = Inr c \<longrightarrow>
      e = DocumentPersistenceError \<and> \<not> unlink_ok)"
    using local.failed_upload [OF assms(1) [unfolded Inl] assms(2)] assms(3) refused_delete by blast
  with local.others_after_upload [OF assms(1)] show ?thesis by (simp add: Inl)
next
  case (Inr dv)
  with assms(1) local.others_after_upload [OF assms(1)] show ?thesis
    by (cases dv) (auto dest: local.rows_after_upload local.stored_after_upload)
qed

theorem upload_atomic_witness:
  "\<exists>e fs'. create_upload sample_ucd sample_sha (local_put True) (local_delete True) 100 Aborted 7 sample_ids 1 10
       (Some (u ''a.md'')) [Some [104, 105]] [] sample_db = (Inl e, fs', sample_db)"
proof -
  obtain r fs' s' where run: "create_upload sample_ucd sample_sha (local_put True) (local_delete True) 100 Aborted
      7 sample_ids 1 10 (Some (u ''a.md'')) [Some [104, 105]] [] sample_db = (r, fs', s')"
    by (metis prod_cases3)
  have "\<exists>e. r = Inl e"
    using run sample_stage by (auto simp: create_upload_def Let_def split: sum.splits)
  then show ?thesis
    using upload_atomic [OF run] run by (auto simp: local_open_def bindE_def split: sum.splits)
qed

text \<open>
  C40. What the error handler does when the commit took effect but its acknowledgement was lost:
  the client is told 409, the version stays \<open>queued\<close> with its ingestion intent, and its object has
  been deleted, so the rows refer to content that no longer exists.
\<close>

theorem lost_acknowledgement:
  assumes "db_ok s" and "has_member s org actor" and "fresh_for ids org s"
    and "ucd_laws ucd" and "\<forall>b. is_hex64 (sha256 b)" and "max_bytes \<le> MAX_DOCUMENT_BYTES"
    and "stage_document_upload ucd sha256 filename source max_bytes = Inr staged"
  shows "\<exists>d v st'. create_upload ucd sha256 memory_put memory_delete max_bytes AckLost now ids org actor
        filename source st s = (Inl DocumentPersistenceError, st', upload_rows now ids org d v s) \<and>
      v \<in> set (document_versions (upload_rows now ids org d v s)) \<and> v_status v = QUEUED \<and>
      memory_open (v_storage_key v) st' = Inl StorageMissing \<and>
      h_status (upload_http_error DocumentPersistenceError) = 409"
proof -
  let ?k = "build_storage_key org (f_document ids) (f_version ids)"
  define d where "d = new_document now (f_document ids) org (vu_display_filename staged) actor"
  define v where "v = new_version now (f_version ids) org (f_document ids) ?k staged"
  note ok = stage_upload_ok [OF assms d_def v_def]
  have "create_upload ucd sha256 memory_put memory_delete max_bytes AckLost now ids org actor
      filename source st s = (Inl DocumentPersistenceError, st(?k := None), upload_rows now ids org d v s)"
    using ok(1) assms(7)
    by (simp add: create_upload_def Let_def memory_put_def memory_delete_def validate_built_key
        delete_after_failed_persistence_def flip: d_def v_def)
  moreover have "memory_open ?k (st(?k := None)) = Inl StorageMissing"
    by (simp add: memory_open_def validate_built_key)
  ultimately show ?thesis
    by (intro exI [of _ d] exI [of _ v] exI [of _ "st(?k := None)"])
      (simp add: v_def new_version_def upload_rows_def upload_http_error_def)
qed

theorem lost_acknowledgement_witness:
  "\<exists>d v st'. create_upload sample_ucd sample_sha memory_put memory_delete 100 AckLost 7 sample_ids 1 10
       (Some (u ''a.md'')) [Some [104, 105]] Map.empty sample_db =
     (Inl DocumentPersistenceError, st', upload_rows 7 sample_ids 1 d v sample_db)"
  using lost_acknowledgement [OF sample_db_ok sample_members(1) sample_laws(3,1) _ _ sample_stage,
      where st = "Map.empty" and now = 7]
  by (fastforce simp: sample_laws MAX_DOCUMENT_BYTES_def)

text \<open>
  C37. The display name accepted for an upload is safe and storable: it is non-empty, has at most
  200 characters, no path separator and no \<open>NUL\<close>, is trimmed as the database check requires, and
  ends in the extension that decided its media type.
\<close>

theorem display_filename_safe:
  assumes "ucd_laws ucd" and "normalize_display_filename ucd filename = Inr (name, ext)"
  shows "name \<noteq> [] \<and> length name \<le> 200 \<and> name = pg_trim name \<and> 0 \<notin> set name \<and>
    47 \<notin> set name \<and> 92 \<notin> set name \<and> (\<exists>stem. stem \<noteq> [] \<and> name = stem @ ext) \<and>
    (\<exists>m. map_of MEDIA_TYPE_BY_EXTENSION ext = Some m)"
proof -
  from assms(2) obtain f k where f: "rfind 46 (ustrip (nfkc ucd f)) = Some (Suc k)"
      "ext \<in> fst ` set MEDIA_TYPE_BY_EXTENSION" "name = take (Suc k) (ustrip (nfkc ucd f)) @ ext"
    by (rule normalize_InrD)
  have "take (Suc k) (ustrip (nfkc ucd f)) \<noteq> []" using rfind_Some [OF f(1)] by auto
  moreover have "\<exists>m. map_of MEDIA_TYPE_BY_EXTENSION ext = Some m"
    using f(2) by (metis map_of_eq_None_iff not_Some_eq)
  ultimately show ?thesis using f(3) accepted_filename [OF assms] by blast
qed

theorem display_filename_safe_witness:
  "\<exists>name ext. normalize_display_filename sample_ucd (Some (u ''  Notes.PDF '')) = Inr (name, ext) \<and>
     name = pg_trim name \<and> 47 \<notin> set name"
proof -
  have "normalize_display_filename sample_ucd (Some (u ''  Notes.PDF '')) = Inr (u ''Notes.pdf'', u ''.pdf'')"
    by (simp add: normalize_display_filename_def sample_ucd_def u_def ustrip_def strip_by_def
        is_space_def unsafe_filename_def DISPLAY_FILENAME_MAX_CHARS_def MEDIA_TYPE_BY_EXTENSION_def
        Let_def)
  from display_filename_safe [OF sample_laws(1) this] this show ?thesis by blast
qed

end
