(* ===== verification/SF_Ingestion.thy ===== *)
theory SF_Ingestion
  imports SF_Upload Complex_Main
begin

text \<open>
  The worker: \<open>DocumentIngestionService\<close> of \<open>app/documents/ingestion.py\<close> and the Celery task of
  \<open>app/documents/tasks.py\<close>.

  Every method opens its own session, so each is one transaction. A \<open>tx\<close> gives what the outside
  world does to one transaction: its clock, the identifier of an audit row it may insert, the
  fault of the connection, and what other sessions committed just before it (\<open>tx_others\<close>).
  \<open>process\<close> and \<open>run_delivery\<close> compose the transactions the way the code does and so are open to
  every interleaving with other sessions. The storage, the scanner and the PDF reader are
  parameters collected in \<open>worker\<close>. Logging is left out.
\<close>

subsection \<open>Data\<close>

datatype ingestion_outcome =
  OutReady | OutFailed | AlreadyTerminal | OwnedByAnotherTask | NotFound

fun ingestion_outcome_value :: "ingestion_outcome \<Rightarrow> string" where
  "ingestion_outcome_value OutReady = ''ready''"
| "ingestion_outcome_value OutFailed = ''failed''"
| "ingestion_outcome_value AlreadyTerminal = ''already_terminal''"
| "ingestion_outcome_value OwnedByAnotherTask = ''owned_by_another_task''"
| "ingestion_outcome_value NotFound = ''not_found''"

datatype ingest_exn = RetryableIngestionError document_error_code | IngestAudit audit_error

record claimed_version =
  cl_organization_id :: uuid
  cl_document_id :: uuid
  cl_version_id :: uuid
  cl_version_number :: int
  cl_media_type :: document_media_type
  cl_storage_key :: string
  cl_size_bytes :: int
  cl_content_sha256 :: string
  cl_attempt_count :: int

datatype claim_result = ClaimRecord claimed_version | ClaimOutcome ingestion_outcome

datatype scan_result = CLEAN | INFECTED | UNAVAILABLE

record worker =
  open_source :: "string \<Rightarrow> storage_error + stream"
  scanner :: "byte list \<Rightarrow> scan_result option" \<comment> \<open>\<open>None\<close>: the scanner raised\<close>
  read_pdf :: pdf_library
  digest :: "byte list \<Rightarrow> string"
  limits :: extraction_limits
  worker_max_attempts :: int

record tx =
  tx_now :: instant
  tx_event :: uuid
  tx_fault :: db_fault
  tx_others :: "db \<Rightarrow> db"

subsection \<open>Transactions\<close>

definition db_unavailable :: ingest_exn where
  "db_unavailable = RetryableIngestionError DATABASE_UNAVAILABLE"

definition end_commit :: "db_fault \<Rightarrow> 'r \<Rightarrow> db \<Rightarrow> db \<Rightarrow> (ingest_exn + 'r) \<times> db" where
  \<comment> \<open>\<open>session.commit()\<close> of the pending state, then \<open>return\<close>; \<open>SQLAlchemyError\<close> is translated\<close>
  "end_commit fault result pending s =
     (case commit pending of
        Inl _ \<Rightarrow> (Inl db_unavailable, s)
      | Inr s' \<Rightarrow>
          (case fault of NoFault \<Rightarrow> (Inr result, s') | Aborted \<Rightarrow> (Inl db_unavailable, s)
           | AckLost \<Rightarrow> (Inl db_unavailable, s')))"

definition end_rollback :: "db_fault \<Rightarrow> 'r \<Rightarrow> db \<Rightarrow> (ingest_exn + 'r) \<times> db" where
  "end_rollback fault result s =
     (if fault = Aborted then (Inl db_unavailable, s) else (Inr result, s))"

definition load_locked :: "uuid \<Rightarrow> db \<Rightarrow> (document \<times> document_version) option" where
  \<comment> \<open>the primary keys make the joined row unique (\<open>one_or_none\<close>)\<close>
  "load_locked version_id s =
     find (\<lambda>(d, v). v_organization_id v = d_organization_id d \<and> v_document_id v = d_id d \<and>
        v_id v = version_id) (List.product (documents s) (document_versions s))"

definition is_owned_extraction :: "document_version \<Rightarrow> string \<Rightarrow> bool" where
  "is_owned_extraction v task_id \<longleftrightarrow>
     v_status v = EXTRACTING \<and> v_processing_task_id v = Some task_id"

definition record_of :: "document \<Rightarrow> document_version \<Rightarrow> claimed_version" where
  "record_of d v =
     \<lparr>cl_organization_id = d_organization_id d, cl_document_id = d_id d, cl_version_id = v_id v,
      cl_version_number = v_version_number v, cl_media_type = v_media_type v,
      cl_storage_key = v_storage_key v, cl_size_bytes = v_size_bytes v,
      cl_content_sha256 = v_content_sha256 v, cl_attempt_count = v_attempt_count v\<rparr>"

definition save_version :: "instant \<Rightarrow> document_version \<Rightarrow> db \<Rightarrow> db" where
  \<comment> \<open>\<open>UPDATE\<close> of a changed row, with \<open>updated_at\<close> set by \<open>onupdate\<close>\<close>
  "save_version now v s = s\<lparr>document_versions :=
     upd_row v_id (v_id v) (\<lambda>_. v\<lparr>v_updated_at := now\<rparr>) (document_versions s)\<rparr>"

definition exhausted_version :: "document_version \<Rightarrow> document_version" where
  "exhausted_version v = v\<lparr>v_status := FAILED,
     v_error_code := Some (error_code_value RETRY_EXHAUSTED), v_processing_task_id := None,
     v_processing_started_at := None, v_extracted_text := None\<rparr>"

definition extracting_version :: "instant \<Rightarrow> string \<Rightarrow> document_version \<Rightarrow> document_version" where
  "extracting_version now task_id v = v\<lparr>v_status := EXTRACTING,
     v_processing_task_id := Some task_id, v_attempt_count := v_attempt_count v + 1,
     v_error_code := None, v_processing_started_at := Some now\<rparr>"

definition claim :: "int \<Rightarrow> tx \<Rightarrow> uuid \<Rightarrow> string \<Rightarrow> db \<Rightarrow> (ingest_exn + claim_result) \<times> db" where
  "claim max_attempts t version_id task_id s =
     (case load_locked version_id s of
        None \<Rightarrow> end_rollback (tx_fault t) (ClaimOutcome NotFound) s
      | Some (document, version) \<Rightarrow>
          if terminal_status (v_status version)
          then end_rollback (tx_fault t) (ClaimOutcome AlreadyTerminal) s
          else if v_status version = EXTRACTING then
            if v_processing_task_id version \<noteq> Some task_id
            then end_rollback (tx_fault t) (ClaimOutcome OwnedByAnotherTask) s
            else end_commit (tx_fault t) (ClaimRecord (record_of document version)) s s
          else if max_attempts \<le> v_attempt_count version then
            (case record_document_failed (tx_now t) (tx_event t) (v_organization_id version)
                    (v_id version) (v_version_number version) (error_code_value RETRY_EXHAUSTED)
                    (v_attempt_count version) (save_version (tx_now t) (exhausted_version version) s)
             of Inl e \<Rightarrow> (Inl (IngestAudit e), s)
              | Inr pending \<Rightarrow> end_commit (tx_fault t) (ClaimOutcome OutFailed) pending s)
          else
            let version' = extracting_version (tx_now t) task_id version in
            end_commit (tx_fault t) (ClaimRecord (record_of document version'))
              (save_version (tx_now t) version' s) s)"

subsection \<open>The work between the transactions\<close>

datatype work_exn = WRetry document_error_code | WPermanent document_error_code

definition stage_verified_source :: "worker \<Rightarrow> claimed_version \<Rightarrow> work_exn + byte list" where
  \<comment> \<open>the copy loop is the one of the upload (\<open>read_bounded\<close>), bounded by the recorded size\<close>
  "stage_verified_source w rec =
     (case open_source w (cl_storage_key rec) of
        Inl _ \<Rightarrow> Inl (WRetry STORAGE_UNAVAILABLE)
      | Inr source \<Rightarrow>
          (case read_bounded (cl_size_bytes rec) source [] of
             ReadTooLarge \<Rightarrow> Inl (WPermanent EXTRACTION_FAILED)
           | ReadRaised \<Rightarrow> Inl (WRetry STORAGE_UNAVAILABLE)
           | ReadOk staged \<Rightarrow>
               if int (length staged) \<noteq> cl_size_bytes rec \<or> digest w staged \<noteq> cl_content_sha256 rec
               then Inl (WPermanent EXTRACTION_FAILED) else Inr staged))"

definition scan :: "worker \<Rightarrow> byte list \<Rightarrow> work_exn + unit" where
  "scan w source =
     (case scanner w source of
        None \<Rightarrow> Inl (WRetry SCANNER_UNAVAILABLE)
      | Some UNAVAILABLE \<Rightarrow> Inl (WRetry SCANNER_UNAVAILABLE)
      | Some INFECTED \<Rightarrow> Inl (WPermanent MALWARE_DETECTED)
      | Some CLEAN \<Rightarrow> Inr ())"

definition extract_text :: "worker \<Rightarrow> document_media_type \<Rightarrow> byte list \<Rightarrow> work_exn + ustr" where
  "extract_text w media_type source =
     (case registry_get (read_pdf w) media_type source (limits w) of
        Inl (Permanent code) \<Rightarrow> Inl (WPermanent code)
      | Inl SoftTimeLimitExceeded \<Rightarrow> Inl (WPermanent EXTRACTION_LIMIT_EXCEEDED)
      | Inl OtherException \<Rightarrow> Inl (WPermanent EXTRACTION_FAILED)
      | Inr t \<Rightarrow> Inr t)"

definition work :: "worker \<Rightarrow> claimed_version \<Rightarrow> work_exn + ustr" where
  \<comment> \<open>the \<open>try\<close> block of \<open>process\<close>\<close>
  "work w rec = bindE (stage_verified_source w rec) (\<lambda>source.
     bindE (scan w source) (\<lambda>_. extract_text w (cl_media_type rec) source))"

definition ready_version :: "ustr \<Rightarrow> document_version \<Rightarrow> document_version" where
  "ready_version t v = v\<lparr>v_status := READY, v_extracted_text := Some t, v_error_code := None,
     v_processing_task_id := None, v_processing_started_at := None\<rparr>"

definition mark_ready :: "tx \<Rightarrow> claimed_version \<Rightarrow> string \<Rightarrow> ustr \<Rightarrow> db \<Rightarrow> (ingest_exn + unit) \<times> db" where
  "mark_ready t rec task_id extracted_text s =
     (case load_locked (cl_version_id rec) s of
        None \<Rightarrow> end_rollback (tx_fault t) () s
      | Some (_, version) \<Rightarrow>
          if \<not> is_owned_extraction version task_id then end_rollback (tx_fault t) () s
          else
            (case record_document_ready (tx_now t) (tx_event t) (cl_organization_id rec)
                    (cl_version_id rec) (cl_version_number rec) (v_attempt_count version)
                    (int (length extracted_text))
                    (save_version (tx_now t) (ready_version extracted_text version) s)
             of Inl e \<Rightarrow> (Inl (IngestAudit e), s)
              | Inr pending \<Rightarrow> end_commit (tx_fault t) () pending s))"

definition failed_version :: "document_error_code \<Rightarrow> document_version \<Rightarrow> document_version" where
  "failed_version code v = v\<lparr>v_status := FAILED, v_extracted_text := None,
     v_error_code := Some (error_code_value code), v_processing_task_id := None,
     v_processing_started_at := None\<rparr>"

definition mark_failed :: "tx \<Rightarrow> claimed_version \<Rightarrow> string \<Rightarrow> document_error_code \<Rightarrow> db \<Rightarrow>
    (ingest_exn + unit) \<times> db" where
  "mark_failed t rec task_id code s =
     (case load_locked (cl_version_id rec) s of
        None \<Rightarrow> end_rollback (tx_fault t) () s
      | Some (_, version) \<Rightarrow>
          if \<not> is_owned_extraction version task_id then end_rollback (tx_fault t) () s
          else
            (case record_document_failed (tx_now t) (tx_event t) (cl_organization_id rec)
                    (cl_version_id rec) (cl_version_number rec) (error_code_value code)
                    (v_attempt_count version)
                    (save_version (tx_now t) (failed_version code version) s)
             of Inl e \<Rightarrow> (Inl (IngestAudit e), s)
              | Inr pending \<Rightarrow> end_commit (tx_fault t) () pending s))"

definition process :: "worker \<Rightarrow> tx \<Rightarrow> tx \<Rightarrow> uuid \<Rightarrow> string \<Rightarrow> db \<Rightarrow>
    (ingest_exn + ingestion_outcome) \<times> db" where
  "process w t1 t2 version_id task_id s =
     (case claim (worker_max_attempts w) t1 version_id task_id (tx_others t1 s) of
        (Inl e, s1) \<Rightarrow> (Inl e, s1)
      | (Inr (ClaimOutcome out), s1) \<Rightarrow> (Inr out, s1)
      | (Inr (ClaimRecord rec), s1) \<Rightarrow>
          (case work w rec of
             Inl (WRetry code) \<Rightarrow> (Inl (RetryableIngestionError code), s1)
           | Inl (WPermanent code) \<Rightarrow>
               (case mark_failed t2 rec task_id code (tx_others t2 s1) of
                  (Inl e, s2) \<Rightarrow> (Inl e, s2) | (Inr _, s2) \<Rightarrow> (Inr OutFailed, s2))
           | Inr t \<Rightarrow>
               (case mark_ready t2 rec task_id t (tx_others t2 s1) of
                  (Inl e, s2) \<Rightarrow> (Inl e, s2) | (Inr _, s2) \<Rightarrow> (Inr OutReady, s2))))"

subsection \<open>Retries\<close>

definition retry_version :: "document_error_code \<Rightarrow> document_version \<Rightarrow> document_version" where
  "retry_version code v = v\<lparr>v_status := QUEUED, v_processing_task_id := None,
     v_processing_started_at := None, v_error_code := Some (error_code_value code)\<rparr>"

definition prepare_retry :: "tx \<Rightarrow> uuid \<Rightarrow> string \<Rightarrow> document_error_code \<Rightarrow> db \<Rightarrow>
    (ingest_exn + unit) \<times> db" where
  "prepare_retry t version_id task_id code s =
     (case load_locked version_id s of
        None \<Rightarrow> end_rollback (tx_fault t) () s
      | Some (_, version) \<Rightarrow>
          if \<not> is_owned_extraction version task_id then end_rollback (tx_fault t) () s
          else end_commit (tx_fault t) () (save_version (tx_now t) (retry_version code version) s) s)"

definition owned_record :: "tx \<Rightarrow> uuid \<Rightarrow> string \<Rightarrow> db \<Rightarrow> (ingest_exn + claimed_version option) \<times> db" where
  "owned_record t version_id task_id s =
     (case load_locked version_id s of
        None \<Rightarrow> end_rollback (tx_fault t) None s
      | Some (document, version) \<Rightarrow>
          if \<not> is_owned_extraction version task_id then end_rollback (tx_fault t) None s
          else end_rollback (tx_fault t) (Some (record_of document version)) s)"

definition mark_retry_exhausted :: "tx \<Rightarrow> tx \<Rightarrow> uuid \<Rightarrow> string \<Rightarrow> db \<Rightarrow> (ingest_exn + unit) \<times> db" where
  "mark_retry_exhausted t1 t2 version_id task_id s =
     (case owned_record t1 version_id task_id (tx_others t1 s) of
        (Inl e, s1) \<Rightarrow> (Inl e, s1)
      | (Inr None, s1) \<Rightarrow> (Inr (), s1)
      | (Inr (Some rec), s1) \<Rightarrow> mark_failed t2 rec task_id RETRY_EXHAUSTED (tx_others t2 s1))"

definition round_half_even :: "real \<Rightarrow> int" where
  "round_half_even x = (let n = \<lfloor>x\<rfloor>; r = x - of_int n in
     if r < 1 / 2 then n else if 1 / 2 < r then n + 1 else if even n then n else n + 1)"

definition retry_countdown :: "real \<Rightarrow> int \<Rightarrow> real option \<Rightarrow> int" where
  \<comment> \<open>\<open>rnd\<close> is what \<open>random.random()\<close> returns; the product is taken exactly\<close>
  "retry_countdown rnd retry_number jitter =
     (let base = min 60 (2 ^ nat (max 0 retry_number));
          fraction = (case jitter of None \<Rightarrow> rnd | Some j \<Rightarrow> max 0 (min 1 j))
      in min 60 (base + round_half_even (of_int base * fraction)))"

datatype delivery_outcome =
    Acknowledged
  | RetryScheduled document_error_code int
  | DeliveryRaised ingest_exn

record delivery =
  dl_claim :: tx
  dl_mark :: tx
  dl_owned :: tx
  dl_exhaust :: tx
  dl_random :: real

definition run_delivery :: "worker \<Rightarrow> int \<Rightarrow> delivery \<Rightarrow> int \<Rightarrow> uuid \<Rightarrow> string \<Rightarrow> db \<Rightarrow>
    delivery_outcome \<times> db" where
  \<comment> \<open>\<open>retries\<close> is \<open>task.request.retries\<close>\<close>
  "run_delivery w max_retries dl retries version_id task_id s =
     (case process w (dl_claim dl) (dl_mark dl) version_id task_id s of
        (Inr _, s1) \<Rightarrow> (Acknowledged, s1)
      | (Inl (IngestAudit e), s1) \<Rightarrow> (DeliveryRaised (IngestAudit e), s1)
      | (Inl (RetryableIngestionError code), s1) \<Rightarrow>
          if max_retries \<le> retries then
            (case mark_retry_exhausted (dl_owned dl) (dl_exhaust dl) version_id task_id s1 of
               (Inl e, s2) \<Rightarrow> (DeliveryRaised e, s2) | (Inr _, s2) \<Rightarrow> (Acknowledged, s2))
          else
            (case prepare_retry (dl_owned dl) version_id task_id code (tx_others (dl_owned dl) s1) of
               (Inl (RetryableIngestionError _), s2) \<Rightarrow>
                 (RetryScheduled DATABASE_UNAVAILABLE (retry_countdown (dl_random dl) retries None), s2)
             | (Inl (IngestAudit e), s2) \<Rightarrow> (DeliveryRaised (IngestAudit e), s2)
             | (Inr _, s2) \<Rightarrow> (RetryScheduled code (retry_countdown (dl_random dl) retries None), s2)))"

datatype lock_outcome = LockAcquired | LockBusy | LockDbError

definition ingest_document_version :: "worker \<Rightarrow> int \<Rightarrow> delivery \<Rightarrow> int \<Rightarrow> lock_outcome \<Rightarrow> uuid option \<Rightarrow>
    string \<Rightarrow> db \<Rightarrow> delivery_outcome \<times> db" where
  \<comment> \<open>\<open>payload\<close> is what \<open>UUID(document_version_id)\<close> yields, \<open>None\<close> when it raises\<close>
  "ingest_document_version w max_retries dl retries lock payload task_id s =
     (case payload of None \<Rightarrow> (Acknowledged, s)
      | Some version_id \<Rightarrow>
          (case lock of
             LockDbError \<Rightarrow> (DeliveryRaised db_unavailable, s)
           | LockBusy \<Rightarrow> (Acknowledged, s)
           | LockAcquired \<Rightarrow> run_delivery w max_retries dl retries version_id task_id s))"

subsection \<open>Loading and saving a version\<close>

lemma load_lockedD: "load_locked vid s = Some (d, v) \<Longrightarrow>
    d \<in> set (documents s) \<and> v \<in> set (document_versions s) \<and> v_id v = vid \<and>
    v_organization_id v = d_organization_id d \<and> v_document_id v = d_id d"
  unfolding load_locked_def by (drule find_SomeD) auto

lemma load_locked_exists:
  assumes "db_ok s" and "v \<in> set (document_versions s)"
  shows "\<exists>d. load_locked (v_id v) s = Some (d, v) \<and> d_organization_id d = v_organization_id v"
proof -
  have "version_ok s v" using assms by (rule db_ok_version)
  then obtain d where d: "d \<in> set (documents s)" "d_organization_id d = v_organization_id v"
      "d_id d = v_document_id v" by (auto simp: version_ok_def list_ex_iff)
  with assms(2) have "load_locked (v_id v) s \<noteq> None"
    by (auto simp: load_locked_def find_None_iff) metis
  then obtain d' v' where l: "load_locked (v_id v) s = Some (d', v')" by auto
  note D = load_lockedD [OF l]
  then have "v' = v" using distinct_key_unique [OF db_ok_version_ids [OF assms(1)]] assms(2) by blast
  with l D show ?thesis by auto
qed

definition same_identity :: "document_version \<Rightarrow> document_version \<Rightarrow> bool" where
  \<comment> \<open>the columns no operation changes\<close>
  "same_identity v v' \<longleftrightarrow> v_id v' = v_id v \<and> v_organization_id v' = v_organization_id v \<and>
     v_document_id v' = v_document_id v \<and> v_version_number v' = v_version_number v \<and>
     v_media_type v' = v_media_type v \<and> v_size_bytes v' = v_size_bytes v \<and>
     v_content_sha256 v' = v_content_sha256 v \<and> v_storage_key v' = v_storage_key v \<and>
     v_created_at v' = v_created_at v"

lemma same_identity_refl [simp]: "same_identity v v"
  by (simp add: same_identity_def)

lemma same_identity_trans: "same_identity v w \<Longrightarrow> same_identity w x \<Longrightarrow> same_identity v x"
  by (simp add: same_identity_def)

lemma version_updates_identity [simp]:
  "same_identity v (exhausted_version v)" "same_identity v (extracting_version now task v)"
  "same_identity v (ready_version t v)" "same_identity v (failed_version code v)"
  "same_identity v (retry_version code v)"
  by (simp_all add: same_identity_def exhausted_version_def extracting_version_def
      ready_version_def failed_version_def retry_version_def)

lemma error_codes_short [simp]: "vchar 100 (error_code_value c)"
  by (cases c) (simp_all add: vchar_def)

lemma error_codes_listed [simp]: "error_code_value c \<in> set DOCUMENT_ERROR_CODES"
  by (cases c) (simp_all add: DOCUMENT_ERROR_CODES_def)

lemma exhausted_is_failed: "exhausted_version v = failed_version RETRY_EXHAUSTED v"
  by (simp add: exhausted_version_def failed_version_def)

lemma map_upd_version:
  assumes "db_ok s" "v \<in> set (document_versions s)" "g v' = g v" "v_id v' = v_id v"
  shows "map g (upd_row v_id (v_id v) (\<lambda>_. v') (document_versions s)) = map g (document_versions s)"
  using assms(2-) distinct_key_unique [OF db_ok_version_ids [OF assms(1)]]
  by (auto simp: upd_row_def)

lemma db_ok_version_types: "db_ok s \<Longrightarrow> v \<in> set (document_versions s) \<Longrightarrow> version_types v"
  by (simp add: db_ok_defs list_all_iff)

lemma version_ok_attempts: "db_ok s \<Longrightarrow> v \<in> set (document_versions s) \<Longrightarrow> 0 \<le> v_attempt_count v"
  by (drule (1) db_ok_version) (simp add: version_ok_def)

lemma save_version_db_ok:
  assumes "db_ok s" and v: "v \<in> set (document_versions s)" and same: "same_identity v v'"
    and "0 \<le> v_attempt_count v'" and "version_types v'"
  shows "db_ok (save_version now v' s)"
proof -
  let ?v = "v'\<lparr>v_updated_at := now\<rparr>"
  let ?vs = "upd_row v_id (v_id v) (\<lambda>_. ?v) (document_versions s)"
  have id: "v_id v' = v_id v" using same by (simp add: same_identity_def)
  have s': "save_version now v' s = s\<lparr>document_versions := ?vs\<rparr>" by (simp add: save_version_def id)
  note keep = map_upd_version [OF assms(1) v, of _ ?v]
  have maps: "map v_id ?vs = map v_id (document_versions s)"
      "map v_storage_key ?vs = map v_storage_key (document_versions s)"
      "map (\<lambda>r. (v_organization_id r, v_document_id r, v_version_number r)) ?vs =
       map (\<lambda>r. (v_organization_id r, v_document_id r, v_version_number r)) (document_versions s)"
      "map (\<lambda>r. (v_organization_id r, v_id r)) ?vs = map (\<lambda>r. (v_organization_id r, v_id r)) (document_versions s)"
    using same by (auto intro!: keep simp: same_identity_def)
  have ver: "version_ok s ?v"
    using db_ok_version [OF assms(1) v] same assms(4) by (simp add: version_ok_def same_identity_def)
  have mem: "r \<in> set ?vs \<Longrightarrow> r = ?v \<or> r \<in> set (document_versions s)" for r
    by (auto simp: mem_upd_row split: if_splits)
  have fk: "intent_ok (s\<lparr>document_versions := ?vs\<rparr>) i" if "intent_ok s i" for i
  proof -
    have "set (map (\<lambda>r. (v_organization_id r, v_id r)) ?vs) =
        set (map (\<lambda>r. (v_organization_id r, v_id r)) (document_versions s))" by (simp only: maps(4))
    with that show ?thesis unfolding intent_ok_def list_ex_iff by (auto simp: set_eq_iff image_iff) metis+
  qed
  have vt: "version_types ?v" using assms(5) by (simp add: version_types_def)
  have rows: "list_all (version_ok s) ?vs" "list_all version_types ?vs"
    using assms(1) ver vt mem unfolding list_all_iff by (metis db_ok_version, metis db_ok_version_types)
  show ?thesis
    using assms(1) rows fk unfolding s' by (simp add: db_ok_defs maps list_all_iff)
qed

subsection \<open>The life cycle of a version, abstractly\<close>

text \<open>
  What a worker transaction may do to the database, as a step relation: take a queued version,
  put it back, or end it with its audit event. Every transaction of the service is such a step or
  changes nothing (the refinement lemmas below), whatever fault it meets.
\<close>

definition terminal_event :: "audit_action \<Rightarrow> document_version \<Rightarrow> audit_event \<Rightarrow> bool" where
  "terminal_event act v e \<longleftrightarrow> a_action e = audit_action_value act \<and>
     a_resource_id e = Some (v_id v) \<and> a_organization_id e = v_organization_id v \<and>
     a_resource_type e = audit_resource_value DOCUMENT_VERSION \<and> a_actor_user_id e = None"

inductive ingest_step :: "int \<Rightarrow> db \<Rightarrow> db \<Rightarrow> bool" for max_att where
  Begin: "v \<in> set (document_versions s) \<Longrightarrow> v_status v = QUEUED \<Longrightarrow> v_attempt_count v < max_att \<Longrightarrow>
    s' = save_version now (extracting_version now task v) s \<Longrightarrow> db_ok s' \<Longrightarrow> ingest_step max_att s s'"
| Requeue: "v \<in> set (document_versions s) \<Longrightarrow> v_status v = EXTRACTING \<Longrightarrow>
    s' = save_version now (retry_version code v) s \<Longrightarrow> db_ok s' \<Longrightarrow> ingest_step max_att s s'"
| Complete: "v \<in> set (document_versions s) \<Longrightarrow> v_status v = EXTRACTING \<Longrightarrow>
    terminal_event DOCUMENT_READY v e \<Longrightarrow>
    s' = (save_version now (ready_version t v) s)\<lparr>audit_events := audit_events s @ [e]\<rparr> \<Longrightarrow>
    db_ok s' \<Longrightarrow> ingest_step max_att s s'"
| Abandon: "v \<in> set (document_versions s) \<Longrightarrow>
    v_status v = EXTRACTING \<or> v_status v = QUEUED \<and> max_att \<le> v_attempt_count v \<Longrightarrow>
    terminal_event DOCUMENT_FAILED v e \<Longrightarrow>
    s' = (save_version now (failed_version code v) s)\<lparr>audit_events := audit_events s @ [e]\<rparr> \<Longrightarrow>
    db_ok s' \<Longrightarrow> ingest_step max_att s s'"

lemma end_commitD: "end_commit fault r pending s = (res, s') \<Longrightarrow> s' = s \<or> s' = pending \<and> db_ok pending"
  by (auto simp: end_commit_def split: sum.splits db_fault.splits)

lemma end_rollbackD: "end_rollback fault r s = (res, s') \<Longrightarrow> s' = s"
  by (auto simp: end_rollback_def split: if_splits)

lemma save_version_events [simp]: "audit_events (save_version now v s) = audit_events s"
  by (simp add: save_version_def)

lemma not_terminal_cases: "\<not> terminal_status st \<Longrightarrow> st \<noteq> EXTRACTING \<Longrightarrow> st = QUEUED"
  by (cases st) simp_all

lemma claim_refines:
  assumes "claim max_att t vid task s = (r, s')"
  shows "s' = s \<or> ingest_step max_att s s'"
proof (cases "load_locked vid s")
  case None
  with assms show ?thesis by (auto simp: claim_def dest: end_rollbackD)
next
  case (Some row)
  then obtain d v where row: "load_locked vid s = Some (d, v)" by (cases row) auto
  note D = load_lockedD [OF row]
  consider "terminal_status (v_status v)" | "v_status v = EXTRACTING"
    | "v_status v = QUEUED" "max_att \<le> v_attempt_count v" | "v_status v = QUEUED" "v_attempt_count v < max_att"
    using not_terminal_cases by fastforce
  then show ?thesis
  proof cases
    case 1
    with assms row show ?thesis by (auto simp: claim_def dest: end_rollbackD)
  next
    case 2
    with assms row show ?thesis
      by (auto simp: claim_def dest!: end_rollbackD end_commitD split: if_splits)
  next
    case 3
    let ?e = "\<lparr>a_id = tx_event t, a_organization_id = v_organization_id v, a_actor_user_id = None,
      a_action = audit_action_value DOCUMENT_FAILED, a_resource_type = audit_resource_value DOCUMENT_VERSION,
      a_resource_id = Some (v_id v), a_metadata = [(''version_number'', MInt (v_version_number v)),
        (''error_code'', MStr (error_code_value RETRY_EXHAUSTED)),
        (''attempt_count'', MInt (v_attempt_count v))], a_created_at = tx_now t\<rparr>"
    have "terminal_event DOCUMENT_FAILED v ?e" by (simp add: terminal_event_def)
    from Abandon [OF _ _ this, of s max_att s' "tx_now t" RETRY_EXHAUSTED] assms row 3 D show ?thesis
      by (auto simp: claim_def record_document_failed_def record_event_Inr exhausted_is_failed
          dest!: end_commitD split: if_splits)
  next
    case 4
    with assms row D Begin [of v s max_att s' "tx_now t" task] show ?thesis
      by (auto simp: claim_def Let_def dest!: end_commitD)
  qed
qed

definition rec_for :: "claimed_version \<Rightarrow> db \<Rightarrow> bool" where
  \<comment> \<open>the record was read from a row that still exists\<close>
  "rec_for rec s \<longleftrightarrow> (\<exists>v \<in> set (document_versions s). v_id v = cl_version_id rec \<and>
     v_organization_id v = cl_organization_id rec \<and> v_version_number v = cl_version_number rec)"

lemma rec_forD: "rec_for rec s \<Longrightarrow> db_ok s \<Longrightarrow> v \<in> set (document_versions s) \<Longrightarrow> v_id v = cl_version_id rec \<Longrightarrow>
    v_organization_id v = cl_organization_id rec \<and> v_version_number v = cl_version_number rec"
  unfolding rec_for_def by (metis db_ok_version_ids distinct_key_unique)

lemma mark_ready_refines:
  assumes "mark_ready t rec task words s = (r, s')" and "rec_for rec s" and "db_ok s"
  shows "s' = s \<or> ingest_step max_att s s'"
proof (cases "load_locked (cl_version_id rec) s")
  case None
  with assms(1) show ?thesis by (auto simp: mark_ready_def dest: end_rollbackD)
next
  case (Some row)
  then obtain d v where row: "load_locked (cl_version_id rec) s = Some (d, v)" by (cases row) auto
  note D = load_lockedD [OF row]
  with rec_forD [OF assms(2,3), of v] have org: "v_organization_id v = cl_organization_id rec" by blast
  let ?e = "\<lparr>a_id = tx_event t, a_organization_id = cl_organization_id rec, a_actor_user_id = None,
    a_action = audit_action_value DOCUMENT_READY, a_resource_type = audit_resource_value DOCUMENT_VERSION,
    a_resource_id = Some (cl_version_id rec),
    a_metadata = [(''version_number'', MInt (cl_version_number rec)),
      (''attempt_count'', MInt (v_attempt_count v)),
      (''extracted_character_count'', MInt (int (length words)))], a_created_at = tx_now t\<rparr>"
  have "terminal_event DOCUMENT_READY v ?e" using D org by (simp add: terminal_event_def)
  from Complete [OF _ _ this, of s s' "tx_now t" words max_att] assms(1) row D show ?thesis
    by (auto simp: mark_ready_def record_document_ready_def record_event_Inr is_owned_extraction_def
        dest!: end_commitD end_rollbackD split: if_splits)
qed

lemma mark_failed_refines:
  assumes "mark_failed t rec task code s = (r, s')" and "rec_for rec s" and "db_ok s"
  shows "s' = s \<or> ingest_step max_att s s'"
proof (cases "load_locked (cl_version_id rec) s")
  case None
  with assms(1) show ?thesis by (auto simp: mark_failed_def dest: end_rollbackD)
next
  case (Some row)
  then obtain d v where row: "load_locked (cl_version_id rec) s = Some (d, v)" by (cases row) auto
  note D = load_lockedD [OF row]
  with rec_forD [OF assms(2,3), of v] have org: "v_organization_id v = cl_organization_id rec" by blast
  let ?e = "\<lparr>a_id = tx_event t, a_organization_id = cl_organization_id rec, a_actor_user_id = None,
    a_action = audit_action_value DOCUMENT_FAILED, a_resource_type = audit_resource_value DOCUMENT_VERSION,
    a_resource_id = Some (cl_version_id rec),
    a_metadata = [(''version_number'', MInt (cl_version_number rec)),
      (''error_code'', MStr (error_code_value code)),
      (''attempt_count'', MInt (v_attempt_count v))], a_created_at = tx_now t\<rparr>"
  have "terminal_event DOCUMENT_FAILED v ?e" using D org by (simp add: terminal_event_def)
  from Abandon [OF _ _ this, of s max_att s' "tx_now t" code] assms(1) row D show ?thesis
    by (auto simp: mark_failed_def record_document_failed_def record_event_Inr is_owned_extraction_def
        dest!: end_commitD end_rollbackD split: if_splits)
qed

lemma prepare_retry_refines:
  assumes "prepare_retry t vid task code s = (r, s')"
  shows "s' = s \<or> ingest_step max_att s s'"
proof (cases "load_locked vid s")
  case None
  with assms show ?thesis by (auto simp: prepare_retry_def dest: end_rollbackD)
next
  case (Some row)
  then obtain d v where row: "load_locked vid s = Some (d, v)" by (cases row) auto
  with assms load_lockedD [OF row] Requeue [of v s s' "tx_now t" code] show ?thesis
    by (auto simp: prepare_retry_def is_owned_extraction_def dest!: end_commitD end_rollbackD
        split: if_splits)
qed

definition keeps_versions :: "db \<Rightarrow> db \<Rightarrow> bool" where
  "keeps_versions s s' \<longleftrightarrow>
     (\<forall>v \<in> set (document_versions s). \<exists>v' \<in> set (document_versions s'). same_identity v v')"

lemma keeps_versions_refl [simp]: "keeps_versions s s"
  unfolding keeps_versions_def using same_identity_refl by blast

lemma keeps_versions_frame [simp]:
  "keeps_versions s (s'\<lparr>audit_events := x\<rparr>) = keeps_versions s s'"
  "keeps_versions s (s'\<lparr>ingestion_intents := y\<rparr>) = keeps_versions s s'"
  by (simp_all add: keeps_versions_def)

lemma keeps_versions_trans: "keeps_versions a b \<Longrightarrow> keeps_versions b c \<Longrightarrow> keeps_versions a c"
  unfolding keeps_versions_def by (meson same_identity_trans)

lemma rec_for_keeps: "rec_for rec s \<Longrightarrow> keeps_versions s s' \<Longrightarrow> rec_for rec s'"
  unfolding rec_for_def keeps_versions_def same_identity_def by metis

lemma save_version_keeps:
  assumes "db_ok s" and "v \<in> set (document_versions s)" and "same_identity v v'"
  shows "keeps_versions s (save_version now v' s)"
  unfolding keeps_versions_def
proof
  fix x assume x: "x \<in> set (document_versions s)"
  show "\<exists>x' \<in> set (document_versions (save_version now v' s)). same_identity x x'"
  proof (cases "v_id x = v_id v'")
    case True
    then have "x = v"
      using distinct_key_unique [OF db_ok_version_ids [OF assms(1)] x assms(2)] assms(3)
      by (simp add: same_identity_def)
    with True x assms(3) show ?thesis
      by (intro bexI [of _ "v'\<lparr>v_updated_at := now\<rparr>"])
        (auto simp: save_version_def mem_upd_row same_identity_def)
  next
    case False
    with x show ?thesis by (intro bexI [of _ x]) (auto simp: save_version_def mem_upd_row)
  qed
qed

lemma ingest_step_keeps: "ingest_step m s s' \<Longrightarrow> db_ok s \<Longrightarrow> keeps_versions s s'"
  by (induction rule: ingest_step.induct) (simp_all add: save_version_keeps)

lemma ingest_step_db_ok: "ingest_step m s s' \<Longrightarrow> db_ok s'"
  by (induction rule: ingest_step.induct)

lemma saved_version_mem: "v \<in> set (document_versions s) \<Longrightarrow> v_id v' = v_id v \<Longrightarrow>
    v'\<lparr>v_updated_at := now\<rparr> \<in> set (document_versions (save_version now v' s))"
  by (auto simp: save_version_def upd_row_def image_iff)

lemma claim_record:
  assumes "claim m t vid task s = (Inr (ClaimRecord rec), s')"
  shows "rec_for rec s'"
proof -
  from assms obtain d v where row: "load_locked vid s = Some (d, v)"
    by (auto simp: claim_def end_rollback_def split: option.splits if_splits)
  note D = load_lockedD [OF row]
  show ?thesis
  proof (cases "v_status v = EXTRACTING")
    case True
    with assms row D show ?thesis
      by (auto simp: claim_def end_rollback_def end_commit_def rec_for_def record_of_def
          split: if_splits sum.splits db_fault.splits)
  next
    case False
    with assms row have "rec = record_of d (extracting_version (tx_now t) task v)"
      "s' = save_version (tx_now t) (extracting_version (tx_now t) task v) s"
      by (auto simp: claim_def end_rollback_def end_commit_def Let_def
          split: if_splits sum.splits db_fault.splits)
    moreover from this(2) D saved_version_mem [of v s "extracting_version (tx_now t) task v" "tx_now t"]
    have "(extracting_version (tx_now t) task v)\<lparr>v_updated_at := tx_now t\<rparr> \<in> set (document_versions s')"
      by (simp add: extracting_version_def)
    ultimately show ?thesis unfolding rec_for_def using D
      by (intro bexI [of _ "(extracting_version (tx_now t) task v)\<lparr>v_updated_at := tx_now t\<rparr>"])
        (simp_all add: record_of_def extracting_version_def)
  qed
qed

text \<open>
  The rely condition of the worker: whatever other sessions do between its transactions is a
  step of a relation that keeps the database consistent and never drops a version or changes its
  identity. Then a whole delivery, with any fault at any transaction, is again such a step.
\<close>

locale session_trace =
  fixes R :: "db \<Rightarrow> db \<Rightarrow> bool" and max_att :: int
  assumes R_refl: "R s s"
    and R_trans: "R a b \<Longrightarrow> R b c \<Longrightarrow> R a c"
    and R_worker: "db_ok s \<Longrightarrow> ingest_step max_att s s' \<Longrightarrow> R s s'"
    and R_db_ok: "R s s' \<Longrightarrow> db_ok s \<Longrightarrow> db_ok s'"
    and R_keeps: "R s s' \<Longrightarrow> db_ok s \<Longrightarrow> keeps_versions s s'"
begin

lemma R_stepI: "s' = s \<or> ingest_step max_att s s' \<Longrightarrow> db_ok s \<Longrightarrow> R s s'"
  using R_refl R_worker by blast

lemma process_trace:
  assumes w: "worker_max_attempts w = max_att" and "db_ok s"
    and o1: "\<And>s. R s (tx_others t1 s)" and o2: "\<And>s. R s (tx_others t2 s)"
    and run: "process w t1 t2 vid task s = (r, s')"
  shows "R s s'"
proof -
  let ?s0 = "tx_others t1 s"
  obtain c s1 where c: "claim max_att t1 vid task ?s0 = (c, s1)" by (cases "claim max_att t1 vid task ?s0")
  have ok0: "db_ok ?s0" using R_db_ok [OF o1] assms(2) .
  have s1: "R s s1" using R_trans [OF o1 R_stepI [OF claim_refines [OF c] ok0]] .
  have ok1: "db_ok s1" using R_db_ok [OF s1 assms(2)] .
  let ?s2 = "tx_others t2 s1"
  have ok2: "db_ok ?s2" using R_db_ok [OF o2 ok1] .
  have s2: "R s ?s2" using R_trans [OF s1 o2] .
  have rec: "rec_for rec ?s2" if "c = Inr (ClaimRecord rec)" for rec
    using rec_for_keeps [OF claim_record R_keeps [OF o2 ok1]] c that by blast
  have f: "R s s3" if "c = Inr (ClaimRecord rec)" "mark_failed t2 rec task code ?s2 = (x, s3)" for rec code x s3
    using R_trans [OF s2 R_stepI [OF mark_failed_refines [OF that(2) rec [OF that(1)] ok2] ok2]] .
  have g: "R s s3" if "c = Inr (ClaimRecord rec)" "mark_ready t2 rec task words ?s2 = (x, s3)" for rec words x s3
    using R_trans [OF s2 R_stepI [OF mark_ready_refines [OF that(2) rec [OF that(1)] ok2] ok2]] .
  show ?thesis
    using run s1 f g unfolding process_def w c
    by (auto split: sum.splits claim_result.splits work_exn.splits prod.splits)
qed

lemma exhausted_trace:
  assumes "db_ok s" and o1: "\<And>s. R s (tx_others t1 s)" and o2: "\<And>s. R s (tx_others t2 s)"
    and run: "mark_retry_exhausted t1 t2 vid task s = (r, s')"
  shows "R s s'"
proof -
  let ?s0 = "tx_others t1 s" and ?s2 = "tx_others t2 (tx_others t1 s)"
  have ok0: "db_ok ?s0" using R_db_ok [OF o1] assms(1) .
  have ok2: "db_ok ?s2" using R_db_ok [OF o2 ok0] .
  have same: "s1 = ?s0" if "owned_record t1 vid task ?s0 = (x, s1)" for x s1
    using that by (auto simp: owned_record_def end_rollback_def split: option.splits if_splits)
  have "rec_for rec ?s0" if "owned_record t1 vid task ?s0 = (Inr (Some rec), s1)" for rec s1
    using that by (auto simp: owned_record_def end_rollback_def record_of_def rec_for_def
        split: option.splits if_splits dest!: load_lockedD intro!: bexI)
  then have "rec_for rec ?s2" if "owned_record t1 vid task ?s0 = (Inr (Some rec), s1)" for rec s1
    using rec_for_keeps [OF _ R_keeps [OF o2 ok0]] that by blast
  then have "R s s3" if "owned_record t1 vid task ?s0 = (Inr (Some rec), s1)"
      "mark_failed t2 rec task RETRY_EXHAUSTED ?s2 = (x, s3)" for rec s1 x s3
    using R_trans [OF R_trans [OF o1 o2] R_stepI [OF mark_failed_refines [OF that(2) _ ok2] ok2]] that by blast
  with run o1 same show ?thesis
    unfolding mark_retry_exhausted_def
    by (auto split: prod.splits sum.splits option.splits)
qed

lemma delivery_trace:
  assumes w: "worker_max_attempts w = max_att" and "db_ok s"
    and others: "\<And>s. R s (tx_others (dl_claim dl) s)" "\<And>s. R s (tx_others (dl_mark dl) s)"
      "\<And>s. R s (tx_others (dl_owned dl) s)" "\<And>s. R s (tx_others (dl_exhaust dl) s)"
    and run: "run_delivery w max_retries dl retries vid task s = (out, s')"
  shows "R s s'"
proof -
  obtain p s1 where p: "process w (dl_claim dl) (dl_mark dl) vid task s = (p, s1)"
    by (cases "process w (dl_claim dl) (dl_mark dl) vid task s")
  have s1: "R s s1" using process_trace [OF w assms(2) others(1,2) p] .
  note ok1 = R_db_ok [OF s1 assms(2)]
  have x: "R s s2" if "mark_retry_exhausted (dl_owned dl) (dl_exhaust dl) vid task s1 = (a, s2)" for a s2
    using R_trans [OF s1 exhausted_trace [OF ok1 others(3,4) that]] .
  have y: "R s s2" if "prepare_retry (dl_owned dl) vid task code (tx_others (dl_owned dl) s1) = (a, s2)" for code a s2
    using R_trans [OF R_trans [OF s1 others(3)] R_stepI [OF prepare_retry_refines [OF that] R_db_ok [OF others(3) ok1]]] .
  show ?thesis
    using run s1 x y unfolding run_delivery_def p
    by (auto split: sum.splits ingest_exn.splits prod.splits if_splits)
qed

end

subsection \<open>Life-cycle invariants\<close>

definition version_wf :: "int \<Rightarrow> document_version \<Rightarrow> bool" where
  \<comment> \<open>which columns are set in which state\<close>
  "version_wf m v \<longleftrightarrow> v_attempt_count v \<le> m \<and>
     (case v_status v of
        QUEUED \<Rightarrow> v_processing_task_id v = None \<and> v_processing_started_at v = None \<and>
          v_extracted_text v = None
      | EXTRACTING \<Rightarrow> v_processing_task_id v \<noteq> None \<and> v_processing_started_at v \<noteq> None \<and>
          v_extracted_text v = None \<and> v_error_code v = None \<and> 1 \<le> v_attempt_count v
      | READY \<Rightarrow> v_processing_task_id v = None \<and> v_processing_started_at v = None \<and>
          v_extracted_text v \<noteq> None \<and> v_error_code v = None \<and> 1 \<le> v_attempt_count v
      | FAILED \<Rightarrow> v_processing_task_id v = None \<and> v_processing_started_at v = None \<and>
          v_extracted_text v = None \<and> v_error_code v \<noteq> None)"

lemma version_wf_updated [simp]: "version_wf m (v\<lparr>v_updated_at := now\<rparr>) = version_wf m v"
  by (cases "v_status v") (simp_all add: version_wf_def)

definition is_terminal_event :: "audit_event \<Rightarrow> bool" where
  "is_terminal_event e \<longleftrightarrow> a_action e = audit_action_value DOCUMENT_READY \<or>
     a_action e = audit_action_value DOCUMENT_FAILED"

definition terminal_events :: "db \<Rightarrow> uuid \<Rightarrow> audit_event list" where
  "terminal_events s vid =
     filter (\<lambda>e. is_terminal_event e \<and> a_resource_id e = Some vid) (audit_events s)"

fun expected_events :: "document_processing_status \<Rightarrow> string list" where
  "expected_events READY = [audit_action_value DOCUMENT_READY]"
| "expected_events FAILED = [audit_action_value DOCUMENT_FAILED]"
| "expected_events QUEUED = []"
| "expected_events EXTRACTING = []"

definition lifecycle_inv :: "int \<Rightarrow> db \<Rightarrow> bool" where
  "lifecycle_inv m s \<longleftrightarrow>
     (\<forall>v \<in> set (document_versions s). version_wf m v \<and>
        map a_action (terminal_events s (v_id v)) = expected_events (v_status v)) \<and>
     (\<forall>e \<in> set (audit_events s). is_terminal_event e \<longrightarrow>
        (\<exists>v \<in> set (document_versions s). a_resource_id e = Some (v_id v)))"

lemma saved_versionsD: "r \<in> set (document_versions (save_version now v' s)) \<Longrightarrow>
    r = v'\<lparr>v_updated_at := now\<rparr> \<or> r \<in> set (document_versions s) \<and> v_id r \<noteq> v_id v'"
  by (auto simp: save_version_def mem_upd_row split: if_splits)

lemma terminal_events_save [simp]: "terminal_events (save_version now v s) x = terminal_events s x"
  by (simp add: terminal_events_def)

lemma terminal_events_append: "terminal_events (s\<lparr>audit_events := audit_events s0 @ [e]\<rparr>) x =
    terminal_events s0 x @ (if is_terminal_event e \<and> a_resource_id e = Some x then [e] else [])"
  by (simp add: terminal_events_def)

lemma version_ids_kept: "keeps_versions s s' \<Longrightarrow> v \<in> set (document_versions s) \<Longrightarrow>
    \<exists>v' \<in> set (document_versions s'). v_id v' = v_id v"
  by (auto simp: keeps_versions_def same_identity_def)

lemma lifecycle_save:
  \<comment> \<open>a step that changes one version and records exactly the events its new state calls for\<close>
  assumes inv: "lifecycle_inv m s" and ok: "db_ok s" and v: "v \<in> set (document_versions s)"
    and same: "same_identity v v'" and wf: "version_wf m v'"
    and es: "set es \<subseteq> Collect (\<lambda>e. is_terminal_event e \<and> a_resource_id e = Some (v_id v))"
    and ev: "map a_action es = expected_events (v_status v')" and st: "\<not> terminal_status (v_status v)"
  shows "lifecycle_inv m ((save_version now v' s)\<lparr>audit_events := audit_events s @ es\<rparr>)"
    (is "lifecycle_inv m ?s'")
proof -
  have id: "v_id v' = v_id v" using same by (simp add: same_identity_def)
  have te: "terminal_events ?s' x = terminal_events s x @ (if x = v_id v then es else [])" for x
  proof -
    have "filter (\<lambda>e. is_terminal_event e \<and> a_resource_id e = Some x) es = (if x = v_id v then es else [])"
      using es by (auto simp: filter_id_conv filter_empty_conv)
    then show ?thesis by (simp add: terminal_events_def)
  qed
  have old: "terminal_events s (v_id v) = []"
    using inv v st by (cases "v_status v") (auto simp: lifecycle_inv_def)
  have keeps: "keeps_versions s ?s'" using save_version_keeps [OF ok v same] by simp
  have vs: "version_wf m r \<and> map a_action (terminal_events ?s' (v_id r)) = expected_events (v_status r)"
    if "r \<in> set (document_versions ?s')" for r
    using that saved_versionsD [of r now v' s] inv wf ev old id
    by (auto simp: te lifecycle_inv_def)
  have tgt: "\<exists>r \<in> set (document_versions ?s'). a_resource_id e = Some (v_id r)"
    if e: "is_terminal_event e" "e \<in> set (audit_events s) \<union> set es" for e
  proof -
    obtain r where "r \<in> set (document_versions s)" "a_resource_id e = Some (v_id r)"
      using e inv es v by (auto simp: lifecycle_inv_def)
    with version_ids_kept [OF keeps, of r] show ?thesis by metis
  qed
  show ?thesis using vs tgt by (auto simp: lifecycle_inv_def)
qed

lemma terminal_eventD: "terminal_event act v e \<Longrightarrow> act = DOCUMENT_READY \<or> act = DOCUMENT_FAILED \<Longrightarrow>
    is_terminal_event e \<and> a_resource_id e = Some (v_id v) \<and> a_action e = audit_action_value act"
  by (auto simp: terminal_event_def is_terminal_event_def)

lemma ingest_step_lifecycle [inv_intros]:
  assumes "ingest_step m s s'" and ok: "db_ok s" and inv: "lifecycle_inv m s"
  shows "lifecycle_inv m s'"
  using assms(1)
proof cases
  case (Begin v now task)
  have wf: "version_wf m v" using inv Begin by (auto simp: lifecycle_inv_def)
  have "lifecycle_inv m ((save_version now (extracting_version now task v) s)\<lparr>audit_events := audit_events s @ []\<rparr>)"
    by (rule lifecycle_save [OF inv ok Begin(1)])
      (use Begin wf version_ok_attempts [OF ok] in \<open>auto simp: extracting_version_def same_identity_def version_wf_def\<close>)
  then show ?thesis using Begin by (simp add: save_version_def)
next
  case (Requeue v now code)
  have wf: "version_wf m v" using inv Requeue by (auto simp: lifecycle_inv_def)
  have "lifecycle_inv m ((save_version now (retry_version code v) s)\<lparr>audit_events := audit_events s @ []\<rparr>)"
    by (rule lifecycle_save [OF inv ok Requeue(1)])
      (use Requeue wf in \<open>auto simp: retry_version_def same_identity_def version_wf_def\<close>)
  then show ?thesis using Requeue by (simp add: save_version_def)
next
  case (Complete v e now t)
  have wf: "version_wf m v" using inv Complete by (auto simp: lifecycle_inv_def)
  note ev = terminal_eventD [OF Complete(3)]
  show ?thesis unfolding Complete(4)
    by (rule lifecycle_save [OF inv ok Complete(1)])
      (use Complete(2) wf ev in \<open>auto simp: ready_version_def same_identity_def version_wf_def\<close>)
next
  case (Abandon v e now code)
  have wf: "version_wf m v" using inv Abandon by (auto simp: lifecycle_inv_def)
  note ev = terminal_eventD [OF Abandon(3)]
  show ?thesis unfolding Abandon(4)
    by (rule lifecycle_save [OF inv ok Abandon(1)])
      (use Abandon(2) wf ev in \<open>auto simp: failed_version_def same_identity_def version_wf_def\<close>)
qed

lemma ingest_step_terminal:
  assumes "ingest_step m s s'" and "db_ok s" and v: "v \<in> set (document_versions s)" "terminal_status (v_status v)"
  shows "v \<in> set (document_versions s')"
proof -
  have other: "v \<in> set (document_versions (save_version now w' s))"
    if "w \<in> set (document_versions s)" "\<not> terminal_status (v_status w)" "same_identity w w'" for w w' now
  proof -
    have "v_id v \<noteq> v_id w'"
      using that v distinct_key_unique [OF db_ok_version_ids [OF assms(2)] v(1) that(1)]
      by (auto simp: same_identity_def)
    with v show ?thesis by (auto simp: save_version_def mem_upd_row)
  qed
  from assms(1) show ?thesis by cases (auto intro!: other)
qed

end
