(* ===== verification/SF_Delivery.thy ===== *)
theory SF_Delivery
  imports SF_Ingestion
begin

text \<open>
  What a delivery achieves: the contents a version can become \<open>ready\<close> with, that a healthy
  delivery does make it \<open>ready\<close>, the round trip from an upload to the extracted text, the bounds of
  the retry back-off and the end of the retry budget.
\<close>

subsection \<open>The work on the content\<close>

definition verified_content :: "worker \<Rightarrow> int \<Rightarrow> string \<Rightarrow> document_media_type \<Rightarrow> ustr \<Rightarrow> bool" where
  \<comment> \<open>some bytes of the recorded size and digest were scanned clean and extract to this text\<close>
  "verified_content w n sha media t \<longleftrightarrow>
     (\<exists>b. int (length b) = n \<and> digest w b = sha \<and> scanner w b = Some CLEAN \<and>
        registry_get (read_pdf w) media b (limits w) = Inr t)"

lemma stage_verified_Inr: "stage_verified_source w rec = Inr b \<Longrightarrow>
    int (length b) = cl_size_bytes rec \<and> digest w b = cl_content_sha256 rec"
  by (auto simp: stage_verified_source_def split: sum.splits read_outcome.splits if_splits)

lemma scan_Inr: "scan w b = Inr x \<Longrightarrow> scanner w b = Some CLEAN"
  by (auto simp: scan_def split: option.splits scan_result.splits)

lemma extract_text_Inr: "extract_text w media b = Inr t \<Longrightarrow> registry_get (read_pdf w) media b (limits w) = Inr t"
  by (auto simp: extract_text_def split: sum.splits extract_exn.splits)

lemma work_Inr: "work w rec = Inr t \<Longrightarrow>
    verified_content w (cl_size_bytes rec) (cl_content_sha256 rec) (cl_media_type rec) t"
  unfolding work_def verified_content_def bindE_Inr_iff
  by (metis stage_verified_Inr scan_Inr extract_text_Inr)

lemma read_bounded_chunks:
  "[] \<notin> set cs \<Longrightarrow> int (length staged + length (concat cs)) \<le> limit \<Longrightarrow>
   read_bounded limit (map Some cs) staged = ReadOk (staged @ concat cs)"
  by (induction cs arbitrary: staged) auto

lemma work_succeeds:
  assumes "open_source w (cl_storage_key rec) = Inr (map Some cs)" and "[] \<notin> set cs"
    and "int (length (concat cs)) = cl_size_bytes rec" and "digest w (concat cs) = cl_content_sha256 rec"
    and "scanner w (concat cs) = Some CLEAN"
    and "registry_get (read_pdf w) (cl_media_type rec) (concat cs) (limits w) = Inr t"
  shows "work w rec = Inr t"
  using assms read_bounded_chunks [of cs "[]" "cl_size_bytes rec"]
  by (simp add: work_def stage_verified_source_def scan_def extract_text_def)

subsection \<open>Transactions without faults\<close>

lemma claim_record_eq:
  assumes "claim m t vid task s = (Inr (ClaimRecord rec), s1)"
  shows "\<exists>d v. load_locked vid s = Some (d, v) \<and> cl_version_id rec = vid \<and>
    cl_size_bytes rec = v_size_bytes v \<and> cl_content_sha256 rec = v_content_sha256 v \<and>
    cl_media_type rec = v_media_type v \<and> cl_storage_key rec = v_storage_key v"
  using assms load_lockedD
  by (auto simp: claim_def end_rollback_def end_commit_def Let_def record_of_def extracting_version_def
      split: option.splits if_splits sum.splits db_fault.splits)

lemma version_event_ok:
  assumes "db_ok s" and "v \<in> set (document_versions s)" and "same_identity v v'"
    and "0 \<le> v_attempt_count v'" and "version_types v'" and "eid \<notin> a_id ` set (audit_events s)"
  shows "\<exists>s'. record_event now eid (v_organization_id v) act None rt rid md (save_version now v' s) = Inr s' \<and>
    db_ok s' \<and> document_versions s' = document_versions (save_version now v' s)"
proof -
  have ok: "db_ok (save_version now v' s)" by (rule save_version_db_ok [OF assms(1-5)])
  have "has_org s (v_organization_id v)" using db_ok_version [OF assms(1,2)] by (simp add: version_ok_def)
  then have "has_org (save_version now v' s) (v_organization_id v)" by (simp add: save_version_def)
  with ok assms(6) show ?thesis
    using record_event_db_ok [of "save_version now v' s" "v_organization_id v" eid None]
    by (simp add: record_event_Inr)
qed

lemma claim_succeeds:
  assumes "db_ok s" and v: "v \<in> set (document_versions s)" and "v_status v = QUEUED"
    and "v_attempt_count v < m" and "vchar 255 task" and "tx_fault t = NoFault"
  shows "\<exists>d. claim m t (v_id v) task s =
    (Inr (ClaimRecord (record_of d (extracting_version (tx_now t) task v))),
     save_version (tx_now t) (extracting_version (tx_now t) task v) s) \<and>
    db_ok (save_version (tx_now t) (extracting_version (tx_now t) task v) s) \<and>
    d_organization_id d = v_organization_id v"
proof -
  obtain d where d: "load_locked (v_id v) s = Some (d, v)" "d_organization_id d = v_organization_id v"
    using load_locked_exists [OF assms(1) v] by blast
  have ty: "version_types (extracting_version (tx_now t) task v)"
    using db_ok_version_types [OF assms(1) v] assms(5) by (simp add: version_types_def extracting_version_def)
  have "db_ok (save_version (tx_now t) (extracting_version (tx_now t) task v) s)"
    by (rule save_version_db_ok [OF assms(1) v _ _ ty])
      (use version_ok_attempts [OF assms(1) v] in \<open>simp_all add: extracting_version_def same_identity_def\<close>)
  with d assms(3-6) show ?thesis
    by (intro exI [of _ d]) (simp add: claim_def Let_def end_commit_def commit_def db_ok_def)
qed

lemma mark_ready_succeeds:
  assumes "db_ok s" and v: "v \<in> set (document_versions s)" and own: "is_owned_extraction v task"
    and rec: "cl_version_id rec = v_id v" "cl_organization_id rec = v_organization_id v"
      "cl_version_number rec = v_version_number v"
    and "1 \<le> v_attempt_count v" and "text_ok words" and "tx_fault t = NoFault"
    and "tx_event t \<notin> a_id ` set (audit_events s)"
  shows "\<exists>s'. mark_ready t rec task words s = (Inr (), s') \<and> db_ok s' \<and>
    (ready_version words v)\<lparr>v_updated_at := tx_now t\<rparr> \<in> set (document_versions s')"
proof -
  obtain d where d: "load_locked (v_id v) s = Some (d, v)"
    using load_locked_exists [OF assms(1) v] by blast
  have ty: "version_types (ready_version words v)"
    using db_ok_version_types [OF assms(1) v] assms(8) by (simp add: version_types_def ready_version_def)
  have att: "0 \<le> v_attempt_count (ready_version words v)" using assms(7) by (simp add: ready_version_def)
  obtain s' where s': "record_event (tx_now t) (tx_event t) (v_organization_id v) DOCUMENT_READY None
      DOCUMENT_VERSION (Some (v_id v)) [(''version_number'', MInt (v_version_number v)),
        (''attempt_count'', MInt (v_attempt_count v)), (''extracted_character_count'', MInt (int (length words)))]
      (save_version (tx_now t) (ready_version words v) s) = Inr s'" "db_ok s'"
      "document_versions s' = document_versions (save_version (tx_now t) (ready_version words v) s)"
    using version_event_ok [OF assms(1) v _ att ty assms(10)] by (metis version_updates_identity(3))
  have "1 \<le> v_version_number v" using db_ok_version [OF assms(1) v] by (simp add: version_ok_def)
  then have "mark_ready t rec task words s = (Inr (), s')"
    using d own rec assms(7,9) s' by (simp add: mark_ready_def record_document_ready_def end_commit_def
        commit_def db_ok_def)
  moreover have "(ready_version words v)\<lparr>v_updated_at := tx_now t\<rparr> \<in> set (document_versions s')"
    unfolding s'(3) by (rule saved_version_mem [OF v]) (simp add: ready_version_def)
  ultimately show ?thesis using s'(2) by blast
qed

subsection \<open>Only verified content becomes ready\<close>

definition rely :: "(db \<Rightarrow> db) \<Rightarrow> bool" where
  \<comment> \<open>other sessions keep the constraints, and neither delete versions nor change their identity\<close>
  "rely f \<longleftrightarrow> (\<forall>s. db_ok s \<longrightarrow> db_ok (f s) \<and> keeps_versions s (f s))"

lemma record_event_versions: "record_event now eid org act actor rt rid md s = Inr s' \<Longrightarrow>
    document_versions s' = document_versions s"
  by (auto simp: record_event_Inr)

lemma claim_new_rows:
  assumes "claim m t vid task s = (r, s1)" and "v' \<in> set (document_versions s1)" and "v_status v' = READY"
  shows "v' \<in> set (document_versions s)"
  using assms
  by (auto simp: claim_def Let_def record_document_failed_def record_event_Inr exhausted_version_def
      extracting_version_def dest!: end_commitD end_rollbackD saved_versionsD
      split: option.splits if_splits)

lemma mark_failed_new_rows:
  assumes "mark_failed t rec task code s = (r, s1)" and "v' \<in> set (document_versions s1)" and "v_status v' = READY"
  shows "v' \<in> set (document_versions s)"
  using assms
  by (auto simp: mark_failed_def record_document_failed_def record_event_Inr failed_version_def
      dest!: end_commitD end_rollbackD saved_versionsD split: option.splits if_splits)

lemma mark_ready_new_rows:
  assumes "mark_ready t rec task words s = (r, s1)" and "v' \<in> set (document_versions s1)"
  shows "v' \<in> set (document_versions s) \<or> (\<exists>v \<in> set (document_versions s). v_id v = cl_version_id rec \<and>
    v' = (ready_version words v)\<lparr>v_updated_at := tx_now t\<rparr>)"
proof (cases "load_locked (cl_version_id rec) s")
  case None
  with assms show ?thesis by (auto simp: mark_ready_def dest: end_rollbackD)
next
  case (Some row)
  then obtain d v where row: "load_locked (cl_version_id rec) s = Some (d, v)" by (cases row) auto
  have "v' \<in> set (document_versions s) \<or> v' = (ready_version words v)\<lparr>v_updated_at := tx_now t\<rparr>"
    using assms row by (auto simp: mark_ready_def record_document_ready_def record_event_Inr
        dest!: end_commitD end_rollbackD saved_versionsD split: if_splits)
  with load_lockedD [OF row] show ?thesis by blast
qed

lemma kept_identity:
  assumes "db_ok s'" and "keeps_versions s s'" and "v \<in> set (document_versions s)"
    and "v' \<in> set (document_versions s')" and "v_id v' = v_id v"
  shows "same_identity v v'"
proof -
  obtain x where x: "x \<in> set (document_versions s')" "same_identity v x"
    using assms(2,3) by (auto simp: keeps_versions_def)
  then have "x = v'"
    using distinct_key_unique [OF db_ok_version_ids [OF assms(1)] x(1) assms(4)] assms(5)
    by (simp add: same_identity_def)
  with x show ?thesis by simp
qed

lemma ready_rows_verified:
  assumes "db_ok s" and "rely (tx_others t1)" and "rely (tx_others t2)"
    and run: "process w t1 t2 vid task s = (r, s')"
    and new: "v' \<in> set (document_versions s')" "v_status v' = READY"
      "v' \<notin> set (document_versions (tx_others t1 s))"
      "v' \<notin> set (document_versions
         (tx_others t2 (snd (claim (worker_max_attempts w) t1 vid task (tx_others t1 s)))))"
  shows "v_id v' = vid \<and> (\<exists>words. v_extracted_text v' = Some words \<and>
    verified_content w (v_size_bytes v') (v_content_sha256 v') (v_media_type v') words)"
proof -
  let ?s0 = "tx_others t1 s"
  obtain c s1 where c: "claim (worker_max_attempts w) t1 vid task ?s0 = (c, s1)" by (metis surj_pair)
  let ?s2 = "tx_others t2 s1"
  have old1: "v' \<notin> set (document_versions s1)" using claim_new_rows [OF c _ new(2)] new(3) by blast
  have old2: "v' \<notin> set (document_versions ?s2)" using new(4) c by simp
  have ok0: "db_ok ?s0" using assms(1,2) by (simp add: rely_def)
  have step1: "s1 = ?s0 \<or> ingest_step (worker_max_attempts w) ?s0 s1" by (rule claim_refines [OF c])
  then have ok1: "db_ok s1" using ok0 ingest_step_db_ok by blast
  have k1: "keeps_versions ?s0 s1" using step1 ingest_step_keeps [OF _ ok0] by auto
  have ok2: "db_ok ?s2" and k2: "keeps_versions ?s0 ?s2"
    using assms(3) ok1 k1 keeps_versions_trans by (auto simp: rely_def)
  from run new(1) old1 obtain rec words x where
    rec: "c = Inr (ClaimRecord rec)" "work w rec = Inr words" "mark_ready t2 rec task words ?s2 = (x, s')"
    unfolding process_def c using mark_failed_new_rows [OF _ new(1,2)] old2
    by (auto split: sum.splits claim_result.splits work_exn.splits prod.splits)
  from claim_record_eq [OF c [unfolded rec(1)]] obtain d0 v0 where v0: "load_locked vid ?s0 = Some (d0, v0)"
      "cl_version_id rec = vid" "cl_size_bytes rec = v_size_bytes v0"
      "cl_content_sha256 rec = v_content_sha256 v0" "cl_media_type rec = v_media_type v0" by blast
  from mark_ready_new_rows [OF rec(3) new(1)] old2 obtain v where
    v: "v \<in> set (document_versions ?s2)" "v_id v = vid"
      "v' = (ready_version words v)\<lparr>v_updated_at := tx_now t2\<rparr>" using v0(2) by blast
  have "same_identity v0 v"
    using kept_identity [OF ok2 k2 _ v(1)] load_lockedD [OF v0(1)] v(2) by simp
  then show ?thesis using work_Inr [OF rec(2)] v0 v
    by (simp add: ready_version_def same_identity_def)
qed

text \<open>
  C4. A delivery can make a version \<open>ready\<close> only with verified content, whatever the storage, the
  scanner, the PDF reader and concurrent sessions do and whatever faults occur: a row that is
  \<open>ready\<close> after \<open>process\<close> and was not there before is the delivered version, and its text is what the
  extractor of its media type returned for bytes of the recorded size and SHA-256 that the
  scanner reported clean.
\<close>

theorem ready_only_verified:
  assumes "db_ok s" and "rely (tx_others t1)" and "rely (tx_others t2)"
    and run: "process w t1 t2 vid task s = (r, s')"
    and new: "v' \<in> set (document_versions s')" "v_status v' = READY"
      "v' \<notin> set (document_versions (tx_others t1 s))"
      "v' \<notin> set (document_versions
         (tx_others t2 (snd (claim (worker_max_attempts w) t1 vid task (tx_others t1 s)))))"
  shows "v_id v' = vid \<and> (\<exists>words. v_extracted_text v' = Some words \<and>
    verified_content w (v_size_bytes v') (v_content_sha256 v') (v_media_type v') words)"
  using assms by (rule ready_rows_verified)

subsection \<open>A healthy delivery\<close>

definition quiet :: "tx \<Rightarrow> bool" where
  \<comment> \<open>no fault and no interference\<close>
  "quiet t \<longleftrightarrow> tx_fault t = NoFault \<and> tx_others t = id"

lemma healthy_process:
  assumes "db_ok s" and v: "v \<in> set (document_versions s)" and "v_status v = QUEUED"
    and "v_attempt_count v < worker_max_attempts w" and "vchar 255 task" and "quiet t1" "quiet t2"
    and "tx_event t2 \<notin> a_id ` set (audit_events s)" and "text_ok words"
    and src: "open_source w (v_storage_key v) = Inr (map Some cs)" "[] \<notin> set cs"
      "int (length (concat cs)) = v_size_bytes v" "digest w (concat cs) = v_content_sha256 v"
      "scanner w (concat cs) = Some CLEAN"
      "registry_get (read_pdf w) (v_media_type v) (concat cs) (limits w) = Inr words"
  shows "\<exists>s'. process w t1 t2 (v_id v) task s = (Inr OutReady, s') \<and> db_ok s' \<and>
    (ready_version words (extracting_version (tx_now t1) task v))\<lparr>v_updated_at := tx_now t2\<rparr>
      \<in> set (document_versions s')"
proof -
  let ?e = "extracting_version (tx_now t1) task v"
  let ?s1 = "save_version (tx_now t1) ?e s"
  obtain d where d: "claim (worker_max_attempts w) t1 (v_id v) task s = (Inr (ClaimRecord (record_of d ?e)), ?s1)"
      "db_ok ?s1" "d_organization_id d = v_organization_id v"
    using claim_succeeds [OF assms(1) v assms(3-5)] assms(6) by (auto simp: quiet_def)
  have e: "v_id ?e = v_id v" "v_storage_key ?e = v_storage_key v" "v_size_bytes ?e = v_size_bytes v"
      "v_content_sha256 ?e = v_content_sha256 v" "v_media_type ?e = v_media_type v"
      "v_organization_id ?e = v_organization_id v" "v_version_number ?e = v_version_number v"
    by (simp_all add: extracting_version_def)
  have work: "work w (record_of d ?e) = Inr words"
    by (rule work_succeeds [OF _ src(2)]) (use src in \<open>simp_all add: record_of_def e\<close>)
  have mem: "?e\<lparr>v_updated_at := tx_now t1\<rparr> \<in> set (document_versions ?s1)"
    by (rule saved_version_mem [OF v e(1)])
  obtain s' where s': "mark_ready t2 (record_of d ?e) task words ?s1 = (Inr (), s')" "db_ok s'"
      "(ready_version words (?e\<lparr>v_updated_at := tx_now t1\<rparr>))\<lparr>v_updated_at := tx_now t2\<rparr>
        \<in> set (document_versions s')"
    using mark_ready_succeeds [OF d(2) mem, of task "record_of d ?e" words t2] assms(7-9) d(3)
      version_ok_attempts [OF assms(1) v]
    by (auto simp: is_owned_extraction_def extracting_version_def record_of_def quiet_def)
  have "process w t1 t2 (v_id v) task s = (Inr OutReady, s')"
    using d(1) work s'(1) assms(6,7) by (simp add: process_def quiet_def)
  then show ?thesis using s'(2,3) by (simp add: ready_version_def)
qed

text \<open>A worker that reads the in-memory storage in chunks of at most \<open>n\<close> bytes.\<close>

fun chunks :: "nat \<Rightarrow> byte list \<Rightarrow> byte list list" where
  "chunks n b = (if b = [] \<or> n = 0 then [] else take n b # chunks n (drop n b))"

declare chunks.simps [simp del]

lemma chunks_concat: "0 < n \<Longrightarrow> concat (chunks n b) = b"
  by (induction n b rule: chunks.induct) (subst chunks.simps, simp)

lemma chunks_nonempty: "[] \<notin> set (chunks n b)"
  by (induction n b rule: chunks.induct) (subst chunks.simps, auto)

definition memory_source :: "memory_store \<Rightarrow> string \<Rightarrow> storage_error + stream" where
  "memory_source st key = (case memory_open key st of Inl e \<Rightarrow> Inl e
     | Inr b \<Rightarrow> Inr (map Some (chunks READ_CHUNK_BYTES b)))"

lemma utf8_encode_no_nul: "list_all (\<lambda>c. c \<noteq> 0) t \<Longrightarrow> 0 \<notin> set (utf8_encode t)"
  by (induction t) (auto simp: utf8_encode_def utf8_char_def split: if_splits)

text \<open>
  C6. Round trip from upload to extracted text: a text \<open>t\<close> of Unicode scalar values without \<open>NUL\<close>
  that does not look like a PDF, uploaded as UTF-8 under a \<open>.txt\<close> name, accepted, and then delivered
  to a worker whose scanner finds it clean, makes the version \<open>ready\<close> with exactly \<open>t\<close> as its
  extracted text, after one attempt, in a database that still satisfies every constraint.
\<close>

theorem upload_ingest_roundtrip:
  assumes "list_all scalar_value t" and "list_all (\<lambda>c. c \<noteq> 0) t"
    and up: "create_upload ucd sha256 memory_put memory_delete max_bytes NoFault now ids org actor
        filename [Some (utf8_encode t)] st s = (Inr (d, v), st', s')"
    and "v_media_type v = TEXT"
    and w: "open_source w = memory_source st'" "digest w = sha256" "scanner w (utf8_encode t) = Some CLEAN"
      "length t \<le> max_characters (limits w)" "1 \<le> worker_max_attempts w"
    and "vchar 255 task" and "quiet t1" "quiet t2" and "tx_event t2 \<notin> a_id ` set (audit_events s')"
  shows "\<exists>s'' v'. process w t1 t2 (v_id v) task s' = (Inr OutReady, s'') \<and> db_ok s'' \<and>
    v' \<in> set (document_versions s'') \<and> v_id v' = v_id v \<and> v_status v' = READY \<and>
    v_extracted_text v' = Some t \<and> v_attempt_count v' = 1"
proof -
  from memory.rows_after_upload [OF up]
  have rows: "s' = upload_rows now ids org d v s" "db_ok s'" by blast+
  from memory.stored_after_upload [OF up] obtain b where
    b: "memory_open (v_storage_key v) st' = Inr b" "v_size_bytes v = int (length b)" "v_content_sha256 v = sha256 b"
    by blast
  obtain staged st1 where st: "stage_document_upload ucd sha256 filename [Some (utf8_encode t)] max_bytes = Inr staged"
      "memory_put (v_storage_key v) (vu_stream staged) st = Inr st'" "v_status v = QUEUED" "v_attempt_count v = 0"
    using up by (auto simp: create_upload_def Let_def new_version_def split: sum.splits)
  then have "b = vu_stream staged" using memory.put_open [OF st(2)] b(1) by simp
  moreover have "vu_stream staged = utf8_encode t"
    using st(1) by (rule stage_document_upload_InrD) (auto split: if_splits)
  ultimately have be: "b = utf8_encode t" by simp
  have src: "open_source w (v_storage_key v) = Inr (map Some (chunks READ_CHUNK_BYTES b))"
    using b(1) by (simp add: w(1) memory_source_def)
  have cc: "concat (chunks READ_CHUNK_BYTES b) = b" by (rule chunks_concat) (simp add: READ_CHUNK_BYTES_def)
  have ex: "registry_get (read_pdf w) (v_media_type v) b (limits w) = Inr t"
    using utf8_decode_encode [OF assms(1)] utf8_encode_no_nul [OF assms(2)] w(4) assms(4)
    by (simp add: registry_get_def text_extract_def be)
  have mem: "v \<in> set (document_versions s')" by (simp add: rows upload_rows_def)
  have "text_ok t" using assms(2) by (auto simp: text_ok_def list_all_iff)
  note h = healthy_process [OF rows(2) mem st(3) _ assms(10-13) this src chunks_nonempty]
  obtain s'' where "process w t1 t2 (v_id v) task s' = (Inr OutReady, s'')" "db_ok s''"
      "(ready_version t (extracting_version (tx_now t1) task v))\<lparr>v_updated_at := tx_now t2\<rparr> \<in> set (document_versions s'')"
    using h [unfolded cc] st(4) w(2,3,5) b(2,3) ex be by auto
  then show ?thesis using st(4)
    by (intro exI [of _ s''] exI [of _ "(ready_version t (extracting_version (tx_now t1) task v))\<lparr>v_updated_at := tx_now t2\<rparr>"])
      (simp add: ready_version_def extracting_version_def)
qed

text \<open>A concrete worker and two quiet transactions for the upload of \<open>a.txt\<close> with content \<open>hi\<close>.\<close>

definition sample_worker :: "memory_store \<Rightarrow> worker" where
  "sample_worker st = \<lparr>open_source = memory_source st, scanner = (\<lambda>_. Some CLEAN),
     read_pdf = (\<lambda>_. Inl PdfHandled), digest = sample_sha,
     limits = \<lparr>max_pdf_pages = 10, max_characters = 100\<rparr>, worker_max_attempts = 4\<rparr>"

definition sample_tx :: "instant \<Rightarrow> uuid \<Rightarrow> tx" where
  "sample_tx now eid = \<lparr>tx_now = now, tx_event = eid, tx_fault = NoFault, tx_others = id\<rparr>"

definition sample_doc :: document where
  "sample_doc = new_document 7 100 1 (u ''a.txt'') 10"

definition sample_version :: document_version where
  "sample_version = new_version 7 101 1 100 (build_storage_key 1 100 101)
     \<lparr>vu_display_filename = u ''a.txt'', vu_media_type = TEXT, vu_size_bytes = 2,
      vu_content_sha256 = sample_sha [104, 105], vu_stream = [104, 105]\<rparr>"

definition sample_uploaded :: db where
  "sample_uploaded = upload_rows 7 sample_ids 1 sample_doc sample_version sample_db"

lemma sample_stage_txt: "stage_document_upload sample_ucd sample_sha (Some (u ''a.txt'')) [Some [104, 105]] 100 =
    Inr \<lparr>vu_display_filename = u ''a.txt'', vu_media_type = TEXT, vu_size_bytes = 2,
      vu_content_sha256 = sample_sha [104, 105], vu_stream = [104, 105]\<rparr>"
  by (simp add: stage_document_upload_def normalize_display_filename_def sample_ucd_def u_def
      ustrip_def strip_by_def is_space_def unsafe_filename_def DISPLAY_FILENAME_MAX_CHARS_def
      MEDIA_TYPE_BY_EXTENSION_def validate_content_def PDF_PREFIX_def utf8_decode.simps Let_def)

lemma sample_upload: "create_upload sample_ucd sample_sha memory_put memory_delete 100 NoFault 7 sample_ids 1 10
    (Some (u ''a.txt'')) [Some [104, 105]] Map.empty sample_db =
    (Inr (sample_doc, sample_version), [build_storage_key 1 100 101 \<mapsto> [104, 105]], sample_uploaded)"
proof -
  have "stage_upload_with_intent 7 sample_ids 1 sample_doc sample_version sample_db = Inr sample_uploaded"
    unfolding sample_uploaded_def
    by (rule stage_upload_ok [OF sample_db_ok sample_members(1) sample_laws(3,1) _ _ sample_stage_txt])
      (simp_all add: sample_laws MAX_DOCUMENT_BYTES_def sample_doc_def sample_version_def sample_ids_def)
  then show ?thesis unfolding create_upload_def sample_stage_txt
    by (simp add: Let_def sample_ids_def memory_put_def validate_built_key del: One_nat_def
        flip: sample_doc_def sample_version_def)
qed

lemma sample_uploaded_ok: "db_ok sample_uploaded"
  using memory.rows_after_upload [OF sample_upload] by blast

lemma sample_uploaded_tables: "document_versions sample_uploaded = [sample_version]"
    "a_id ` set (audit_events sample_uploaded) = {102}"
    "v_status sample_version = QUEUED" "v_attempt_count sample_version = 0" "v_media_type sample_version = TEXT"
  by (simp_all add: sample_uploaded_def upload_rows_def sample_version_def new_version_def sample_ids_def)

theorem upload_ingest_roundtrip_witness:
  "\<exists>s''. process (sample_worker [build_storage_key 1 100 101 \<mapsto> [104, 105]]) (sample_tx 8 110) (sample_tx 9 111)
     (v_id sample_version) ''task'' sample_uploaded = (Inr OutReady, s'') \<and> db_ok s''"
proof -
  have enc: "utf8_encode [104, 105] = [104, 105]" by (simp add: utf8_encode_def utf8_char_def)
  have up: "create_upload sample_ucd sample_sha memory_put memory_delete 100 NoFault 7 sample_ids 1 10
    (Some (u ''a.txt'')) [Some (utf8_encode [104, 105])] Map.empty sample_db =
    (Inr (sample_doc, sample_version), [build_storage_key 1 100 101 \<mapsto> [104, 105]], sample_uploaded)"
    unfolding enc by (rule sample_upload)
  let ?w = "sample_worker [build_storage_key 1 100 101 \<mapsto> [104, 105]]"
  have w: "open_source ?w = memory_source [build_storage_key 1 100 101 \<mapsto> [104, 105]]"
      "digest ?w = sample_sha" "scanner ?w (utf8_encode [104, 105]) = Some CLEAN"
      "length ([104, 105] :: nat list) \<le> max_characters (limits ?w)" "1 \<le> worker_max_attempts ?w"
    by (simp_all add: sample_worker_def)
  have t: "vchar 255 ''task''" "quiet (sample_tx 8 110)" "quiet (sample_tx 9 111)"
      "tx_event (sample_tx 9 111) \<notin> a_id ` set (audit_events sample_uploaded)"
    by (simp_all add: vchar_def quiet_def sample_tx_def sample_uploaded_tables)
  from upload_ingest_roundtrip [OF _ _ up sample_uploaded_tables(5) w t] show ?thesis
    by (auto simp: scalar_value_def)
qed

lemma sample_process_scanned:
  assumes "sc [104, 105] = Some CLEAN"
  shows "\<exists>s' v'. process (sample_worker [build_storage_key 1 100 101 \<mapsto> [104, 105]]\<lparr>scanner := sc\<rparr>)
     (sample_tx 8 110) (sample_tx 9 111) (v_id sample_version) ''task'' sample_uploaded = (Inr OutReady, s') \<and> v' \<in> set (document_versions s') \<and>
     v_status v' = READY"
proof -
  let ?w = "sample_worker [build_storage_key 1 100 101 \<mapsto> [104, 105]]\<lparr>scanner := sc\<rparr>"
  have "open_source ?w (v_storage_key sample_version) = Inr (map Some [[104, 105]])"
    by (simp add: sample_worker_def memory_source_def memory_open_def sample_version_def new_version_def
        validate_built_key chunks.simps READ_CHUNK_BYTES_def)
  moreover have "registry_get (read_pdf ?w) (v_media_type sample_version) (concat [[104, 105]]) (limits ?w) =
      Inr [104, 105]"
    by (simp add: sample_uploaded_tables registry_get_def text_extract_def utf8_decode.simps sample_worker_def)
  ultimately obtain s' where s': "process ?w (sample_tx 8 110) (sample_tx 9 111) (v_id sample_version) ''task''
      sample_uploaded = (Inr OutReady, s')"
      "(ready_version [104, 105] (extracting_version 8 ''task'' sample_version))\<lparr>v_updated_at := 9\<rparr>
        \<in> set (document_versions s')"
    using healthy_process [OF sample_uploaded_ok, of sample_version ?w "''task''" "sample_tx 8 110"
        "sample_tx 9 111" "[104, 105]" "[[104, 105]]"] assms
    by (auto simp: sample_uploaded_tables sample_worker_def vchar_def quiet_def sample_tx_def text_ok_def
        sample_version_def new_version_def)
  then show ?thesis
    by (intro exI [of _ s'] exI conjI) (assumption | simp add: ready_version_def)+
qed

lemma sample_process:
  "\<exists>s' v'. process (sample_worker [build_storage_key 1 100 101 \<mapsto> [104, 105]]) (sample_tx 8 110) (sample_tx 9 111)
     (v_id sample_version) ''task'' sample_uploaded = (Inr OutReady, s') \<and> v' \<in> set (document_versions s') \<and>
     v_status v' = READY"
  using sample_process_scanned [of "\<lambda>_. Some CLEAN"] by (simp add: sample_worker_def)

theorem ready_only_verified_witness:
  "\<exists>(v' :: document_version) words. v_status v' = READY \<and> v_extracted_text v' = Some words \<and>
     verified_content (sample_worker [build_storage_key 1 100 101 \<mapsto> [104, 105]])
       (v_size_bytes v') (v_content_sha256 v') (v_media_type v') words"
proof -
  let ?w = "sample_worker [build_storage_key 1 100 101 \<mapsto> [104, 105]]"
  obtain s' v' where run: "process ?w (sample_tx 8 110) (sample_tx 9 111) (v_id sample_version) ''task''
      sample_uploaded = (Inr OutReady, s')" "v' \<in> set (document_versions s')" "v_status v' = READY"
    using sample_process by blast
  have rely: "rely (tx_others (sample_tx n k))" for n k by (simp add: rely_def sample_tx_def)
  have old: "v' \<notin> set (document_versions sample_uploaded)"
    using run(3) by (auto simp: sample_uploaded_tables)
  have mid: "v' \<notin> set (document_versions (snd (claim (worker_max_attempts ?w) (sample_tx 8 110)
      (v_id sample_version) ''task'' sample_uploaded)))"
    using claim_new_rows [of _ _ _ _ _ "fst (claim (worker_max_attempts ?w) (sample_tx 8 110)
      (v_id sample_version) ''task'' sample_uploaded)", OF surjective_pairing _ run(3)] old by blast
  have idle: "tx_others (sample_tx n k) x = x" for n k x by (simp add: sample_tx_def)
  show ?thesis
    using ready_only_verified [OF sample_uploaded_ok rely rely run, unfolded idle, OF old mid] run(3)
    by blast
qed

subsection \<open>Text the database cannot store\<close>

text \<open>
  The text extractor never returns a \<open>NUL\<close>, but a PDF page may; PostgreSQL's \<open>text\<close> refuses
  it. Then \<open>_mark_ready\<close> reports \<open>database_unavailable\<close>, as if the outage were temporary, and the
  version is left \<open>extracting\<close>, on this and on every further delivery, until the retries run out.
\<close>

lemma nul_text_reported_as_outage:
  assumes "db_ok s" and "v \<in> set (document_versions s)" and "is_owned_extraction v task"
    and "cl_version_id rec = v_id v" and "1 \<le> cl_version_number rec" and "1 \<le> v_attempt_count v"
    and "0 \<in> set words"
  shows "mark_ready t rec task words s = (Inl (RetryableIngestionError DATABASE_UNAVAILABLE), s)"
proof -
  obtain d where d: "load_locked (v_id v) s = Some (d, v)"
    using load_locked_exists [OF assms(1,2)] by blast
  let ?v = "(ready_version words v)\<lparr>v_updated_at := tx_now t\<rparr>"
  have mem: "?v \<in> set (document_versions (save_version (tx_now t) (ready_version words v) s))"
    by (rule saved_version_mem [OF assms(2)]) (simp add: ready_version_def)
  have "\<not> version_types ?v"
    using assms(7) by (simp add: version_types_def ready_version_def text_ok_def)
  then have "\<not> types_ok ((save_version (tx_now t) (ready_version words v) s)\<lparr>audit_events := es\<rparr>)" for es
    using mem by (auto simp: types_ok_def list_all_iff)
  then show ?thesis
    using d assms(3-6) by (simp add: mark_ready_def record_document_ready_def record_event_Inr end_commit_def
        commit_def db_unavailable_def)
qed

lemma nul_text_reported_as_outage_example:
  "\<exists>s v rec. is_owned_extraction v ''task'' \<and> v \<in> set (document_versions s) \<and>
     mark_ready (sample_tx 9 111) rec ''task'' [0] s = (Inl (RetryableIngestionError DATABASE_UNAVAILABLE), s)"
proof -
  let ?v = "extracting_version 8 ''task'' sample_version"
  let ?s = "save_version 8 ?v sample_uploaded"
  have mem: "sample_version \<in> set (document_versions sample_uploaded)" by (simp add: sample_uploaded_tables)
  obtain d where "claim 4 (sample_tx 8 110) (v_id sample_version) ''task'' sample_uploaded =
      (Inr (ClaimRecord (record_of d ?v)), ?s)" and ok: "db_ok ?s"
    using claim_succeeds [OF sample_uploaded_ok mem, of 4 "''task''" "sample_tx 8 110"]
    by (auto simp: sample_uploaded_tables vchar_def sample_tx_def)
  have m: "?v\<lparr>v_updated_at := 8\<rparr> \<in> set (document_versions ?s)"
    by (rule saved_version_mem [OF mem]) (simp add: extracting_version_def)
  have "mark_ready (sample_tx 9 111) (record_of d ?v) ''task'' [0] ?s =
      (Inl (RetryableIngestionError DATABASE_UNAVAILABLE), ?s)"
    by (rule nul_text_reported_as_outage [OF ok m])
      (simp_all add: is_owned_extraction_def extracting_version_def record_of_def sample_version_def new_version_def)
  moreover have "is_owned_extraction (?v\<lparr>v_updated_at := 8\<rparr>) ''task''"
    by (simp add: is_owned_extraction_def extracting_version_def)
  ultimately show ?thesis using m by blast
qed

subsection \<open>Retries\<close>

lemma round_half_even_bounds: "\<lfloor>x\<rfloor> \<le> round_half_even x \<and> round_half_even x \<le> \<lceil>x\<rceil>"
proof (cases "x = of_int \<lfloor>x\<rfloor>")
  case True
  then have "x - of_int \<lfloor>x\<rfloor> = 0" by simp
  then show ?thesis unfolding round_half_even_def Let_def
    by (smt (verit) floor_le_ceiling zero_less_divide_iff)
next
  case False
  then have "\<lceil>x\<rceil> = \<lfloor>x\<rfloor> + 1" by (metis ceiling_altdef)
  then show ?thesis by (simp add: round_half_even_def Let_def)
qed

text \<open>
  The Celery retry delay is between one second and one minute and at least the capped
  exponential base, for every retry number and every jitter (an explicit one is clamped,
  \<open>random.random()\<close> lies in \<open>[0, 1)\<close>).
\<close>

lemma retry_countdown_bounds:
  assumes "0 \<le> rnd" and "rnd < 1"
  shows "1 \<le> retry_countdown rnd n j \<and> min 60 (2 ^ nat (max 0 n)) \<le> retry_countdown rnd n j \<and>
    retry_countdown rnd n j \<le> 60 \<and> retry_countdown rnd n j \<le> 2 * min 60 (2 ^ nat (max 0 n))"
proof -
  define base :: int where "base = min 60 (2 ^ nat (max 0 n))"
  define f where "f = (case j of None \<Rightarrow> rnd | Some x \<Rightarrow> max 0 (min 1 x))"
  have b: "1 \<le> base" "base \<le> 60" by (simp_all add: base_def)
  have f: "0 \<le> f" "f \<le> 1" using assms by (auto simp: f_def split: option.split)
  have p: "0 \<le> of_int base * f" "of_int base * f \<le> of_int base"
    using b f by (simp_all add: mult_left_le)
  have "0 \<le> \<lfloor>of_int base * f\<rfloor>" "\<lceil>of_int base * f\<rceil> \<le> base"
    using p by (simp_all add: ceiling_le_iff)
  then have "0 \<le> round_half_even (of_int base * f)" "round_half_even (of_int base * f) \<le> base"
    using round_half_even_bounds [of "of_int base * f"] by linarith+
  moreover have "retry_countdown rnd n j = min 60 (base + round_half_even (of_int base * f))"
    by (simp add: retry_countdown_def Let_def base_def f_def)
  ultimately show ?thesis using b by (auto simp flip: base_def)
qed

lemma mark_failed_succeeds:
  assumes "db_ok s" and v: "v \<in> set (document_versions s)" and own: "is_owned_extraction v task"
    and rec: "cl_version_id rec = v_id v" "cl_organization_id rec = v_organization_id v"
      "cl_version_number rec = v_version_number v"
    and "tx_fault t = NoFault" and "tx_event t \<notin> a_id ` set (audit_events s)"
  shows "\<exists>s'. mark_failed t rec task code s = (Inr (), s') \<and> db_ok s' \<and>
    (failed_version code v)\<lparr>v_updated_at := tx_now t\<rparr> \<in> set (document_versions s')"
proof -
  obtain d where d: "load_locked (v_id v) s = Some (d, v)"
    using load_locked_exists [OF assms(1) v] by blast
  have ty: "version_types (failed_version code v)"
    using db_ok_version_types [OF assms(1) v] by (simp add: version_types_def failed_version_def)
  have att: "0 \<le> v_attempt_count (failed_version code v)"
    using version_ok_attempts [OF assms(1) v] by (simp add: failed_version_def)
  obtain s' where s': "record_event (tx_now t) (tx_event t) (v_organization_id v) DOCUMENT_FAILED None
      DOCUMENT_VERSION (Some (v_id v)) [(''version_number'', MInt (v_version_number v)),
        (''error_code'', MStr (error_code_value code)), (''attempt_count'', MInt (v_attempt_count v))]
      (save_version (tx_now t) (failed_version code v) s) = Inr s'" "db_ok s'"
      "document_versions s' = document_versions (save_version (tx_now t) (failed_version code v) s)"
    using version_event_ok [OF assms(1) v _ att ty assms(8)] by (metis version_updates_identity(4))
  have "1 \<le> v_version_number v" using db_ok_version [OF assms(1) v] by (simp add: version_ok_def)
  then have "mark_failed t rec task code s = (Inr (), s')"
    using d own rec assms(7) s' version_ok_attempts [OF assms(1) v]
    by (simp add: mark_failed_def record_document_failed_def end_commit_def commit_def db_ok_def)
  moreover have "(failed_version code v)\<lparr>v_updated_at := tx_now t\<rparr> \<in> set (document_versions s')"
    unfolding s'(3) by (rule saved_version_mem [OF v]) (simp add: failed_version_def)
  ultimately show ?thesis using s'(2) by blast
qed

text \<open>
  The end of the retry budget: when a delivery with no retry left meets a retryable failure and
  the version is still owned by its task, the delivery acknowledges the message and the version
  is \<open>failed\<close> with \<open>retry_exhausted\<close>; such a delivery never schedules a further retry.
\<close>

lemma last_retry_fails_version:
  assumes "max_retries \<le> retries"
    and "process w (dl_claim dl) (dl_mark dl) vid task s = (Inl (RetryableIngestionError code), s1)"
    and "db_ok s1" and "v \<in> set (document_versions s1)" and "v_id v = vid" and "is_owned_extraction v task"
    and "quiet (dl_owned dl)" and "quiet (dl_exhaust dl)"
    and "tx_event (dl_exhaust dl) \<notin> a_id ` set (audit_events s1)"
  shows "\<exists>s'. run_delivery w max_retries dl retries vid task s = (Acknowledged, s') \<and> db_ok s' \<and>
    (\<exists>v' \<in> set (document_versions s'). v_id v' = vid \<and> v_status v' = FAILED \<and>
       v_error_code v' = Some (error_code_value RETRY_EXHAUSTED))"
proof -
  obtain d where d: "load_locked vid s1 = Some (d, v)" "d_organization_id d = v_organization_id v"
    using load_locked_exists [OF assms(3,4)] assms(5) by blast
  let ?t = "dl_exhaust dl"
  obtain s' where s': "mark_failed ?t (record_of d v) task RETRY_EXHAUSTED s1 = (Inr (), s')" "db_ok s'"
      "(failed_version RETRY_EXHAUSTED v)\<lparr>v_updated_at := tx_now ?t\<rparr> \<in> set (document_versions s')"
    using mark_failed_succeeds [OF assms(3,4,6), of "record_of d v" ?t RETRY_EXHAUSTED] assms(8,9) d(2)
    by (auto simp: record_of_def quiet_def)
  have "mark_retry_exhausted (dl_owned dl) ?t vid task s1 = (Inr (), s')"
    using d(1) assms(6,7,8) s'(1)
    by (simp add: mark_retry_exhausted_def owned_record_def end_rollback_def quiet_def)
  then have "run_delivery w max_retries dl retries vid task s = (Acknowledged, s')"
    using assms(1,2) by (simp add: run_delivery_def)
  moreover have "v_id ((failed_version RETRY_EXHAUSTED v)\<lparr>v_updated_at := tx_now ?t\<rparr>) = vid"
      "v_status ((failed_version RETRY_EXHAUSTED v)\<lparr>v_updated_at := tx_now ?t\<rparr>) = FAILED"
      "v_error_code ((failed_version RETRY_EXHAUSTED v)\<lparr>v_updated_at := tx_now ?t\<rparr>) =
        Some (error_code_value RETRY_EXHAUSTED)"
    using assms(5) by (simp_all add: failed_version_def)
  ultimately show ?thesis using s'(2,3) by blast
qed

definition sample_delivery :: delivery where
  "sample_delivery = \<lparr>dl_claim = sample_tx 8 110, dl_mark = sample_tx 9 111, dl_owned = sample_tx 10 112,
     dl_exhaust = sample_tx 11 113, dl_random = 0\<rparr>"

lemma last_retry_fails_version_example:
  "\<exists>s'. run_delivery (sample_worker Map.empty) 3 sample_delivery 3 (v_id sample_version) ''task''
     sample_uploaded = (Acknowledged, s') \<and> db_ok s'"
proof -
  let ?v = "extracting_version 8 ''task'' sample_version" and ?w = "sample_worker Map.empty"
  let ?s = "save_version 8 ?v sample_uploaded"
  have mem: "sample_version \<in> set (document_versions sample_uploaded)" by (simp add: sample_uploaded_tables)
  obtain d where c: "claim 4 (sample_tx 8 110) (v_id sample_version) ''task'' sample_uploaded =
      (Inr (ClaimRecord (record_of d ?v)), ?s)" and ok: "db_ok ?s"
    using claim_succeeds [OF sample_uploaded_ok mem, of 4 "''task''" "sample_tx 8 110"]
    by (auto simp: sample_uploaded_tables vchar_def sample_tx_def)
  have m: "?v\<lparr>v_updated_at := 8\<rparr> \<in> set (document_versions ?s)"
    by (rule saved_version_mem [OF mem]) (simp add: extracting_version_def)
  have "\<exists>e. open_source ?w (cl_storage_key (record_of d ?v)) = Inl e"
    by (simp add: sample_worker_def memory_source_def memory_open_def bindE_def split: sum.split)
  then have "work ?w (record_of d ?v) = Inl (WRetry STORAGE_UNAVAILABLE)"
    by (auto simp: work_def stage_verified_source_def)
  moreover have "worker_max_attempts ?w = 4" by (simp add: sample_worker_def)
  ultimately have p: "process ?w (dl_claim sample_delivery) (dl_mark sample_delivery) (v_id sample_version)
      ''task'' sample_uploaded = (Inl (RetryableIngestionError STORAGE_UNAVAILABLE), ?s)"
    using c by (simp add: process_def sample_delivery_def) (simp add: sample_tx_def)
  have "\<exists>s'. run_delivery ?w 3 sample_delivery 3 (v_id sample_version) ''task'' sample_uploaded =
      (Acknowledged, s') \<and> db_ok s' \<and> (\<exists>v' \<in> set (document_versions s'). v_id v' = v_id sample_version \<and>
        v_status v' = FAILED \<and> v_error_code v' = Some (error_code_value RETRY_EXHAUSTED))"
    by (rule last_retry_fails_version [OF _ p ok m])
      (simp_all add: is_owned_extraction_def extracting_version_def quiet_def sample_delivery_def sample_tx_def
        sample_uploaded_tables)
  then show ?thesis by blast
qed

end
