(* ===== verification/SF_Relay.thy ===== *)
theory SF_Relay
  imports SF_Delivery
begin

text \<open>
  The outbox relay and the operator's recovery command: \<open>IngestionRelay\<close> and \<open>backfill\<close> of
  \<open>app/documents/relay.py\<close>, \<open>rearm_intent\<close> of \<open>app/documents/recovery.py\<close>.

  Every method is one transaction (\<open>with session.begin()\<close>, which also commits on an early
  \<open>return\<close>); \<open>rtx\<close> extends the description of a transaction by the token \<open>uuid4()\<close> draws and by the
  rows that other transactions hold locked, which \<open>SKIP LOCKED\<close> passes over.
\<close>

record rtx = tx +
  rt_token :: uuid
  rt_locked :: "uuid \<Rightarrow> bool"

record relay_policy =
  rp_lease_seconds :: int
  rp_recovery_seconds :: int
  rp_extracting_seconds :: int
  rp_max_publications :: int
  rp_max_recoveries :: int

definition default_policy :: relay_policy where
  "default_policy = \<lparr>rp_lease_seconds = 30, rp_recovery_seconds = 1200, rp_extracting_seconds = 375,
     rp_max_publications = 20, rp_max_recoveries = 3\<rparr>"

record publication =
  pb_intent_id :: uuid
  pb_version_id :: uuid
  pb_task_id :: string
  pb_token :: uuid
  pb_retries :: int

datatype relay_exn = RelayDbError | RelayAssertion | RelayValueError string

definition relay_commit :: "db_fault \<Rightarrow> 'r \<Rightarrow> db \<Rightarrow> db \<Rightarrow> (relay_exn + 'r) \<times> db" where
  "relay_commit fault result pending s =
     (case commit pending of
        Inl _ \<Rightarrow> (Inl RelayDbError, s)
      | Inr s' \<Rightarrow>
          (case fault of NoFault \<Rightarrow> (Inr result, s') | Aborted \<Rightarrow> (Inl RelayDbError, s)
           | AckLost \<Rightarrow> (Inl RelayDbError, s')))"

definition save_intent :: "ingestion_intent \<Rightarrow> db \<Rightarrow> db" where
  "save_intent i s = s\<lparr>ingestion_intents := upd_row i_id (i_id i) (\<lambda>_. i) (ingestion_intents s)\<rparr>"

subsection \<open>Claiming an intent\<close>

definition lease_free :: "instant \<Rightarrow> ingestion_intent \<Rightarrow> bool" where
  "lease_free now i \<longleftrightarrow> (case i_lease_expires_at i of None \<Rightarrow> True | Some e \<Rightarrow> e \<le> now)"

definition due :: "instant \<Rightarrow> ingestion_intent \<Rightarrow> bool" where
  "due now i \<longleftrightarrow> i_settled_at i = None \<and> i_unresolved_at i = None \<and> i_available_at i \<le> now \<and> lease_free now i"

definition intent_version :: "ingestion_intent \<Rightarrow> db \<Rightarrow> document_version option" where
  "intent_version i s = find (\<lambda>v. v_id v = i_document_version_id i \<and>
     v_organization_id v = i_organization_id i) (document_versions s)"

definition park :: "instant \<Rightarrow> string \<Rightarrow> ingestion_intent \<Rightarrow> ingestion_intent" where
  "park now reason i = i\<lparr>i_unresolved_at := Some now, i_last_error := Some reason\<rparr>"

definition budget_spent :: "relay_policy \<Rightarrow> ingestion_intent \<Rightarrow> bool" where
  "budget_spent pol i \<longleftrightarrow>
     rp_max_publications pol + i_recovery_grants i \<le> i_publish_attempts i \<or>
     rp_max_recoveries pol + i_recovery_grants i \<le> i_recovery_attempts i"

definition lease_out :: "relay_policy \<Rightarrow> instant \<Rightarrow> uuid \<Rightarrow> ingestion_intent \<Rightarrow> document_version \<Rightarrow>
    ingestion_intent \<times> publication" where
  "lease_out pol now token i v =
     (let expires_at = now + seconds (rp_lease_seconds pol);
          i' = i\<lparr>i_recovery_attempts := (if i_published_at i \<noteq> None then i_recovery_attempts i + 1
                   else i_recovery_attempts i),
                 i_publish_attempts := i_publish_attempts i + 1,
                 i_lease_token := Some token, i_lease_expires_at := Some expires_at,
                 i_available_at := expires_at\<rparr>;
          retries = max 0 (v_attempt_count v - (if v_status v = EXTRACTING then 1 else 0))
      in (i', \<lparr>pb_intent_id = i_id i, pb_version_id = v_id v, pb_task_id = i_task_id i,
               pb_token = token, pb_retries = retries\<rparr>))"

definition budget_or_lease :: "relay_policy \<Rightarrow> instant \<Rightarrow> uuid \<Rightarrow> ingestion_intent \<Rightarrow> document_version \<Rightarrow>
    ingestion_intent \<times> publication option" where
  "budget_or_lease pol now token i v =
     (if budget_spent pol i then (park now ''attempts_exhausted'' i, None)
      else let (i', pub) = lease_out pol now token i v in (i', Some pub))"

definition claim_row :: "relay_policy \<Rightarrow> instant \<Rightarrow> uuid \<Rightarrow> ingestion_intent \<Rightarrow> document_version \<Rightarrow>
    ingestion_intent \<times> publication option" where
  \<comment> \<open>the body of \<open>claim\<close> once the intent and its version are locked\<close>
  "claim_row pol now token intent v =
     (let i = intent\<lparr>i_lease_token := None, i_lease_expires_at := None\<rparr> in
      if terminal_status (v_status v) then (i\<lparr>i_settled_at := Some now\<rparr>, None)
      else if v_status v = EXTRACTING then
        (if v_processing_task_id v \<noteq> Some (i_task_id i)
         then (park now ''ownership_ambiguous'' i, None)
         else case v_processing_started_at v of
           None \<Rightarrow> (park now ''ownership_ambiguous'' i, None)
         | Some started \<Rightarrow>
             let safe_after = started + seconds (rp_extracting_seconds pol) in
             if now < safe_after then (i\<lparr>i_available_at := safe_after\<rparr>, None)
             else budget_or_lease pol now token i v)
      else if v_processing_task_id v \<notin> {None, Some (i_task_id i)}
      then (park now ''ownership_ambiguous'' i, None)
      else budget_or_lease pol now token i v)"

definition relay_claim :: "relay_policy \<Rightarrow> rtx \<Rightarrow> db \<Rightarrow> (relay_exn + publication option) \<times> db" where
  "relay_claim pol t s =
     (case first_by (\<lambda>i. (i_available_at i, i_id i))
             (filter (\<lambda>i. due (tx_now t) i \<and> \<not> rt_locked t (i_id i)) (ingestion_intents s)) of
        None \<Rightarrow> relay_commit (tx_fault t) None s s
      | Some intent \<Rightarrow>
          (case intent_version intent s of
             None \<Rightarrow> (Inl RelayAssertion, s)
           | Some v \<Rightarrow>
               let (i', pub) = claim_row pol (tx_now t) (rt_token t) intent v in
               relay_commit (tx_fault t) pub (save_intent i' s) s))"

subsection \<open>Finishing, settling and cleaning up\<close>

definition finish_delay :: "relay_policy \<Rightarrow> bool \<Rightarrow> int \<Rightarrow> int" where
  "finish_delay pol success attempts =
     (if success then rp_recovery_seconds pol else min 60 (2 ^ nat (min attempts 6)))"

definition finish_row :: "relay_policy \<Rightarrow> instant \<Rightarrow> bool \<Rightarrow> ingestion_intent \<Rightarrow> ingestion_intent" where
  "finish_row pol now success i =
     i\<lparr>i_lease_token := None, i_lease_expires_at := None,
       i_last_error := (if success then None else Some ''publish_unavailable''),
       i_published_at := (if success then Some now else i_published_at i),
       i_available_at := now + seconds (finish_delay pol success (i_publish_attempts i))\<rparr>"

definition leased_to :: "publication \<Rightarrow> instant \<Rightarrow> ingestion_intent \<Rightarrow> bool" where
  "leased_to pub now i \<longleftrightarrow> i_id i = pb_intent_id pub \<and> i_lease_token i = Some (pb_token pub) \<and>
     (case i_lease_expires_at i of None \<Rightarrow> False | Some e \<Rightarrow> now < e)"

definition finish :: "relay_policy \<Rightarrow> rtx \<Rightarrow> publication \<Rightarrow> bool \<Rightarrow> db \<Rightarrow> (relay_exn + bool) \<times> db" where
  "finish pol t pub success s =
     (case find (leased_to pub (tx_now t)) (ingestion_intents s) of
        None \<Rightarrow> relay_commit (tx_fault t) False s s
      | Some i \<Rightarrow> relay_commit (tx_fault t) True (save_intent (finish_row pol (tx_now t) success i) s) s)"

definition settle_candidate :: "rtx \<Rightarrow> db \<Rightarrow> ingestion_intent \<Rightarrow> bool" where
  "settle_candidate t s i \<longleftrightarrow> i_settled_at i = None \<and>
     (case intent_version i s of None \<Rightarrow> False | Some v \<Rightarrow> terminal_status (v_status v)) \<and>
     lease_free (tx_now t) i \<and> \<not> rt_locked t (i_id i)"

definition settle_row :: "instant \<Rightarrow> ingestion_intent \<Rightarrow> ingestion_intent" where
  "settle_row now i = i\<lparr>i_settled_at := Some now, i_unresolved_at := None, i_last_error := None,
     i_lease_token := None, i_lease_expires_at := None\<rparr>"

definition settle_terminal :: "rtx \<Rightarrow> db \<Rightarrow> (relay_exn + nat) \<times> db" where
  "settle_terminal t s =
     (let picked = limit_offset 100 0 (order_by i_id (filter (settle_candidate t s) (ingestion_intents s)))
      in relay_commit (tx_fault t) (length picked)
           (s\<lparr>ingestion_intents := map (\<lambda>i. if i \<in> set picked then settle_row (tx_now t) i else i)
              (ingestion_intents s)\<rparr>) s)"

definition RETENTION :: int where
  "RETENTION = seconds (7 * 24 * 60 * 60)"

definition expired_intent :: "rtx \<Rightarrow> ingestion_intent \<Rightarrow> bool" where
  "expired_intent t i \<longleftrightarrow> (case i_settled_at i of None \<Rightarrow> False | Some e \<Rightarrow> e \<le> tx_now t - RETENTION) \<and>
     i_unresolved_at i = None \<and> i_lease_token i = None \<and> \<not> rt_locked t (i_id i)"

definition cleanup :: "rtx \<Rightarrow> int \<Rightarrow> db \<Rightarrow> (relay_exn + nat) \<times> db" where
  "cleanup t limit s =
     (if \<not> (1 \<le> limit \<and> limit \<le> 1000) then (Inl (RelayValueError ''Bounded cleanup batch required''), s)
      else let rows = map i_id (limit_offset (nat limit) 0 (order_by
                 (\<lambda>i. (case i_settled_at i of None \<Rightarrow> 0 | Some e \<Rightarrow> e, i_id i))
                 (filter (expired_intent t) (ingestion_intents s))))
           in relay_commit (tx_fault t) (length rows)
                (s\<lparr>ingestion_intents := filter (\<lambda>i. i_id i \<notin> set rows) (ingestion_intents s)\<rparr>) s)"

definition tick :: "relay_policy \<Rightarrow> rtx \<Rightarrow> rtx \<Rightarrow> rtx \<Rightarrow> (publication \<Rightarrow> bool) \<Rightarrow> db \<Rightarrow> (relay_exn + bool) \<times> db" where
  \<comment> \<open>\<open>publish pub\<close> tells whether the broker call returned normally\<close>
  "tick pol t1 t2 t3 publish s =
     (case settle_terminal t1 (tx_others t1 s) of
        (Inl e, s1) \<Rightarrow> (Inl e, s1)
      | (Inr _, s1) \<Rightarrow>
          (case relay_claim pol t2 (tx_others t2 s1) of
             (Inl e, s2) \<Rightarrow> (Inl e, s2)
           | (Inr None, s2) \<Rightarrow> (Inr False, s2)
           | (Inr (Some pub), s2) \<Rightarrow>
               (case finish pol t3 pub (publish pub) (tx_others t3 s2) of
                  (Inl e, s3) \<Rightarrow> (Inl e, s3) | (Inr _, s3) \<Rightarrow> (Inr True, s3))))"

subsection \<open>Backfill\<close>

definition has_intent :: "db \<Rightarrow> document_version \<Rightarrow> bool" where
  "has_intent s v \<longleftrightarrow> list_ex (\<lambda>i. i_document_version_id i = v_id v \<and>
     i_organization_id i = v_organization_id v) (ingestion_intents s)"

definition backfill_task :: "document_version \<Rightarrow> uuid \<Rightarrow> string" where
  \<comment> \<open>\<open>version.processing_task_id or str(uuid4())\<close>\<close>
  "backfill_task v task = (case v_processing_task_id v of None \<Rightarrow> uuid_str task
     | Some x \<Rightarrow> if x = [] then uuid_str task else x)"

definition insert_intent :: "instant \<Rightarrow> document_version \<times> uuid \<times> uuid \<Rightarrow> db \<Rightarrow> db" where
  \<comment> \<open>\<open>INSERT ... ON CONFLICT (organization_id, document_version_id) DO NOTHING\<close>\<close>
  "insert_intent now r s = (let (v, iid, task) = r in
     if has_intent s v then s
     else s\<lparr>ingestion_intents := ingestion_intents s @
            [new_intent now iid (v_organization_id v) (v_id v) (backfill_task v task)]\<rparr>)"

definition backfill :: "rtx \<Rightarrow> instant \<Rightarrow> int \<Rightarrow> (uuid \<times> uuid) list \<Rightarrow> db \<Rightarrow> (relay_exn + nat) \<times> db" where
  \<comment> \<open>\<open>fresh\<close>: the identifiers drawn, one pair per selected version; the cutoff is time-zone aware\<close>
  "backfill t cutoff limit fresh s =
     (if \<not> (1 \<le> limit \<and> limit \<le> 1000)
      then (Inl (RelayValueError ''Aware cutoff and bounded batch required''), s)
      else if tx_now t < cutoff then (Inl (RelayValueError ''Cutoff cannot be in the future''), s)
      else let versions = limit_offset (nat limit) 0 (order_by (\<lambda>v. (v_created_at v, v_id v))
                 (filter (\<lambda>v. v_created_at v \<le> cutoff \<and> v_status v = QUEUED \<and> \<not> has_intent s v \<and>
                    \<not> rt_locked t (v_id v)) (document_versions s)))
           in relay_commit (tx_fault t) (length versions)
                (fold (insert_intent (tx_now t)) (zip versions fresh) s) s)"

subsection \<open>Operator recovery\<close>

definition active_admin :: "uuid \<Rightarrow> uuid \<Rightarrow> db \<Rightarrow> bool" where
  "active_admin org actor s \<longleftrightarrow>
     list_ex (\<lambda>m. m_organization_id m = org \<and> m_user_id m = actor \<and> m_role m = ADMIN \<and>
        m_status m = MEMBER_ACTIVE) (organization_members s) \<and>
     list_ex (\<lambda>x. u_id x = actor \<and> u_status x = USER_ACTIVE) (users s) \<and>
     list_ex (\<lambda>x. o_id x = org \<and> o_status x = ORG_ACTIVE) (organizations s)"

datatype rearm_error =
    DependencyVerificationFailed | ActiveTenantAdminRequired | NotExhausted | ActiveRelayLease
  | GrantLimitReached | ActiveWorkerDelivery | VersionMissing | TerminalVersion | AmbiguousOwnership
  | ExtractionActive | WorkerBudgetExhausted | RearmAudit audit_error | RearmDbError

definition rearm_guard :: "instant \<Rightarrow> bool \<Rightarrow> int \<Rightarrow> int \<Rightarrow> db \<Rightarrow> ingestion_intent \<Rightarrow>
    rearm_error + document_version" where
  \<comment> \<open>the checks of \<open>rearm_intent\<close> after the intent is locked; \<open>busy\<close>: the advisory lock is taken\<close>
  "rearm_guard now busy extracting_seconds max_worker_attempts s i =
     (if i_unresolved_at i = None \<or> i_last_error i \<noteq> Some ''attempts_exhausted'' \<or> i_settled_at i \<noteq> None
      then Inl NotExhausted
      else if \<not> lease_free now i then Inl ActiveRelayLease
      else if 3 \<le> i_recovery_grants i then Inl GrantLimitReached
      else if busy then Inl ActiveWorkerDelivery
      else (case intent_version i s of
        None \<Rightarrow> Inl VersionMissing
      | Some v \<Rightarrow>
          if terminal_status (v_status v) then Inl TerminalVersion
          else if v_processing_task_id v \<notin> {None, Some (i_task_id i)} then Inl AmbiguousOwnership
          else if v_status v = EXTRACTING \<and>
             (v_processing_task_id v \<noteq> Some (i_task_id i) \<or>
              (case v_processing_started_at v of None \<Rightarrow> True
               | Some started \<Rightarrow> now < started + seconds extracting_seconds)) then Inl ExtractionActive
          else if v_status v = QUEUED \<and> max_worker_attempts \<le> v_attempt_count v
          then Inl WorkerBudgetExhausted
          else Inr v))"

definition rearm_row :: "instant \<Rightarrow> ingestion_intent \<Rightarrow> ingestion_intent" where
  "rearm_row now i = i\<lparr>i_recovery_grants := i_recovery_grants i + 1, i_unresolved_at := None,
     i_last_error := None, i_lease_token := None, i_lease_expires_at := None, i_available_at := now\<rparr>"

definition rearm_intent :: "tx \<Rightarrow> bool \<Rightarrow> bool \<Rightarrow> int \<Rightarrow> int \<Rightarrow> uuid \<Rightarrow> uuid \<Rightarrow> uuid \<Rightarrow> db \<Rightarrow>
    (rearm_error + int) \<times> db" where
  "rearm_intent t dependencies_ok busy extracting_seconds max_worker_attempts org intent_id actor s =
     (if \<not> dependencies_ok then (Inl DependencyVerificationFailed, s)
      else if \<not> active_admin org actor s then (Inl ActiveTenantAdminRequired, s)
      else (case find (\<lambda>i. i_id i = intent_id \<and> i_organization_id i = org) (ingestion_intents s) of
        None \<Rightarrow> (Inl NotExhausted, s)
      | Some i \<Rightarrow>
          (case rearm_guard (tx_now t) busy extracting_seconds max_worker_attempts s i of
             Inl e \<Rightarrow> (Inl e, s)
           | Inr v \<Rightarrow>
               let i' = rearm_row (tx_now t) i in
               (case record_document_dispatch_rearmed (tx_now t) (tx_event t) org actor (v_id v)
                       (i_recovery_grants i') (save_intent i' s) of
                  Inl e \<Rightarrow> (Inl (RearmAudit e), s)
                | Inr pending \<Rightarrow>
                    (case relay_commit (tx_fault t) (i_recovery_grants i') pending s of
                       (Inl _, s') \<Rightarrow> (Inl RearmDbError, s') | (Inr n, s') \<Rightarrow> (Inr n, s'))))))"

subsection \<open>Saving intents\<close>

definition same_intent :: "ingestion_intent \<Rightarrow> ingestion_intent \<Rightarrow> bool" where
  "same_intent i i' \<longleftrightarrow> i_id i' = i_id i \<and> i_organization_id i' = i_organization_id i \<and>
     i_document_version_id i' = i_document_version_id i \<and> i_task_id i' = i_task_id i"

definition counters_ok :: "ingestion_intent \<Rightarrow> bool" where
  "counters_ok r \<longleftrightarrow> 0 \<le> i_publish_attempts r \<and> 0 \<le> i_recovery_attempts r \<and>
     0 \<le> i_recovery_grants r \<and> i_recovery_grants r \<le> 3 \<and>
     (i_lease_token r = None \<longleftrightarrow> i_lease_expires_at r = None) \<and>
     i_last_error r \<in> {None, Some ''publish_unavailable'', Some ''attempts_exhausted'',
       Some ''ownership_ambiguous''}"

definition intent_ref :: "db \<Rightarrow> uuid \<Rightarrow> uuid \<Rightarrow> string \<Rightarrow> bool" where
  "intent_ref s org vid task \<longleftrightarrow>
     list_ex (\<lambda>v. v_organization_id v = org \<and> v_id v = vid) (document_versions s) \<and>
     task = pg_trim_s task \<and> task \<noteq> []"

lemma intent_ok_split: "intent_ok s r \<longleftrightarrow>
    intent_ref s (i_organization_id r) (i_document_version_id r) (i_task_id r) \<and> counters_ok r"
  unfolding intent_ok_def intent_ref_def counters_ok_def by (cases "i_last_error r"; simp; blast)

lemma intent_ok_counters: "intent_ok s i \<Longrightarrow> counters_ok i"
  by (simp add: intent_ok_split)

lemma intent_ok_same: "intent_ok s i \<Longrightarrow> same_intent i i' \<Longrightarrow> counters_ok i' \<Longrightarrow> intent_ok s i'"
  by (simp add: intent_ok_split same_intent_def)

lemma counters_error_short: "counters_ok r \<Longrightarrow> on_some (vchar 32) (i_last_error r)"
  by (auto simp: counters_ok_def vchar_def)

lemma intent_types_same: "intent_types i \<Longrightarrow> same_intent i i' \<Longrightarrow> counters_ok i' \<Longrightarrow> intent_types i'"
  by (simp add: intent_types_def same_intent_def counters_error_short)

lemma counters_ok_frame [simp]:
  "counters_ok (i\<lparr>i_settled_at := a\<rparr>) = counters_ok i" "counters_ok (i\<lparr>i_unresolved_at := b\<rparr>) = counters_ok i"
  "counters_ok (i\<lparr>i_available_at := c\<rparr>) = counters_ok i" "counters_ok (i\<lparr>i_published_at := d\<rparr>) = counters_ok i"
  by (simp_all add: counters_ok_def)

lemma counters_ok_lease:
  "counters_ok i \<Longrightarrow> counters_ok (i\<lparr>i_lease_token := None, i_lease_expires_at := None\<rparr>)"
  "counters_ok i \<Longrightarrow> counters_ok (i\<lparr>i_lease_token := Some tok, i_lease_expires_at := Some e\<rparr>)"
  unfolding counters_ok_def by simp_all

lemma counters_ok_error:
  "counters_ok i \<Longrightarrow> e \<in> {None, Some ''publish_unavailable'', Some ''attempts_exhausted'',
     Some ''ownership_ambiguous''} \<Longrightarrow> counters_ok (i\<lparr>i_last_error := e\<rparr>)"
  unfolding counters_ok_def by simp

lemma counters_ok_attempts:
  "counters_ok i \<Longrightarrow> 0 \<le> a \<Longrightarrow> 0 \<le> b \<Longrightarrow> counters_ok (i\<lparr>i_recovery_attempts := a, i_publish_attempts := b\<rparr>)"
  unfolding counters_ok_def by simp

lemma counters_nonneg: "counters_ok i \<Longrightarrow> 0 \<le> i_publish_attempts i \<and> 0 \<le> i_recovery_attempts i \<and>
    0 \<le> i_recovery_grants i \<and> i_recovery_grants i \<le> 3"
  unfolding counters_ok_def by simp

lemma lease_out_counters: "counters_ok i \<Longrightarrow> counters_ok (fst (lease_out pol now tok i v))"
  by (simp add: lease_out_def Let_def counters_ok_lease counters_ok_attempts counters_nonneg)

lemma park_counters: "counters_ok i \<Longrightarrow> reason \<in> {''attempts_exhausted'', ''ownership_ambiguous''} \<Longrightarrow>
    counters_ok (park now reason i)"
  unfolding park_def by (rule counters_ok_error) auto

lemma budget_or_lease_counters: "counters_ok i \<Longrightarrow> counters_ok (fst (budget_or_lease pol now tok i v))"
  using lease_out_counters [of i pol now tok v]
  by (auto simp: budget_or_lease_def park_counters split: prod.split)

lemma finish_row_counters: "counters_ok i \<Longrightarrow> counters_ok (finish_row pol now success i)"
  unfolding finish_row_def counters_ok_frame
  by (rule counters_ok_error [OF counters_ok_lease(1)]) auto

lemma settle_row_counters: "counters_ok i \<Longrightarrow> counters_ok (settle_row now i)"
  unfolding settle_row_def by (rule counters_ok_lease(1), rule counters_ok_error) auto

lemma rearm_row_counters: "counters_ok i \<Longrightarrow> i_recovery_grants i < 3 \<Longrightarrow> counters_ok (rearm_row now i)"
  unfolding rearm_row_def counters_ok_def by simp

lemma db_ok_intent_types: "db_ok s \<Longrightarrow> i \<in> set (ingestion_intents s) \<Longrightarrow> intent_types i"
  by (simp add: db_ok_defs list_all_iff)

lemma replace_intents:
  assumes "db_ok s" and "distinct (map i_id js)" and "distinct (map i_task_id js)"
    and "distinct (map (\<lambda>r. (i_organization_id r, i_document_version_id r)) js)"
    and "list_all (intent_ok s) js" and "list_all intent_types js"
  shows "db_ok (s\<lparr>ingestion_intents := js\<rparr>)"
  using assms by (simp add: db_ok_defs)

lemma db_ok_intent_tasks: "db_ok s \<Longrightarrow> distinct (map i_task_id (ingestion_intents s))"
  by (simp add: db_ok_defs)

lemma map_intents:
  assumes "db_ok s"
    and "\<And>i. i \<in> set (ingestion_intents s) \<Longrightarrow> same_intent i (f i) \<and> counters_ok (f i)"
  shows "db_ok (s\<lparr>ingestion_intents := map f (ingestion_intents s)\<rparr>)"
proof -
  let ?is = "ingestion_intents s"
  have maps: "map i_id (map f ?is) = map i_id ?is" "map i_task_id (map f ?is) = map i_task_id ?is"
      "map (\<lambda>r. (i_organization_id r, i_document_version_id r)) (map f ?is) =
       map (\<lambda>r. (i_organization_id r, i_document_version_id r)) ?is"
    using assms(2) by (auto simp: same_intent_def)
  have "list_all (intent_ok s) (map f ?is)" "list_all intent_types (map f ?is)"
    using assms(2) db_ok_intent [OF assms(1)] db_ok_intent_types [OF assms(1)]
    unfolding list_all_iff by (auto intro: intent_ok_same intent_types_same)
  then show ?thesis
    by (intro replace_intents [OF assms(1)])
      (simp_all only: maps db_ok_intent_ids [OF assms(1)] db_ok_intent_tasks [OF assms(1)]
        db_ok_intent_versions [OF assms(1)])
qed

lemma save_intent_map: "save_intent i' s =
    s\<lparr>ingestion_intents := map (\<lambda>i. if i_id i = i_id i' then i' else i) (ingestion_intents s)\<rparr>"
  by (simp add: save_intent_def upd_row_def)

lemma save_intent_db_ok:
  assumes "db_ok s" and "i \<in> set (ingestion_intents s)" and "same_intent i i'" and "counters_ok i'"
  shows "db_ok (save_intent i' s)"
  unfolding save_intent_map
proof (rule map_intents [OF assms(1)])
  fix j assume j: "j \<in> set (ingestion_intents s)"
  show "same_intent j (if i_id j = i_id i' then i' else j) \<and> counters_ok (if i_id j = i_id i' then i' else j)"
    using assms(3,4) j intent_ok_counters [OF db_ok_intent [OF assms(1) j]]
      distinct_key_unique [OF db_ok_intent_ids [OF assms(1)] j assms(2)]
    by (auto simp: same_intent_def)
qed

lemma save_intent_mem: "i \<in> set (ingestion_intents s) \<Longrightarrow> i_id i' = i_id i \<Longrightarrow>
    i' \<in> set (ingestion_intents (save_intent i' s))"
  by (auto simp: save_intent_def upd_row_def image_iff)

lemma save_intentD: "j \<in> set (ingestion_intents (save_intent i' s)) \<Longrightarrow>
    j = i' \<or> j \<in> set (ingestion_intents s) \<and> i_id j \<noteq> i_id i'"
  by (auto simp: save_intent_def mem_upd_row split: if_splits)

lemma relay_commit_Inr: "db_ok pending \<Longrightarrow> relay_commit NoFault r pending s = (Inr r, pending)"
  by (simp add: relay_commit_def commit_def db_ok_def)

lemma relay_commitD: "relay_commit fault r pending s = (res, s') \<Longrightarrow> s' = s \<or> s' = pending \<and> db_ok pending"
  by (auto simp: relay_commit_def split: sum.splits db_fault.splits)

lemma intent_version_exists:
  assumes "db_ok s" and "i \<in> set (ingestion_intents s)"
  shows "\<exists>v. intent_version i s = Some v \<and> v \<in> set (document_versions s) \<and>
    v_id v = i_document_version_id i \<and> v_organization_id v = i_organization_id i"
proof -
  have "\<exists>v \<in> set (document_versions s). v_organization_id v = i_organization_id i \<and> v_id v = i_document_version_id i"
    using db_ok_intent [OF assms] by (auto simp: intent_ok_def list_ex_iff)
  then have "intent_version i s \<noteq> None" by (auto simp: intent_version_def find_None_iff)
  then obtain v where "intent_version i s = Some v" by auto
  then show ?thesis unfolding intent_version_def by (metis (mono_tags, lifting) find_SomeD)
qed

subsection \<open>What a claim does to its intent\<close>

lemma claim_row_identity: "claim_row pol now tok i v = (i', pub) \<Longrightarrow> same_intent i i'"
  by (auto simp: claim_row_def budget_or_lease_def lease_out_def park_def same_intent_def Let_def
      split: if_splits option.splits)

lemma claim_row_counters: "counters_ok i \<Longrightarrow> counters_ok (fst (claim_row pol now tok i v))"
  by (simp add: claim_row_def Let_def counters_ok_lease budget_or_lease_counters park_counters
      split: option.split)

lemma relay_claim_cases:
  assumes "db_ok s" and "tx_fault t = NoFault"
  obtains "\<forall>i \<in> set (ingestion_intents s). due (tx_now t) i \<longrightarrow> rt_locked t (i_id i)"
      "relay_claim pol t s = (Inr None, s)"
  | i v i' pub where "i \<in> set (ingestion_intents s)" "due (tx_now t) i" "\<not> rt_locked t (i_id i)"
      "\<forall>j \<in> set (ingestion_intents s). due (tx_now t) j \<and> \<not> rt_locked t (i_id j) \<longrightarrow>
         (i_available_at i, i_id i) \<le> (i_available_at j, i_id j)"
      "intent_version i s = Some v" "claim_row pol (tx_now t) (rt_token t) i v = (i', pub)"
      "relay_claim pol t s = (Inr pub, save_intent i' s)" "db_ok (save_intent i' s)"
proof (cases "first_by (\<lambda>i. (i_available_at i, i_id i))
    (filter (\<lambda>i. due (tx_now t) i \<and> \<not> rt_locked t (i_id i)) (ingestion_intents s))")
  case None
  then have "\<forall>i \<in> set (ingestion_intents s). due (tx_now t) i \<longrightarrow> rt_locked t (i_id i)"
    by (auto simp: filter_empty_conv)
  moreover have "relay_claim pol t s = (Inr None, s)"
    unfolding relay_claim_def None using assms by (simp add: relay_commit_Inr)
  ultimately show thesis by (rule that(1))
next
  case (Some i)
  have i: "i \<in> set (ingestion_intents s)" "due (tx_now t) i" "\<not> rt_locked t (i_id i)"
    using first_by_mem [OF Some] by auto
  obtain v where v: "intent_version i s = Some v" using intent_version_exists [OF assms(1) i(1)] by blast
  obtain i' pub where c: "claim_row pol (tx_now t) (rt_token t) i v = (i', pub)" by (metis surj_pair)
  have ok: "db_ok (save_intent i' s)"
    using save_intent_db_ok [OF assms(1) i(1) claim_row_identity [OF c]
      claim_row_counters [OF intent_ok_counters [OF db_ok_intent [OF assms(1) i(1)]],
        of pol "tx_now t" "rt_token t" v, unfolded c fst_conv]] .
  have "relay_claim pol t s = (Inr pub, save_intent i' s)"
    using Some v c ok assms(2) by (simp add: relay_claim_def relay_commit_Inr)
  with i v c ok first_by_least [OF Some] show thesis by (intro that(2)) auto
qed

subsection \<open>Progress and exclusiveness of claims\<close>

lemma seconds_nonpos [simp]: "seconds n \<le> 0 \<longleftrightarrow> n \<le> 0"
  by (simp add: seconds_def)

lemma claim_row_not_due:
  assumes "claim_row pol now tok i v = (i', pub)" and "0 < rp_lease_seconds pol"
  shows "\<not> due now i'"
  using assms by (auto simp: claim_row_def budget_or_lease_def lease_out_def park_def due_def Let_def
      split: if_splits option.splits)

lemma length_filter_replace:
  assumes "distinct (map key xs)" and "x \<in> set xs" and "key y = key x" and "p x" and "\<not> p y"
  shows "Suc (length (filter p (map (\<lambda>z. if key z = key y then y else z) xs))) = length (filter p xs)"
  using assms
proof (induction xs)
  case (Cons z xs)
  have "key w \<noteq> key z" if "w \<in> set xs" for w using Cons.prems(1) that by (metis distinct.simps(2) image_eqI list.map(2) list.set_map)
  then have idle: "map (\<lambda>w. if key w = key z then y else w) xs = xs"
    by (intro map_idI) auto
  show ?case
  proof (cases "x = z")
    case True
    with Cons.prems idle show ?thesis by simp
  next
    case False
    with Cons.prems have "x \<in> set xs" "key z \<noteq> key x" by auto
    with Cons show ?thesis by auto
  qed
qed simp

text \<open>
  C33. Every poll makes progress: with a working database the relay's claim always commits. Either
  nothing is due (and unlocked), or the earliest due intent is taken and it stops being due, so
  the number of due intents drops by one whether it was settled, parked, postponed or leased.
\<close>

theorem relay_claim_progress:
  assumes "db_ok s" and "tx_fault t = NoFault" and "0 < rp_lease_seconds pol"
  shows "\<exists>pub s'. relay_claim pol t s = (Inr pub, s') \<and> db_ok s' \<and>
    (let ready = (\<lambda>i. due (tx_now t) i \<and> \<not> rt_locked t (i_id i)) in
     if filter ready (ingestion_intents s) = [] then pub = None \<and> s' = s
     else Suc (length (filter ready (ingestion_intents s'))) = length (filter ready (ingestion_intents s)) \<and>
       (\<forall>p. pub = Some p \<longrightarrow> (\<exists>i \<in> set (ingestion_intents s). i_id i = pb_intent_id p \<and> ready i \<and>
          (\<forall>j \<in> set (ingestion_intents s). ready j \<longrightarrow> i_available_at i \<le> i_available_at j))))"
proof (rule relay_claim_cases [OF assms(1,2), of pol])
  assume "\<forall>i \<in> set (ingestion_intents s). due (tx_now t) i \<longrightarrow> rt_locked t (i_id i)"
    "relay_claim pol t s = (Inr None, s)"
  then show ?thesis using assms(1) by (intro exI conjI) (auto simp: Let_def filter_empty_conv)
next
  fix i v i' pub
  let ?r = "\<lambda>i. due (tx_now t) i \<and> \<not> rt_locked t (i_id i)"
  assume i: "i \<in> set (ingestion_intents s)" "due (tx_now t) i" "\<not> rt_locked t (i_id i)"
    and least: "\<forall>j \<in> set (ingestion_intents s). ?r j \<longrightarrow> (i_available_at i, i_id i) \<le> (i_available_at j, i_id j)"
    and c: "claim_row pol (tx_now t) (rt_token t) i v = (i', pub)"
    and run: "relay_claim pol t s = (Inr pub, save_intent i' s)" "db_ok (save_intent i' s)"
  have id: "i_id i' = i_id i" using claim_row_identity [OF c] by (simp add: same_intent_def)
  have nd: "\<not> ?r i'" using claim_row_not_due [OF c assms(3)] by simp
  have "Suc (length (filter ?r (ingestion_intents (save_intent i' s)))) = length (filter ?r (ingestion_intents s))"
    using length_filter_replace [OF db_ok_intent_ids [OF assms(1)] i(1) id, of ?r] i nd
    by (simp add: save_intent_map)
  moreover have "i_id i = pb_intent_id p" if "pub = Some p" for p
    using c that by (auto simp: claim_row_def budget_or_lease_def lease_out_def Let_def split: if_splits option.splits)
  moreover have "filter ?r (ingestion_intents s) \<noteq> []" using i by (auto simp: filter_empty_conv)
  moreover have "i_available_at i \<le> i_available_at j" if "j \<in> set (ingestion_intents s)" "?r j" for j
    using least that by (auto simp: less_eq_prod_def)
  ultimately show ?thesis using run i by (intro exI [of _ pub] exI [of _ "save_intent i' s"]) (auto simp: Let_def)
qed

lemma claim_row_publication:
  assumes "claim_row pol now tok i v = (i', Some pub)"
  shows "i' = fst (lease_out pol now tok (i\<lparr>i_lease_token := None, i_lease_expires_at := None\<rparr>) v) \<and>
    pub = snd (lease_out pol now tok (i\<lparr>i_lease_token := None, i_lease_expires_at := None\<rparr>) v) \<and>
    \<not> budget_spent pol i \<and> \<not> terminal_status (v_status v)"
  using assms by (auto simp: claim_row_def budget_or_lease_def budget_spent_def Let_def
      split: if_splits option.splits prod.splits)

definition sample_rtx :: "instant \<Rightarrow> uuid \<Rightarrow> rtx" where
  "sample_rtx now token = \<lparr>tx_now = now, tx_event = 0, tx_fault = NoFault, tx_others = id,
     rt_token = token, rt_locked = (\<lambda>_. False)\<rparr>"

lemma sample_intents: "ingestion_intents sample_uploaded =
    [new_intent 7 103 1 101 (uuid_str 104)]"
  by (simp add: sample_uploaded_def upload_rows_def sample_ids_def sample_version_def new_version_def)

lemma sample_intent_version: "intent_version (new_intent 7 103 1 101 task) sample_uploaded = Some sample_version"
  by (simp add: intent_version_def new_intent_def sample_uploaded_tables sample_version_def new_version_def)

lemma sample_claim: "relay_claim default_policy (sample_rtx 8 900) sample_uploaded =
    (Inr (Some \<lparr>pb_intent_id = 103, pb_version_id = 101, pb_task_id = uuid_str 104, pb_token = 900, pb_retries = 0\<rparr>),
     save_intent (fst (lease_out default_policy 8 900 (new_intent 7 103 1 101 (uuid_str 104)) sample_version))
       sample_uploaded)"
proof (rule relay_claim_cases [OF sample_uploaded_ok, of "sample_rtx 8 900" default_policy])
  show "tx_fault (sample_rtx 8 900) = NoFault" by (simp add: sample_rtx_def)
next
  assume "\<forall>i \<in> set (ingestion_intents sample_uploaded). due (tx_now (sample_rtx 8 900)) i \<longrightarrow>
      rt_locked (sample_rtx 8 900) (i_id i)"
  then show ?thesis by (simp add: sample_intents sample_rtx_def due_def new_intent_def lease_free_def)
next
  fix i v i' pub
  assume i: "i \<in> set (ingestion_intents sample_uploaded)"
    and v: "intent_version i sample_uploaded = Some v"
    and c: "claim_row default_policy (tx_now (sample_rtx 8 900)) (rt_token (sample_rtx 8 900)) i v = (i', pub)"
    and run: "relay_claim default_policy (sample_rtx 8 900) sample_uploaded = (Inr pub, save_intent i' sample_uploaded)"
  have ieq: "i = new_intent 7 103 1 101 (uuid_str 104)" using i by (simp add: sample_intents)
  then have "v = sample_version" using v sample_intent_version [of "uuid_str 104"] by simp
  with c ieq have "i' = fst (lease_out default_policy 8 900 (new_intent 7 103 1 101 (uuid_str 104)) sample_version)"
    "pub = Some \<lparr>pb_intent_id = 103, pb_version_id = 101, pb_task_id = uuid_str 104, pb_token = 900, pb_retries = 0\<rparr>"
    by (auto simp: claim_row_def sample_rtx_def Let_def sample_uploaded_tables sample_version_def new_version_def
        budget_or_lease_def budget_spent_def default_policy_def new_intent_def lease_out_def)
  with run show ?thesis by simp
qed

theorem relay_claim_progress_witness:
  "\<exists>pub s'. relay_claim default_policy (sample_rtx 8 900) sample_uploaded = (Inr pub, s') \<and> db_ok s'"
  using relay_claim_progress [OF sample_uploaded_ok, of "sample_rtx 8 900" default_policy]
  by (auto simp: sample_rtx_def default_policy_def)

subsection \<open>Finishing a publication\<close>

text \<open>
  Only the holder of an unexpired lease can finish: then the lease is released and the intent
  becomes available again after the recovery interval (success) or after a back-off of at most a
  minute (failure); with a stale token or after expiry nothing changes and \<open>finish\<close> says so.
\<close>

lemma finish_needs_lease:
  assumes "db_ok s" and "tx_fault t = NoFault"
  shows "if \<exists>i \<in> set (ingestion_intents s). leased_to pub (tx_now t) i
    then \<exists>i s'. i \<in> set (ingestion_intents s) \<and> leased_to pub (tx_now t) i \<and>
      finish pol t pub success s = (Inr True, s') \<and> db_ok s' \<and>
      finish_row pol (tx_now t) success i \<in> set (ingestion_intents s') \<and>
      i_lease_token (finish_row pol (tx_now t) success i) = None \<and>
      i_available_at (finish_row pol (tx_now t) success i) = tx_now t + seconds
        (if success then rp_recovery_seconds pol else min 60 (2 ^ nat (min (i_publish_attempts i) 6)))
    else finish pol t pub success s = (Inr False, s)"
proof (cases "find (leased_to pub (tx_now t)) (ingestion_intents s)")
  case None
  then have "\<not> (\<exists>i \<in> set (ingestion_intents s). leased_to pub (tx_now t) i)" by (auto simp: find_None_iff)
  moreover have "finish pol t pub success s = (Inr False, s)"
    using None assms by (simp add: finish_def relay_commit_Inr)
  ultimately show ?thesis by simp
next
  case (Some i)
  have i: "i \<in> set (ingestion_intents s)" "leased_to pub (tx_now t) i" using find_SomeD [OF Some] by auto
  let ?f = "finish_row pol (tx_now t) success i"
  have same: "same_intent i ?f" by (simp add: same_intent_def finish_row_def)
  have ok: "db_ok (save_intent ?f s)"
    using save_intent_db_ok [OF assms(1) i(1) same finish_row_counters [OF intent_ok_counters [OF db_ok_intent [OF assms(1) i(1)]]]] .
  have "finish pol t pub success s = (Inr True, save_intent ?f s)"
    using Some ok assms(2) by (simp add: finish_def relay_commit_Inr)
  moreover have "?f \<in> set (ingestion_intents (save_intent ?f s))"
    using same by (intro save_intent_mem [OF i(1)]) (simp add: same_intent_def)
  moreover have "i_lease_token ?f = None \<and> i_available_at ?f = tx_now t + seconds
      (if success then rp_recovery_seconds pol else min 60 (2 ^ nat (min (i_publish_attempts i) 6)))"
    by (simp add: finish_row_def finish_delay_def)
  ultimately show ?thesis using i ok by auto
qed

lemma finish_needs_lease_example:
  "finish default_policy (sample_rtx 9 901)
     \<lparr>pb_intent_id = 103, pb_version_id = 101, pb_task_id = uuid_str 104, pb_token = 900, pb_retries = 0\<rparr>
     True sample_uploaded = (Inr False, sample_uploaded)"
proof -
  let ?p = "\<lparr>pb_intent_id = 103, pb_version_id = 101, pb_task_id = uuid_str 104, pb_token = 900, pb_retries = 0\<rparr>"
  have "\<not> (\<exists>i \<in> set (ingestion_intents sample_uploaded). leased_to ?p (tx_now (sample_rtx 9 901)) i)"
    by (simp add: sample_intents new_intent_def leased_to_def)
  then show ?thesis
    using finish_needs_lease [OF sample_uploaded_ok, of "sample_rtx 9 901" ?p default_policy True]
    by (simp add: sample_rtx_def)
qed

subsection \<open>Settlement and retention\<close>

lemma intent_version_frame [simp]:
  "intent_version i (s\<lparr>ingestion_intents := js\<rparr>) = intent_version i s"
  "intent_version i (s\<lparr>audit_events := es\<rparr>) = intent_version i s"
  by (simp_all add: intent_version_def)

lemma intent_version_same: "same_intent i i' \<Longrightarrow> intent_version i' s = intent_version i s"
  by (simp add: intent_version_def same_intent_def)

lemma settle_row_same: "same_intent i (settle_row now i)"
  by (simp add: same_intent_def settle_row_def)

lemma settle_map_ok:
  assumes "db_ok s"
  shows "db_ok (s\<lparr>ingestion_intents := map (\<lambda>i. if P i then settle_row now i else i) (ingestion_intents s)\<rparr>)"
proof (rule map_intents [OF assms])
  fix i assume "i \<in> set (ingestion_intents s)"
  then have "counters_ok i" using db_ok_intent [OF assms] intent_ok_counters by blast
  then show "same_intent i (if P i then settle_row now i else i) \<and> counters_ok (if P i then settle_row now i else i)"
    using settle_row_same settle_row_counters by (auto simp: same_intent_def)
qed

text \<open>
  Settlement is complete and only touches finished work: with at most a hundred candidates one
  run settles every unlocked, unleased intent of a terminal version, also those parked as
  unresolved, and leaves every intent of an unfinished version exactly as it was.
\<close>

lemma settle_terminal_complete:
  assumes "db_ok s" and "tx_fault t = NoFault"
    and "length (filter (settle_candidate t s) (ingestion_intents s)) \<le> 100"
  shows "\<exists>s'. settle_terminal t s =
      (Inr (length (filter (settle_candidate t s) (ingestion_intents s))), s') \<and> db_ok s' \<and>
    filter (settle_candidate t s') (ingestion_intents s') = [] \<and>
    document_versions s' = document_versions s \<and>
    (\<forall>i \<in> set (ingestion_intents s).
       if settle_candidate t s i then settle_row (tx_now t) i \<in> set (ingestion_intents s')
       else i \<in> set (ingestion_intents s'))"
proof -
  let ?c = "settle_candidate t s"
  let ?s' = "s\<lparr>ingestion_intents := map (\<lambda>i. if ?c i then settle_row (tx_now t) i else i) (ingestion_intents s)\<rparr>"
  let ?p = "limit_offset 100 0 (order_by i_id (filter ?c (ingestion_intents s)))"
  have p: "?p = order_by i_id (filter ?c (ingestion_intents s))" using assms(3) by (simp add: limit_offset_def)
  have upd: "map (\<lambda>i. if i \<in> set ?p then settle_row (tx_now t) i else i) (ingestion_intents s) =
      map (\<lambda>i. if ?c i then settle_row (tx_now t) i else i) (ingestion_intents s)" unfolding p by auto
  have ok: "db_ok ?s'" by (rule settle_map_ok [OF assms(1)])
  have len: "length ?p = length (filter ?c (ingestion_intents s))" unfolding p by simp
  have run: "settle_terminal t s = (Inr (length (filter ?c (ingestion_intents s))), ?s')"
    unfolding settle_terminal_def Let_def upd assms(2) relay_commit_Inr [OF ok] len by (rule refl)
  have "\<not> settle_candidate t ?s' j" if "j \<in> set (ingestion_intents ?s')" for j
    using that by (auto simp: settle_candidate_def settle_row_def split: if_splits)
  then have "filter (settle_candidate t ?s') (ingestion_intents ?s') = []" by (simp only: filter_empty_conv) blast
  then show ?thesis using run ok by (intro exI [of _ ?s']) auto
qed

lemma sample_no_candidates: "filter (settle_candidate (sample_rtx 8 900) sample_uploaded) (ingestion_intents sample_uploaded) = []"
  using sample_intent_version [of "uuid_str 104"]
  by (simp add: sample_intents settle_candidate_def sample_uploaded_tables)

lemma settle_terminal_complete_example:
  "\<exists>s'. settle_terminal (sample_rtx 8 900) sample_uploaded = (Inr 0, s') \<and> db_ok s'"
  using settle_terminal_complete [OF sample_uploaded_ok, of "sample_rtx 8 900"] sample_no_candidates
  by (auto simp: sample_rtx_def)

text \<open>
  Retention never loses work: \<open>cleanup\<close> deletes at most \<open>limit\<close> intents, each settled at least
  seven days ago, not parked and not leased; every other row of the database stays.
\<close>

lemma cleanup_only_expired:
  assumes "db_ok s" and "tx_fault t = NoFault" and "1 \<le> limit" and "limit \<le> 1000"
  shows "\<exists>n s'. cleanup t limit s = (Inr n, s') \<and> db_ok s' \<and> n \<le> nat limit \<and>
    (\<exists>js. s' = s\<lparr>ingestion_intents := js\<rparr>) \<and>
    (\<forall>i \<in> set (ingestion_intents s). i \<notin> set (ingestion_intents s') \<longrightarrow>
       (\<exists>e. i_settled_at i = Some e \<and> e \<le> tx_now t - RETENTION) \<and> i_unresolved_at i = None \<and>
       i_lease_token i = None) \<and>
    (\<forall>i \<in> set (ingestion_intents s'). i \<in> set (ingestion_intents s))"
proof -
  define picked where "picked = limit_offset (nat limit) 0 (order_by
    (\<lambda>i. (case i_settled_at i of None \<Rightarrow> 0 | Some e \<Rightarrow> e, i_id i)) (filter (expired_intent t) (ingestion_intents s)))"
  define js where "js = filter (\<lambda>i. i_id i \<notin> set (map i_id picked)) (ingestion_intents s)"
  have sub: "set picked \<subseteq> set (filter (expired_intent t) (ingestion_intents s))"
    unfolding picked_def limit_offset_def by (auto dest: in_set_takeD)
  have len: "length picked \<le> nat limit" by (simp add: picked_def limit_offset_def)
  have dm: "distinct (map f js)" if "distinct (map f (ingestion_intents s))" for f :: "ingestion_intent \<Rightarrow> 'k"
    using that unfolding js_def by (rule distinct_map_filter)
  have "db_ok (s\<lparr>ingestion_intents := js\<rparr>)"
    by (rule replace_intents [OF assms(1) dm dm dm])
      (use assms(1) in \<open>auto simp: js_def list_all_iff db_ok_intent db_ok_intent_types
        db_ok_intent_ids db_ok_intent_tasks db_ok_intent_versions\<close>)
  then have run: "cleanup t limit s = (Inr (length picked), s\<lparr>ingestion_intents := js\<rparr>)" "db_ok (s\<lparr>ingestion_intents := js\<rparr>)"
    using assms(2-4) by (simp_all add: cleanup_def Let_def relay_commit_Inr js_def flip: picked_def)
  have "expired_intent t i" if mem: "i \<in> set (ingestion_intents s)" "i \<notin> set js" for i
  proof -
    obtain j where j: "j \<in> set picked" "i_id j = i_id i" using mem by (auto simp: js_def)
    with sub have "j \<in> set (ingestion_intents s)" "expired_intent t j" by auto
    with j(2) mem(1) distinct_key_unique [OF db_ok_intent_ids [OF assms(1)]] show ?thesis by metis
  qed
  then have gone: "(\<exists>e. i_settled_at i = Some e \<and> e \<le> tx_now t - RETENTION) \<and> i_unresolved_at i = None \<and>
       i_lease_token i = None" if "i \<in> set (ingestion_intents s)" "i \<notin> set js" for i
    using \<open>\<And>i. i \<in> set (ingestion_intents s) \<Longrightarrow> i \<notin> set js \<Longrightarrow> expired_intent t i\<close> [OF that]
    by (cases "i_settled_at i") (simp_all add: expired_intent_def)
  have "set js \<subseteq> set (ingestion_intents s)" by (auto simp: js_def)
  with run len gone show ?thesis
    by (intro exI [of _ "length picked"] exI [of _ "s\<lparr>ingestion_intents := js\<rparr>"]) auto
qed

lemma cleanup_only_expired_example:
  "\<exists>n s'. cleanup (sample_rtx 8 900) 100 sample_uploaded = (Inr n, s') \<and> n \<le> 100"
  using cleanup_only_expired [OF sample_uploaded_ok, of "sample_rtx 8 900" 100] by (auto simp: sample_rtx_def)

subsection \<open>Operator recovery\<close>

lemma rearm_guardD:
  assumes "rearm_guard now busy ext max_att s i = Inr v"
  shows "i_unresolved_at i \<noteq> None \<and> i_last_error i = Some ''attempts_exhausted'' \<and> i_settled_at i = None \<and>
    lease_free now i \<and> i_recovery_grants i < 3 \<and> \<not> busy \<and> intent_version i s = Some v \<and>
    \<not> terminal_status (v_status v) \<and> v_processing_task_id v \<in> {None, Some (i_task_id i)} \<and>
    (v_status v = EXTRACTING \<longrightarrow> v_processing_task_id v = Some (i_task_id i) \<and>
       (\<exists>started. v_processing_started_at v = Some started \<and> started + seconds ext \<le> now)) \<and>
    (v_status v = QUEUED \<longrightarrow> v_attempt_count v < max_att)"
  using assms unfolding rearm_guard_def
  by (auto split: if_splits option.splits)

lemma rearm_state:
  assumes "rearm_intent t dep busy ext max_att org iid actor s = (r, s')" and "s' \<noteq> s"
  shows "\<exists>i v e. i \<in> set (ingestion_intents s) \<and> i_id i = iid \<and> i_organization_id i = org \<and>
    active_admin org actor s \<and> rearm_guard (tx_now t) busy ext max_att s i = Inr v \<and>
    s' = (save_intent (rearm_row (tx_now t) i) s)\<lparr>audit_events := audit_events s @ [e]\<rparr> \<and> db_ok s' \<and>
    a_action e = audit_action_value DOCUMENT_DISPATCH_REARMED \<and> a_actor_user_id e = Some actor \<and>
    a_organization_id e = org \<and> a_resource_id e = Some (v_id v)"
proof -
  from assms obtain i v where i: "find (\<lambda>i. i_id i = iid \<and> i_organization_id i = org) (ingestion_intents s) = Some i"
      "active_admin org actor s" "rearm_guard (tx_now t) busy ext max_att s i = Inr v"
    by (auto simp: rearm_intent_def split: if_splits option.splits sum.splits)
  have f: "i \<in> set (ingestion_intents s)" "i_id i = iid" "i_organization_id i = org"
    using find_SomeD [OF i(1)] by auto
  from assms i have "\<exists>e. s' = (save_intent (rearm_row (tx_now t) i) s)\<lparr>audit_events := audit_events s @ [e]\<rparr> \<and> db_ok s' \<and>
    a_action e = audit_action_value DOCUMENT_DISPATCH_REARMED \<and> a_actor_user_id e = Some actor \<and>
    a_organization_id e = org \<and> a_resource_id e = Some (v_id v)"
    by (auto simp: rearm_intent_def Let_def record_document_dispatch_rearmed_def record_event_Inr save_intent_def
        dest!: relay_commitD split: if_splits prod.splits sum.splits)
  with i f show ?thesis by blast
qed

lemma active_admin_member: "active_admin org actor s \<Longrightarrow> has_member s org actor"
  by (auto simp: active_admin_def has_member_def list_ex_iff)

text \<open>
  The operator's rearm is guarded and bounded: it succeeds exactly when the dependencies were
  verified, the actor is an active administrator of the tenant and the intent passes every check
  of the command; then the intent has one more grant (at most three in all), is due at once, keeps
  its attempt counters, and the action is in the audit trail. A refused rearm changes nothing.
\<close>

lemma rearm_outcome:
  assumes "db_ok s" and "tx_fault t = NoFault" and "tx_event t \<notin> a_id ` set (audit_events s)"
    and "i \<in> set (ingestion_intents s)" and "i_organization_id i = org"
  shows "if dep \<and> active_admin org actor s \<and> (\<exists>v. rearm_guard (tx_now t) busy ext max_att s i = Inr v)
    then \<exists>s' e. rearm_intent t dep busy ext max_att org (i_id i) actor s = (Inr (i_recovery_grants i + 1), s') \<and>
      db_ok s' \<and> i_recovery_grants i + 1 \<le> 3 \<and> rearm_row (tx_now t) i \<in> set (ingestion_intents s') \<and>
      due (tx_now t) (rearm_row (tx_now t) i) \<and>
      i_publish_attempts (rearm_row (tx_now t) i) = i_publish_attempts i \<and>
      i_recovery_attempts (rearm_row (tx_now t) i) = i_recovery_attempts i \<and>
      audit_events s' = audit_events s @ [e] \<and> a_actor_user_id e = Some actor \<and>
      a_action e = audit_action_value DOCUMENT_DISPATCH_REARMED
    else \<exists>e. rearm_intent t dep busy ext max_att org (i_id i) actor s = (Inl e, s)"
proof -
  have find: "find (\<lambda>x. i_id x = i_id i \<and> i_organization_id x = org) (ingestion_intents s) = Some i"
  proof -
    obtain x where x: "find (\<lambda>x. i_id x = i_id i \<and> i_organization_id x = org) (ingestion_intents s) = Some x"
      using assms(4,5) by (metis (mono_tags, lifting) find_None_iff not_None_eq)
    then have "x = i" using find_SomeD [OF x] distinct_key_unique [OF db_ok_intent_ids [OF assms(1)] _ assms(4)] by blast
    with x show ?thesis by simp
  qed
  show ?thesis
  proof (cases "dep \<and> active_admin org actor s \<and> (\<exists>v. rearm_guard (tx_now t) busy ext max_att s i = Inr v)")
    case False
    then show ?thesis using find
      by (auto simp: rearm_intent_def split: sum.splits)
  next
    case True
    then obtain v where v: "rearm_guard (tx_now t) busy ext max_att s i = Inr v" by blast
    note G = rearm_guardD [OF v]
    let ?i = "rearm_row (tx_now t) i"
    have cnt: "counters_ok i" using intent_ok_counters [OF db_ok_intent [OF assms(1,4)]] .
    have ok1: "db_ok (save_intent ?i s)"
      by (rule save_intent_db_ok [OF assms(1,4)])
        (use rearm_row_counters [OF cnt] G in \<open>simp_all add: same_intent_def rearm_row_def\<close>)
    have mem: "has_member s org actor" using True active_admin_member by blast
    have org: "has_org (save_intent ?i s) org" "has_member (save_intent ?i s) org actor"
      using member_org [OF assms(1) mem] mem by (simp_all add: save_intent_def)
    have ev: "tx_event t \<notin> a_id ` set (audit_events (save_intent ?i s))" using assms(3) by (simp add: save_intent_def)
    have g: "i_recovery_grants ?i = i_recovery_grants i + 1" "1 \<le> i_recovery_grants ?i" "i_recovery_grants ?i \<le> 3"
      using G counters_nonneg [OF cnt] by (simp_all add: rearm_row_def)
    obtain s' where s': "record_document_dispatch_rearmed (tx_now t) (tx_event t) org actor (v_id v)
        (i_recovery_grants ?i) (save_intent ?i s) = Inr s'"
      using g by (auto simp: record_document_dispatch_rearmed_def record_event_Inr)
    have ok': "db_ok s'"
      using record_event_db_ok [OF ok1 org(1) ev, of "Some actor"] org(2) g s'
      by (auto simp: record_document_dispatch_rearmed_def)
    have run: "rearm_intent t dep busy ext max_att org (i_id i) actor s = (Inr (i_recovery_grants i + 1), s')"
      using True find v s' ok' assms(2) g(1) by (simp add: rearm_intent_def Let_def relay_commit_Inr)
    obtain e where e: "s' = (save_intent ?i s)\<lparr>audit_events := audit_events s @ [e]\<rparr>" "a_actor_user_id e = Some actor"
        "a_action e = audit_action_value DOCUMENT_DISPATCH_REARMED"
      using s' g by (auto simp: record_document_dispatch_rearmed_def record_event_Inr save_intent_def)
    have "?i \<in> set (ingestion_intents s')"
      using save_intent_mem [OF assms(4), of ?i] e(1) by (simp add: rearm_row_def)
    moreover have "due (tx_now t) ?i" using G by (simp add: due_def rearm_row_def lease_free_def)
    moreover have "i_publish_attempts ?i = i_publish_attempts i" "i_recovery_attempts ?i = i_recovery_attempts i"
      by (simp_all add: rearm_row_def)
    ultimately show ?thesis using True run ok' g e by auto
  qed
qed

definition sample_parked :: ingestion_intent where
  "sample_parked = park 8 ''attempts_exhausted'' (new_intent 7 103 1 101 (uuid_str 104))"

lemma sample_parked_ok: "db_ok (save_intent sample_parked sample_uploaded)"
    "ingestion_intents (save_intent sample_parked sample_uploaded) = [sample_parked]"
proof -
  have m: "new_intent 7 103 1 101 (uuid_str 104) \<in> set (ingestion_intents sample_uploaded)"
    by (simp add: sample_intents)
  show "db_ok (save_intent sample_parked sample_uploaded)"
    by (rule save_intent_db_ok [OF sample_uploaded_ok m])
      (simp_all add: sample_parked_def park_def same_intent_def new_intent_def counters_ok_def)
  show "ingestion_intents (save_intent sample_parked sample_uploaded) = [sample_parked]"
    by (simp add: save_intent_def sample_intents upd_row_def sample_parked_def park_def new_intent_def)
qed

lemma rearm_outcome_example:
  "\<exists>s'. rearm_intent (sample_tx 20 120) True False 375 4 1 103 10 (save_intent sample_parked sample_uploaded) =
     (Inr 1, s') \<and> db_ok s'"
proof -
  let ?s = "save_intent sample_parked sample_uploaded"
  have m: "sample_parked \<in> set (ingestion_intents ?s)" by (simp add: sample_parked_ok)
  have f: "i_id sample_parked = 103" "i_organization_id sample_parked = 1" "i_recovery_grants sample_parked = 0"
    by (simp_all add: sample_parked_def park_def new_intent_def)
  have v: "intent_version sample_parked ?s = Some sample_version"
    using sample_intent_version [of "uuid_str 104"]
    by (simp add: save_intent_def sample_parked_def park_def intent_version_def new_intent_def)
  have g: "rearm_guard 20 False 375 4 ?s sample_parked = Inr sample_version"
    unfolding rearm_guard_def v
    by (simp add: sample_uploaded_tables sample_version_def new_version_def)
      (simp add: sample_parked_def park_def new_intent_def lease_free_def)
  have a: "active_admin 1 10 ?s"
    by (simp add: active_admin_def save_intent_def sample_uploaded_def upload_rows_def sample_db_def)
  have e: "tx_event (sample_tx 20 120) \<notin> a_id ` set (audit_events ?s)"
    by (simp add: sample_tx_def save_intent_def sample_uploaded_tables)
  show ?thesis
    using rearm_outcome [OF sample_parked_ok(1) _ e m f(2), of True 10 False 375 4] g a f
    by (auto simp: sample_tx_def)
qed

end
