(* ===== verification/SF_Pipeline.thy ===== *)
theory SF_Pipeline
  imports SF_Relay
begin

text \<open>
  The ingestion pipeline as a whole: uploads by the API, deliveries by workers, the relay, the
  operator's commands, all as transactions on one database in any order, under any faults and
  clocks. \<open>pipeline_step\<close> is one committed or failed transaction; what holds after any number of
  them is shown by induction over the steps. A worker's delivery, with arbitrary pipeline steps
  between its transactions, is again a run of the pipeline (interpretation \<open>delivery\<close>).
\<close>

inductive pipeline_step :: "relay_policy \<Rightarrow> int \<Rightarrow> db \<Rightarrow> db \<Rightarrow> bool" for pol m where
  Upload: "d = new_document now (f_document ids) org name actor \<Longrightarrow>
    v = new_version now (f_version ids) org (f_document ids) key staged \<Longrightarrow>
    stage_upload_with_intent now ids org d v s = Inr s' \<Longrightarrow> pipeline_step pol m s s'"
| Worker: "ingest_step m s s' \<Longrightarrow> pipeline_step pol m s s'"
| Claim: "relay_claim pol t s = (r, s') \<Longrightarrow> pipeline_step pol m s s'"
| Finish: "finish pol t pub ok s = (r', s') \<Longrightarrow> pipeline_step pol m s s'"
| Settle: "settle_terminal t s = (n, s') \<Longrightarrow> pipeline_step pol m s s'"
| Cleanup: "cleanup t limit s = (n, s') \<Longrightarrow> pipeline_step pol m s s'"
| Backfill: "backfill t cutoff limit fresh s = (n, s') \<Longrightarrow> pipeline_step pol m s s'"
| Rearm: "rearm_intent tt dep busy ext max_att org iid actor s = (g, s') \<Longrightarrow> pipeline_step pol m s s'"

inductive_cases pipeline_stepE: "pipeline_step pol m s s'"

definition matches :: "ingestion_intent \<Rightarrow> document_version \<Rightarrow> bool" where
  "matches i v \<longleftrightarrow> i_document_version_id i = v_id v \<and> i_organization_id i = v_organization_id v"

definition within_budget :: "relay_policy \<Rightarrow> ingestion_intent \<Rightarrow> bool" where
  "within_budget pol i \<longleftrightarrow>
     i_publish_attempts i \<le> rp_max_publications pol + i_recovery_grants i \<and>
     i_recovery_attempts i \<le> rp_max_recoveries pol + i_recovery_grants i"

definition outbox_inv :: "relay_policy \<Rightarrow> db \<Rightarrow> bool" where
  "outbox_inv pol s \<longleftrightarrow>
     (\<forall>v \<in> set (document_versions s). terminal_status (v_status v) \<or>
        (\<exists>i \<in> set (ingestion_intents s). matches i v \<and> i_settled_at i = None)) \<and>
     (\<forall>i \<in> set (ingestion_intents s). within_budget pol i \<and>
        (i_settled_at i = None \<or>
         (\<exists>v \<in> set (document_versions s). matches i v \<and> terminal_status (v_status v))))"

definition pipeline_inv :: "relay_policy \<Rightarrow> int \<Rightarrow> db \<Rightarrow> bool" where
  "pipeline_inv pol m s \<longleftrightarrow> db_ok s \<and> lifecycle_inv m s \<and> outbox_inv pol s"

definition policy_ok :: "relay_policy \<Rightarrow> bool" where
  "policy_ok pol \<longleftrightarrow> 0 \<le> rp_max_publications pol \<and> 0 \<le> rp_max_recoveries pol"

subsection \<open>Relay transactions only rewrite intents\<close>

definition intent_update :: "relay_policy \<Rightarrow> db \<Rightarrow> (ingestion_intent \<Rightarrow> ingestion_intent) \<Rightarrow> bool" where
  \<comment> \<open>identity and budget are kept; only intents of terminal versions get settled\<close>
  "intent_update pol s f \<longleftrightarrow> (\<forall>i \<in> set (ingestion_intents s). within_budget pol i \<longrightarrow>
     same_intent i (f i) \<and> within_budget pol (f i) \<and>
     (i_settled_at (f i) = i_settled_at i \<or>
      (\<exists>v. intent_version i s = Some v \<and> terminal_status (v_status v))))"

lemma matches_same: "same_intent i i' \<Longrightarrow> matches i' v = matches i v"
  by (simp add: matches_def same_intent_def)

lemma intent_version_matches: "intent_version i s = Some v \<Longrightarrow> v \<in> set (document_versions s) \<and> matches i v"
  unfolding intent_version_def matches_def by (drule find_SomeD) auto

lemma matches_unique: "db_ok s \<Longrightarrow> v \<in> set (document_versions s) \<Longrightarrow> w \<in> set (document_versions s) \<Longrightarrow>
    matches i v \<Longrightarrow> matches i w \<Longrightarrow> v = w"
  by (auto simp: matches_def dest: distinct_key_unique [OF db_ok_version_ids])

lemma outbox_map:
  assumes inv: "outbox_inv pol s" and ok: "db_ok s" and upd: "intent_update pol s f"
  shows "outbox_inv pol (s\<lparr>ingestion_intents := map f (ingestion_intents s)\<rparr>)"
proof -
  have f: "same_intent i (f i) \<and> within_budget pol (f i) \<and> (i_settled_at (f i) = i_settled_at i \<or>
      (\<exists>v \<in> set (document_versions s). matches i v \<and> terminal_status (v_status v)))"
    if "i \<in> set (ingestion_intents s)" for i
    using inv upd that intent_version_matches by (fastforce simp: outbox_inv_def intent_update_def)
  have A: "terminal_status (v_status v) \<or> (\<exists>i \<in> f ` set (ingestion_intents s). matches i v \<and> i_settled_at i = None)"
    if v: "v \<in> set (document_versions s)" for v
  proof (rule disjCI)
    assume nf: "\<not> (\<exists>i \<in> f ` set (ingestion_intents s). matches i v \<and> i_settled_at i = None)"
    show "terminal_status (v_status v)"
    proof (rule ccontr)
      assume nt: "\<not> terminal_status (v_status v)"
      with inv v obtain i where i: "i \<in> set (ingestion_intents s)" "matches i v" "i_settled_at i = None"
        by (auto simp: outbox_inv_def)
      with nf f [OF i(1)] matches_same have "i_settled_at (f i) \<noteq> i_settled_at i" by force
      with f [OF i(1)] obtain w where "w \<in> set (document_versions s)" "matches i w" "terminal_status (v_status w)"
        by blast
      with matches_unique [OF ok v _ i(2)] nt show False by blast
    qed
  qed
  have B: "within_budget pol (f i) \<and> (i_settled_at (f i) = None \<or>
      (\<exists>v \<in> set (document_versions s). matches (f i) v \<and> terminal_status (v_status v)))"
    if "i \<in> set (ingestion_intents s)" for i
    using f [OF that] inv that matches_same [of i "f i"] by (auto simp: outbox_inv_def)
  show ?thesis using A B by (auto simp: outbox_inv_def)
qed

lemma lifecycle_frame:
  assumes "lifecycle_inv m s" and "document_versions s' = document_versions s"
    and "filter is_terminal_event (audit_events s') = filter is_terminal_event (audit_events s)"
  shows "lifecycle_inv m s'"
proof -
  have split: "terminal_events x vid = filter (\<lambda>e. a_resource_id e = Some vid) (filter is_terminal_event (audit_events x))"
    for x vid by (simp add: terminal_events_def conj_commute)
  have te: "terminal_events s' vid = terminal_events s vid" for vid by (simp only: split assms(3))
  have ev: "e \<in> set (audit_events s)" if "e \<in> set (audit_events s')" "is_terminal_event e" for e
  proof -
    have "e \<in> set (filter is_terminal_event (audit_events s'))" using that by simp
    then have "e \<in> set (filter is_terminal_event (audit_events s))" by (simp only: assms(3))
    then show ?thesis by simp
  qed
  show ?thesis using assms(1) ev by (simp add: lifecycle_inv_def assms(2) te)
qed

lemma relay_map_inv:
  assumes inv: "pipeline_inv pol m s" and upd: "intent_update pol s f"
    and s': "s' = s \<or> s' = s\<lparr>ingestion_intents := map f (ingestion_intents s)\<rparr> \<and> db_ok s'"
  shows "pipeline_inv pol m s' \<and> document_versions s' = document_versions s"
proof -
  have "lifecycle_inv m s'"
    by (rule lifecycle_frame [of m s]) (use inv s' in \<open>auto simp: pipeline_inv_def\<close>)
  moreover have "outbox_inv pol s'" using s' inv outbox_map [OF _ _ upd] by (auto simp: pipeline_inv_def)
  ultimately show ?thesis using s' inv by (auto simp: pipeline_inv_def)
qed

subsection \<open>Each transaction preserves the invariant\<close>

lemma save_intent_update:
  assumes "db_ok s" and "i \<in> set (ingestion_intents s)" and "same_intent i i'"
    and "within_budget pol i \<Longrightarrow> within_budget pol i'"
    and "i_settled_at i' = i_settled_at i \<or> (\<exists>v. intent_version i s = Some v \<and> terminal_status (v_status v))"
  shows "intent_update pol s (\<lambda>x. if i_id x = i_id i' then i' else x)"
proof -
  have "x = i" if "x \<in> set (ingestion_intents s)" "i_id x = i_id i'" for x
    using distinct_key_unique [OF db_ok_intent_ids [OF assms(1)] that(1) assms(2)] that(2) assms(3)
    by (simp add: same_intent_def)
  then show ?thesis using assms(3-5) by (auto simp: intent_update_def same_intent_def)
qed

lemma save_intent_inv:
  assumes "pipeline_inv pol m s" and "intent_update pol s (\<lambda>x. if i_id x = i_id i' then i' else x)"
    and "s' = save_intent i' s" and "db_ok s'"
  shows "pipeline_inv pol m s' \<and> document_versions s' = document_versions s"
  by (rule relay_map_inv [OF assms(1,2)]) (use assms(3,4) save_intent_map in blast)

lemma budget_or_lease_props:
  assumes "budget_or_lease pol now tok i v = (i', pub)" and "within_budget pol i"
  shows "within_budget pol i' \<and> i_settled_at i' = i_settled_at i"
  using assms by (auto simp: budget_or_lease_def budget_spent_def lease_out_def park_def within_budget_def Let_def
      split: if_splits)

lemma claim_row_props:
  assumes "claim_row pol now tok i v = (i', pub)" and "within_budget pol i"
  shows "within_budget pol i' \<and> (i_settled_at i' = i_settled_at i \<or> terminal_status (v_status v))"
proof -
  let ?i = "i\<lparr>i_lease_token := None, i_lease_expires_at := None\<rparr>"
  have w: "within_budget pol ?i" "i_settled_at ?i = i_settled_at i" using assms(2) by (simp_all add: within_budget_def)
  consider "terminal_status (v_status v)" "i' = ?i\<lparr>i_settled_at := Some now\<rparr>"
    | r where "i' = park now r ?i" | a where "i' = ?i\<lparr>i_available_at := a\<rparr>"
    | "budget_or_lease pol now tok ?i v = (i', pub)"
    using assms(1) by (auto simp: claim_row_def Let_def split: if_splits option.splits)
  then show ?thesis
  proof cases
    case 4
    from budget_or_lease_props [OF this w(1)] w show ?thesis by simp
  qed (use w in \<open>simp_all add: within_budget_def park_def\<close>)
qed

lemma relay_claim_inv:
  assumes inv: "pipeline_inv pol m s" and run: "relay_claim pol t s = (r, s')"
  shows "pipeline_inv pol m s' \<and> document_versions s' = document_versions s"
proof (cases "s' = s")
  case True
  with inv show ?thesis by simp
next
  case False
  from inv have ok: "db_ok s" by (simp add: pipeline_inv_def)
  from run False obtain i v i' pub where i: "first_by (\<lambda>i. (i_available_at i, i_id i))
      (filter (\<lambda>i. due (tx_now t) i \<and> \<not> rt_locked t (i_id i)) (ingestion_intents s)) = Some i"
      "intent_version i s = Some v" "claim_row pol (tx_now t) (rt_token t) i v = (i', pub)"
      "s' = save_intent i' s" "db_ok s'"
    by (auto simp: relay_claim_def dest!: relay_commitD split: option.splits prod.splits)
  have mem: "i \<in> set (ingestion_intents s)" using first_by_mem [OF i(1)] by auto
  have "intent_update pol s (\<lambda>x. if i_id x = i_id i' then i' else x)"
    by (rule save_intent_update [OF ok mem claim_row_identity [OF i(3)]])
      (use claim_row_props [OF i(3)] inv mem i(2) in \<open>auto simp: pipeline_inv_def outbox_inv_def\<close>)
  from save_intent_inv [OF inv this i(4,5)] show ?thesis .
qed

lemma finish_inv:
  assumes inv: "pipeline_inv pol m s" and run: "finish pol t pub success s = (r, s')"
  shows "pipeline_inv pol m s' \<and> document_versions s' = document_versions s"
proof (cases "s' = s")
  case True
  with inv show ?thesis by simp
next
  case False
  from inv have ok: "db_ok s" by (simp add: pipeline_inv_def)
  from run False obtain i where i: "find (leased_to pub (tx_now t)) (ingestion_intents s) = Some i"
      "s' = save_intent (finish_row pol (tx_now t) success i) s" "db_ok s'"
    by (auto simp: finish_def dest!: relay_commitD split: option.splits)
  have mem: "i \<in> set (ingestion_intents s)" using find_SomeD [OF i(1)] by auto
  let ?i = "finish_row pol (tx_now t) success i"
  have "intent_update pol s (\<lambda>x. if i_id x = i_id ?i then ?i else x)"
    by (rule save_intent_update [OF ok mem]) (simp_all add: finish_row_def same_intent_def within_budget_def)
  from save_intent_inv [OF inv this i(2,3)] show ?thesis .
qed

lemma settle_inv:
  assumes inv: "pipeline_inv pol m s" and run: "settle_terminal t s = (r, s')"
  shows "pipeline_inv pol m s' \<and> document_versions s' = document_versions s"
proof -
  define picked where "picked = limit_offset 100 0 (order_by i_id (filter (settle_candidate t s) (ingestion_intents s)))"
  let ?f = "\<lambda>i. if i \<in> set picked then settle_row (tx_now t) i else i"
  have sub: "\<exists>v. intent_version i s = Some v \<and> terminal_status (v_status v)" if "i \<in> set picked" for i
  proof -
    have "settle_candidate t s i" using that by (auto simp: picked_def limit_offset_def dest: in_set_takeD)
    then show ?thesis by (cases "intent_version i s") (simp_all add: settle_candidate_def)
  qed
  have "intent_update pol s ?f"
    unfolding intent_update_def
    using sub by (auto simp: same_intent_def settle_row_def within_budget_def)
  moreover have "s' = s \<or> s' = s\<lparr>ingestion_intents := map ?f (ingestion_intents s)\<rparr> \<and> db_ok s'"
    using run by (auto simp: settle_terminal_def Let_def picked_def dest: relay_commitD)
  ultimately show ?thesis by (rule relay_map_inv [OF inv])
qed

lemma outbox_frame: "document_versions s' = document_versions s \<Longrightarrow> ingestion_intents s' = ingestion_intents s \<Longrightarrow>
    outbox_inv pol s' = outbox_inv pol s"
  by (simp add: outbox_inv_def)

lemma outbox_append:
  assumes "outbox_inv pol s" and "\<And>j. j \<in> set js \<Longrightarrow> within_budget pol j \<and> i_settled_at j = None"
  shows "outbox_inv pol (s\<lparr>ingestion_intents := ingestion_intents s @ js\<rparr>)"
  using assms by (fastforce simp: outbox_inv_def)

lemma outbox_filter:
  assumes "outbox_inv pol s" and "\<And>i. i \<in> set (ingestion_intents s) \<Longrightarrow> \<not> P i \<Longrightarrow> i_settled_at i \<noteq> None"
  shows "outbox_inv pol (s\<lparr>ingestion_intents := filter P (ingestion_intents s)\<rparr>)"
  unfolding outbox_inv_def
proof (intro conjI ballI)
  fix v assume "v \<in> set (document_versions (s\<lparr>ingestion_intents := filter P (ingestion_intents s)\<rparr>))"
  then have "terminal_status (v_status v) \<or>
      (\<exists>i \<in> set (ingestion_intents s). matches i v \<and> i_settled_at i = None)"
    using assms(1) by (simp add: outbox_inv_def)
  with assms(2) show "terminal_status (v_status v) \<or> (\<exists>i \<in> set (ingestion_intents
      (s\<lparr>ingestion_intents := filter P (ingestion_intents s)\<rparr>)). matches i v \<and> i_settled_at i = None)"
    by (simp, metis option.distinct(1))
qed (use assms(1) in \<open>auto simp: outbox_inv_def\<close>)

lemma new_intent_budget: "policy_ok pol \<Longrightarrow> within_budget pol (new_intent now iid org vid task)"
  by (simp add: policy_ok_def within_budget_def new_intent_def)

lemma cleanup_inv:
  assumes inv: "pipeline_inv pol m s" and run: "cleanup t limit s = (r, s')"
  shows "pipeline_inv pol m s' \<and> document_versions s' = document_versions s"
proof -
  define rows where "rows = map i_id (limit_offset (nat limit) 0 (order_by
    (\<lambda>i. (case i_settled_at i of None \<Rightarrow> 0 | Some e \<Rightarrow> e, i_id i)) (filter (expired_intent t) (ingestion_intents s))))"
  let ?s = "s\<lparr>ingestion_intents := filter (\<lambda>i. i_id i \<notin> set rows) (ingestion_intents s)\<rparr>"
  from inv have ok: "db_ok s" and out: "outbox_inv pol s" by (simp_all add: pipeline_inv_def)
  have s': "s' = s \<or> s' = ?s \<and> db_ok s'"
    using run by (auto simp: cleanup_def Let_def rows_def dest: relay_commitD split: if_splits)
  have exp: "i_settled_at i \<noteq> None" if i: "i \<in> set (ingestion_intents s)" "i_id i \<in> set rows" for i
  proof -
    obtain j where j: "j \<in> set (ingestion_intents s)" "expired_intent t j" "i_id j = i_id i"
      using i(2) by (auto simp: rows_def limit_offset_def dest!: in_set_takeD)
    with distinct_key_unique [OF db_ok_intent_ids [OF ok] j(1) i(1)] show ?thesis
      by (auto simp: expired_intent_def split: option.splits)
  qed
  have "outbox_inv pol ?s" by (rule outbox_filter [OF out]) (use exp in auto)
  moreover have "lifecycle_inv m s'"
    by (rule lifecycle_frame [of m s]) (use inv s' in \<open>auto simp: pipeline_inv_def\<close>)
  ultimately show ?thesis using s' inv by (auto simp: pipeline_inv_def)
qed

lemma fold_insert_intent:
  "\<exists>js. fold (insert_intent now) rs s = s\<lparr>ingestion_intents := ingestion_intents s @ js\<rparr> \<and>
     (\<forall>j \<in> set js. \<exists>iid org vid task. j = new_intent now iid org vid task)"
proof (induction rs arbitrary: s)
  case Nil
  show ?case by (intro exI [of _ "[]"]) simp
next
  case (Cons r rs)
  obtain v iid task where r: "r = (v, iid, task)" by (cases r)
  define ks where "ks = (if has_intent s v then []
    else [new_intent now iid (v_organization_id v) (v_id v) (backfill_task v task)])"
  have ks: "insert_intent now r s = s\<lparr>ingestion_intents := ingestion_intents s @ ks\<rparr>"
      "\<forall>j \<in> set ks. \<exists>iid org vid task. j = new_intent now iid org vid task"
    by (auto simp: ks_def r insert_intent_def)
  obtain js where "fold (insert_intent now) rs (insert_intent now r s) =
      (insert_intent now r s)\<lparr>ingestion_intents := ingestion_intents (insert_intent now r s) @ js\<rparr>"
      "\<forall>j \<in> set js. \<exists>iid org vid task. j = new_intent now iid org vid task" using Cons.IH by blast
  with ks show ?case by (intro exI [of _ "ks @ js"]) auto
qed

lemma backfill_inv:
  assumes inv: "pipeline_inv pol m s" and run: "backfill t cutoff limit fresh s = (r, s')" and pol: "policy_ok pol"
  shows "pipeline_inv pol m s' \<and> document_versions s' = document_versions s"
proof (cases "s' = s")
  case True
  with inv show ?thesis by simp
next
  case False
  from inv have out: "outbox_inv pol s" and life: "lifecycle_inv m s" by (simp_all add: pipeline_inv_def)
  from run False obtain rs where rs: "s' = fold (insert_intent (tx_now t)) rs s" "db_ok s'"
    by (auto simp: backfill_def Let_def dest!: relay_commitD split: if_splits)
  obtain js where js: "s' = s\<lparr>ingestion_intents := ingestion_intents s @ js\<rparr>"
      "\<forall>j \<in> set js. \<exists>iid org vid task. j = new_intent (tx_now t) iid org vid task"
    using fold_insert_intent [of "tx_now t" rs s] rs(1) by auto
  have "outbox_inv pol s'" unfolding js(1)
    by (rule outbox_append [OF out]) (use js(2) new_intent_budget [OF pol] in \<open>force simp: new_intent_def\<close>)
  moreover have "lifecycle_inv m s'" by (rule lifecycle_frame [OF life]) (simp_all add: js(1))
  ultimately show ?thesis using rs(2) by (simp add: pipeline_inv_def js(1))
qed

lemma rearm_inv:
  assumes inv: "pipeline_inv pol m s" and run: "rearm_intent t dep busy ext max_att org iid actor s = (r, s')"
  shows "pipeline_inv pol m s' \<and> document_versions s' = document_versions s"
proof (cases "s' = s")
  case True
  with inv show ?thesis by simp
next
  case False
  from inv have ok: "db_ok s" and out: "outbox_inv pol s" and life: "lifecycle_inv m s"
    by (simp_all add: pipeline_inv_def)
  from rearm_state [OF run False] obtain i e where i: "i \<in> set (ingestion_intents s)"
      "s' = (save_intent (rearm_row (tx_now t) i) s)\<lparr>audit_events := audit_events s @ [e]\<rparr>" "db_ok s'"
      "a_action e = audit_action_value DOCUMENT_DISPATCH_REARMED" by blast
  let ?i = "rearm_row (tx_now t) i"
  have "intent_update pol s (\<lambda>x. if i_id x = i_id ?i then ?i else x)"
    by (rule save_intent_update [OF ok i(1)]) (simp_all add: rearm_row_def same_intent_def within_budget_def)
  from outbox_map [OF out ok this] have "outbox_inv pol (save_intent ?i s)" by (simp only: save_intent_map)
  then have "outbox_inv pol s'" using outbox_frame [of s' "save_intent ?i s"] i(2) by simp
  moreover have "lifecycle_inv m s'"
    by (rule lifecycle_frame [OF life]) (use i(4) in \<open>simp_all add: i(2) save_intent_def is_terminal_event_def\<close>)
  ultimately show ?thesis using i(2,3) by (simp add: pipeline_inv_def save_intent_def)
qed

lemma worker_origin:
  \<comment> \<open>an unfinished version after a worker step was an unfinished version before it\<close>
  assumes "ingest_step m s s'" and "v' \<in> set (document_versions s')" and "\<not> terminal_status (v_status v')"
  shows "\<exists>v \<in> set (document_versions s). v_id v = v_id v' \<and> v_organization_id v = v_organization_id v' \<and>
    \<not> terminal_status (v_status v)"
  using assms
  by cases (auto simp: extracting_version_def retry_version_def ready_version_def failed_version_def
      dest!: saved_versionsD)

lemma ingest_step_intents: "ingest_step m s s' \<Longrightarrow> ingestion_intents s' = ingestion_intents s"
  by (induction rule: ingest_step.induct) (auto simp: save_version_def)

lemma worker_inv:
  assumes inv: "pipeline_inv pol m s" and step: "ingest_step m s s'"
  shows "pipeline_inv pol m s'"
proof -
  from inv have ok: "db_ok s" and out: "outbox_inv pol s" and life: "lifecycle_inv m s"
    by (simp_all add: pipeline_inv_def)
  note same = ingest_step_intents [OF step]
  have A: "terminal_status (v_status v') \<or> (\<exists>i \<in> set (ingestion_intents s'). matches i v' \<and> i_settled_at i = None)"
    if v': "v' \<in> set (document_versions s')" for v'
  proof (cases "terminal_status (v_status v')")
    case nt: False
    from worker_origin [OF step v' nt] obtain v where "v \<in> set (document_versions s)" "v_id v = v_id v'"
      "v_organization_id v = v_organization_id v'" "\<not> terminal_status (v_status v)" by blast
    with out have "\<exists>i \<in> set (ingestion_intents s'). matches i v' \<and> i_settled_at i = None"
      unfolding outbox_inv_def matches_def same by metis
    then show ?thesis ..
  qed simp
  have B: "\<exists>v \<in> set (document_versions s'). matches i v \<and> terminal_status (v_status v)"
    if i: "i \<in> set (ingestion_intents s)" "i_settled_at i \<noteq> None" for i
  proof -
    obtain v where "v \<in> set (document_versions s)" "matches i v" "terminal_status (v_status v)"
      using out i by (auto simp: outbox_inv_def)
    with ingest_step_terminal [OF step ok] show ?thesis by blast
  qed
  have "outbox_inv pol s'" unfolding outbox_inv_def
  proof (intro conjI ballI)
    show "terminal_status (v_status v) \<or> (\<exists>i \<in> set (ingestion_intents s'). matches i v \<and> i_settled_at i = None)"
      if "v \<in> set (document_versions s')" for v by (rule A [OF that])
    show "within_budget pol i" if "i \<in> set (ingestion_intents s')" for i
      using out that by (simp add: outbox_inv_def same)
    show "i_settled_at i = None \<or> (\<exists>v \<in> set (document_versions s'). matches i v \<and> terminal_status (v_status v))"
      if "i \<in> set (ingestion_intents s')" for i using B [of i] that unfolding same by blast
  qed
  then show ?thesis
    using ingest_step_db_ok [OF step] ingest_step_lifecycle [OF step ok life] by (simp add: pipeline_inv_def)
qed

lemma upload_inv:
  assumes inv: "pipeline_inv pol m s" and pol: "policy_ok pol" and m: "0 \<le> m"
    and v: "v = new_version now (f_version ids) org (f_document ids) key staged"
    and run: "stage_upload_with_intent now ids org d v s = Inr s'"
  shows "pipeline_inv pol m s' \<and> set (document_versions s) \<subseteq> set (document_versions s')"
proof -
  from inv have ok: "db_ok s" and out: "outbox_inv pol s" and life: "lifecycle_inv m s"
    by (simp_all add: pipeline_inv_def)
  have s': "s' = upload_rows now ids org d v s" "db_ok s'" using stage_upload_Inr [OF run] by blast+
  have vs: "document_versions s' = document_versions s @ [v]" by (simp add: s' upload_rows_def)
  let ?i = "new_intent now (f_intent ids) org (v_id v) (uuid_str (f_task ids))"
  have ints: "ingestion_intents s' = ingestion_intents s @ [?i]" by (simp add: s' upload_rows_def)
  have fresh: "v_id v \<notin> v_id ` set (document_versions s)" using db_ok_version_ids [OF s'(2)] by (simp add: vs)
  have te: "filter is_terminal_event (audit_events s') = filter is_terminal_event (audit_events s)"
    by (simp add: s' upload_rows_def is_terminal_event_def)
  have split: "terminal_events x vid = filter (\<lambda>e. a_resource_id e = Some vid) (filter is_terminal_event (audit_events x))"
    for x vid by (simp add: terminal_events_def conj_commute)
  have none: "terminal_events s' (v_id v) = []"
    unfolding split te using life fresh unfolding lifecycle_inv_def filter_empty_conv
    by (simp, metis image_eqI option.inject)
  have wf: "version_wf m v" using m by (simp add: version_wf_def v new_version_def)
  have q: "v_status v = QUEUED" "v_organization_id v = org" by (simp_all add: v new_version_def)
  have te': "terminal_events s' x = terminal_events s x" for x by (simp only: split te)
  have ev: "e \<in> set (audit_events s)" if "e \<in> set (audit_events s')" "is_terminal_event e" for e
    using that by (auto simp: s' upload_rows_def is_terminal_event_def)
  have "lifecycle_inv m s'"
    using life wf none q ev by (auto simp: lifecycle_inv_def vs te')
  moreover have "matches ?i v" "within_budget pol ?i" "i_settled_at ?i = None"
    using q(2) new_intent_budget [OF pol] by (simp_all add: matches_def new_intent_def)
  then have "outbox_inv pol s'" using out by (auto simp: outbox_inv_def vs ints)
  ultimately show ?thesis using s'(2) vs by (auto simp: pipeline_inv_def)
qed

lemma keeps_versions_subset: "set (document_versions s) \<subseteq> set (document_versions s') \<Longrightarrow> keeps_versions s s'"
  unfolding keeps_versions_def using same_identity_refl by blast

lemma pipeline_step_inv:
  assumes "pipeline_step pol m s s'" and "pipeline_inv pol m s" and "policy_ok pol" and "0 \<le> m"
  shows "pipeline_inv pol m s' \<and> keeps_versions s s' \<and>
    (\<forall>v \<in> set (document_versions s). terminal_status (v_status v) \<longrightarrow> v \<in> set (document_versions s'))"
proof -
  have same: "pipeline_inv pol m s' \<and> document_versions s' = document_versions s \<Longrightarrow> ?thesis"
    by (simp add: keeps_versions_subset)
  from assms(1) show ?thesis
  proof cases
    case (Upload d now ids org name actor v key staged)
    from upload_inv [OF assms(2-4) Upload(2,3)] show ?thesis
      by (auto simp: keeps_versions_subset)
  next
    case Worker
    with worker_inv [OF assms(2) Worker] ingest_step_keeps ingest_step_terminal assms(2) show ?thesis
      by (auto simp: pipeline_inv_def)
  next
    case Claim then show ?thesis by (intro same relay_claim_inv [OF assms(2)])
  next
    case Finish then show ?thesis by (intro same finish_inv [OF assms(2)])
  next
    case Settle then show ?thesis by (intro same settle_inv [OF assms(2)])
  next
    case Cleanup then show ?thesis by (intro same cleanup_inv [OF assms(2)])
  next
    case Backfill then show ?thesis by (intro same backfill_inv [OF assms(2) _ assms(3)])
  next
    case Rearm then show ?thesis by (intro same rearm_inv [OF assms(2)])
  qed
qed

subsection \<open>What every run of the pipeline satisfies\<close>

definition pipeline_run :: "relay_policy \<Rightarrow> int \<Rightarrow> db \<Rightarrow> db \<Rightarrow> bool" where
  "pipeline_run pol m = (pipeline_step pol m)\<^sup>*\<^sup>*"

lemma pipeline_run_props:
  assumes "pipeline_run pol m s s'" and "pipeline_inv pol m s" and "policy_ok pol" and "0 \<le> m"
  shows "pipeline_inv pol m s' \<and> keeps_versions s s' \<and>
    (\<forall>v \<in> set (document_versions s). terminal_status (v_status v) \<longrightarrow> v \<in> set (document_versions s'))"
  using assms(1) unfolding pipeline_run_def
proof (induction rule: rtranclp_induct)
  case base
  then show ?case using assms(2) by simp
next
  case (step y z)
  from step.IH step.hyps(2) pipeline_step_inv [of pol m y z] assms(3,4) show ?case
    by (meson keeps_versions_trans)
qed

lemma empty_outbox_inv:
  assumes "db_ok s" and "document_versions s = []" and "ingestion_intents s = []"
    and "\<forall>e \<in> set (audit_events s). \<not> is_terminal_event e"
  shows "pipeline_inv pol m s"
  using assms by (auto simp: pipeline_inv_def lifecycle_inv_def outbox_inv_def)

text \<open>
  C2. No accepted upload is lost: in every such state each version that is not yet \<open>ready\<close> or
  \<open>failed\<close> still has an ingestion intent that is not settled, so retention cannot delete it and the
  relay, or an operator, can still act on it.
\<close>

theorem no_upload_lost:
  assumes "db_ok s0" and "document_versions s0 = []" and "ingestion_intents s0 = []"
    and "\<forall>e \<in> set (audit_events s0). \<not> is_terminal_event e"
    and "policy_ok pol" and "0 \<le> m" and "pipeline_run pol m s0 s"
    and "v \<in> set (document_versions s)" and "\<not> terminal_status (v_status v)"
  shows "\<exists>i \<in> set (ingestion_intents s). i_document_version_id i = v_id v \<and>
    i_organization_id i = v_organization_id v \<and> i_settled_at i = None"
  using pipeline_run_props [OF assms(7) empty_outbox_inv [OF assms(1-4)] assms(5,6)] assms(8,9)
  by (auto simp: pipeline_inv_def outbox_inv_def matches_def)

text \<open>
  C34. Bounded publication: whatever happens, an intent is published at most \<open>max_publications\<close> plus
  three times, the last three only through audited operator grants, and recovered at most
  \<open>max_recoveries\<close> plus three times.
\<close>

theorem publications_bounded:
  assumes "db_ok s0" and "document_versions s0 = []" and "ingestion_intents s0 = []"
    and "\<forall>e \<in> set (audit_events s0). \<not> is_terminal_event e"
    and "policy_ok pol" and "0 \<le> m" and "pipeline_run pol m s0 s"
    and "i \<in> set (ingestion_intents s)"
  shows "i_publish_attempts i \<le> rp_max_publications pol + i_recovery_grants i \<and>
    i_recovery_attempts i \<le> rp_max_recoveries pol + i_recovery_grants i \<and> i_recovery_grants i \<le> 3"
proof -
  have inv: "pipeline_inv pol m s"
    using pipeline_run_props [OF assms(7) empty_outbox_inv [OF assms(1-4)] assms(5,6)] by blast
  then have "intent_ok s i" using db_ok_intent assms(8) by (simp add: pipeline_inv_def)
  then have "i_recovery_grants i \<le> 3" by (simp add: intent_ok_def)
  moreover have "within_budget pol i" using inv assms(8) by (simp add: pipeline_inv_def outbox_inv_def)
  ultimately show ?thesis by (simp add: within_budget_def)
qed

text \<open>
  A finished version is immutable: once a row is \<open>ready\<close> or \<open>failed\<close>, the identical row is there
  after any further steps of the pipeline, and no version ever disappears or changes identity.
\<close>

lemma terminal_immutable:
  assumes "pipeline_inv pol m s" and "policy_ok pol" and "0 \<le> m" and "pipeline_run pol m s s'"
    and "v \<in> set (document_versions s)"
  shows "(terminal_status (v_status v) \<longrightarrow> v \<in> set (document_versions s')) \<and>
    (\<exists>v' \<in> set (document_versions s'). same_identity v v')"
  using pipeline_run_props [OF assms(4,1,2,3)] assms(5) by (auto simp: keeps_versions_def)

subsection \<open>Deliveries among other sessions\<close>

lemma relay_commit_frame: "relay_commit fault r pending s = (res, s') \<Longrightarrow> db_ok s \<Longrightarrow>
    document_versions pending = document_versions s \<Longrightarrow> db_ok s' \<and> document_versions s' = document_versions s"
  by (drule relay_commitD) auto

lemma fold_insert_versions: "document_versions (fold (insert_intent now) rs s) = document_versions s"
  using fold_insert_intent [of now rs s] by auto

lemma pipeline_step_basic:
  assumes "pipeline_step pol m s s'" and "db_ok s"
  shows "db_ok s' \<and> keeps_versions s s'"
proof -
  have same: "db_ok s' \<and> document_versions s' = document_versions s \<Longrightarrow> ?thesis"
    by (simp add: keeps_versions_subset)
  from assms(1) show ?thesis
  proof cases
    case (Upload d now ids org name actor v key staged)
    from stage_upload_Inr [OF Upload(3)] show ?thesis
      by (auto simp: upload_rows_def intro: keeps_versions_subset)
  next
    case Worker
    then show ?thesis using assms(2) ingest_step_db_ok ingest_step_keeps by blast
  next
    case (Claim t r)
    then show ?thesis using assms(2) by (intro same)
      (auto simp: relay_claim_def save_intent_def dest: relay_commit_frame split: option.splits prod.splits)
  next
    case (Finish t pub ok r')
    then show ?thesis using assms(2) by (intro same)
      (auto simp: finish_def save_intent_def dest: relay_commit_frame split: option.splits)
  next
    case (Settle t n)
    then show ?thesis using assms(2) by (intro same) (auto simp: settle_terminal_def Let_def dest: relay_commit_frame)
  next
    case (Cleanup t limit n)
    then show ?thesis using assms(2) by (intro same)
      (auto simp: cleanup_def Let_def dest: relay_commit_frame split: if_splits)
  next
    case (Backfill t cutoff limit fresh n)
    then show ?thesis using assms(2) by (intro same)
      (auto simp: backfill_def Let_def fold_insert_versions dest: relay_commit_frame split: if_splits)
  next
    case (Rearm t dep busy ext max_att org iid actor g)
    then show ?thesis using assms(2) rearm_state [OF Rearm] by (intro same) (cases "s' = s"; auto simp: save_intent_def)
  qed
qed

lemma pipeline_run_basic: "pipeline_run pol m s s' \<Longrightarrow> db_ok s \<Longrightarrow> db_ok s' \<and> keeps_versions s s'"
  unfolding pipeline_run_def
  by (induction rule: rtranclp_induct) (auto dest: pipeline_step_basic intro: keeps_versions_trans)

interpretation delivery: session_trace "pipeline_run pol m" m for pol m
proof
  show "pipeline_run pol m s s" for s by (simp add: pipeline_run_def)
  show "pipeline_run pol m a b \<Longrightarrow> pipeline_run pol m b c \<Longrightarrow> pipeline_run pol m a c" for a b c
    unfolding pipeline_run_def by (rule rtranclp_trans)
  show "db_ok s \<Longrightarrow> ingest_step m s s' \<Longrightarrow> pipeline_run pol m s s'" for s s'
    unfolding pipeline_run_def by (blast intro: pipeline_step.Worker)
  show "pipeline_run pol m s s' \<Longrightarrow> db_ok s \<Longrightarrow> db_ok s'" for s s' using pipeline_run_basic by blast
  show "pipeline_run pol m s s' \<Longrightarrow> db_ok s \<Longrightarrow> keeps_versions s s'" for s s' using pipeline_run_basic by blast
qed

text \<open>
  C3. The code of a delivery implements the pipeline: whatever the storage, scanner and extractor
  answer, whatever faults its transactions meet and whatever runs of the pipeline other sessions
  make between them, \<open>run_delivery\<close> as a whole is a run of the pipeline, so that it preserves every
  invariant above and leaves finished versions untouched.
\<close>

theorem delivery_refines_pipeline:
  assumes "pipeline_inv pol m s" and "policy_ok pol" and "0 \<le> m" and "worker_max_attempts w = m"
    and "\<forall>s. pipeline_run pol m s (tx_others (dl_claim dl) s) \<and> pipeline_run pol m s (tx_others (dl_mark dl) s) \<and>
      pipeline_run pol m s (tx_others (dl_owned dl) s) \<and> pipeline_run pol m s (tx_others (dl_exhaust dl) s)"
  shows "pipeline_run pol m s (snd (run_delivery w max_retries dl retries vid task s)) \<and>
    pipeline_inv pol m (snd (run_delivery w max_retries dl retries vid task s)) \<and>
    (\<forall>v \<in> set (document_versions s). terminal_status (v_status v) \<longrightarrow>
       v \<in> set (document_versions (snd (run_delivery w max_retries dl retries vid task s))))"
proof -
  have "db_ok s" using assms(1) by (simp add: pipeline_inv_def)
  then have "pipeline_run pol m s (snd (run_delivery w max_retries dl retries vid task s))"
    by (rule delivery.delivery_trace [OF assms(4), where dl = dl])
      (use assms(5) in \<open>auto intro: surjective_pairing\<close>)
  with pipeline_run_props [OF _ assms(1-3)] show ?thesis by blast
qed

lemma create_upload_refines:
  assumes "create_upload ucd sha256 put delete max_bytes fault now ids org actor filename source st s = (r, st', s')"
  shows "pipeline_run pol m s s'"
proof (cases "s' = s")
  case True
  then show ?thesis by (simp add: pipeline_run_def)
next
  case False
  with assms obtain staged where "stage_upload_with_intent now ids org
      (new_document now (f_document ids) org (vu_display_filename staged) actor)
      (new_version now (f_version ids) org (f_document ids)
        (build_storage_key org (f_document ids) (f_version ids)) staged) s = Inr s'"
    by (auto simp: create_upload_def Let_def split: sum.splits db_fault.splits)
  then have "pipeline_step pol m s s'" by (rule pipeline_step.Upload [OF refl refl])
  then show ?thesis by (simp add: pipeline_run_def r_into_rtranclp)
qed

text \<open>A concrete run: the sample upload, one relay poll, one delivery.\<close>

definition sample_claimed :: db where
  "sample_claimed = snd (relay_claim default_policy (sample_rtx 8 900) sample_uploaded)"

lemma sample_run: "pipeline_run default_policy 4 sample_db sample_uploaded"
    "pipeline_run default_policy 4 sample_db sample_claimed"
proof -
  show up: "pipeline_run default_policy 4 sample_db sample_uploaded" by (rule create_upload_refines [OF sample_upload])
  have "pipeline_step default_policy 4 sample_uploaded sample_claimed"
    unfolding sample_claimed_def by (rule pipeline_step.Claim) (rule surjective_pairing)
  with up show "pipeline_run default_policy 4 sample_db sample_claimed"
    unfolding pipeline_run_def by (rule rtranclp.rtrancl_into_rtrancl)
qed

lemma sample_policy: "policy_ok default_policy"
  by (simp add: policy_ok_def default_policy_def)

lemma sample_inv: "pipeline_inv default_policy 4 sample_uploaded"
  using pipeline_run_props [OF sample_run(1) empty_outbox_inv [OF sample_db_ok] sample_policy] by simp

theorem no_upload_lost_witness:
  "\<exists>i \<in> set (ingestion_intents sample_uploaded). i_document_version_id i = v_id sample_version"
  using no_upload_lost [OF sample_db_ok _ _ _ sample_policy _ sample_run(1), of sample_version]
  by (auto simp: sample_uploaded_tables)

lemma sample_claimed_intent: "\<exists>i. i \<in> set (ingestion_intents sample_claimed)"
  unfolding sample_claimed_def sample_claim by (simp add: save_intent_def sample_intents upd_row_def)

theorem publications_bounded_witness: "\<exists>i \<in> set (ingestion_intents sample_claimed). i_publish_attempts i \<le> 23"
proof -
  obtain i where i: "i \<in> set (ingestion_intents sample_claimed)" using sample_claimed_intent by blast
  have "i_publish_attempts i \<le> rp_max_publications default_policy + i_recovery_grants i \<and>
    i_recovery_attempts i \<le> rp_max_recoveries default_policy + i_recovery_grants i \<and> i_recovery_grants i \<le> 3"
    by (rule publications_bounded [OF sample_db_ok _ _ _ sample_policy _ sample_run(2) i]) simp_all
  then have "i_publish_attempts i \<le> 23" by (simp add: default_policy_def)
  with i show ?thesis by blast
qed

lemma terminal_immutable_example: "\<exists>v' \<in> set (document_versions sample_claimed). same_identity sample_version v'"
proof -
  have "pipeline_run default_policy 4 sample_uploaded sample_claimed"
    unfolding pipeline_run_def sample_claimed_def
    by (rule r_into_rtranclp) (rule pipeline_step.Claim, rule surjective_pairing)
  from terminal_immutable [OF sample_inv sample_policy _ this, of sample_version] show ?thesis
    by (simp add: sample_uploaded_tables)
qed

theorem delivery_refines_pipeline_witness:
  "pipeline_inv default_policy 4 (snd (run_delivery (sample_worker Map.empty) 3 sample_delivery 0
     (v_id sample_version) ''task'' sample_uploaded))"
  using delivery_refines_pipeline [OF sample_inv sample_policy, of "sample_worker Map.empty" sample_delivery]
  by (simp add: sample_worker_def sample_delivery_def sample_tx_def pipeline_run_def)

end
