(* ===== verification/SF_Service.thy ===== *)
theory SF_Service
  imports SF_Pipeline
begin

text \<open>
  The ingestion service as the code runs it: one transition system whose steps are the calls the
  processes make (uploads of the API, the transactions of the Celery worker, the relay, the
  operator's commands), in any order, with any clock, fault and argument. The state is the object
  storage, the database and the claims that workers hold in memory: the \<open>claimed_version\<close> a worker
  got from \<open>claim\<close> or \<open>owned_record\<close> and passes to \<open>mark_ready\<close> or \<open>mark_failed\<close> at any later time,
  whatever happened meanwhile. Each step is labelled by its clock and by what it means for
  publications: the relay got one to hand to the broker, or asked to finish one.
\<close>

record 'st upload_api =
  ua_unicode :: unicode_data
  ua_sha256 :: "byte list \<Rightarrow> string"
  ua_put :: "string \<Rightarrow> byte list \<Rightarrow> 'st \<Rightarrow> storage_error + 'st"
  ua_delete :: "string \<Rightarrow> 'st \<Rightarrow> storage_error + 'st"
  ua_max_bytes :: int

record 'st service =
  sv_objects :: 'st
  sv_db :: db
  sv_claims :: "claimed_version set"

datatype service_event = Handed publication | Finished publication | Silent

definition api_upload :: "'st upload_api \<Rightarrow> db_fault \<Rightarrow> instant \<Rightarrow> fresh_ids \<Rightarrow> uuid \<Rightarrow> uuid \<Rightarrow> ustr option \<Rightarrow>
    stream \<Rightarrow> 'st \<Rightarrow> db \<Rightarrow> (upload_exn + document \<times> document_version) \<times> 'st \<times> db" where
  "api_upload api = create_upload (ua_unicode api) (ua_sha256 api) (ua_put api) (ua_delete api) (ua_max_bytes api)"

fun claimed_by :: "ingest_exn + claim_result \<Rightarrow> claimed_version set" where
  \<comment> \<open>what the worker remembers of its claim\<close>
  "claimed_by (Inr (ClaimRecord rec)) = {rec}"
| "claimed_by _ = {}"

fun owned_by :: "ingest_exn + claimed_version option \<Rightarrow> claimed_version set" where
  "owned_by (Inr (Some rec)) = {rec}"
| "owned_by _ = {}"

fun handed_by :: "relay_exn + publication option \<Rightarrow> service_event" where
  \<comment> \<open>a claim whose acknowledgement is lost raises: its publication reaches nobody\<close>
  "handed_by (Inr (Some pub)) = Handed pub"
| "handed_by _ = Silent"

inductive service_step :: "'st upload_api \<Rightarrow> relay_policy \<Rightarrow> int \<Rightarrow> instant \<times> service_event \<Rightarrow>
    'st service \<Rightarrow> 'st service \<Rightarrow> bool" for api pol m where
  Upload: "api_upload api fault now ids org actor filename source (sv_objects c) (sv_db c) = (r, st', s') \<Longrightarrow>
    service_step api pol m (now, Silent) c (c\<lparr>sv_objects := st', sv_db := s'\<rparr>)"
| Claim: "claim m t vid task (sv_db c) = (r1, s') \<Longrightarrow>
    service_step api pol m (tx_now t, Silent) c (c\<lparr>sv_db := s', sv_claims := sv_claims c \<union> claimed_by r1\<rparr>)"
| Owned: "owned_record t vid task (sv_db c) = (r2, s') \<Longrightarrow>
    service_step api pol m (tx_now t, Silent) c (c\<lparr>sv_db := s', sv_claims := sv_claims c \<union> owned_by r2\<rparr>)"
| Ready: "rec \<in> sv_claims c \<Longrightarrow> mark_ready t rec task words (sv_db c) = (r3, s') \<Longrightarrow>
    service_step api pol m (tx_now t, Silent) c (c\<lparr>sv_db := s'\<rparr>)"
| Failed: "rec \<in> sv_claims c \<Longrightarrow> mark_failed t rec task code (sv_db c) = (r3, s') \<Longrightarrow>
    service_step api pol m (tx_now t, Silent) c (c\<lparr>sv_db := s'\<rparr>)"
| Retry: "prepare_retry t vid task code (sv_db c) = (r3, s') \<Longrightarrow>
    service_step api pol m (tx_now t, Silent) c (c\<lparr>sv_db := s'\<rparr>)"
| Relay: "relay_claim pol rt (sv_db c) = (r4, s') \<Longrightarrow>
    service_step api pol m (tx_now rt, handed_by r4) c (c\<lparr>sv_db := s'\<rparr>)"
| Finish: "finish pol rt pub ok (sv_db c) = (r5, s') \<Longrightarrow>
    service_step api pol m (tx_now rt, Finished pub) c (c\<lparr>sv_db := s'\<rparr>)"
| Settle: "settle_terminal rt (sv_db c) = (n, s') \<Longrightarrow>
    service_step api pol m (tx_now rt, Silent) c (c\<lparr>sv_db := s'\<rparr>)"
| Cleanup: "cleanup rt limit (sv_db c) = (n, s') \<Longrightarrow>
    service_step api pol m (tx_now rt, Silent) c (c\<lparr>sv_db := s'\<rparr>)"
| Backfill: "backfill rt cutoff limit fresh (sv_db c) = (n, s') \<Longrightarrow>
    service_step api pol m (tx_now rt, Silent) c (c\<lparr>sv_db := s'\<rparr>)"
| Rearm: "rearm_intent t dep busy ext max_att org iid actor (sv_db c) = (g, s') \<Longrightarrow>
    service_step api pol m (tx_now t, Silent) c (c\<lparr>sv_db := s'\<rparr>)"

inductive_cases service_stepE: "service_step api pol m e c c'"

inductive service_run :: "'st upload_api \<Rightarrow> relay_policy \<Rightarrow> int \<Rightarrow> (instant \<times> service_event) list \<Rightarrow>
    'st service \<Rightarrow> 'st service \<Rightarrow> bool" for api pol m where
  Done: "service_run api pol m [] c c"
| More: "service_run api pol m es c c' \<Longrightarrow> service_step api pol m e c' c'' \<Longrightarrow>
    service_run api pol m (es @ [e]) c c''"

definition service_ok :: "'st service \<Rightarrow> bool" where
  \<comment> \<open>the constraints hold and every claim in memory was read from a row that still exists\<close>
  "service_ok c \<longleftrightarrow> db_ok (sv_db c) \<and> (\<forall>rec \<in> sv_claims c. rec_for rec (sv_db c))"

subsection \<open>The service implements the pipeline\<close>

lemma worker_run: "s' = s \<or> ingest_step m s s' \<Longrightarrow> pipeline_run pol m s s'"
  unfolding pipeline_run_def by (auto intro: pipeline_step.Worker r_into_rtranclp)

lemma step_run: "pipeline_step pol m s s' \<Longrightarrow> pipeline_run pol m s s'"
  unfolding pipeline_run_def by (rule r_into_rtranclp)

lemma owned_record_same: "owned_record t vid task s = (r, s') \<Longrightarrow> s' = s"
  by (auto simp: owned_record_def end_rollback_def split: option.splits if_splits)

lemma owned_record_claim: "owned_record t vid task s = (Inr (Some rec), s') \<Longrightarrow> rec_for rec s"
  by (auto simp: owned_record_def end_rollback_def record_of_def rec_for_def
      split: option.splits if_splits dest!: load_lockedD intro!: bexI)

lemma service_step_refines:
  assumes "service_step api pol m e c c'" and "service_ok c"
  shows "pipeline_run pol m (sv_db c) (sv_db c')"
proof -
  have ok: "db_ok (sv_db c)" and rec: "\<And>rec. rec \<in> sv_claims c \<Longrightarrow> rec_for rec (sv_db c)"
    using assms(2) by (simp_all add: service_ok_def)
  from assms(1) show ?thesis
  proof cases
    case Upload
    then show ?thesis by (simp add: api_upload_def create_upload_refines)
  next
    case Claim
    then show ?thesis by (simp add: worker_run [OF claim_refines])
  next
    case Owned
    from owned_record_same [OF Owned(3)] Owned show ?thesis by (simp add: pipeline_run_def)
  next
    case Ready
    then show ?thesis by (simp add: worker_run [OF mark_ready_refines [OF _ rec ok]])
  next
    case Failed
    then show ?thesis by (simp add: worker_run [OF mark_failed_refines [OF _ rec ok]])
  next
    case Retry
    then show ?thesis by (simp add: worker_run [OF prepare_retry_refines])
  next
    case Relay
    then show ?thesis by (simp add: step_run [OF pipeline_step.Claim])
  next
    case Finish
    then show ?thesis by (simp add: step_run [OF pipeline_step.Finish])
  next
    case Settle
    then show ?thesis by (simp add: step_run [OF pipeline_step.Settle])
  next
    case Cleanup
    then show ?thesis by (simp add: step_run [OF pipeline_step.Cleanup])
  next
    case Backfill
    then show ?thesis by (simp add: step_run [OF pipeline_step.Backfill])
  next
    case Rearm
    then show ?thesis by (simp add: step_run [OF pipeline_step.Rearm])
  qed
qed

lemma new_claims:
  assumes "service_step api pol m e c c'" and "rec \<in> sv_claims c'" and "rec \<notin> sv_claims c"
  shows "rec_for rec (sv_db c')"
  using assms
proof cases
  case (Claim t vid task r1 s')
  with assms(2,3) have "r1 = Inr (ClaimRecord rec)" by (cases r1 rule: claimed_by.cases) auto
  with Claim claim_record show ?thesis by auto
next
  case (Owned t vid task r2 s')
  with assms(2,3) have "r2 = Inr (Some rec)" by (cases r2 rule: owned_by.cases) auto
  with Owned owned_record_claim [of t vid task] owned_record_same [OF Owned(3)] show ?thesis by auto
qed auto

lemma service_step_ok:
  assumes "service_step api pol m e c c'" and "service_ok c"
  shows "service_ok c'"
proof -
  have "db_ok (sv_db c') \<and> keeps_versions (sv_db c) (sv_db c')"
    using pipeline_run_basic [OF service_step_refines [OF assms]] assms(2) by (simp add: service_ok_def)
  then show ?thesis
    using assms(2) new_claims [OF assms(1)] rec_for_keeps unfolding service_ok_def by metis
qed

lemma service_run_refines:
  assumes "service_run api pol m es c c'" and "service_ok c"
  shows "service_ok c' \<and> pipeline_run pol m (sv_db c) (sv_db c')"
  using assms
proof (induction rule: service_run.induct)
  case (Done c)
  then show ?case by (simp add: pipeline_run_def)
next
  case (More es c c' e c'')
  then show ?case
    using service_step_ok service_step_refines unfolding pipeline_run_def by (metis rtranclp_trans)
qed

subsection \<open>A lease is kept until it is finished or expires\<close>

definition held :: "publication \<Rightarrow> instant \<Rightarrow> db \<Rightarrow> bool" where
  "held pub expiry s \<longleftrightarrow> (\<exists>i \<in> set (ingestion_intents s). i_id i = pb_intent_id pub \<and>
     i_lease_token i = Some (pb_token pub) \<and> i_lease_expires_at i = Some expiry)"

definition releases :: "publication \<Rightarrow> service_event \<Rightarrow> bool" where
  "releases pub ev \<longleftrightarrow> (\<exists>p. ev = Finished p \<and> pb_intent_id p = pb_intent_id pub \<and> pb_token p = pb_token pub)"

lemma held_frame: "set (ingestion_intents s) \<subseteq> set (ingestion_intents s') \<Longrightarrow> held pub e s \<Longrightarrow> held pub e s'"
  by (auto simp: held_def)

lemma held_not_free: "held pub e s \<Longrightarrow> db_ok s \<Longrightarrow> now < e \<Longrightarrow> j \<in> set (ingestion_intents s) \<Longrightarrow>
    lease_free now j \<or> i_lease_token j = None \<Longrightarrow> i_id j \<noteq> pb_intent_id pub"
  by (auto simp: held_def lease_free_def dest: distinct_key_unique [OF db_ok_intent_ids])

lemma held_save: "held pub e s \<Longrightarrow> i_id j \<noteq> pb_intent_id pub \<Longrightarrow> held pub e (save_intent j s)"
  unfolding held_def save_intent_def by (auto simp: upd_row_def intro: rev_bexI)

lemma save_finished:
  assumes "held pub e s" and "db_ok s" and "find (leased_to p now) (ingestion_intents s) = Some j"
    and "\<not> (pb_intent_id p = pb_intent_id pub \<and> pb_token p = pb_token pub)"
  shows "i_id j \<noteq> pb_intent_id pub"
proof
  assume id: "i_id j = pb_intent_id pub"
  have j: "j \<in> set (ingestion_intents s)" "leased_to p now j" using find_SomeD [OF assms(3)] by auto
  obtain i where i: "i \<in> set (ingestion_intents s)" "i_id i = pb_intent_id pub"
    "i_lease_token i = Some (pb_token pub)" using assms(1) by (auto simp: held_def)
  with distinct_key_unique [OF db_ok_intent_ids [OF assms(2)] j(1) i(1)] id have "j = i" by simp
  with i j(2) id assms(4) show False by (simp add: leased_to_def)
qed

lemma held_relay:
  assumes "held pub e s" and "db_ok s" and "tx_now t < e" and "relay_claim pol t s = (r, s')"
  shows "held pub e s' \<and> (\<forall>p. r = Inr (Some p) \<longrightarrow> pb_intent_id p \<noteq> pb_intent_id pub)"
proof (cases "first_by (\<lambda>i. (i_available_at i, i_id i))
    (filter (\<lambda>i. due (tx_now t) i \<and> \<not> rt_locked t (i_id i)) (ingestion_intents s))")
  case None
  with assms(1,4) show ?thesis by (auto simp: relay_claim_def relay_commit_def split: sum.splits db_fault.splits)
next
  case (Some j)
  have j: "j \<in> set (ingestion_intents s)" "lease_free (tx_now t) j"
    using first_by_mem [OF Some] by (auto simp: due_def)
  have ne: "i_id j \<noteq> pb_intent_id pub" using held_not_free [OF assms(1-3) j(1)] j(2) by blast
  show ?thesis
  proof (cases "intent_version j s")
    case None
    with Some assms(1,4) show ?thesis by (auto simp: relay_claim_def)
  next
    case (Some v)
    obtain j' q where q: "claim_row pol (tx_now t) (rt_token t) j v = (j', q)"
      by (cases "claim_row pol (tx_now t) (rt_token t) j v")
    have id: "i_id j' = i_id j" using claim_row_identity [OF q] by (simp add: same_intent_def)
    have run: "relay_commit (tx_fault t) q (save_intent j' s) s = (r, s')"
      using assms(4) Some \<open>first_by _ _ = Some j\<close> q by (simp add: relay_claim_def)
    have "pb_intent_id p = i_id j" if "q = Some p" for p
      using claim_row_publication [OF q [unfolded that]] by (simp add: lease_out_def Let_def)
    moreover have "held pub e s'"
      using relay_commitD [OF run] assms(1) held_save [OF assms(1), of j'] id ne by auto
    moreover have "q = Some p" if "r = Inr (Some p)" for p
      using run that by (simp add: relay_commit_def split: sum.splits db_fault.splits)
    ultimately show ?thesis using ne by metis
  qed
qed

lemma held_finish:
  assumes "held pub e s" and "db_ok s" and "finish pol t p success s = (r, s')"
    and "\<not> (pb_intent_id p = pb_intent_id pub \<and> pb_token p = pb_token pub)"
  shows "held pub e s'"
proof (cases "find (leased_to p (tx_now t)) (ingestion_intents s)")
  case None
  with assms(1,3) show ?thesis by (auto simp: finish_def dest: relay_commitD)
next
  case (Some j)
  have "i_id (finish_row pol (tx_now t) success j) \<noteq> pb_intent_id pub"
    using save_finished [OF assms(1,2) Some assms(4)] by (simp add: finish_row_def)
  from held_save [OF assms(1) this] Some assms(1,3) show ?thesis
    by (auto simp: finish_def dest: relay_commitD)
qed

lemma held_settle:
  assumes "held pub e s" and "tx_now t < e" and "settle_terminal t s = (r, s')"
  shows "held pub e s'"
proof -
  have "\<not> settle_candidate t s i" if "i_lease_expires_at i = Some e" for i
    using that assms(2) by (simp add: settle_candidate_def lease_free_def)
  then have "i \<notin> set (limit_offset 100 0 (order_by i_id (filter (settle_candidate t s) (ingestion_intents s))))"
    if "i_lease_expires_at i = Some e" for i
    using that by (auto simp: limit_offset_def dest: in_set_takeD)
  then show ?thesis
    using assms(1,3) unfolding settle_terminal_def Let_def held_def
    by (auto dest!: relay_commitD intro: rev_image_eqI)
qed

lemma held_cleanup:
  assumes "held pub e s" and "db_ok s" and "tx_now t < e" and "cleanup t limit s = (r, s')"
  shows "held pub e s'"
proof -
  define picked where "picked = limit_offset (nat limit) 0 (order_by
    (\<lambda>i. (case i_settled_at i of None \<Rightarrow> 0 | Some e \<Rightarrow> e, i_id i)) (filter (expired_intent t) (ingestion_intents s)))"
  have "i_id j \<noteq> pb_intent_id pub" if "j \<in> set picked" for j
  proof -
    have "j \<in> set (ingestion_intents s)" "expired_intent t j"
      using that by (auto simp: picked_def limit_offset_def dest: in_set_takeD)
    with held_not_free [OF assms(1-3)] show ?thesis by (simp add: expired_intent_def)
  qed
  then have "pb_intent_id pub \<notin> set (map i_id picked)" by (metis imageE list.set_map)
  then have "held pub e (s\<lparr>ingestion_intents := filter (\<lambda>i. i_id i \<notin> set (map i_id picked)) (ingestion_intents s)\<rparr>)"
    using assms(1) unfolding held_def by fastforce
  then show ?thesis
    using assms(1,4) by (auto simp: cleanup_def Let_def simp flip: picked_def dest!: relay_commitD split: if_splits)
qed

lemma held_rearm:
  assumes "held pub e s" and "db_ok s" and "tx_now t < e"
    and "rearm_intent t dep busy ext max_att org iid actor s = (r, s')"
  shows "held pub e s'"
proof (cases "s' = s")
  case True
  with assms(1) show ?thesis by simp
next
  case False
  from rearm_state [OF assms(4) this] obtain i v ev where i: "i \<in> set (ingestion_intents s)"
      "rearm_guard (tx_now t) busy ext max_att s i = Inr v"
      "s' = (save_intent (rearm_row (tx_now t) i) s)\<lparr>audit_events := audit_events s @ [ev]\<rparr>" by blast
  have "i_id (rearm_row (tx_now t) i) \<noteq> pb_intent_id pub"
    using held_not_free [OF assms(1-3) i(1)] rearm_guardD [OF i(2)] by (simp add: rearm_row_def)
  from held_save [OF assms(1) this] show ?thesis unfolding i(3) by (simp add: held_def)
qed

lemma held_step:
  assumes "service_step api pol m (now, ev) c c'" and "service_ok c" and "held pub e (sv_db c)"
    and "now < e" and "\<not> releases pub ev"
  shows "held pub e (sv_db c') \<and> (\<forall>p. ev = Handed p \<longrightarrow> pb_intent_id p \<noteq> pb_intent_id pub)"
proof -
  have ok: "db_ok (sv_db c)" and rec: "\<And>rec. rec \<in> sv_claims c \<Longrightarrow> rec_for rec (sv_db c)"
    using assms(2) by (simp_all add: service_ok_def)
  have same: "held pub e (sv_db c')" if "sv_db c' = sv_db c \<or> ingest_step m (sv_db c) (sv_db c')"
    using that ingest_step_intents held_frame [OF _ assms(3)] by auto
  from assms(1) show ?thesis
  proof cases
    case (Upload fault ids org actor filename source r st' s')
    then have "set (ingestion_intents (sv_db c)) \<subseteq> set (ingestion_intents (sv_db c'))"
      by (auto simp: api_upload_def create_upload_def Let_def upload_rows_def dest!: stage_upload_Inr
          split: sum.splits db_fault.splits)
    with held_frame [OF _ assms(3)] Upload(1,2) show ?thesis by simp
  next
    case (Claim t vid task r1 s')
    with same [OF claim_refines] show ?thesis by auto
  next
    case (Owned t vid task r2 s')
    with owned_record_same [OF Owned(4)] assms(3) show ?thesis by simp
  next
    case (Ready rec t task words r3 s')
    with mark_ready_refines [OF Ready(5) _ ok] same rec show ?thesis by auto
  next
    case (Failed rec t task code r3 s')
    with mark_failed_refines [OF Failed(5) _ ok] same rec show ?thesis by auto
  next
    case (Retry t vid task code r3 s')
    with prepare_retry_refines [OF Retry(4)] same show ?thesis by auto
  next
    case (Relay rt r4 s')
    have r: "r4 = Inr (Some p)" if "handed_by r4 = Handed p" for p
      using that by (cases r4 rule: handed_by.cases) auto
    from held_relay [OF assms(3) ok _ Relay(4)] Relay(1-3) assms(4) r show ?thesis by auto
  next
    case (Finish rt p ok' r5 s')
    with held_finish [OF assms(3) ok Finish(4)] assms(5) show ?thesis by (auto simp: releases_def)
  next
    case (Settle rt n s')
    with held_settle [OF assms(3) _ Settle(4)] assms(4) show ?thesis by simp
  next
    case (Cleanup rt limit n s')
    with held_cleanup [OF assms(3) ok _ Cleanup(4)] assms(4) show ?thesis by simp
  next
    case (Backfill rt cutoff limit fresh n s')
    have "set (ingestion_intents (sv_db c)) \<subseteq> set (ingestion_intents (fold (insert_intent x) rs (sv_db c)))" for x rs
      using fold_insert_intent [of x rs "sv_db c"] by auto
    with held_frame [OF _ assms(3)] have "held pub e (fold (insert_intent x) rs (sv_db c))" for x rs by blast
    with Backfill assms(3) show ?thesis
      by (auto simp: backfill_def Let_def dest!: relay_commitD split: if_splits)
  next
    case (Rearm t dep busy ext max_att org iid actor g s')
    with held_rearm [OF assms(3) ok _ Rearm(4)] assms(4) show ?thesis by simp
  qed
qed

lemma held_run:
  assumes "service_run api pol m es c c'" and "service_ok c" and "held pub e (sv_db c)"
    and "\<forall>(t, ev) \<in> set es. t < e \<and> \<not> releases pub ev"
  shows "held pub e (sv_db c') \<and> (\<forall>(t, ev) \<in> set es. \<forall>p. ev = Handed p \<longrightarrow> pb_intent_id p \<noteq> pb_intent_id pub)"
  using assms
proof (induction rule: service_run.induct)
  case (Done c)
  then show ?case by simp
next
  case (More es c c' e' c'')
  obtain t ev where e': "e' = (t, ev)" by (cases e')
  have ok: "service_ok c'" using service_run_refines [OF More.hyps(1) More.prems(1)] by blast
  from More.IH More.prems held_step [OF More.hyps(2) [unfolded e'] ok] show ?case by (auto simp: e')
qed

lemma claim_holds:
  assumes "relay_claim pol t s = (Inr (Some pub), s')" and "db_ok s"
  shows "held pub (tx_now t + seconds (rp_lease_seconds pol)) s' \<and> db_ok s' \<and>
    document_versions s' = document_versions s"
proof -
  from assms(1) have f: "tx_fault t = NoFault"
    by (auto simp: relay_claim_def relay_commit_def split: option.splits prod.splits sum.splits db_fault.splits)
  show ?thesis
  proof (rule relay_claim_cases [OF assms(2) f, of pol])
    assume "relay_claim pol t s = (Inr None, s)"
    then show ?thesis using assms(1) by simp
  next
    fix i v i' q
    assume i: "i \<in> set (ingestion_intents s)" and c: "claim_row pol (tx_now t) (rt_token t) i v = (i', q)"
      and run: "relay_claim pol t s = (Inr q, save_intent i' s)" "db_ok (save_intent i' s)"
    have p: "q = Some pub" "s' = save_intent i' s" using run(1) assms(1) by auto
    have i': "i_id i' = pb_intent_id pub" "i_id i' = i_id i" "i_lease_token i' = Some (pb_token pub)"
        "i_lease_expires_at i' = Some (tx_now t + seconds (rp_lease_seconds pol))"
      using claim_row_publication [OF c [unfolded p(1)]] by (simp_all add: lease_out_def Let_def)
    have "i' \<in> set (ingestion_intents s')" unfolding p(2) by (rule save_intent_mem [OF i i'(2)])
    with i' run(2) show ?thesis by (auto simp: held_def p(2) save_intent_def)
  qed
qed

subsection \<open>What every run of the service satisfies\<close>

text \<open>
  C1. Exactly-once outcome: starting from a database without documents and workers without claims,
  after any interleaving of calls of the service (uploads with any storage behaviour, every worker
  transaction with any claim a worker ever got, relay polls, settlements, clean-ups, backfills and
  rearms), under any faults and clocks, a version has exactly one terminal audit event when it is
  \<open>ready\<close> or \<open>failed\<close>, of the matching action, and none before; its columns are those its state
  calls for, and it was attempted at most \<open>m\<close> times.
\<close>

theorem exactly_once_outcome:
  assumes "db_ok (sv_db c0)" and "document_versions (sv_db c0) = []" and "ingestion_intents (sv_db c0) = []"
    and "\<forall>e \<in> set (audit_events (sv_db c0)). \<not> is_terminal_event e" and "sv_claims c0 = {}"
    and "policy_ok pol" and "0 \<le> m" and "service_run api pol m es c0 c"
  shows "db_ok (sv_db c) \<and> (\<forall>v \<in> set (document_versions (sv_db c)). version_wf m v \<and> v_attempt_count v \<le> m \<and>
    map a_action (terminal_events (sv_db c) (v_id v)) = expected_events (v_status v))"
proof -
  have "service_ok c0" using assms(1,5) by (simp add: service_ok_def)
  with service_run_refines [OF assms(8)] have "pipeline_run pol m (sv_db c0) (sv_db c)" by blast
  from pipeline_run_props [OF this empty_outbox_inv [OF assms(1-4)] assms(6,7)] show ?thesis
    by (auto simp: pipeline_inv_def lifecycle_inv_def version_wf_def)
qed

text \<open>
  C11. A lease is exclusive until its holder finishes or it expires: once a claim has handed out a
  publication, then through any run of the service whose clocks read less than the expiry and in
  which nobody calls \<open>finish\<close> with the intent and the token of that publication, no claim hands out
  the same intent again, and at the end the intent is still leased to the holder, who can finish it.
\<close>

theorem lease_exclusive:
  assumes "service_ok c" and "relay_claim pol t (sv_db c) = (Inr (Some pub), s')"
    and "service_run api pol m es (c\<lparr>sv_db := s'\<rparr>) c'"
    and "\<forall>(now, ev) \<in> set es. now < tx_now t + seconds (rp_lease_seconds pol) \<and> \<not> releases pub ev"
  shows "(\<forall>(now, ev) \<in> set es. \<forall>pub'. ev = Handed pub' \<longrightarrow> pb_intent_id pub' \<noteq> pb_intent_id pub) \<and>
    (\<exists>i \<in> set (ingestion_intents (sv_db c')). \<forall>now < tx_now t + seconds (rp_lease_seconds pol). leased_to pub now i)"
proof -
  have "db_ok (sv_db c)" using assms(1) by (simp add: service_ok_def)
  note H = claim_holds [OF assms(2) this]
  have "service_ok (c\<lparr>sv_db := s'\<rparr>)" using assms(1) H by (simp add: service_ok_def rec_for_def)
  from held_run [OF assms(3) this _ assms(4)] H show ?thesis
    by (auto simp: held_def leased_to_def intro: rev_bexI)
qed

subsection \<open>A concrete run\<close>

definition sample_api :: "(string \<Rightarrow> byte list option) upload_api" where
  "sample_api = \<lparr>ua_unicode = sample_ucd, ua_sha256 = sample_sha, ua_put = memory_put,
     ua_delete = memory_delete, ua_max_bytes = 100\<rparr>"

definition sample_service :: "(string \<Rightarrow> byte list option) service" where
  "sample_service = \<lparr>sv_objects = Map.empty, sv_db = sample_db, sv_claims = {}\<rparr>"

text \<open>The sample upload, the claim of a worker at time 8 and the end of its delivery at time 9.\<close>

lemma sample_service_run:
  "\<exists>c v. service_run sample_api default_policy 4 [(7, Silent), (8, Silent), (9, Silent)] sample_service c \<and>
     v \<in> set (document_versions (sv_db c)) \<and> v_status v = READY"
proof -
  let ?t1 = "sample_tx 8 110" and ?t2 = "sample_tx 9 111"
  let ?e = "extracting_version (tx_now ?t1) ''task'' sample_version"
  let ?s1 = "save_version (tx_now ?t1) ?e sample_uploaded"
  have mem: "sample_version \<in> set (document_versions sample_uploaded)" by (simp add: sample_uploaded_tables)
  have q: "v_status sample_version = QUEUED" "v_attempt_count sample_version = 0"
    by (simp_all add: sample_version_def new_version_def)
  obtain d where d: "claim 4 ?t1 (v_id sample_version) ''task'' sample_uploaded =
      (Inr (ClaimRecord (record_of d ?e)), ?s1)" "db_ok ?s1" "d_organization_id d = v_organization_id sample_version"
    using claim_succeeds [OF sample_uploaded_ok mem q(1), of 4 "''task''" ?t1] q(2)
    by (auto simp: vchar_def sample_tx_def)
  have mem1: "?e\<lparr>v_updated_at := tx_now ?t1\<rparr> \<in> set (document_versions ?s1)"
    by (rule saved_version_mem [OF mem]) (simp add: extracting_version_def)
  obtain s2 where s2: "mark_ready ?t2 (record_of d ?e) ''task'' [104, 105] ?s1 = (Inr (), s2)"
      "(ready_version [104, 105] (?e\<lparr>v_updated_at := tx_now ?t1\<rparr>))\<lparr>v_updated_at := tx_now ?t2\<rparr>
        \<in> set (document_versions s2)"
    using mark_ready_succeeds [OF d(2) mem1, of "''task''" "record_of d ?e" "[104, 105]" ?t2] q(2) d(3)
    by (auto simp: is_owned_extraction_def extracting_version_def record_of_def sample_tx_def text_ok_def
        sample_uploaded_tables)
  let ?c1 = "sample_service\<lparr>sv_objects := [build_storage_key 1 100 101 \<mapsto> [104, 105]], sv_db := sample_uploaded\<rparr>"
  let ?c2 = "?c1\<lparr>sv_db := ?s1, sv_claims := sv_claims ?c1 \<union> claimed_by (Inr (ClaimRecord (record_of d ?e)))\<rparr>"
  let ?c3 = "?c2\<lparr>sv_db := s2\<rparr>"
  have 1: "service_step sample_api default_policy 4 (7, Silent) sample_service ?c1"
    by (rule service_step.Upload [OF trans [OF _ sample_upload]]) (simp add: api_upload_def sample_api_def sample_service_def)
  have 2: "service_step sample_api default_policy 4 (tx_now ?t1, Silent) ?c1 ?c2"
    by (rule service_step.Claim) (use d(1) in simp)
  have 3: "service_step sample_api default_policy 4 (tx_now ?t2, Silent) ?c2 ?c3"
    by (rule service_step.Ready) (use s2(1) in simp_all)
  have "service_run sample_api default_policy 4 ((([] @ [(7, Silent)]) @ [(8, Silent)]) @ [(9, Silent)]) sample_service ?c3"
    using service_run.More [OF service_run.More [OF service_run.More [OF service_run.Done 1] 2] 3]
    by (simp add: sample_tx_def)
  with s2(2) show ?thesis
    by (intro exI [of _ ?c3] exI conjI) (simp | assumption | simp add: ready_version_def)+
qed

theorem exactly_once_outcome_witness:
  "\<exists>c v. service_run sample_api default_policy 4 [(7, Silent), (8, Silent), (9, Silent)] sample_service c \<and>
     v \<in> set (document_versions (sv_db c)) \<and> v_status v = READY \<and>
     map a_action (terminal_events (sv_db c) (v_id v)) = [audit_action_value DOCUMENT_READY]"
proof -
  obtain c v where run: "service_run sample_api default_policy 4 [(7, Silent), (8, Silent), (9, Silent)] sample_service c"
      "v \<in> set (document_versions (sv_db c))" "v_status v = READY" using sample_service_run by blast
  have "db_ok (sv_db sample_service)" "sv_claims sample_service = {}"
    using sample_db_ok by (simp_all add: sample_service_def)
  moreover have "document_versions (sv_db sample_service) = []" "ingestion_intents (sv_db sample_service) = []"
      "\<forall>e \<in> set (audit_events (sv_db sample_service)). \<not> is_terminal_event e"
    by (simp_all add: sample_service_def sample_db_def empty_db_def)
  ultimately have "map a_action (terminal_events (sv_db c) (v_id v)) = expected_events (v_status v)"
    using exactly_once_outcome [OF _ _ _ _ _ sample_policy _ run(1)] run(2) by simp
  with run show ?thesis by (intro exI conjI) (assumption | simp)+
qed

lemma handed_not_released: "\<not> releases pub (handed_by r)"
  by (cases r rule: handed_by.cases) (simp_all add: releases_def)

text \<open>A relay leases the sample intent at time 8; another relay polls at time 9.\<close>

theorem lease_exclusive_witness:
  "\<exists>(c :: (string \<Rightarrow> byte list option) service) i. i \<in> set (ingestion_intents (sv_db c)) \<and>
     leased_to \<lparr>pb_intent_id = 103, pb_version_id = 101, pb_task_id = uuid_str 104, pb_token = 900,
       pb_retries = 0\<rparr> 20 i"
proof -
  define c where "c = sample_service\<lparr>sv_db := sample_uploaded\<rparr>"
  obtain s1 where s1: "relay_claim default_policy (sample_rtx 8 900) (sv_db c) = (Inr (Some
      \<lparr>pb_intent_id = 103, pb_version_id = 101, pb_task_id = uuid_str 104, pb_token = 900, pb_retries = 0\<rparr>), s1)"
    using sample_claim by (simp add: c_def)
  obtain r s2 where s2: "relay_claim default_policy (sample_rtx 9 901) s1 = (r, s2)"
    by (cases "relay_claim default_policy (sample_rtx 9 901) s1")
  have "service_step sample_api default_policy 4 (tx_now (sample_rtx 9 901), handed_by r) (c\<lparr>sv_db := s1\<rparr>)
      (c\<lparr>sv_db := s1, sv_db := s2\<rparr>)" by (rule service_step.Relay) (use s2 in simp)
  from service_run.More [OF service_run.Done this]
  have run: "service_run sample_api default_policy 4 [(9, handed_by r)] (c\<lparr>sv_db := s1\<rparr>) (c\<lparr>sv_db := s2\<rparr>)"
    by (simp add: sample_rtx_def)
  have ok: "service_ok c" using sample_uploaded_ok by (simp add: service_ok_def c_def sample_service_def)
  have expiry: "(20 :: int) < tx_now (sample_rtx 8 900) + seconds (rp_lease_seconds default_policy)"
      "(9 :: int) < tx_now (sample_rtx 8 900) + seconds (rp_lease_seconds default_policy)"
    by (simp_all add: sample_rtx_def default_policy_def seconds_def)
  from lease_exclusive [OF ok s1 run] handed_not_released expiry(2)
  obtain i where "i \<in> set (ingestion_intents (sv_db (c\<lparr>sv_db := s2\<rparr>)))"
      "\<forall>now < tx_now (sample_rtx 8 900) + seconds (rp_lease_seconds default_policy). leased_to
        \<lparr>pb_intent_id = 103, pb_version_id = 101, pb_task_id = uuid_str 104, pb_token = 900, pb_retries = 0\<rparr> now i"
    by auto
  with expiry(1) show ?thesis by blast
qed

end
