(* ===== verification/SF_Http.thy ===== *)
theory SF_Http
  imports SF_Models "HOL-Library.Sublist"
begin

text \<open>
  \<open>app/errors.py\<close>: the error envelope and the three exception handlers that turn whatever leaves an
  endpoint into a response. An endpoint raises either an \<open>HTTPException\<close> (\<open>Http\<close>) or lets an exception
  of its service escape (\<open>Unhandled\<close>). A validation error is one entry of \<open>exc.errors()\<close> of the
  validation library: its location, message and, where it has one, the offending input. Locations
  are field names and taken to be ASCII, so that \<open>str.lower\<close> is \<open>lower_s\<close>.
\<close>

datatype json = JNull | JBool bool | JInt int | JStr string | JList "json list"
  | JObj "(string \<times> json) list"

datatype http_detail = Message string | Coded string string "json option" | Other json
  \<comment> \<open>\<open>Coded\<close>: a mapping whose \<open>code\<close> and \<open>message\<close> are strings\<close>

record http_exception =
  he_status :: nat
  he_detail :: http_detail
  he_headers :: "(string \<times> string) list"

datatype 'e api_exn = Http http_exception | Unhandled 'e

definition http_error :: "nat \<Rightarrow> string \<Rightarrow> 'e api_exn" where
  "http_error code message = Http \<lparr>he_status = code, he_detail = Message message, he_headers = []\<rparr>"

fun api_status :: "'e api_exn \<Rightarrow> nat" where
  "api_status (Http e) = he_status e"
| "api_status (Unhandled e) = 500"

lemma api_status_http_error [simp]: "api_status (http_error n w) = n"
  by (simp add: http_error_def)

record error_response =
  er_status :: nat
  er_code :: string
  er_message :: string
  er_details :: "json option"
  er_headers :: "(string \<times> string) list"

definition REQUEST_ID_HEADER :: string where
  "REQUEST_ID_HEADER = ''X-Request-ID''"

record validation_item =
  vi_type :: string
  vi_loc :: "string list"
  vi_msg :: string
  vi_input :: "json option"

definition SENSITIVE_FIELD_MARKERS :: "string list" where
  "SENSITIVE_FIELD_MARKERS = [''password'', ''secret'', ''token'']"

definition sensitive_location :: "string list \<Rightarrow> bool" where
  "sensitive_location loc \<longleftrightarrow>
     list_ex (\<lambda>part. list_ex (\<lambda>marker. sublist marker (lower_s part)) SENSITIVE_FIELD_MARKERS) loc"

definition safe_validation_errors :: "validation_item list \<Rightarrow> validation_item list" where
  "safe_validation_errors errors =
     map (\<lambda>e. if sensitive_location (vi_loc e) then e\<lparr>vi_input := None\<rparr> else e) errors"

definition item_json :: "validation_item \<Rightarrow> json" where
  "item_json e = JObj ([(''type'', JStr (vi_type e)), (''loc'', JList (map JStr (vi_loc e))),
     (''msg'', JStr (vi_msg e))] @ (case vi_input e of None \<Rightarrow> [] | Some x \<Rightarrow> [(''input'', x)]))"

definition status_error_code :: "nat \<Rightarrow> string" where
  "status_error_code n = (if n = 401 then ''unauthorized'' else if n = 403 then ''forbidden''
     else if n = 404 then ''not_found'' else if n = 409 then ''conflict'' else ''http_error'')"

definition unhandled_exception_handler :: "string option \<Rightarrow> error_response" where
  "unhandled_exception_handler request_id =
     (let rid = (case request_id of None \<Rightarrow> ''unavailable'' | Some r \<Rightarrow> r) in
      \<lparr>er_status = 500, er_code = ''internal_error'', er_message = ''Internal server error'',
       er_details = None, er_headers = [(REQUEST_ID_HEADER, rid)]\<rparr>)"

definition http_exception_handler :: "http_exception \<Rightarrow> error_response" where
  "http_exception_handler exc =
     (case he_detail exc of
        Coded code message details \<Rightarrow>
          \<lparr>er_status = he_status exc, er_code = code, er_message = message, er_details = details,
           er_headers = he_headers exc\<rparr>
      | Message message \<Rightarrow>
          \<lparr>er_status = he_status exc, er_code = status_error_code (he_status exc),
           er_message = message, er_details = None, er_headers = he_headers exc\<rparr>
      | Other detail \<Rightarrow>
          \<lparr>er_status = he_status exc, er_code = status_error_code (he_status exc),
           er_message = ''Request failed'', er_details = Some detail, er_headers = he_headers exc\<rparr>)"

definition validation_exception_handler :: "validation_item list \<Rightarrow> error_response" where
  "validation_exception_handler errors =
     \<lparr>er_status = 422, er_code = ''validation_error'', er_message = ''Request validation failed'',
      er_details = Some (JList (map item_json (safe_validation_errors errors))), er_headers = []\<rparr>"

definition render_error :: "string option \<Rightarrow> 'e api_exn \<Rightarrow> error_response" where
  \<comment> \<open>\<open>install_error_handlers\<close>: which handler answers which exception\<close>
  "render_error request_id e =
     (case e of Http exc \<Rightarrow> http_exception_handler exc | Unhandled _ \<Rightarrow> unhandled_exception_handler request_id)"

subsection \<open>What a client sees\<close>

lemma render_error_status [simp]: "er_status (render_error rid e) = api_status e"
  by (cases e) (auto simp: render_error_def http_exception_handler_def unhandled_exception_handler_def Let_def
      split: http_detail.split)

lemma safe_items_silent: "e \<in> set (safe_validation_errors errors) \<Longrightarrow> sensitive_location (vi_loc e) \<Longrightarrow> vi_input e = None"
  by (auto simp: safe_validation_errors_def split: if_splits)

text \<open>
  Redaction of validation errors goes by the location of the error, not by what its input holds.
  An error located at a field whose name contains a sensitive marker never shows its input; but an
  error located elsewhere, such as the one for a missing field, whose input is the whole request
  body, is returned with every field of that body, passwords included.
\<close>

lemma redaction_misses_enclosing_body:
  assumes "e \<in> set errors" and "\<not> sensitive_location (vi_loc e)" and "vi_input e = Some (JObj body)"
  shows "\<exists>items fields. er_details (validation_exception_handler errors) = Some (JList items) \<and>
      JObj fields \<in> set items \<and> (''input'', JObj body) \<in> set fields \<and>
      (\<forall>x \<in> set (safe_validation_errors errors). sensitive_location (vi_loc x) \<longrightarrow> vi_input x = None)"
proof -
  have "e \<in> set (safe_validation_errors errors)"
    using assms(1,2) by (force simp: safe_validation_errors_def)
  then have "item_json e \<in> set (map item_json (safe_validation_errors errors))" by simp
  moreover have "\<exists>fields. item_json e = JObj fields \<and> (''input'', JObj body) \<in> set fields"
    using assms(3) by (simp add: item_json_def)
  ultimately obtain fields where "JObj fields \<in> set (map item_json (safe_validation_errors errors))"
      "(''input'', JObj body) \<in> set fields" by metis
  then show ?thesis using safe_items_silent unfolding validation_exception_handler_def by fastforce
qed

text \<open>A registration that forgets the e-mail address gets its password back.\<close>

definition missing_email :: validation_item where
  "missing_email = \<lparr>vi_type = ''missing'', vi_loc = [''body'', ''email''], vi_msg = ''Field required'',
     vi_input = Some (JObj [(''password'', JStr ''correct horse'')])\<rparr>"

lemma redaction_misses_enclosing_body_example:
  "\<exists>items fields. er_details (validation_exception_handler [missing_email]) = Some (JList items) \<and>
     JObj fields \<in> set items \<and> (''input'', JObj [(''password'', JStr ''correct horse'')]) \<in> set fields"
proof -
  have "\<not> sensitive_location (vi_loc missing_email)"
    by (simp add: missing_email_def sensitive_location_def SENSITIVE_FIELD_MARKERS_def lower_s_def lower_char_def
        sublist_Cons_right)
  from redaction_misses_enclosing_body [OF _ this, of "[missing_email]"] show ?thesis
    by (auto simp: missing_email_def)
qed

end
