(* ===== verification/SF_Tickets.thy ===== *)
theory SF_Tickets
  imports SF_Ingestion SF_Http
begin

text \<open>
  \<open>app/tickets\<close>: the request schemas, \<open>TicketRepository\<close>, \<open>TicketService\<close> and the error mapping of
  \<open>app/api/tickets.py\<close>. The service object carries the organization of the caller; here it is the
  argument \<open>org\<close>. \<open>transition_ticket\<close> reads the ticket without a row lock, so other sessions may
  commit between its read and its write (\<open>tx_others\<close>). The string normalisation of pydantic
  (\<open>strip_whitespace\<close>) is the parameter \<open>trim\<close>.
\<close>

subsection \<open>Requests\<close>

definition string_constraints :: "(ustr \<Rightarrow> ustr) \<Rightarrow> nat \<Rightarrow> nat \<Rightarrow> ustr \<Rightarrow> ustr option" where
  "string_constraints trim min_length max_length raw =
     (let t = trim raw in if length t < min_length \<or> max_length < length t then None else Some t)"

definition NonEmptyBody :: "(ustr \<Rightarrow> ustr) \<Rightarrow> ustr \<Rightarrow> ustr option" where
  "NonEmptyBody trim = string_constraints trim 1 50000"

definition TicketSubject :: "(ustr \<Rightarrow> ustr) \<Rightarrow> ustr \<Rightarrow> ustr option" where
  "TicketSubject trim = string_constraints trim 1 300"

record ticket_create_request =
  rq_subject :: ustr
  rq_customer_id :: "uuid option"
  rq_source_type :: ticket_source_type
  rq_external_id :: "string option"
  rq_body :: ustr

definition parse_ticket_create :: "(ustr \<Rightarrow> ustr) \<Rightarrow> ticket_create_request \<Rightarrow> ticket_create_request option" where
  "parse_ticket_create trim raw =
     (case (TicketSubject trim (rq_subject raw), NonEmptyBody trim (rq_body raw)) of
        (Some subject, Some body) \<Rightarrow>
          if on_some (\<lambda>e. length e \<le> 255) (rq_external_id raw)
          then Some (raw\<lparr>rq_subject := subject, rq_body := body\<rparr>) else None
      | _ \<Rightarrow> None)"

subsection \<open>Repository\<close>

definition get_customer :: "uuid \<Rightarrow> uuid \<Rightarrow> db \<Rightarrow> customer option" where
  "get_customer org customer_id s =
     find (\<lambda>c. c_organization_id c = org \<and> c_id c = customer_id) (customers s)"

definition get_ticket :: "uuid \<Rightarrow> uuid \<Rightarrow> db \<Rightarrow> ticket option" where
  "get_ticket org ticket_id s =
     find (\<lambda>t. t_organization_id t = org \<and> t_id t = ticket_id) (tickets s)"

definition list_ticket_messages :: "uuid \<Rightarrow> uuid \<Rightarrow> db \<Rightarrow> ticket_message list" where
  "list_ticket_messages org ticket_id s = order_by (\<lambda>x. (tm_created_at x, tm_id x))
     (filter (\<lambda>x. tm_organization_id x = org \<and> tm_ticket_id x = ticket_id) (ticket_messages s))"

record ticket_query =
  tq_organization :: uuid
  tq_status :: "ticket_status option"
  tq_source :: "ticket_source_type option"
  tq_customer :: "uuid option"

definition ticket_filter :: "ticket_query \<Rightarrow> ticket \<Rightarrow> bool" where
  "ticket_filter q t \<longleftrightarrow> t_organization_id t = tq_organization q \<and>
     (case tq_status q of None \<Rightarrow> True | Some x \<Rightarrow> t_status t = x) \<and>
     (case tq_source q of None \<Rightarrow> True | Some x \<Rightarrow> t_source_type t = x) \<and>
     (case tq_customer q of None \<Rightarrow> True | Some x \<Rightarrow> t_customer_id t = Some x)"

definition visible_tickets :: "db \<Rightarrow> ticket_query \<Rightarrow> ticket list" where
  "visible_tickets s q = order_by_desc (\<lambda>t. (t_created_at t, t_id t)) (filter (ticket_filter q) (tickets s))"

definition list_tickets :: "db \<Rightarrow> ticket_query \<Rightarrow> nat \<Rightarrow> nat \<Rightarrow> ticket list \<times> nat" where
  "list_tickets s q limit offset =
     (limit_offset limit offset (order_by_desc (\<lambda>t. (t_created_at t, t_id t))
        (filter (ticket_filter q) (tickets s))),
      length (filter (ticket_filter q) (tickets s)))"

subsection \<open>Service\<close>

datatype ticket_exn =
    CustomerNotFoundError | TicketValueError | TicketNotFoundError
  | InvalidTicketTransitionError ticket_status ticket_status
  | TicketPersistenceError
  | TicketOtherError \<comment> \<open>any exception the service re-raises after its rollback\<close>

fun allowed_transition :: "ticket_status \<Rightarrow> ticket_status option" where
  "allowed_transition OPEN = Some PROCESSING"
| "allowed_transition PROCESSING = Some WAITING_FOR_AGENT"
| "allowed_transition WAITING_FOR_AGENT = Some RESOLVED"
| "allowed_transition RESOLVED = Some CLOSED"
| "allowed_transition CLOSED = None"

definition ticket_commit :: "db_fault \<Rightarrow> 'r \<Rightarrow> audit_error + db \<Rightarrow> db \<Rightarrow> (ticket_exn + 'r) \<times> db" where
  \<comment> \<open>the \<open>try\<close> block around recording and \<open>commit\<close>\<close>
  "ticket_commit fault result pending s =
     (case pending of
        Inl _ \<Rightarrow> (Inl TicketOtherError, s)
      | Inr p \<Rightarrow>
          (case commit p of
             Inl IntegrityError \<Rightarrow> (Inl TicketPersistenceError, s)
           | Inl DataError \<Rightarrow> (Inl TicketOtherError, s)
           | Inr s' \<Rightarrow>
               (case fault of NoFault \<Rightarrow> (Inr result, s') | Aborted \<Rightarrow> (Inl TicketOtherError, s)
                | AckLost \<Rightarrow> (Inl TicketOtherError, s'))))"

record ticket_ids =
  k_ticket :: uuid
  k_message :: uuid
  k_event1 :: uuid
  k_event2 :: uuid

definition new_ticket :: "instant \<Rightarrow> uuid \<Rightarrow> uuid \<Rightarrow> ticket_create_request \<Rightarrow> ticket" where
  "new_ticket now tid org rq = \<lparr>t_id = tid, t_organization_id = org, t_customer_id = rq_customer_id rq,
     t_source_type = rq_source_type rq, t_external_id = rq_external_id rq, t_subject = rq_subject rq,
     t_status = OPEN, t_created_at = now, t_updated_at = now\<rparr>"

definition agent_message :: "instant \<Rightarrow> uuid \<Rightarrow> uuid \<Rightarrow> uuid \<Rightarrow> message_author_type \<Rightarrow> uuid \<Rightarrow> ustr \<Rightarrow>
    ticket_message" where
  "agent_message now mid org ticket_id author actor body =
     \<lparr>tm_id = mid, tm_organization_id = org, tm_ticket_id = ticket_id, tm_author_type = author,
      tm_author_user_id = Some actor, tm_author_customer_id = None, tm_body = body, tm_created_at = now\<rparr>"

definition create_ticket :: "instant \<Rightarrow> db_fault \<Rightarrow> ticket_ids \<Rightarrow> uuid \<Rightarrow> ticket_create_request \<Rightarrow>
    message_author_type \<Rightarrow> uuid \<Rightarrow> db \<Rightarrow> (ticket_exn + ticket \<times> ticket_message) \<times> db" where
  "create_ticket now fault ids org rq author current_user_id s =
     (if (case rq_customer_id rq of None \<Rightarrow> False | Some c \<Rightarrow> get_customer org c s = None)
      then (Inl CustomerNotFoundError, s)
      else if author \<noteq> AUTHOR_AGENT then (Inl TicketValueError, s)
      else
        let ticket = new_ticket now (k_ticket ids) org rq;
            message = agent_message now (k_message ids) org (k_ticket ids) author current_user_id (rq_body rq);
            s1 = s\<lparr>tickets := tickets s @ [ticket], ticket_messages := ticket_messages s @ [message]\<rparr>
        in ticket_commit fault (ticket, message)
             (bindE (record_ticket_created now (k_event1 ids) org current_user_id (t_id ticket)
                       (ticket_source_value (t_source_type ticket)) s1)
                (record_ticket_message_created now (k_event2 ids) org (Some current_user_id) (tm_id message)))
             s)"

definition get_ticket_detail :: "uuid \<Rightarrow> uuid \<Rightarrow> db \<Rightarrow> ticket_exn + ticket \<times> ticket_message list" where
  "get_ticket_detail org ticket_id s =
     (case get_ticket org ticket_id s of
        None \<Rightarrow> Inl TicketNotFoundError
      | Some t \<Rightarrow> Inr (t, list_ticket_messages org ticket_id s))"

definition append_agent_message :: "instant \<Rightarrow> db_fault \<Rightarrow> uuid \<Rightarrow> uuid \<Rightarrow> uuid \<Rightarrow> uuid \<Rightarrow> ustr \<Rightarrow> uuid \<Rightarrow> db \<Rightarrow>
    (ticket_exn + ticket_message) \<times> db" where
  "append_agent_message now fault mid eid org ticket_id body current_user_id s =
     (if get_ticket org ticket_id s = None then (Inl TicketNotFoundError, s)
      else
        let message = agent_message now mid org ticket_id AUTHOR_AGENT current_user_id body
        in ticket_commit fault message
             (record_ticket_message_created now eid org (Some current_user_id) (tm_id message)
                (s\<lparr>ticket_messages := ticket_messages s @ [message]\<rparr>)) s)"

definition set_status :: "instant \<Rightarrow> ticket_status \<Rightarrow> uuid \<Rightarrow> db \<Rightarrow> db" where
  \<comment> \<open>\<open>UPDATE tickets SET status, updated_at WHERE id\<close>\<close>
  "set_status now st ticket_id s = s\<lparr>tickets :=
     upd_row t_id ticket_id (\<lambda>t. t\<lparr>t_status := st, t_updated_at := now\<rparr>) (tickets s)\<rparr>"

definition transition_ticket :: "tx \<Rightarrow> uuid \<Rightarrow> uuid \<Rightarrow> ticket_status \<Rightarrow> uuid \<Rightarrow> db \<Rightarrow> (ticket_exn + ticket) \<times> db" where
  \<comment> \<open>the object keeps the attributes it was read with (\<open>expire_on_commit=False\<close>) but for those it wrote\<close>
  "transition_ticket t org ticket_id next_status current_user_id s =
     (case get_ticket org ticket_id s of
        None \<Rightarrow> (Inl TicketNotFoundError, s)
      | Some ticket \<Rightarrow>
          if allowed_transition (t_status ticket) \<noteq> Some next_status
          then (Inl (InvalidTicketTransitionError (t_status ticket) next_status), s)
          else
            let s1 = tx_others t s in
            ticket_commit (tx_fault t) (ticket\<lparr>t_status := next_status, t_updated_at := tx_now t\<rparr>)
              (record_ticket_status_changed (tx_now t) (tx_event t) org current_user_id ticket_id
                 (ticket_status_value (t_status ticket)) (ticket_status_value next_status)
                 (set_status (tx_now t) next_status ticket_id s1)) s1)"

subsection \<open>Endpoints\<close>

record ticket_response =
  tr_id :: uuid
  tr_organization_id :: uuid
  tr_customer_id :: "uuid option"
  tr_source_type :: ticket_source_type
  tr_external_id :: "string option"
  tr_subject :: ustr
  tr_status :: ticket_status
  tr_created_at :: instant
  tr_updated_at :: instant

record message_response =
  mr_id :: uuid
  mr_organization_id :: uuid
  mr_ticket_id :: uuid
  mr_author_type :: message_author_type
  mr_author_user_id :: "uuid option"
  mr_author_customer_id :: "uuid option"
  mr_body :: ustr
  mr_created_at :: instant

definition TicketResponse :: "ticket \<Rightarrow> ticket_response" where
  "TicketResponse t = \<lparr>tr_id = t_id t, tr_organization_id = t_organization_id t,
     tr_customer_id = t_customer_id t, tr_source_type = t_source_type t, tr_external_id = t_external_id t,
     tr_subject = t_subject t, tr_status = t_status t, tr_created_at = t_created_at t,
     tr_updated_at = t_updated_at t\<rparr>"

definition TicketMessageResponse :: "ticket_message \<Rightarrow> message_response" where
  "TicketMessageResponse x = \<lparr>mr_id = tm_id x, mr_organization_id = tm_organization_id x,
     mr_ticket_id = tm_ticket_id x, mr_author_type = tm_author_type x,
     mr_author_user_id = tm_author_user_id x, mr_author_customer_id = tm_author_customer_id x,
     mr_body = tm_body x, mr_created_at = tm_created_at x\<rparr>"

type_synonym 'r ticket_api = "(ticket_exn api_exn + 'r) \<times> db"

definition api_create_ticket :: "instant \<Rightarrow> db_fault \<Rightarrow> ticket_ids \<Rightarrow> uuid \<Rightarrow> uuid \<Rightarrow> ticket_create_request \<Rightarrow>
    db \<Rightarrow> (ticket_response \<times> message_response) ticket_api" where
  "api_create_ticket now fault ids org user_id rq s =
     (case create_ticket now fault ids org rq AUTHOR_AGENT user_id s of
        (Inl CustomerNotFoundError, s') \<Rightarrow> (Inl (http_error 404 ''Customer not found''), s')
      | (Inl TicketPersistenceError, s') \<Rightarrow> (Inl (http_error 409 ''Ticket could not be created''), s')
      | (Inl e, s') \<Rightarrow> (Inl (Unhandled e), s')
      | (Inr (t, x), s') \<Rightarrow> (Inr (TicketResponse t, TicketMessageResponse x), s'))"

definition api_list_tickets :: "db \<Rightarrow> ticket_query \<Rightarrow> nat \<Rightarrow> nat \<Rightarrow> ticket_response list \<times> nat \<times> nat \<times> nat" where
  "api_list_tickets s q limit offset =
     (let (items, total) = list_tickets s q limit offset in (map TicketResponse items, limit, offset, total))"

definition api_get_ticket_detail :: "uuid \<Rightarrow> uuid \<Rightarrow> db \<Rightarrow>
    ticket_exn api_exn + ticket_response \<times> message_response list" where
  "api_get_ticket_detail org ticket_id s =
     (case get_ticket_detail org ticket_id s of
        Inl TicketNotFoundError \<Rightarrow> Inl (http_error 404 ''Ticket not found'')
      | Inl e \<Rightarrow> Inl (Unhandled e)
      | Inr (t, xs) \<Rightarrow> Inr (TicketResponse t, map TicketMessageResponse xs))"

definition append_ticket_message :: "instant \<Rightarrow> db_fault \<Rightarrow> uuid \<Rightarrow> uuid \<Rightarrow> uuid \<Rightarrow> uuid \<Rightarrow> ustr \<Rightarrow> uuid \<Rightarrow> db \<Rightarrow>
    message_response ticket_api" where
  "append_ticket_message now fault mid eid org ticket_id body user_id s =
     (case append_agent_message now fault mid eid org ticket_id body user_id s of
        (Inl TicketNotFoundError, s') \<Rightarrow> (Inl (http_error 404 ''Ticket not found''), s')
      | (Inl TicketPersistenceError, s') \<Rightarrow> (Inl (http_error 409 ''Ticket message could not be created''), s')
      | (Inl e, s') \<Rightarrow> (Inl (Unhandled e), s')
      | (Inr x, s') \<Rightarrow> (Inr (TicketMessageResponse x), s'))"

definition update_ticket_status :: "tx \<Rightarrow> uuid \<Rightarrow> uuid \<Rightarrow> ticket_status \<Rightarrow> uuid \<Rightarrow> db \<Rightarrow> ticket_response ticket_api" where
  "update_ticket_status t org ticket_id status user_id s =
     (case transition_ticket t org ticket_id status user_id s of
        (Inl TicketNotFoundError, s') \<Rightarrow> (Inl (http_error 404 ''Ticket not found''), s')
      | (Inl (InvalidTicketTransitionError current requested), s') \<Rightarrow>
          (Inl (Http \<lparr>he_status = 409,
             he_detail = Coded ''invalid_ticket_transition''
               ''The requested ticket status transition is not allowed''
               (Some (JObj [(''current_status'', JStr (ticket_status_value current)),
                            (''requested_status'', JStr (ticket_status_value requested))])),
             he_headers = []\<rparr>), s')
      | (Inl TicketPersistenceError, s') \<Rightarrow> (Inl (http_error 409 ''Ticket status could not be updated''), s')
      | (Inl e, s') \<Rightarrow> (Inl (Unhandled e), s')
      | (Inr x, s') \<Rightarrow> (Inr (TicketResponse x), s'))"

interpretation ticket_pages: paged_listing list_tickets visible_tickets
  by unfold_locales (simp_all add: list_tickets_def visible_tickets_def limit_offset_def order_by_desc_def)

subsection \<open>Rows of a ticket\<close>

text \<open>
  Messages and classification operations refer to tickets by organization, identifier and customer;
  they stay valid under any change of the ticket table that keeps those references.
\<close>

definition keeps_tickets :: "ticket list \<Rightarrow> ticket list \<Rightarrow> bool" where
  "keeps_tickets ts ts' \<longleftrightarrow> (\<forall>x \<in> set ts. \<exists>y \<in> set ts'. t_organization_id y = t_organization_id x \<and>
     t_id y = t_id x \<and> t_customer_id y = t_customer_id x)"

lemma keeps_tickets_append [simp]: "keeps_tickets ts (ts @ us)"
  by (auto simp: keeps_tickets_def)

lemma keeps_tickets_status [simp]:
  "keeps_tickets ts (upd_row t_id k (\<lambda>t. t\<lparr>t_status := st, t_updated_at := now\<rparr>) ts)"
  unfolding keeps_tickets_def
proof
  fix x assume x: "x \<in> set ts"
  let ?y = "if t_id x = k then x\<lparr>t_status := st, t_updated_at := now\<rparr> else x"
  have "?y \<in> set (upd_row t_id k (\<lambda>t. t\<lparr>t_status := st, t_updated_at := now\<rparr>) ts)"
    using x unfolding mem_upd_row by blast
  then show "\<exists>y \<in> set (upd_row t_id k (\<lambda>t. t\<lparr>t_status := st, t_updated_at := now\<rparr>) ts).
      t_organization_id y = t_organization_id x \<and> t_id y = t_id x \<and> t_customer_id y = t_customer_id x"
    by (rule bexI [rotated]) simp
qed

lemma keeps_list_ex:
  assumes "keeps_tickets ts ts'"
    and "list_ex (\<lambda>t. P (t_organization_id t) (t_id t) (t_customer_id t)) ts"
  shows "list_ex (\<lambda>t. P (t_organization_id t) (t_id t) (t_customer_id t)) ts'"
  using assms unfolding keeps_tickets_def list_ex_iff by metis

lemma message_ok_keeps:
  assumes "keeps_tickets (tickets s) ts" and "message_ok s r"
  shows "message_ok (s\<lparr>tickets := ts\<rparr>) r"
proof -
  have ref: "list_ex (\<lambda>t. t_organization_id t = oid \<and> t_id t = tid) (tickets s) \<Longrightarrow>
      list_ex (\<lambda>t. t_organization_id t = oid \<and> t_id t = tid) ts" for oid tid
    using keeps_list_ex [OF assms(1), of "\<lambda>a b c. a = oid \<and> b = tid"] .
  have cref: "list_ex (\<lambda>t. t_organization_id t = oid \<and> t_id t = tid \<and> t_customer_id t = Some c) (tickets s) \<Longrightarrow>
      list_ex (\<lambda>t. t_organization_id t = oid \<and> t_id t = tid \<and> t_customer_id t = Some c) ts" for oid tid c
    using keeps_list_ex [OF assms(1), of "\<lambda>a b d. a = oid \<and> b = tid \<and> d = Some c"] .
  show ?thesis using assms(2) ref cref by (auto simp: message_ok_def split: option.splits)
qed

lemma operation_ok_keeps:
  assumes "keeps_tickets (tickets s) ts" and "operation_ok s r"
  shows "operation_ok (s\<lparr>tickets := ts\<rparr>) r"
  using assms(2) keeps_list_ex [OF assms(1), of "\<lambda>a b c. a = op_organization_id r \<and> b = op_ticket_id r"]
  by (simp add: operation_ok_def)

lemma db_ok_tickets:
  \<comment> \<open>replacing the ticket table\<close>
  assumes "db_ok s" and "keeps_tickets (tickets s) ts"
    and "list_all ticket_types ts" and "list_all (ticket_ok s) ts" and "distinct (map t_id ts)"
    and "unique_opt (\<lambda>r. map_option (\<lambda>e. (t_organization_id r, t_source_type r, e)) (t_external_id r)) ts"
  shows "db_ok (s\<lparr>tickets := ts\<rparr>)"
proof -
  have "list_all (message_ok (s\<lparr>tickets := ts\<rparr>)) (ticket_messages s)"
    using assms(1) message_ok_keeps [OF assms(2)] by (simp add: db_ok_defs list_all_iff)
  moreover have "list_all (operation_ok (s\<lparr>tickets := ts\<rparr>)) (classification_operations s)"
    using assms(1) operation_ok_keeps [OF assms(2)] by (simp add: db_ok_defs list_all_iff)
  ultimately show ?thesis using assms(1,3-6) by (simp add: db_ok_defs)
qed

lemma ticket_rows_status [simp]:
  "ticket_ok s (t\<lparr>t_status := st, t_updated_at := now\<rparr>) = ticket_ok s t"
  "ticket_types (t\<lparr>t_status := st, t_updated_at := now\<rparr>) = ticket_types t"
  by (simp_all add: ticket_ok_def ticket_types_def split: option.split)

lemma set_status_db_ok:
  assumes "db_ok s"
  shows "db_ok (set_status now st k s)"
  unfolding set_status_def
proof (rule db_ok_tickets [OF assms keeps_tickets_status])
  let ?f = "\<lambda>t. t\<lparr>t_status := st, t_updated_at := now\<rparr>"
  have "list_all ticket_types (tickets s)" "list_all (ticket_ok s) (tickets s)"
    using assms by (simp_all add: db_ok_defs)
  then show "list_all ticket_types (upd_row t_id k ?f (tickets s))"
      "list_all (ticket_ok s) (upd_row t_id k ?f (tickets s))"
    by (auto simp: list_all_iff mem_upd_row)
  show "distinct (map t_id (upd_row t_id k ?f (tickets s)))"
    using db_ok_ticket_ids [OF assms] by simp
  have same: "map (\<lambda>r. map_option (\<lambda>e. (t_organization_id r, t_source_type r, e)) (t_external_id r))
      (upd_row t_id k ?f (tickets s)) =
      map (\<lambda>r. map_option (\<lambda>e. (t_organization_id r, t_source_type r, e)) (t_external_id r)) (tickets s)"
    by (rule map_upd_row_field) simp
  show "unique_opt (\<lambda>r. map_option (\<lambda>e. (t_organization_id r, t_source_type r, e)) (t_external_id r))
      (upd_row t_id k ?f (tickets s))"
    using assms unfolding unique_opt_def same by (simp add: db_ok_defs unique_opt_def)
qed

lemma db_ok_message_append:
  assumes "db_ok s" and "message_ok s x" and "message_types x" and "tm_id x \<notin> tm_id ` set (ticket_messages s)"
  shows "db_ok (s\<lparr>ticket_messages := ticket_messages s @ [x]\<rparr>)"
  using assms by (simp add: db_ok_defs)

definition external_id_free :: "db \<Rightarrow> ticket \<Rightarrow> bool" where
  \<comment> \<open>no other ticket of the organization and source has the external identifier\<close>
  "external_id_free s t \<longleftrightarrow> (case t_external_id t of None \<Rightarrow> True
     | Some e \<Rightarrow> \<not> list_ex (\<lambda>x. t_organization_id x = t_organization_id t \<and> t_source_type x = t_source_type t \<and>
         t_external_id x = Some e) (tickets s))"

lemma db_ok_ticket_append:
  assumes "db_ok s" and "ticket_ok s t" and "ticket_types t" and "t_id t \<notin> t_id ` set (tickets s)"
    and "external_id_free s t"
  shows "db_ok (s\<lparr>tickets := tickets s @ [t]\<rparr>)"
proof (rule db_ok_tickets [OF assms(1) keeps_tickets_append])
  let ?key = "\<lambda>r. map_option (\<lambda>e. (t_organization_id r, t_source_type r, e)) (t_external_id r)"
  have "unique_opt ?key (tickets s)" using assms(1) by (simp add: db_ok_defs)
  moreover have "?key t \<noteq> None \<Longrightarrow> ?key t \<notin> ?key ` set (tickets s)"
    using assms(5) by (cases "t_external_id t") (force simp: external_id_free_def list_ex_iff map_option_case
        split: option.splits)+
  ultimately show "unique_opt ?key (tickets s @ [t])" by (auto simp: unique_opt_def)
qed (use assms in \<open>simp_all add: db_ok_defs\<close>)

subsection \<open>Creating tickets and messages\<close>

lemma ticket_commit_ok: "db_ok p \<Longrightarrow> ticket_commit NoFault r (Inr p) s = (Inr r, p)"
  by (simp add: ticket_commit_def commit_def db_ok_def)

lemma ticket_commit_cases:
  "ticket_commit fault r pending s = (res, s') \<Longrightarrow> s' = s \<or> (\<exists>p. pending = Inr p \<and> s' = p \<and> db_ok p)"
  by (auto simp: ticket_commit_def split: sum.splits db_error.splits db_fault.splits)

definition trims :: "(ustr \<Rightarrow> ustr) \<Rightarrow> bool" where
  \<comment> \<open>what the schemas rely on: a stripped text has no surrounding blanks\<close>
  "trims trim \<longleftrightarrow> (\<forall>x. pg_trim (trim x) = trim x)"

lemma parsed_request:
  assumes "trims trim" and "parse_ticket_create trim raw = Some rq"
  shows "rq_subject rq = pg_trim (rq_subject rq)" "rq_subject rq \<noteq> []" "length (rq_subject rq) \<le> 300"
    "rq_body rq = pg_trim (rq_body rq)" "rq_body rq \<noteq> []" "on_some (\<lambda>e. length e \<le> 255) (rq_external_id rq)"
  using assms by (auto simp: parse_ticket_create_def TicketSubject_def NonEmptyBody_def string_constraints_def
      trims_def Let_def split: option.splits if_splits)

definition storable_request :: "ticket_create_request \<Rightarrow> bool" where
  \<comment> \<open>no \<open>NUL\<close> in the texts: the one thing the schemas do not check and the columns do\<close>
  "storable_request rq \<longleftrightarrow> text_ok (rq_subject rq) \<and> text_ok (rq_body rq) \<and>
     on_some (\<lambda>e. CHR 0x00 \<notin> set e) (rq_external_id rq)"

definition customer_known :: "uuid \<Rightarrow> ticket_create_request \<Rightarrow> db \<Rightarrow> bool" where
  "customer_known org rq s \<longleftrightarrow> on_some (\<lambda>c. get_customer org c s \<noteq> None) (rq_customer_id rq)"

lemma get_customer_has: "get_customer org c s \<noteq> None \<longleftrightarrow> has_customer s org c"
  by (auto simp: get_customer_def has_customer_def list_ex_iff find_None_iff)

definition ticket_rows :: "instant \<Rightarrow> ticket_ids \<Rightarrow> uuid \<Rightarrow> uuid \<Rightarrow> ticket_create_request \<Rightarrow> db \<Rightarrow> db" where
  \<comment> \<open>the specification of a created ticket: one ticket, its first message and two events\<close>
  "ticket_rows now ids org actor rq s = s\<lparr>tickets := tickets s @ [new_ticket now (k_ticket ids) org rq],
     ticket_messages := ticket_messages s @
       [agent_message now (k_message ids) org (k_ticket ids) AUTHOR_AGENT actor (rq_body rq)],
     audit_events := audit_events s @
       [\<lparr>a_id = k_event1 ids, a_organization_id = org, a_actor_user_id = Some actor,
         a_action = ''ticket.created'', a_resource_type = ''ticket'', a_resource_id = Some (k_ticket ids),
         a_metadata = [(''source_type'', MStr (ticket_source_value (rq_source_type rq)))], a_created_at = now\<rparr>,
        \<lparr>a_id = k_event2 ids, a_organization_id = org, a_actor_user_id = Some actor,
         a_action = ''ticket_message.created'', a_resource_type = ''ticket_message'',
         a_resource_id = Some (k_message ids), a_metadata = [], a_created_at = now\<rparr>]\<rparr>"

lemma source_value_listed [simp]: "ticket_source_value st \<in> set TICKET_SOURCE_TYPES"
  by (cases st) (simp_all add: TICKET_SOURCE_TYPES_def)

lemma status_value_listed [simp]: "ticket_status_value st \<in> set TICKET_STATUSES"
  by (cases st) (simp_all add: TICKET_STATUSES_def)

lemma create_pending:
  "bindE (record_ticket_created now (k_event1 ids) org actor (k_ticket ids) (ticket_source_value (rq_source_type rq))
     (s\<lparr>tickets := tickets s @ [new_ticket now (k_ticket ids) org rq], ticket_messages := ticket_messages s @
        [agent_message now (k_message ids) org (k_ticket ids) AUTHOR_AGENT actor (rq_body rq)]\<rparr>))
     (record_ticket_message_created now (k_event2 ids) org (Some actor) (k_message ids)) =
   Inr (ticket_rows now ids org actor rq s)"
  by (simp add: record_ticket_created_def record_ticket_message_created_def record_event_Inr ticket_rows_def)

lemma create_ticket_unfold:
  "create_ticket now fault ids org rq AUTHOR_AGENT actor s =
     (if customer_known org rq s
      then ticket_commit fault (new_ticket now (k_ticket ids) org rq,
             agent_message now (k_message ids) org (k_ticket ids) AUTHOR_AGENT actor (rq_body rq))
             (Inr (ticket_rows now ids org actor rq s)) s
      else (Inl CustomerNotFoundError, s))"
proof -
  have k: "t_id (new_ticket now (k_ticket ids) org rq) = k_ticket ids"
      "t_source_type (new_ticket now (k_ticket ids) org rq) = rq_source_type rq"
      "tm_id (agent_message now (k_message ids) org (k_ticket ids) AUTHOR_AGENT actor (rq_body rq)) = k_message ids"
    by (simp_all add: new_ticket_def agent_message_def)
  show ?thesis
    unfolding create_ticket_def Let_def k create_pending by (auto simp: customer_known_def split: option.split)
qed

definition fresh_ticket_ids :: "ticket_ids \<Rightarrow> db \<Rightarrow> bool" where
  "fresh_ticket_ids ids s \<longleftrightarrow> k_ticket ids \<notin> t_id ` set (tickets s) \<and>
     k_message ids \<notin> tm_id ` set (ticket_messages s) \<and> k_event1 ids \<noteq> k_event2 ids \<and>
     k_event1 ids \<notin> a_id ` set (audit_events s) \<and> k_event2 ids \<notin> a_id ` set (audit_events s)"

definition acceptable_request :: "(ustr \<Rightarrow> ustr) \<Rightarrow> ticket_create_request \<Rightarrow> ticket_create_request \<Rightarrow> uuid \<Rightarrow> db \<Rightarrow> bool" where
  "acceptable_request trim raw rq org s \<longleftrightarrow> parse_ticket_create trim raw = Some rq \<and> storable_request rq \<and>
     customer_known org rq s \<and> external_id_free s (new_ticket 0 0 org rq)"

lemma new_ticket_rows:
  assumes "trims trim" and "acceptable_request trim raw rq org s" and "has_org s org"
  shows "ticket_ok s (new_ticket now tid org rq)" "ticket_types (new_ticket now tid org rq)"
    "external_id_free s (new_ticket now tid org rq)"
proof -
  have p: "parse_ticket_create trim raw = Some rq" "storable_request rq" "customer_known org rq s"
      "external_id_free s (new_ticket 0 0 org rq)"
    using assms(2) by (simp_all add: acceptable_request_def)
  note pr = parsed_request [OF assms(1) p(1)]
  show "ticket_ok s (new_ticket now tid org rq)"
    using pr(1,2) assms(3) p(3)
    by (auto simp: ticket_ok_def new_ticket_def customer_known_def simp flip: get_customer_has split: option.splits)
  show "ticket_types (new_ticket now tid org rq)"
    using pr(3,6) p(2)
    by (auto simp: ticket_types_def new_ticket_def storable_request_def utext_def vchar_def on_some_def split: option.splits)
  show "external_id_free s (new_ticket now tid org rq)"
    using p(4) by (simp add: external_id_free_def new_ticket_def split: option.splits)
qed

lemma ticket_rows_db_ok:
  assumes ok: "db_ok s" and acc: "trims trim" "acceptable_request trim raw rq org s"
    and member: "has_org s org" "has_member s org actor" and fresh: "fresh_ticket_ids ids s"
  shows "db_ok (ticket_rows now ids org actor rq s)"
proof -
  let ?t = "new_ticket now (k_ticket ids) org rq"
  let ?x = "agent_message now (k_message ids) org (k_ticket ids) AUTHOR_AGENT actor (rq_body rq)"
  let ?s1 = "s\<lparr>tickets := tickets s @ [?t]\<rparr>"
  let ?s2 = "?s1\<lparr>ticket_messages := ticket_messages ?s1 @ [?x]\<rparr>"
  have s1: "db_ok ?s1"
    using db_ok_ticket_append [OF ok] new_ticket_rows [OF acc member(1)] fresh
    by (simp add: fresh_ticket_ids_def new_ticket_def)
  have body: "rq_body rq = pg_trim (rq_body rq)" "rq_body rq \<noteq> []" "text_ok (rq_body rq)"
    using parsed_request(4,5) [OF acc(1)] acc(2) by (auto simp: acceptable_request_def storable_request_def)
  have "message_ok ?s1 ?x"
    using body(1,2) member by (simp add: message_ok_def agent_message_def valid_author_identity_def new_ticket_def)
  then have s2: "db_ok ?s2"
    using db_ok_message_append [OF s1, of ?x] body(3) fresh
    by (simp add: fresh_ticket_ids_def message_types_def agent_message_def)
  obtain s3 where s3: "record_ticket_created now (k_event1 ids) org actor (k_ticket ids)
      (ticket_source_value (rq_source_type rq)) ?s2 = Inr s3"
    by (simp add: record_ticket_created_def record_event_Inr)
  have ok3: "db_ok s3"
    using record_event_db_ok [OF s2, of org "k_event1 ids" "Some actor"] s3 member fresh
    by (simp add: record_ticket_created_def fresh_ticket_ids_def)
  have s4: "record_ticket_message_created now (k_event2 ids) org (Some actor) (k_message ids) s3 =
      Inr (ticket_rows now ids org actor rq s)"
    using create_pending [of now ids org actor rq s] s3 by simp
  have "has_org s3 org" "k_event2 ids \<notin> a_id ` set (audit_events s3)" "has_member s3 org actor"
    using s3 member fresh by (auto simp: record_ticket_created_def record_event_Inr fresh_ticket_ids_def)
  then show ?thesis
    using record_event_db_ok [OF ok3 _ _ _ s4 [unfolded record_ticket_message_created_def]] by simp
qed

lemma message_has_ticket:
  "db_ok s \<Longrightarrow> x \<in> set (ticket_messages s) \<Longrightarrow> tm_ticket_id x \<in> t_id ` set (tickets s)"
proof -
  assume "db_ok s" and "x \<in> set (ticket_messages s)"
  then have "message_ok s x" by (auto simp: db_ok_defs list_all_iff)
  then show ?thesis unfolding message_ok_def list_ex_iff by (metis imageI)
qed

lemma created_detail:
  assumes "db_ok s" and "fresh_ticket_ids ids s"
  shows "get_ticket_detail org (k_ticket ids) (ticket_rows now ids org actor rq s) =
    Inr (new_ticket now (k_ticket ids) org rq,
      [agent_message now (k_message ids) org (k_ticket ids) AUTHOR_AGENT actor (rq_body rq)])"
proof -
  have new: "find (\<lambda>t. t_organization_id t = org \<and> t_id t = k_ticket ids) (tickets s) = None"
    using assms(2) unfolding find_None_iff fresh_ticket_ids_def by (metis imageI)
  have "\<forall>x \<in> set (ticket_messages s). tm_ticket_id x \<noteq> k_ticket ids"
    using message_has_ticket [OF assms(1)] assms(2) unfolding fresh_ticket_ids_def by metis
  then have none: "filter (\<lambda>x. tm_organization_id x = org \<and> tm_ticket_id x = k_ticket ids) (ticket_messages s) = []"
    by (auto simp: filter_empty_conv)
  have "get_ticket org (k_ticket ids) (ticket_rows now ids org actor rq s) = Some (new_ticket now (k_ticket ids) org rq)"
    using new by (simp add: get_ticket_def ticket_rows_def find_append new_ticket_def)
  moreover have "list_ticket_messages org (k_ticket ids) (ticket_rows now ids org actor rq s) =
      [agent_message now (k_message ids) org (k_ticket ids) AUTHOR_AGENT actor (rq_body rq)]"
    by (simp add: list_ticket_messages_def ticket_rows_def none agent_message_def order_by_def)
  ultimately show ?thesis by (simp add: get_ticket_detail_def)
qed

text \<open>
  C22. A request that passes the schemas, with texts the columns can hold, a customer of the
  organization or none, and an unused external identifier, always creates its ticket: the response is
  the new open ticket with its first message, the database gains exactly the ticket, the message and
  their two audit events and still satisfies every constraint, and the detail view of the
  organization shows the ticket with just that message.
\<close>

theorem ticket_created:
  assumes "db_ok s" and "trims trim" and "acceptable_request trim raw rq org s"
    and "has_org s org" and "has_member s org actor" and "fresh_ticket_ids ids s"
  shows "api_create_ticket now NoFault ids org actor rq s =
      (Inr (TicketResponse (new_ticket now (k_ticket ids) org rq), TicketMessageResponse
         (agent_message now (k_message ids) org (k_ticket ids) AUTHOR_AGENT actor (rq_body rq))),
       ticket_rows now ids org actor rq s) \<and>
    db_ok (ticket_rows now ids org actor rq s) \<and>
    get_ticket_detail org (k_ticket ids) (ticket_rows now ids org actor rq s) =
      Inr (new_ticket now (k_ticket ids) org rq,
        [agent_message now (k_message ids) org (k_ticket ids) AUTHOR_AGENT actor (rq_body rq)])"
proof -
  note ok = ticket_rows_db_ok [OF assms]
  have "customer_known org rq s" using assms(3) by (simp add: acceptable_request_def)
  then show ?thesis using ok created_detail [OF assms(1,6)]
    by (simp add: api_create_ticket_def create_ticket_unfold ticket_commit_ok)
qed

definition sample_request :: ticket_create_request where
  "sample_request = \<lparr>rq_subject = u ''Login'', rq_customer_id = Some 30, rq_source_type = API,
     rq_external_id = Some ''x-1'', rq_body = u ''Cannot sign in''\<rparr>"

definition sample_ticket_ids :: ticket_ids where
  "sample_ticket_ids = \<lparr>k_ticket = 40, k_message = 41, k_event1 = 42, k_event2 = 43\<rparr>"

lemma trims_pg_trim: "trims pg_trim"
  by (simp add: trims_def pg_trim_def)

lemma sample_request_acceptable: "acceptable_request pg_trim sample_request sample_request 1 sample_db"
  by (simp add: acceptable_request_def parse_ticket_create_def sample_request_def TicketSubject_def NonEmptyBody_def
      string_constraints_def pg_trim_def strip_by_def u_def storable_request_def text_ok_def customer_known_def
      get_customer_def external_id_free_def new_ticket_def sample_db_def empty_db_def)

lemma sample_ids_fresh: "fresh_ticket_ids sample_ticket_ids sample_db"
  by (simp add: fresh_ticket_ids_def sample_ticket_ids_def)

theorem ticket_created_witness:
  "\<exists>s'. api_create_ticket 7 NoFault sample_ticket_ids 1 11 sample_request sample_db =
      (Inr (TicketResponse (new_ticket 7 40 1 sample_request), TicketMessageResponse
         (agent_message 7 41 1 40 AUTHOR_AGENT 11 (u ''Cannot sign in''))), s') \<and> db_ok s'"
proof -
  have k: "k_ticket sample_ticket_ids = 40" "k_message sample_ticket_ids = 41" "rq_body sample_request = u ''Cannot sign in''"
    by (simp_all add: sample_ticket_ids_def sample_request_def)
  from ticket_created [OF sample_db_ok trims_pg_trim sample_request_acceptable _ _ sample_ids_fresh, of 11 7]
  show ?thesis unfolding k using sample_members by blast
qed

subsection \<open>The life of a ticket\<close>

fun status_rank :: "ticket_status \<Rightarrow> nat" where
  "status_rank OPEN = 0"
| "status_rank PROCESSING = 1"
| "status_rank WAITING_FOR_AGENT = 2"
| "status_rank RESOLVED = 3"
| "status_rank CLOSED = 4"

lemma allowed_transition_rank: "allowed_transition a = Some b \<longleftrightarrow> status_rank b = Suc (status_rank a)"
  by (cases a; cases b) simp_all

lemma status_rank_le: "status_rank st \<le> 4"
  by (cases st) simp_all

definition status_event :: "instant \<Rightarrow> uuid \<Rightarrow> uuid \<Rightarrow> uuid \<Rightarrow> uuid \<Rightarrow> ticket_status \<Rightarrow> ticket_status \<Rightarrow> audit_event" where
  "status_event now eid org actor ticket_id a b = \<lparr>a_id = eid, a_organization_id = org,
     a_actor_user_id = Some actor, a_action = ''ticket.status_changed'', a_resource_type = ''ticket'',
     a_resource_id = Some ticket_id, a_metadata = [(''previous_status'', MStr (ticket_status_value a)),
       (''new_status'', MStr (ticket_status_value b))], a_created_at = now\<rparr>"

lemma record_status_Inr:
  "record_ticket_status_changed now eid org actor ticket_id (ticket_status_value a) (ticket_status_value b) s =
     Inr (s\<lparr>audit_events := audit_events s @ [status_event now eid org actor ticket_id a b]\<rparr>)"
  by (simp add: record_ticket_status_changed_def record_event_Inr status_event_def)

definition status_changes :: "uuid \<Rightarrow> db \<Rightarrow> nat" where
  "status_changes ticket_id s = length (filter (\<lambda>e. a_action e = ''ticket.status_changed'' \<and>
     a_resource_id e = Some ticket_id) (audit_events s))"

definition history_inv :: "db \<Rightarrow> bool" where
  \<comment> \<open>the audit trail counts the steps of every ticket and names only tickets that exist\<close>
  "history_inv s \<longleftrightarrow> (\<forall>t \<in> set (tickets s). status_changes (t_id t) s = status_rank (t_status t)) \<and>
     (\<forall>e \<in> set (audit_events s). a_action e = ''ticket.status_changed'' \<longrightarrow>
        a_resource_id e \<in> Some ` t_id ` set (tickets s))"

inductive ticket_step :: "db \<Rightarrow> db \<Rightarrow> bool" where
  step_create: "ticket_step s (snd (create_ticket now fault ids org rq author actor s))"
| step_append: "ticket_step s (snd (append_agent_message now fault mid eid org tid body actor s))"
| step_transition: "tx_others t s = s \<Longrightarrow> ticket_step s (snd (transition_ticket t org tid st actor s))"
  \<comment> \<open>no other session writes between the unlocked read and the commit\<close>

definition keeps_history :: "db \<Rightarrow> db \<Rightarrow> bool" where
  "keeps_history s s' \<longleftrightarrow> (\<forall>t \<in> set (tickets s). \<exists>t' \<in> set (tickets s').
     t_id t' = t_id t \<and> t_organization_id t' = t_organization_id t \<and>
     status_rank (t_status t) \<le> status_rank (t_status t'))"

lemma keeps_history_refl [simp]: "keeps_history s s"
  by (auto simp: keeps_history_def)

lemma keeps_history_trans:
  assumes "keeps_history s s'" and "keeps_history s' s''"
  shows "keeps_history s s''"
  unfolding keeps_history_def
proof
  fix t assume "t \<in> set (tickets s)"
  with assms(1) obtain t' where t': "t' \<in> set (tickets s')" "t_id t' = t_id t"
      "t_organization_id t' = t_organization_id t" "status_rank (t_status t) \<le> status_rank (t_status t')"
    unfolding keeps_history_def by blast
  with assms(2) obtain t'' where "t'' \<in> set (tickets s'')" "t_id t'' = t_id t'"
      "t_organization_id t'' = t_organization_id t'" "status_rank (t_status t') \<le> status_rank (t_status t'')"
    unfolding keeps_history_def by blast
  with t' show "\<exists>x \<in> set (tickets s''). t_id x = t_id t \<and> t_organization_id x = t_organization_id t \<and>
      status_rank (t_status t) \<le> status_rank (t_status x)" by (intro bexI [of _ t'']) auto
qed

lemma history_new_rows:
  \<comment> \<open>rows and events that are not status changes\<close>
  assumes "history_inv s" and "tickets s' = tickets s @ ts" and "audit_events s' = audit_events s @ es"
    and "db_ok s'" and "\<forall>t \<in> set ts. t_status t = OPEN" and "\<forall>e \<in> set es. a_action e \<noteq> ''ticket.status_changed''"
  shows "history_inv s' \<and> keeps_history s s'"
proof -
  have count: "status_changes tid s' = status_changes tid s" for tid
    using assms(3,6) by (auto simp: status_changes_def filter_empty_conv)
  have "status_changes (t_id t) s = 0" if t: "t \<in> set ts" for t
  proof -
    have "t_id t \<notin> t_id ` set (tickets s)"
      using db_ok_ticket_ids [OF assms(4)] t assms(2) by (auto simp: image_iff)
    then have new: "Some (t_id t) \<notin> Some ` t_id ` set (tickets s)" by blast
    have "\<forall>e \<in> set (audit_events s). \<not> (a_action e = ''ticket.status_changed'' \<and> a_resource_id e = Some (t_id t))"
    proof (intro ballI notI)
      fix e assume "e \<in> set (audit_events s)"
        and "a_action e = ''ticket.status_changed'' \<and> a_resource_id e = Some (t_id t)"
      then have "Some (t_id t) \<in> Some ` t_id ` set (tickets s)"
        using assms(1) unfolding history_inv_def by metis
      with new show False ..
    qed
    then show ?thesis by (simp add: status_changes_def filter_empty_conv)
  qed
  then have "\<forall>t \<in> set (tickets s'). status_changes (t_id t) s' = status_rank (t_status t)"
    using assms(1,2,5) count by (auto simp: history_inv_def)
  moreover have "\<forall>e \<in> set (audit_events s'). a_action e = ''ticket.status_changed'' \<longrightarrow>
        a_resource_id e \<in> Some ` t_id ` set (tickets s')"
    using assms(1,2,3,6) by (auto simp: history_inv_def)
  ultimately have "history_inv s'" by (simp add: history_inv_def)
  moreover have "keeps_history s s'" using assms(2) by (auto simp: keeps_history_def)
  ultimately show ?thesis ..
qed

definition transitioned :: "tx \<Rightarrow> uuid \<Rightarrow> uuid \<Rightarrow> uuid \<Rightarrow> ticket_status \<Rightarrow> ticket_status \<Rightarrow> db \<Rightarrow> db" where
  "transitioned t org tid actor a b s = (set_status (tx_now t) b tid s)\<lparr>audit_events := audit_events s @
     [status_event (tx_now t) (tx_event t) org actor tid a b]\<rparr>"

lemma transition_ticket_unfold:
  "transition_ticket t org tid st actor s =
     (case get_ticket org tid s of None \<Rightarrow> (Inl TicketNotFoundError, s)
      | Some tk \<Rightarrow> if allowed_transition (t_status tk) = Some st
          then ticket_commit (tx_fault t) (tk\<lparr>t_status := st, t_updated_at := tx_now t\<rparr>)
                 (Inr (transitioned t org tid actor (t_status tk) st (tx_others t s))) (tx_others t s)
          else (Inl (InvalidTicketTransitionError (t_status tk) st), s))"
  by (simp add: transition_ticket_def Let_def record_status_Inr transitioned_def set_status_def split: option.split)

lemma get_ticket_SomeD: "get_ticket org tid s = Some tk \<Longrightarrow> tk \<in> set (tickets s) \<and> t_organization_id tk = org \<and> t_id tk = tid"
  unfolding get_ticket_def by (drule find_SomeD) simp

lemma history_transition:
  assumes inv: "history_inv s" and ids: "db_ok s" and tk: "get_ticket org tid s = Some tk"
    and step: "allowed_transition (t_status tk) = Some st"
  shows "history_inv (transitioned t org tid actor (t_status tk) st s) \<and>
    keeps_history s (transitioned t org tid actor (t_status tk) st s)"
proof -
  let ?s = "transitioned t org tid actor (t_status tk) st s"
  let ?f = "\<lambda>x. x\<lparr>t_status := st, t_updated_at := tx_now t\<rparr>"
  have rows: "tickets ?s = upd_row t_id tid ?f (tickets s)"
    by (simp add: transitioned_def set_status_def)
  have evs: "audit_events ?s = audit_events s @ [status_event (tx_now t) (tx_event t) org actor tid (t_status tk) st]"
    by (simp add: transitioned_def)
  have count: "status_changes k ?s = (if k = tid then Suc (status_changes k s) else status_changes k s)" for k
    by (simp add: status_changes_def evs status_event_def)
  have only: "x = tk" if "x \<in> set (tickets s)" "t_id x = tid" for x
    using distinct_key_unique [OF db_ok_ticket_ids [OF ids] that(1)] get_ticket_SomeD [OF tk] that(2) by simp
  have rank: "status_rank st = Suc (status_rank (t_status tk))" using step by (simp add: allowed_transition_rank)
  have "status_changes (t_id y) ?s = status_rank (t_status y)" if y: "y \<in> set (tickets ?s)" for y
  proof -
    from y obtain x where x: "x \<in> set (tickets s)" "y = (if t_id x = tid then ?f x else x)"
      unfolding rows mem_upd_row by blast
    then have "status_changes (t_id x) s = status_rank (t_status x)" using inv by (simp add: history_inv_def)
    then show ?thesis using x only rank count by (cases "t_id x = tid") auto
  qed
  moreover have "t_id ` set (tickets ?s) = t_id ` set (tickets s)"
  proof -
    have "map t_id (tickets ?s) = map t_id (tickets s)" unfolding rows by simp
    then show ?thesis by (metis set_map)
  qed
  moreover have "tid \<in> t_id ` set (tickets s)" using get_ticket_SomeD [OF tk] by blast
  ultimately have "history_inv ?s"
    using inv by (simp add: history_inv_def evs status_event_def)
  moreover have "keeps_history s ?s"
    unfolding keeps_history_def
  proof
    fix x assume x: "x \<in> set (tickets s)"
    let ?y = "if t_id x = tid then ?f x else x"
    have "?y \<in> set (tickets ?s)" unfolding rows mem_upd_row using x by blast
    moreover have "t_id ?y = t_id x \<and> t_organization_id ?y = t_organization_id x \<and>
        status_rank (t_status x) \<le> status_rank (t_status ?y)" using only [OF x] rank by auto
    ultimately show "\<exists>y \<in> set (tickets ?s). t_id y = t_id x \<and> t_organization_id y = t_organization_id x \<and>
        status_rank (t_status x) \<le> status_rank (t_status y)" by blast
  qed
  ultimately show ?thesis ..
qed

lemma history_same: "history_inv s \<Longrightarrow> db_ok s \<Longrightarrow> s' = s \<Longrightarrow> db_ok s' \<and> history_inv s' \<and> keeps_history s s'"
  by simp

lemma history_create:
  assumes "db_ok s" and "history_inv s" and "create_ticket now fault ids org rq author actor s = (res, s')"
  shows "db_ok s' \<and> history_inv s' \<and> keeps_history s s'"
proof (cases "author = AUTHOR_AGENT")
  case True
  with assms(3) have "s' = s \<or> (s' = ticket_rows now ids org actor rq s \<and> db_ok s')"
    by (auto simp: create_ticket_unfold dest: ticket_commit_cases split: if_splits)
  moreover have ?thesis if "s' = ticket_rows now ids org actor rq s" "db_ok s'"
  proof -
    have "history_inv s' \<and> keeps_history s s'"
      by (rule history_new_rows [OF assms(2) _ _ that(2)]) (simp add: that(1) ticket_rows_def,
        simp add: that(1) ticket_rows_def, simp add: new_ticket_def, simp)
    with that(2) show ?thesis by simp
  qed
  ultimately show ?thesis using history_same assms(1,2) by blast
next
  case False
  with assms show ?thesis by (auto simp: create_ticket_def split: if_splits option.splits)
qed

lemma append_pending:
  "record_ticket_message_created now eid org actor mid s = Inr (s\<lparr>audit_events := audit_events s @
     [\<lparr>a_id = eid, a_organization_id = org, a_actor_user_id = actor, a_action = ''ticket_message.created'',
       a_resource_type = ''ticket_message'', a_resource_id = Some mid, a_metadata = [], a_created_at = now\<rparr>]\<rparr>)"
  by (simp add: record_ticket_message_created_def record_event_Inr)

lemma history_append:
  assumes "db_ok s" and "history_inv s" and "append_agent_message now fault mid eid org tid body actor s = (res, s')"
  shows "db_ok s' \<and> history_inv s' \<and> keeps_history s s'"
proof -
  let ?x = "agent_message now mid org tid AUTHOR_AGENT actor body"
  let ?p = "s\<lparr>ticket_messages := ticket_messages s @ [?x], audit_events := audit_events s @
     [\<lparr>a_id = eid, a_organization_id = org, a_actor_user_id = Some actor, a_action = ''ticket_message.created'',
       a_resource_type = ''ticket_message'', a_resource_id = Some (tm_id ?x), a_metadata = [], a_created_at = now\<rparr>]\<rparr>"
  have "s' = s \<or> (s' = ?p \<and> db_ok s')"
    using assms(3) by (auto simp: append_agent_message_def append_pending Let_def dest: ticket_commit_cases split: if_splits)
  moreover have ?thesis if "s' = ?p" "db_ok s'"
  proof -
    have "history_inv s' \<and> keeps_history s s'"
      by (rule history_new_rows [OF assms(2) _ _ that(2), of "[]"]) (simp add: that(1), simp add: that(1), simp, simp)
    with that(2) show ?thesis by simp
  qed
  ultimately show ?thesis using history_same assms(1,2) by blast
qed

lemma history_status:
  assumes "db_ok s" and "history_inv s" and "tx_others t s = s" and "transition_ticket t org tid st actor s = (res, s')"
  shows "db_ok s' \<and> history_inv s' \<and> keeps_history s s'"
proof (cases "get_ticket org tid s")
  case None
  with assms(1,2,4) show ?thesis by (simp add: transition_ticket_unfold)
next
  case (Some tk)
  show ?thesis
  proof (cases "allowed_transition (t_status tk) = Some st")
    case True
    with Some assms(3,4) have "s' = s \<or> (s' = transitioned t org tid actor (t_status tk) st s \<and> db_ok s')"
      by (auto simp: transition_ticket_unfold dest: ticket_commit_cases)
    then show ?thesis using history_transition [OF assms(2,1) Some True, of t actor] assms(1,2) by auto
  next
    case False
    with Some assms(1,2,4) show ?thesis by (auto simp: transition_ticket_unfold)
  qed
qed

lemma ticket_step_history:
  assumes "ticket_step s s'" and "db_ok s" and "history_inv s"
  shows "db_ok s' \<and> history_inv s' \<and> keeps_history s s'"
  using assms(1)
proof cases
  case (step_create now fault ids org rq author actor)
  then show ?thesis using history_create [OF assms(2,3)] by (metis prod.collapse)
next
  case (step_append now fault mid eid org tid body actor)
  then show ?thesis using history_append [OF assms(2,3)] by (metis prod.collapse)
next
  case (step_transition t org tid st actor)
  then show ?thesis using history_status [OF assms(2,3)] by (metis prod.collapse)
qed

lemma ticket_steps_history:
  assumes "ticket_step\<^sup>*\<^sup>* s s'" and "db_ok s" and "history_inv s"
  shows "db_ok s' \<and> history_inv s' \<and> keeps_history s s'"
  using assms(1)
proof (induction rule: rtranclp_induct)
  case base
  with assms show ?case by simp
next
  case (step s1 s2)
  then show ?case using ticket_step_history keeps_history_trans by blast
qed

text \<open>
  C21. The audit trail of a ticket tells its status. Through any sequence of ticket creations, messages
  and status requests, each of which may be refused, fault or lose its acknowledgement, but in which
  no session writes between another's read and commit: the number of recorded status changes of every
  ticket is the rank of its status, so a ticket changes status at most four times; no ticket
  disappears, changes its organization or moves backwards; and the constraints hold.
\<close>

theorem ticket_history_faithful:
  assumes "ticket_step\<^sup>*\<^sup>* s s'" and "db_ok s" and "history_inv s"
  shows "db_ok s' \<and>
    (\<forall>t \<in> set (tickets s'). status_changes (t_id t) s' = status_rank (t_status t) \<and> status_changes (t_id t) s' \<le> 4) \<and>
    (\<forall>t \<in> set (tickets s). \<exists>t' \<in> set (tickets s'). t_id t' = t_id t \<and>
       t_organization_id t' = t_organization_id t \<and> status_rank (t_status t) \<le> status_rank (t_status t'))"
  using ticket_steps_history [OF assms] status_rank_le by (auto simp: history_inv_def keeps_history_def)

definition quiet_tx :: "instant \<Rightarrow> uuid \<Rightarrow> tx" where
  "quiet_tx now eid = \<lparr>tx_now = now, tx_event = eid, tx_fault = NoFault, tx_others = (\<lambda>s. s)\<rparr>"

lemma quiet_tx_simps [simp]: "tx_now (quiet_tx n e) = n" "tx_event (quiet_tx n e) = e"
    "tx_fault (quiet_tx n e) = NoFault" "tx_others (quiet_tx n e) s = s"
  by (simp_all add: quiet_tx_def)

definition sample_ticket_db :: db where
  "sample_ticket_db = ticket_rows 7 sample_ticket_ids 1 11 sample_request sample_db"

lemma sample_ticket_db_ok: "db_ok sample_ticket_db"
  unfolding sample_ticket_db_def
  by (rule ticket_rows_db_ok [OF sample_db_ok trims_pg_trim sample_request_acceptable sample_members(4,2) sample_ids_fresh])

lemma sample_ticket_facts [simp]: "tickets sample_ticket_db = [new_ticket 7 40 1 sample_request]"
    "a_id ` set (audit_events sample_ticket_db) = {42, 43}" "has_org sample_ticket_db 1" "has_member sample_ticket_db 1 11"
    "has_member sample_ticket_db 1 10"
    "get_ticket 1 40 sample_ticket_db = Some (new_ticket 7 40 1 sample_request)" 
    "t_status (new_ticket 7 40 1 sample_request) = OPEN"
  using sample_members
  by (simp_all add: sample_ticket_db_def ticket_rows_def sample_ticket_ids_def get_ticket_def new_ticket_def)

lemma sample_ticket_history: "history_inv sample_ticket_db"
  by (simp add: history_inv_def status_changes_def sample_ticket_db_def ticket_rows_def new_ticket_def)

theorem ticket_history_faithful_witness:
  "\<exists>t. t \<in> set (tickets (snd (transition_ticket (quiet_tx 8 50) 1 40 PROCESSING 11 sample_ticket_db))) \<and> t_id t = 40 \<and>
     status_changes 40 (snd (transition_ticket (quiet_tx 8 50) 1 40 PROCESSING 11 sample_ticket_db)) =
       status_rank (t_status t)"
proof -
  let ?s = "snd (transition_ticket (quiet_tx 8 50) 1 40 PROCESSING 11 sample_ticket_db)"
  have "ticket_step\<^sup>*\<^sup>* sample_ticket_db ?s"
    by (intro r_into_rtranclp step_transition) simp
  from ticket_history_faithful [OF this sample_ticket_db_ok sample_ticket_history]
  have run: "\<forall>t \<in> set (tickets ?s). status_changes (t_id t) ?s = status_rank (t_status t)"
      "\<forall>t \<in> set (tickets sample_ticket_db). \<exists>t' \<in> set (tickets ?s). t_id t' = t_id t" by blast+
  have "t_id (new_ticket 7 40 1 sample_request) = 40" by (simp add: new_ticket_def)
  with run(2) obtain t' where "t' \<in> set (tickets ?s)" "t_id t' = 40" by auto
  with run(1) show ?thesis by metis
qed

lemma transitioned_db_ok:
  assumes "db_ok s" and "has_org s org" and "has_member s org actor" and "tx_event t \<notin> a_id ` set (audit_events s)"
  shows "db_ok (transitioned t org tid actor a b s)"
proof -
  let ?s = "set_status (tx_now t) b tid s"
  have frame: "has_org ?s org" "has_member ?s org actor" "audit_events ?s = audit_events s"
    using assms(2,3) by (simp_all add: set_status_def)
  have "record_event (tx_now t) (tx_event t) org TICKET_STATUS_CHANGED (Some actor) TICKET (Some tid)
      [(''previous_status'', MStr (ticket_status_value a)), (''new_status'', MStr (ticket_status_value b))] ?s =
      Inr (transitioned t org tid actor a b s)"
    by (simp add: record_event_Inr transitioned_def status_event_def frame(3))
  from record_event_db_ok [OF set_status_db_ok [OF assms(1)] frame(1) _ _ this] show ?thesis
    using frame assms(4) by simp
qed

lemma transition_commits:
  assumes "get_ticket org tid s = Some tk" and "allowed_transition (t_status tk) = Some st" and "tx_fault t = NoFault"
    and "db_ok (tx_others t s)" and "has_org (tx_others t s) org" and "has_member (tx_others t s) org actor"
    and "tx_event t \<notin> a_id ` set (audit_events (tx_others t s))"
  shows "transition_ticket t org tid st actor s = (Inr (tk\<lparr>t_status := st, t_updated_at := tx_now t\<rparr>),
    transitioned t org tid actor (t_status tk) st (tx_others t s))"
  using assms transitioned_db_ok [OF assms(4-7)] by (simp add: transition_ticket_unfold ticket_commit_ok)

lemma get_ticket_transitioned:
  "get_ticket org tid (transitioned t org tid actor a b s) =
     map_option (\<lambda>x. x\<lparr>t_status := b, t_updated_at := tx_now t\<rparr>) (get_ticket org tid s)"
proof -
  have "find (\<lambda>x. t_organization_id x = org \<and> t_id x = tid) (upd_row t_id tid (\<lambda>x. x\<lparr>t_status := b, t_updated_at := n\<rparr>) ts) =
    map_option (\<lambda>x. x\<lparr>t_status := b, t_updated_at := n\<rparr>) (find (\<lambda>x. t_organization_id x = org \<and> t_id x = tid) ts)" for ts n
    by (induction ts) (auto simp: upd_row_def)
  then show ?thesis by (simp add: get_ticket_def transitioned_def set_status_def)
qed

text \<open>
  A status request, when no other session interferes, does exactly what the transition graph says:
  it answers 404 for a ticket the organization does not have, 409 for a status that is not the next
  one, both without any change, and otherwise stores the new status, records one event with the old
  and new status and returns the stored ticket, leaving every constraint intact.
\<close>

lemma status_request_outcome:
  assumes "db_ok s" and "tx_others t s = s" and "tx_fault t = NoFault" and "has_org s org" and "has_member s org actor"
    and "tx_event t \<notin> a_id ` set (audit_events s)"
  shows "case get_ticket org tid s of
      None \<Rightarrow> (\<exists>e. update_ticket_status t org tid st actor s = (Inl e, s) \<and> api_status e = 404)
    | Some tk \<Rightarrow>
        if status_rank st = Suc (status_rank (t_status tk))
        then \<exists>tk'. update_ticket_status t org tid st actor s =
            (Inr (TicketResponse tk'), transitioned t org tid actor (t_status tk) st s) \<and>
          t_status tk' = st \<and> db_ok (transitioned t org tid actor (t_status tk) st s) \<and>
          get_ticket org tid (transitioned t org tid actor (t_status tk) st s) = Some tk'
        else \<exists>e. update_ticket_status t org tid st actor s = (Inl e, s) \<and> api_status e = 409"
proof (cases "get_ticket org tid s")
  case None
  then show ?thesis by (simp add: update_ticket_status_def transition_ticket_unfold)
next
  case (Some tk)
  show ?thesis
  proof (cases "allowed_transition (t_status tk) = Some st")
    case True
    note run = transition_commits [OF Some True assms(3), unfolded assms(2), OF assms(1,4-6)]
    from True have "status_rank st = Suc (status_rank (t_status tk))" by (simp only: allowed_transition_rank)
    with Some run transitioned_db_ok [OF assms(1,4-6)] show ?thesis
      by (auto simp: update_ticket_status_def get_ticket_transitioned)
  next
    case False
    then have "status_rank st \<noteq> Suc (status_rank (t_status tk))" by (simp add: allowed_transition_rank)
    with Some False show ?thesis by (auto simp: update_ticket_status_def transition_ticket_unfold)
  qed
qed

lemma status_request_outcome_example:
  "\<exists>tk s'. update_ticket_status (quiet_tx 8 50) 1 40 PROCESSING 11 sample_ticket_db = (Inr (TicketResponse tk), s') \<and>
     t_status tk = PROCESSING"
  using status_request_outcome [OF sample_ticket_db_ok _ _ sample_ticket_facts(3,4), of "quiet_tx 8 50" 40 PROCESSING]
  by (auto simp del: One_nat_def)

text \<open>
  C38. Status requests are not serialised: \<open>transition_ticket\<close> checks the status it read without a lock.
  Whatever other sessions made of the ticket before the commit, the request succeeds, records the
  change from the status it had read, and overwrites the current status with its own.
\<close>

theorem unlocked_transition_overwrites:
  assumes "get_ticket org tid s = Some tk" and "status_rank st = Suc (status_rank (t_status tk))"
    and "get_ticket org tid (tx_others t s) = Some now_tk" and "tx_fault t = NoFault" and "db_ok (tx_others t s)"
    and "has_org (tx_others t s) org" and "has_member (tx_others t s) org actor"
    and "tx_event t \<notin> a_id ` set (audit_events (tx_others t s))"
  shows "\<exists>r s'. update_ticket_status t org tid st actor s = (Inr r, s') \<and>
    get_ticket org tid s' = Some (now_tk\<lparr>t_status := st, t_updated_at := tx_now t\<rparr>) \<and>
    status_event (tx_now t) (tx_event t) org actor tid (t_status tk) st \<in> set (audit_events s')"
proof -
  have "allowed_transition (t_status tk) = Some st" using assms(2) by (simp add: allowed_transition_rank)
  from transition_commits [OF assms(1) this assms(4-8)] assms(3) show ?thesis
    by (auto simp: update_ticket_status_def get_ticket_transitioned) (simp add: transitioned_def)
qed

definition two_steps :: "db \<Rightarrow> db" where
  \<comment> \<open>two further requests, each complete, that take the ticket to \<open>waiting_for_agent\<close>\<close>
  "two_steps s = snd (transition_ticket (quiet_tx 9 51) 1 40 WAITING_FOR_AGENT 10
     (snd (transition_ticket (quiet_tx 8 50) 1 40 PROCESSING 10 s)))"

lemma two_steps_sample:
  "db_ok (two_steps sample_ticket_db)" "has_org (two_steps sample_ticket_db) 1" "has_member (two_steps sample_ticket_db) 1 11"
  "a_id ` set (audit_events (two_steps sample_ticket_db)) = {42, 43, 50, 51}"
  "map_option t_status (get_ticket 1 40 (two_steps sample_ticket_db)) = Some WAITING_FOR_AGENT"
proof -
  let ?s1 = "transitioned (quiet_tx 8 50) 1 40 10 OPEN PROCESSING sample_ticket_db"
  have 1: "transition_ticket (quiet_tx 8 50) 1 40 PROCESSING 10 sample_ticket_db =
      (Inr ((new_ticket 7 40 1 sample_request)\<lparr>t_status := PROCESSING, t_updated_at := 8\<rparr>), ?s1)"
    using transition_commits [OF sample_ticket_facts(6), of PROCESSING "quiet_tx 8 50" 10] sample_ticket_db_ok
    by (simp del: One_nat_def)
  have ok1: "db_ok ?s1" using transitioned_db_ok [OF sample_ticket_db_ok] by (simp del: One_nat_def)
  have f1: "has_org ?s1 1" "has_member ?s1 1 10" "has_member ?s1 1 11" "a_id ` set (audit_events ?s1) = {42, 43, 50}"
    by (simp_all add: transitioned_def set_status_def status_event_def insert_commute del: One_nat_def)
  have get1: "get_ticket 1 40 ?s1 = Some ((new_ticket 7 40 1 sample_request)\<lparr>t_status := PROCESSING, t_updated_at := 8\<rparr>)"
    by (simp add: get_ticket_transitioned del: One_nat_def)
  let ?s2 = "transitioned (quiet_tx 9 51) 1 40 10 PROCESSING WAITING_FOR_AGENT ?s1"
  have "snd (transition_ticket (quiet_tx 9 51) 1 40 WAITING_FOR_AGENT 10 ?s1) = ?s2"
    using transition_commits [OF get1, of WAITING_FOR_AGENT "quiet_tx 9 51" 10] ok1 f1 by (simp del: One_nat_def)
  then have two: "two_steps sample_ticket_db = ?s2" by (simp add: two_steps_def 1 del: One_nat_def)
  show "db_ok (two_steps sample_ticket_db)"
    using transitioned_db_ok [OF ok1 f1(1,2), of "quiet_tx 9 51"] f1(4) by (simp add: two del: One_nat_def)
  show "has_org (two_steps sample_ticket_db) 1" "has_member (two_steps sample_ticket_db) 1 11"
    "a_id ` set (audit_events (two_steps sample_ticket_db)) = {42, 43, 50, 51}"
    unfolding two using f1 by (simp_all add: transitioned_def [of "quiet_tx 9 51"] set_status_def status_event_def
        insert_commute del: One_nat_def)
  show "map_option t_status (get_ticket 1 40 (two_steps sample_ticket_db)) = Some WAITING_FOR_AGENT"
    unfolding two by (simp add: get_ticket_transitioned get1 del: One_nat_def)
qed

theorem unlocked_transition_overwrites_witness:
  \<comment> \<open>the ticket goes from \<open>waiting_for_agent\<close> back to \<open>processing\<close>\<close>
  "\<exists>r s'. update_ticket_status ((quiet_tx 10 52)\<lparr>tx_others := two_steps\<rparr>) 1 40 PROCESSING 11 sample_ticket_db = (Inr r, s') \<and>
     map_option t_status (get_ticket 1 40 (two_steps sample_ticket_db)) = Some WAITING_FOR_AGENT \<and>
     map_option t_status (get_ticket 1 40 s') = Some PROCESSING"
proof -
  let ?t = "(quiet_tx 10 52)\<lparr>tx_others := two_steps\<rparr>"
  obtain tk where tk: "get_ticket 1 40 (two_steps sample_ticket_db) = Some tk" using two_steps_sample(5) by blast
  have "\<exists>r s'. update_ticket_status ?t 1 40 PROCESSING 11 sample_ticket_db = (Inr r, s') \<and>
    get_ticket 1 40 s' = Some (tk\<lparr>t_status := PROCESSING, t_updated_at := tx_now ?t\<rparr>) \<and>
    status_event (tx_now ?t) (tx_event ?t) 1 11 40 (t_status (new_ticket 7 40 1 sample_request)) PROCESSING \<in> set (audit_events s')"
    by (rule unlocked_transition_overwrites [OF sample_ticket_facts(6)])
      (use tk two_steps_sample in \<open>simp_all del: One_nat_def\<close>)
  then show ?thesis using two_steps_sample(5) by auto
qed

subsection \<open>Errors, isolation and listing\<close>

text \<open>
  The schemas let a \<open>NUL\<close> character through and the columns do not: such a request is not refused as
  invalid but answered with the internal error, without any change to the database.
\<close>

lemma nul_body_is_server_error:
  assumes "0 \<in> set (rq_body rq)" and "customer_known org rq s"
  shows "\<exists>e. api_create_ticket now fault ids org actor rq s = (Inl e, s) \<and> api_status e = 500"
proof -
  have "\<not> types_ok (ticket_rows now ids org actor rq s)"
    using assms(1) by (simp add: types_ok_def ticket_rows_def message_types_def text_ok_def agent_message_def)
  then show ?thesis using assms(2)
    by (simp add: api_create_ticket_def create_ticket_unfold ticket_commit_def commit_def)
qed

definition nul_request :: ticket_create_request where
  "nul_request = sample_request\<lparr>rq_body := [65, 0, 66]\<rparr>"

lemma nul_body_is_server_error_example:
  "parse_ticket_create ustrip nul_request = Some nul_request \<and>
   (\<exists>e. api_create_ticket 7 NoFault sample_ticket_ids 1 11 nul_request sample_db = (Inl e, sample_db) \<and> api_status e = 500)"
proof
  show "parse_ticket_create ustrip nul_request = Some nul_request"
    by (simp add: parse_ticket_create_def nul_request_def sample_request_def TicketSubject_def NonEmptyBody_def
        string_constraints_def ustrip_def strip_by_def is_space_def u_def)
  have "customer_known 1 nul_request sample_db"
    by (simp add: customer_known_def nul_request_def sample_request_def get_customer_def sample_db_def empty_db_def)
  then show "\<exists>e. api_create_ticket 7 NoFault sample_ticket_ids 1 11 nul_request sample_db = (Inl e, sample_db) \<and> api_status e = 500"
    by (intro nul_body_is_server_error) (simp add: nul_request_def)
qed

text \<open>
  A ticket of another organization does not exist for the caller: its detail, a message to it and
  a status request all answer 404, nothing is written, and no page of any listing contains it.
\<close>

lemma foreign_ticket_hidden:
  assumes "db_ok s" and "tk \<in> set (tickets s)" and "t_organization_id tk \<noteq> org"
  shows "(\<exists>e. api_get_ticket_detail org (t_id tk) s = Inl e \<and> api_status e = 404) \<and>
    (\<exists>e. append_ticket_message now fault mid eid org (t_id tk) body actor s = (Inl e, s) \<and> api_status e = 404) \<and>
    (\<exists>e. update_ticket_status t org (t_id tk) st actor s = (Inl e, s) \<and> api_status e = 404) \<and>
    tk \<notin> set (fst (list_tickets s \<lparr>tq_organization = org, tq_status = a, tq_source = b, tq_customer = c\<rparr> limit offset))"
proof -
  have none: "get_ticket org (t_id tk) s = None"
  proof (rule ccontr)
    assume "get_ticket org (t_id tk) s \<noteq> None"
    then obtain x where x: "x \<in> set (tickets s)" "t_organization_id x = org" "t_id x = t_id tk"
      by (auto dest: get_ticket_SomeD)
    then show False using distinct_key_unique [OF db_ok_ticket_ids [OF assms(1)] x(1) assms(2)] assms(3) by blast
  qed
  have "tk \<notin> set (visible_tickets s \<lparr>tq_organization = org, tq_status = a, tq_source = b, tq_customer = c\<rparr>)"
    using assms(3) by (simp add: visible_tickets_def order_by_desc_def ticket_filter_def)
  then have "tk \<notin> set (fst (list_tickets s \<lparr>tq_organization = org, tq_status = a, tq_source = b, tq_customer = c\<rparr> limit offset))"
    using ticket_pages.page_subset by blast
  with none show ?thesis
    by (simp add: api_get_ticket_detail_def get_ticket_detail_def append_ticket_message_def append_agent_message_def
        update_ticket_status_def transition_ticket_def)
qed

lemma foreign_ticket_hidden_example:
  "(\<exists>e. update_ticket_status (quiet_tx 8 50) 2 40 PROCESSING 20 sample_ticket_db = (Inl e, sample_ticket_db) \<and> api_status e = 404)"
proof -
  let ?tk = "new_ticket 7 40 1 sample_request"
  have "?tk \<in> set (tickets sample_ticket_db)" "t_organization_id ?tk \<noteq> 2" "t_id ?tk = 40"
    by (simp_all add: new_ticket_def del: One_nat_def)
  with foreign_ticket_hidden [OF sample_ticket_db_ok, of ?tk 2] show ?thesis by metis
qed

text \<open>The pages of a ticket listing are exactly the matching tickets of the organization, newest first.\<close>

lemma ticket_pages_complete:
  assumes "snd (list_tickets s q limit 0) \<le> n * limit"
  shows "concat (map (\<lambda>k. fst (list_tickets s q limit (k * limit))) [0..<n]) = visible_tickets s q \<and>
    mset (visible_tickets s q) = mset (filter (ticket_filter q) (tickets s)) \<and>
    sorted (map (\<lambda>t. (t_created_at t, t_id t)) (rev (visible_tickets s q)))"
  using ticket_pages.pages_cover [OF assms] by (simp add: visible_tickets_def order_by_desc_def)

end
