(* ===== verification/SF_Identity.thy ===== *)
theory SF_Identity
  imports SF_Tickets
begin

text \<open>
  \<open>app/auth\<close> (registration, login, access tokens), \<open>app/identity/service.py\<close> (organization members),
  \<open>app/api/dependencies.py\<close> (who the caller is and what it may do) and their endpoints.
  Password hashing (\<open>pwdlib\<close>), e-mail validation and JSON Web Tokens (\<open>PyJWT\<close>) are libraries: they
  are the arguments \<open>hash\<close>, \<open>verify\<close>, \<open>valid_email\<close> and the record \<open>jwt_lib\<close>, whose documented behaviour
  is \<open>jwt_ok\<close>. Identifier-like texts are strings of ASCII characters.
\<close>

subsection \<open>Python UUID texts\<close>

fun replace_all :: "string \<Rightarrow> nat \<Rightarrow> string \<Rightarrow> string" where
  \<comment> \<open>\<open>str.replace(pattern, '')\<close>; \<open>skip\<close> characters of a match are still to be dropped\<close>
  "replace_all pat skip [] = []"
| "replace_all pat (Suc skip) (c # cs) = replace_all pat skip cs"
| "replace_all pat 0 (c # cs) = (if pat \<noteq> [] \<and> take (length pat) (c # cs) = pat
     then replace_all pat (length pat - 1) cs else c # replace_all pat 0 cs)"

definition hex_value :: "char \<Rightarrow> nat option" where
  "hex_value c = (let n = of_char c :: nat in
     if 48 \<le> n \<and> n \<le> 57 then Some (n - 48) else if 97 \<le> n \<and> n \<le> 102 then Some (n - 87)
     else if 65 \<le> n \<and> n \<le> 70 then Some (n - 55) else None)"

fun hex_digits :: "nat \<Rightarrow> bool \<Rightarrow> string \<Rightarrow> nat option" where
  \<comment> \<open>digits with single underscores between them; the flag says that a digit has just been read\<close>
  "hex_digits acc d [] = (if d then Some acc else None)"
| "hex_digits acc d (c # cs) = (if c = CHR ''_'' then (if d then hex_digits acc False cs else None)
     else case hex_value c of None \<Rightarrow> None | Some v \<Rightarrow> hex_digits (16 * acc + v) True cs)"

definition int16 :: "string \<Rightarrow> nat option" where
  \<comment> \<open>\<open>int(text, 16)\<close>, for a result that is not negative\<close>
  "int16 w = (let t = sstrip w;
     (neg, t1) = (case t of c # cs \<Rightarrow> if c = CHR ''-'' then (True, cs) else if c = CHR ''+'' then (False, cs)
        else (False, t) | [] \<Rightarrow> (False, []));
     t2 = (if take 2 (lower_s t1) = ''0x'' then (case drop 2 t1 of c # cs \<Rightarrow> if c = CHR ''_'' then cs else c # cs | [] \<Rightarrow> [])
           else t1)
     in case hex_digits 0 False t2 of None \<Rightarrow> None | Some n \<Rightarrow> if neg \<and> n \<noteq> 0 then None else Some n)"

definition UUID :: "string \<Rightarrow> uuid option" where
  \<comment> \<open>the constructor \<open>uuid.UUID(text)\<close>, \<open>None\<close> for \<open>ValueError\<close>\<close>
  "UUID w = (let h = filter (\<lambda>c. c \<noteq> CHR ''-'')
       (strip_by (\<lambda>c. c \<in> {CHR 0x7B, CHR 0x7D}) (replace_all ''uuid:'' 0 (replace_all ''urn:'' 0 w)))
     in if length h \<noteq> 32 then None else int16 h)"

subsection \<open>Access tokens\<close>

record token_payload =
  tp_sub :: json
  tp_iat :: int
  tp_exp :: int
  tp_iss :: string
  tp_aud :: string
  tp_jti :: json

record 'tok jwt_lib =
  jwt_encode :: "token_payload \<Rightarrow> string \<Rightarrow> 'tok"
  jwt_decode :: "'tok \<Rightarrow> string \<Rightarrow> string \<Rightarrow> string \<Rightarrow> instant \<Rightarrow> token_payload option"
    \<comment> \<open>token, key, audience, issuer and the time; \<open>None\<close> for every \<open>PyJWTError\<close>\<close>

definition jwt_ok :: "'tok jwt_lib \<Rightarrow> bool" where
  \<comment> \<open>a token decodes under its own key, audience and issuer, from \<open>iat\<close> until \<open>exp\<close>, to its payload\<close>
  "jwt_ok lib \<longleftrightarrow> (\<forall>p key key' aud iss now. jwt_decode lib (jwt_encode lib p key) key' aud iss now =
     (if key' = key \<and> tp_aud p = aud \<and> tp_iss p = iss \<and> seconds (tp_iat p) \<le> now \<and> now < seconds (tp_exp p)
      then Some p else None))"

record token_manager =
  mg_secret_key :: string
  mg_issuer :: string
  mg_audience :: string
  mg_lifetime :: int

datatype auth_exn = InvalidAccessTokenError | RegistrationConflictError | InvalidCredentialsError
  | AuthDatabaseError | SecretTooShort

definition utf8_length :: "string \<Rightarrow> nat" where
  "utf8_length w = sum_list (map (\<lambda>c. if (of_char c :: nat) < 128 then 1 else 2) w)"

definition AccessTokenManager :: "string \<Rightarrow> string \<Rightarrow> string \<Rightarrow> int \<Rightarrow> auth_exn + token_manager" where
  "AccessTokenManager secret_key issuer audience lifetime =
     (if utf8_length secret_key < 32 then Inl SecretTooShort
      else Inr \<lparr>mg_secret_key = secret_key, mg_issuer = issuer, mg_audience = audience, mg_lifetime = lifetime\<rparr>)"

definition issue :: "'tok jwt_lib \<Rightarrow> token_manager \<Rightarrow> instant \<Rightarrow> uuid \<Rightarrow> uuid \<Rightarrow> 'tok \<times> int" where
  \<comment> \<open>the library writes times as whole seconds, rounded down\<close>
  "issue lib mg issued_at jti user_id =
     (jwt_encode lib \<lparr>tp_sub = JStr (uuid_str user_id), tp_iat = issued_at div seconds 1,
        tp_exp = (issued_at + mg_lifetime mg) div seconds 1, tp_iss = mg_issuer mg, tp_aud = mg_audience mg,
        tp_jti = JStr (uuid_str jti)\<rparr> (mg_secret_key mg),
      max 0 (mg_lifetime mg div seconds 1))"

definition decode_user_id :: "'tok jwt_lib \<Rightarrow> token_manager \<Rightarrow> instant \<Rightarrow> 'tok \<Rightarrow> auth_exn + uuid" where
  "decode_user_id lib mg now token =
     (case jwt_decode lib token (mg_secret_key mg) (mg_audience mg) (mg_issuer mg) now of
        None \<Rightarrow> Inl InvalidAccessTokenError
      | Some p \<Rightarrow>
          (case (tp_sub p, tp_jti p) of
             (JStr subject, JStr token_id) \<Rightarrow>
               (case (UUID token_id, UUID subject) of
                  (Some _, Some user_id) \<Rightarrow> Inr user_id
                | _ \<Rightarrow> Inl InvalidAccessTokenError)
           | _ \<Rightarrow> Inl InvalidAccessTokenError))"

subsection \<open>Registration and login\<close>

record register_request =
  rr_email :: string
  rr_password :: string
  rr_organization_name :: ustr
  rr_organization_slug :: string

definition slug_pattern :: "string \<Rightarrow> bool" where
  \<comment> \<open>\<open>^[a-z0-9]+(?:-[a-z0-9]+)*$\<close>\<close>
  "slug_pattern w \<longleftrightarrow> list_all (\<lambda>part. part \<noteq> [] \<and>
     list_all (\<lambda>c. c \<in> set ''abcdefghijklmnopqrstuvwxyz0123456789'') part) (split_on (CHR ''-'') w)"

definition OrganizationSlug :: "string \<Rightarrow> string option" where
  \<comment> \<open>the library strips, checks length and pattern, and converts to lower case last\<close>
  "OrganizationSlug raw = (let w = sstrip raw in
     if 2 \<le> length w \<and> length w \<le> 100 \<and> slug_pattern w then Some (lower_s w) else None)"

definition parse_register :: "(string \<Rightarrow> string option) \<Rightarrow> (ustr \<Rightarrow> ustr) \<Rightarrow> register_request \<Rightarrow> register_request option" where
  "parse_register valid_email trim raw =
     (case (valid_email (lower_s (sstrip (rr_email raw))), string_constraints trim 1 200 (rr_organization_name raw),
            OrganizationSlug (lower_s (sstrip (rr_organization_slug raw)))) of
        (Some email, Some name, Some slug) \<Rightarrow>
          if 12 \<le> length (rr_password raw) \<and> length (rr_password raw) \<le> 128
          then Some (raw\<lparr>rr_email := email, rr_organization_name := name, rr_organization_slug := slug\<rparr>) else None
      | _ \<Rightarrow> None)"

definition new_user :: "uuid \<Rightarrow> (string \<Rightarrow> string) \<Rightarrow> register_request \<Rightarrow> user" where
  "new_user uid pwhash rq = \<lparr>u_id = uid, u_email = lower_s (sstrip (rr_email rq)),
     u_password_hash = pwhash (rr_password rq), u_status = USER_ACTIVE\<rparr>"

definition new_organization :: "uuid \<Rightarrow> register_request \<Rightarrow> organization" where
  "new_organization oid rq = \<lparr>o_id = oid, o_name = rr_organization_name rq, o_slug = rr_organization_slug rq,
     o_status = ORG_ACTIVE\<rparr>"

definition register :: "instant \<Rightarrow> db_fault \<Rightarrow> uuid \<Rightarrow> uuid \<Rightarrow> (string \<Rightarrow> string) \<Rightarrow> register_request \<Rightarrow> db \<Rightarrow>
    (auth_exn + user \<times> organization \<times> organization_member) \<times> db" where
  "register now fault uid oid pwhash rq s =
     (let user = new_user uid pwhash rq;
          organization = new_organization oid rq;
          membership = \<lparr>m_organization_id = oid, m_user_id = uid, m_role = ADMIN, m_status = MEMBER_ACTIVE,
            m_created_at = now\<rparr>;
          pending = s\<lparr>users := users s @ [user], organizations := organizations s @ [organization],
            organization_members := organization_members s @ [membership]\<rparr>
      in case commit pending of
           Inl IntegrityError \<Rightarrow> (Inl RegistrationConflictError, s)
         | Inl DataError \<Rightarrow> (Inl AuthDatabaseError, s)
         | Inr s' \<Rightarrow> (case fault of NoFault \<Rightarrow> (Inr (user, organization, membership), s')
             | Aborted \<Rightarrow> (Inl AuthDatabaseError, s) | AckLost \<Rightarrow> (Inl AuthDatabaseError, s')))"

record password_manager =
  pm_verify :: "string \<Rightarrow> string \<Rightarrow> bool"
  pm_dummy_hash :: string

definition authenticate :: "password_manager \<Rightarrow> string \<Rightarrow> string \<Rightarrow> db \<Rightarrow> (auth_exn + user) \<times> (string \<times> string) list" where
  \<comment> \<open>with the verifications it performs, each a password and a hash\<close>
  "authenticate pm email password s =
     (case find (\<lambda>r. u_email r = lower_s (sstrip email)) (users s) of
        None \<Rightarrow> (Inl InvalidCredentialsError, [(password, pm_dummy_hash pm)])
      | Some user \<Rightarrow>
          if \<not> pm_verify pm password (u_password_hash user)
          then (Inl InvalidCredentialsError, [(password, u_password_hash user)])
          else if u_status user \<noteq> USER_ACTIVE
          then (Inl InvalidCredentialsError, [(password, u_password_hash user)])
          else (Inr user, [(password, u_password_hash user)]))"

record user_response =
  ur_id :: uuid
  ur_email :: string
  ur_status :: user_status

record organization_response =
  or_id :: uuid
  or_name :: ustr
  or_slug :: string
  or_status :: organization_status

definition UserResponse :: "user \<Rightarrow> user_response" where
  "UserResponse r = \<lparr>ur_id = u_id r, ur_email = u_email r, ur_status = u_status r\<rparr>"

definition OrganizationResponse :: "organization \<Rightarrow> organization_response" where
  "OrganizationResponse r = \<lparr>or_id = o_id r, or_name = o_name r, or_slug = o_slug r, or_status = o_status r\<rparr>"

definition unauthorized :: "string \<Rightarrow> 'e api_exn" where
  "unauthorized message = Http \<lparr>he_status = 401, he_detail = Message message,
     he_headers = [(''WWW-Authenticate'', ''Bearer'')]\<rparr>"

lemma api_status_unauthorized [simp]: "api_status (unauthorized w) = 401"
  by (simp add: unauthorized_def)

definition api_register :: "instant \<Rightarrow> db_fault \<Rightarrow> uuid \<Rightarrow> uuid \<Rightarrow> (string \<Rightarrow> string) \<Rightarrow> register_request \<Rightarrow> db \<Rightarrow>
    (auth_exn api_exn + user_response \<times> organization_response \<times> membership_role \<times> membership_status) \<times> db" where
  "api_register now fault uid oid pwhash rq s =
     (case register now fault uid oid pwhash rq s of
        (Inl RegistrationConflictError, s') \<Rightarrow> (Inl (http_error 409 ''Email or organization slug already exists''), s')
      | (Inl e, s') \<Rightarrow> (Inl (Unhandled e), s')
      | (Inr (user, organization, membership), s') \<Rightarrow>
          (Inr (UserResponse user, OrganizationResponse organization, m_role membership, m_status membership), s'))"

definition login :: "'tok jwt_lib \<Rightarrow> token_manager \<Rightarrow> password_manager \<Rightarrow> instant \<Rightarrow> uuid \<Rightarrow> string \<Rightarrow> string \<Rightarrow> db \<Rightarrow>
    auth_exn api_exn + 'tok \<times> int" where
  "login lib mg pm now jti email password s =
     (case fst (authenticate pm email password s) of
        Inl InvalidCredentialsError \<Rightarrow> Inl (unauthorized ''Invalid email or password'')
      | Inl e \<Rightarrow> Inl (Unhandled e)
      | Inr user \<Rightarrow> Inr (issue lib mg now jti (u_id user)))"

subsection \<open>Who calls\<close>

definition get_current_user :: "'tok jwt_lib \<Rightarrow> token_manager \<Rightarrow> instant \<Rightarrow> (string \<times> 'tok) option \<Rightarrow> db \<Rightarrow>
    auth_exn api_exn + user" where
  \<comment> \<open>the credentials are the scheme and the token of the \<open>Authorization\<close> header\<close>
  "get_current_user lib mg now credentials s =
     (case credentials of
        None \<Rightarrow> Inl (unauthorized ''Authentication required'')
      | Some (scheme, token) \<Rightarrow>
          if lower_s scheme \<noteq> ''bearer'' then Inl (unauthorized ''Authentication required'')
          else
            (case decode_user_id lib mg now token of
               Inl _ \<Rightarrow> Inl (unauthorized ''Authentication required'')
             | Inr user_id \<Rightarrow>
                 (case find (\<lambda>r. u_id r = user_id) (users s) of
                    None \<Rightarrow> Inl (unauthorized ''Authentication required'')
                  | Some user \<Rightarrow>
                      if u_status user \<noteq> USER_ACTIVE then Inl (unauthorized ''Authentication required'')
                      else Inr user)))"

definition read_current_user :: "'tok jwt_lib \<Rightarrow> token_manager \<Rightarrow> instant \<Rightarrow> (string \<times> 'tok) option \<Rightarrow> db \<Rightarrow>
    auth_exn api_exn + user_response" where
  "read_current_user lib mg now credentials s =
     bindE (get_current_user lib mg now credentials s) (\<lambda>user. Inr (UserResponse user))"

record organization_context =
  ctx_organization :: organization
  ctx_membership :: organization_member

definition context_rows :: "uuid \<Rightarrow> uuid \<Rightarrow> db \<Rightarrow> (organization \<times> organization_member) list" where
  \<comment> \<open>the join of organizations and memberships\<close>
  "context_rows organization_id user_id s =
     concat (map (\<lambda>r. map (\<lambda>x. (r, x)) (filter (\<lambda>x. m_organization_id x = o_id r \<and> o_id r = organization_id \<and>
        o_status r = ORG_ACTIVE \<and> m_user_id x = user_id \<and> m_status x = MEMBER_ACTIVE) (organization_members s)))
     (organizations s))"

datatype context_exn = MultipleResultsFound

definition get_organization_context :: "uuid \<Rightarrow> user \<Rightarrow> db \<Rightarrow> context_exn api_exn + organization_context" where
  "get_organization_context organization_id current_user s =
     (case context_rows organization_id (u_id current_user) s of
        [] \<Rightarrow> Inl (http_error 404 ''Organization not found'')
      | [(r, x)] \<Rightarrow> Inr \<lparr>ctx_organization = r, ctx_membership = x\<rparr>
      | _ \<Rightarrow> Inl (Unhandled MultipleResultsFound))"

definition require_roles :: "membership_role list \<Rightarrow> organization_context \<Rightarrow> context_exn api_exn + organization_context" where
  "require_roles allowed_roles ctx =
     (if m_role (ctx_membership ctx) \<notin> set allowed_roles then Inl (http_error 403 ''Insufficient permissions'')
      else Inr ctx)"

definition authorize :: "'tok jwt_lib \<Rightarrow> token_manager \<Rightarrow> instant \<Rightarrow> membership_role list \<Rightarrow> (string \<times> 'tok) option \<Rightarrow>
    uuid \<Rightarrow> db \<Rightarrow> nat + organization_context" where
  \<comment> \<open>the dependency chain of an endpoint with \<open>Depends(require_roles(...))\<close>; a refusal is its status code\<close>
  "authorize lib mg now roles credentials organization_id s =
     (case get_current_user lib mg now credentials s of
        Inl e \<Rightarrow> Inl (api_status e)
      | Inr user \<Rightarrow>
          (case bindE (get_organization_context organization_id user s) (require_roles roles) of
             Inl e \<Rightarrow> Inl (api_status e)
           | Inr ctx \<Rightarrow> Inr ctx))"

subsection \<open>Members\<close>

definition visible_members :: "db \<Rightarrow> uuid \<Rightarrow> organization_member list" where
  "visible_members s org = order_by_desc (\<lambda>r. (m_created_at r, m_user_id r))
     (filter (\<lambda>r. m_organization_id r = org) (organization_members s))"

definition list_members :: "db \<Rightarrow> uuid \<Rightarrow> nat \<Rightarrow> nat \<Rightarrow> organization_member list \<times> nat" where
  "list_members s org limit offset =
     (limit_offset limit offset (order_by_desc (\<lambda>r. (m_created_at r, m_user_id r))
        (filter (\<lambda>r. m_organization_id r = org) (organization_members s))),
      length (filter (\<lambda>r. m_organization_id r = org) (organization_members s)))"

datatype member_exn = MembershipUserNotFoundError | MembershipConflictError | MemberOtherError

definition normalize_email :: "string \<Rightarrow> string" where
  "normalize_email w = lower_s (sstrip w)"

definition add_agent :: "tx \<Rightarrow> uuid \<Rightarrow> uuid \<Rightarrow> string \<Rightarrow> db \<Rightarrow> (member_exn + organization_member) \<times> db" where
  "add_agent t org actor normalized_email s =
     (case find (\<lambda>r. u_email r = normalized_email \<and> u_status r = USER_ACTIVE) (users s) of
        None \<Rightarrow> (Inl MembershipUserNotFoundError, s)
      | Some user \<Rightarrow>
          if has_member s org (u_id user) then (Inl MembershipConflictError, s)
          else
            let membership = \<lparr>m_organization_id = org, m_user_id = u_id user, m_role = AGENT,
                  m_status = MEMBER_ACTIVE, m_created_at = tx_now t\<rparr>;
                s1 = tx_others t s
            in case record_organization_member_created (tx_now t) (tx_event t) org actor (u_id user)
                      (membership_role_value (m_role membership))
                      (s1\<lparr>organization_members := organization_members s1 @ [membership]\<rparr>) of
                 Inl _ \<Rightarrow> (Inl MemberOtherError, s1)
               | Inr pending \<Rightarrow>
                   (case commit pending of
                      Inl IntegrityError \<Rightarrow> (Inl MembershipConflictError, s1)
                    | Inl DataError \<Rightarrow> (Inl MemberOtherError, s1)
                    | Inr s' \<Rightarrow> (case tx_fault t of NoFault \<Rightarrow> (Inr membership, s')
                        | Aborted \<Rightarrow> (Inl MemberOtherError, s1) | AckLost \<Rightarrow> (Inl MemberOtherError, s'))))"

record member_view =
  mv_user_id :: uuid
  mv_email :: string
  mv_role :: membership_role
  mv_status :: membership_status
  mv_created_at :: instant

definition member_response :: "db \<Rightarrow> organization_member \<Rightarrow> member_view" where
  \<comment> \<open>\<open>member.user\<close> is the row the foreign key names\<close>
  "member_response s r = \<lparr>mv_user_id = m_user_id r,
     mv_email = (case find (\<lambda>x. u_id x = m_user_id r) (users s) of None \<Rightarrow> [] | Some x \<Rightarrow> u_email x),
     mv_role = m_role r, mv_status = m_status r, mv_created_at = m_created_at r\<rparr>"

definition list_organization_members :: "db \<Rightarrow> uuid \<Rightarrow> nat \<Rightarrow> nat \<Rightarrow> member_view list \<times> nat \<times> nat \<times> nat" where
  "list_organization_members s org limit offset =
     (let (items, total) = list_members s org limit offset in (map (member_response s) items, limit, offset, total))"

definition add_organization_member :: "tx \<Rightarrow> organization_context \<Rightarrow> string \<Rightarrow> db \<Rightarrow> (member_exn api_exn + member_view) \<times> db" where
  "add_organization_member t ctx email s =
     (case add_agent t (o_id (ctx_organization ctx)) (m_user_id (ctx_membership ctx)) email s of
        (Inl MembershipUserNotFoundError, s') \<Rightarrow> (Inl (http_error 404 ''User not found''), s')
      | (Inl MembershipConflictError, s') \<Rightarrow> (Inl (http_error 409 ''Organization membership already exists''), s')
      | (Inl e, s') \<Rightarrow> (Inl (Unhandled e), s')
      | (Inr membership, s') \<Rightarrow> (Inr (member_response s' membership), s'))"

interpretation member_pages: paged_listing list_members visible_members
  by unfold_locales (simp_all add: list_members_def visible_members_def limit_offset_def order_by_desc_def)

subsection \<open>Identifiers survive the round trip through text\<close>

lemma replace_all_absent: "x \<in> set pat \<Longrightarrow> x \<notin> set w \<Longrightarrow> replace_all pat 0 w = w"
proof (induction w)
  case (Cons c cs)
  have "take (length pat) (c # cs) \<noteq> pat"
    using Cons.prems by (metis in_set_takeD)
  with Cons show ?case by simp
qed simp

lemma strip_by_absent:
  assumes "\<forall>c \<in> set w. \<not> p c"
  shows "strip_by p w = w"
proof (cases "w = []")
  case False
  then show ?thesis using assms by (intro strip_by_fix) simp_all
qed (simp add: strip_by_def)

lemma HEX_cases: "c \<in> HEX \<Longrightarrow> hex_value c \<noteq> None \<and> c \<noteq> CHR ''_'' \<and> c \<noteq> CHR ''-'' \<and> c \<noteq> CHR ''+'' \<and>
    lower_char c = c \<and> \<not> is_space (of_char c) \<and> c \<noteq> CHR ''x''"
proof -
  have "list_all (\<lambda>c. hex_value c \<noteq> None \<and> c \<noteq> CHR ''_'' \<and> c \<noteq> CHR ''-'' \<and> c \<noteq> CHR ''+'' \<and>
      lower_char c = c \<and> \<not> is_space (of_char c) \<and> c \<noteq> CHR ''x'') ''0123456789abcdef''"
    by (simp add: hex_value_def lower_char_def is_space_def)
  then show "c \<in> HEX \<Longrightarrow> ?thesis" unfolding list_all_iff HEX_def by blast
qed

lemma hex_value_digit: "hex_value (hex_digit d) = Some (d mod 16)"
proof -
  have "\<forall>k \<in> set [0..<16]. hex_value (''0123456789abcdef'' ! k) = Some k"
    by (simp add: hex_value_def upt_rec)
  then show ?thesis by (simp add: hex_digit_def)
qed

lemma hex_digits_HEX:
  "set xs \<subseteq> HEX \<Longrightarrow> hex_digits acc d xs =
     (if d \<or> xs \<noteq> [] then Some (foldl (\<lambda>a c. 16 * a + the (hex_value c)) acc xs) else None)"
proof (induction xs arbitrary: acc d)
  case (Cons c cs)
  then show ?case using HEX_cases [of c] by auto
qed simp

lemma foldl_to_hex: "n < 16 ^ w \<Longrightarrow> foldl (\<lambda>a c. 16 * a + the (hex_value c)) 0 (to_hex w n) = n"
proof (induction w arbitrary: n)
  case (Suc w)
  have "n div 16 < 16 ^ w" using Suc.prems by (simp add: less_mult_imp_div_less mult.commute)
  with Suc.IH show ?case by (simp add: hex_value_digit)
qed simp

lemma int16_to_hex:
  assumes "n < 16 ^ w" and "w > 0"
  shows "int16 (to_hex w n) = Some n"
proof -
  let ?h = "to_hex w n"
  have hex: "\<forall>c \<in> set ?h. c \<in> HEX" using set_to_hex by blast
  obtain c cs where h: "?h = c # cs" using assms(2) by (metis length_to_hex list.exhaust list.size(3) less_nat_zero_code)
  have strip: "sstrip ?h = ?h"
    unfolding sstrip_def by (rule strip_by_absent) (use hex HEX_cases in blast)
  have "lower_s ?h = ?h"
    unfolding lower_s_def using hex HEX_cases by (simp add: map_idI)
  moreover have "CHR ''x'' \<notin> set ?h" using hex HEX_cases by blast
  ultimately have prefix: "take 2 (lower_s ?h) \<noteq> ''0x''"
    by (metis in_set_takeD list.set_intros(1,2))
  have sign: "c \<noteq> CHR ''-''" "c \<noteq> CHR ''+''" using hex h HEX_cases by auto
  have "hex_digits 0 False ?h = Some n"
    using hex_digits_HEX [OF set_to_hex, of 0 False w n] foldl_to_hex [OF assms(1)] h by simp
  then show ?thesis using strip prefix sign unfolding int16_def by (simp add: h)
qed

lemma UUID_uuid_str: "uuid_range n \<Longrightarrow> UUID (uuid_str n) = Some n"
proof -
  assume n: "uuid_range n"
  let ?h = "to_hex 32 n"
  have absent: "CHR '':'' \<notin> set (uuid_str n)" "CHR 0x7B \<notin> set (uuid_str n)" "CHR 0x7D \<notin> set (uuid_str n)"
    using set_uuid_str [of n] by (auto simp: HEX_def)
  have "replace_all ''uuid:'' 0 (replace_all ''urn:'' 0 (uuid_str n)) = uuid_str n"
    using absent(1) by (simp add: replace_all_absent [of "CHR '':''"])
  moreover have "strip_by (\<lambda>c. c \<in> {CHR 0x7B, CHR 0x7D}) (uuid_str n) = uuid_str n"
    by (rule strip_by_absent) (use absent(2,3) in blast)
  moreover have "filter (\<lambda>c. c \<noteq> CHR ''-'') (uuid_str n) = ?h"
  proof -
    have id: "filter (\<lambda>c. c \<noteq> CHR ''-'') xs = xs" if "set xs \<subseteq> HEX" for xs
      using that HEX_cases by (intro filter_True) blast
    have sub: "set (take k (drop j ?h)) \<subseteq> HEX" "set (take k ?h) \<subseteq> HEX" "set (drop j ?h) \<subseteq> HEX" for j k
      by (meson set_drop_subset set_take_subset set_to_hex subset_trans)+
    have cut: "xs = take 8 xs @ take 4 (drop 8 xs) @ take 4 (drop 12 xs) @ take 4 (drop 16 xs) @
        drop 20 xs" for xs :: string
      using append_take_drop_id [of 8 xs] append_take_drop_id [of 4 "drop 8 xs"]
        append_take_drop_id [of 4 "drop 12 xs"] append_take_drop_id [of 4 "drop 16 xs"]
      by (simp del: append_take_drop_id take_drop)
    have "filter (\<lambda>c. c \<noteq> CHR ''-'') (uuid_str n) =
        take 8 ?h @ take 4 (drop 8 ?h) @ take 4 (drop 12 ?h) @ take 4 (drop 16 ?h) @ drop 20 ?h"
      unfolding uuid_str_def Let_def filter_append id [OF sub(1)] id [OF sub(2)] id [OF sub(3)] by simp
    also have "\<dots> = ?h" by (rule cut [symmetric])
    finally show ?thesis .
  qed
  moreover have "int16 ?h = Some n" using n int16_to_hex [of n 32] by (simp add: uuid_range_def)
  ultimately show ?thesis by (simp add: UUID_def Let_def)
qed

lemma decode_issued:
  assumes "jwt_ok lib" and "uuid_range user_id" and "uuid_range jti"
  shows "decode_user_id lib mg now (fst (issue lib mg issued_at jti user_id)) =
    (if seconds (issued_at div seconds 1) \<le> now \<and> now < seconds ((issued_at + mg_lifetime mg) div seconds 1)
     then Inr user_id else Inl InvalidAccessTokenError)"
  using assms(1) UUID_uuid_str [OF assms(2)] UUID_uuid_str [OF assms(3)]
  by (simp add: decode_user_id_def issue_def jwt_ok_def)

lemma floor_seconds: "seconds (x div seconds 1) \<le> x" "x < seconds (x div seconds 1) + seconds 1"
proof -
  have "seconds (x div seconds 1) + x mod seconds 1 = x"
    by (simp add: seconds_def)
  moreover have "0 \<le> x mod seconds 1" "x mod seconds 1 < seconds 1" by (simp_all add: seconds_def)
  ultimately show "seconds (x div seconds 1) \<le> x" "x < seconds (x div seconds 1) + seconds 1" by linarith+
qed

text \<open>
  An access token names its user for its lifetime and no longer: it is accepted from the moment it
  is issued until less than a second before the lifetime has passed, rejected from then on, and
  rejected at all times by a manager with another key.
\<close>

lemma token_lifetime:
  assumes "jwt_ok lib" and "uuid_range user_id" and "uuid_range jti" and "mg_secret_key other \<noteq> mg_secret_key mg"
  shows "(issued_at \<le> now \<and> now + seconds 1 \<le> issued_at + mg_lifetime mg \<longrightarrow>
      decode_user_id lib mg now (fst (issue lib mg issued_at jti user_id)) = Inr user_id) \<and>
    (issued_at + mg_lifetime mg \<le> now \<longrightarrow>
      decode_user_id lib mg now (fst (issue lib mg issued_at jti user_id)) = Inl InvalidAccessTokenError) \<and>
    decode_user_id lib other now (fst (issue lib mg issued_at jti user_id)) = Inl InvalidAccessTokenError"
proof -
  note f = floor_seconds [of issued_at] floor_seconds [of "issued_at + mg_lifetime mg"]
  have "decode_user_id lib other now (fst (issue lib mg issued_at jti user_id)) = Inl InvalidAccessTokenError"
    using assms(1,4) by (simp add: decode_user_id_def issue_def jwt_ok_def)
  then show ?thesis using f unfolding decode_issued [OF assms(1-3)] by auto
qed

definition transparent_jwt :: "(token_payload \<times> string) jwt_lib" where
  \<comment> \<open>a token library whose tokens are pairs of payload and key\<close>
  "transparent_jwt = \<lparr>jwt_encode = (\<lambda>p key. (p, key)),
     jwt_decode = (\<lambda>(p, key) key' aud iss now. if key' = key \<and> tp_aud p = aud \<and> tp_iss p = iss \<and>
       seconds (tp_iat p) \<le> now \<and> now < seconds (tp_exp p) then Some p else None)\<rparr>"

lemma transparent_jwt_ok: "jwt_ok transparent_jwt"
  by (simp add: jwt_ok_def transparent_jwt_def)

definition sample_manager :: token_manager where
  "sample_manager = \<lparr>mg_secret_key = ''0123456789abcdef0123456789abcdef'', mg_issuer = ''supportflow'',
     mg_audience = ''supportflow-api'', mg_lifetime = seconds 1800\<rparr>"

lemma sample_uuid_range [simp]: "uuid_range 10" "uuid_range 50" "uuid_range 60" "uuid_range 61"
  by (simp_all add: uuid_range_def)

lemma token_lifetime_example:
  "decode_user_id transparent_jwt sample_manager (seconds 100) (fst (issue transparent_jwt sample_manager (seconds 1) 50 10)) = Inr 10"
  using token_lifetime [OF transparent_jwt_ok sample_uuid_range(1,2),
      of "sample_manager\<lparr>mg_secret_key := []\<rparr>" sample_manager "seconds 1" "seconds 100"]
  by (simp add: sample_manager_def seconds_def)

subsection \<open>Adding people to the database\<close>

definition joined :: "user list \<Rightarrow> organization list \<Rightarrow> organization_member list \<Rightarrow> db \<Rightarrow> db" where
  "joined us rs ms s = s\<lparr>users := users s @ us, organizations := organizations s @ rs,
     organization_members := organization_members s @ ms\<rparr>"

lemma joined_has [simp]:
  "has_org (joined us rs ms s) x \<longleftrightarrow> has_org s x \<or> x \<in> o_id ` set rs"
  "has_member (joined us rs ms s) x y \<longleftrightarrow> has_member s x y \<or> (x, y) \<in> (\<lambda>r. (m_organization_id r, m_user_id r)) ` set ms"
  "has_customer (joined us rs ms s) = has_customer s"
  by (auto simp: joined_def has_org_def has_member_def has_customer_def list_ex_iff fun_eq_iff)

lemma joined_tables [simp]:
  "users (joined us rs ms s) = users s @ us" "organizations (joined us rs ms s) = organizations s @ rs"
  "organization_members (joined us rs ms s) = organization_members s @ ms"
  "customers (joined us rs ms s) = customers s" "tickets (joined us rs ms s) = tickets s"
  "ticket_messages (joined us rs ms s) = ticket_messages s" "documents (joined us rs ms s) = documents s"
  "document_versions (joined us rs ms s) = document_versions s"
  "ingestion_intents (joined us rs ms s) = ingestion_intents s" "audit_events (joined us rs ms s) = audit_events s"
  "classification_operations (joined us rs ms s) = classification_operations s"
  by (simp_all add: joined_def)

lemma joined_rows_ok:
  "member_ok s a \<Longrightarrow> member_ok (joined us rs ms s) a"
  "customer_ok s b \<Longrightarrow> customer_ok (joined us rs ms s) b"
  "ticket_ok s c \<Longrightarrow> ticket_ok (joined us rs ms s) c"
  "message_ok s d \<Longrightarrow> message_ok (joined us rs ms s) d"
  "document_ok s e \<Longrightarrow> document_ok (joined us rs ms s) e"
  "version_ok s f \<Longrightarrow> version_ok (joined us rs ms s) f"
  "intent_ok s g \<Longrightarrow> intent_ok (joined us rs ms s) g"
  "audit_ok s h \<Longrightarrow> audit_ok (joined us rs ms s) h"
  "operation_ok s i \<Longrightarrow> operation_ok (joined us rs ms s) i"
  by (simp_all add: member_ok_def customer_ok_def ticket_ok_def message_ok_def document_ok_def version_ok_def
      intent_ok_def audit_ok_def operation_ok_def split: option.splits)

lemma joined_db_ok:
  assumes "db_ok s"
    and "list_all organization_ok rs" and "list_all user_ok us" and "list_all (member_ok (joined us rs ms s)) ms"
    and "list_all (\<lambda>r. utext 200 (o_name r) \<and> vchar 100 (o_slug r)) rs"
    and "list_all (\<lambda>r. vchar 320 (u_email r) \<and> vchar 512 (u_password_hash r)) us"
    and "distinct (map u_id (users s @ us))" and "distinct (map u_email (users s @ us))"
    and "distinct (map o_id (organizations s @ rs))" and "distinct (map o_slug (organizations s @ rs))"
    and "distinct (map (\<lambda>r. (m_organization_id r, m_user_id r)) (organization_members s @ ms))"
  shows "db_ok (joined us rs ms s)"
proof -
  have parts: "types_ok s" "primary_keys_ok s" "unique_keys_ok s" "rows_ok s"
    using assms(1) by (simp_all add: db_ok_def constraints_ok_def)
  have "types_ok (joined us rs ms s)"
    using parts(1) assms(5,6) by (simp add: types_ok_def)
  moreover have "primary_keys_ok (joined us rs ms s)"
    using parts(2) assms(7,9,11) by (simp add: primary_keys_ok_def unique_by_def)
  moreover have "unique_keys_ok (joined us rs ms s)"
    using parts(3) assms(8,10) by (simp add: unique_keys_ok_def unique_by_def)
  moreover have "rows_ok (joined us rs ms s)"
    using parts(4) assms(2-4) joined_rows_ok by (simp add: rows_ok_def list_all_iff ball_Un)
  ultimately show ?thesis by (simp add: db_ok_def constraints_ok_def)
qed

definition new_admin :: "instant \<Rightarrow> uuid \<Rightarrow> uuid \<Rightarrow> organization_member" where
  "new_admin now uid oid = \<lparr>m_organization_id = oid, m_user_id = uid, m_role = ADMIN, m_status = MEMBER_ACTIVE,
     m_created_at = now\<rparr>"

definition registered :: "instant \<Rightarrow> uuid \<Rightarrow> uuid \<Rightarrow> (string \<Rightarrow> string) \<Rightarrow> register_request \<Rightarrow> db \<Rightarrow> db" where
  "registered now uid oid pwhash rq s =
     joined [new_user uid pwhash rq] [new_organization oid rq] [new_admin now uid oid] s"

lemma register_unfold:
  "register now fault uid oid pwhash rq s =
     (case commit (registered now uid oid pwhash rq s) of
        Inl IntegrityError \<Rightarrow> (Inl RegistrationConflictError, s)
      | Inl DataError \<Rightarrow> (Inl AuthDatabaseError, s)
      | Inr s' \<Rightarrow> (case fault of
            NoFault \<Rightarrow> (Inr (new_user uid pwhash rq, new_organization oid rq, new_admin now uid oid), s')
          | Aborted \<Rightarrow> (Inl AuthDatabaseError, s) | AckLost \<Rightarrow> (Inl AuthDatabaseError, s')))"
  unfolding register_def registered_def joined_def new_admin_def Let_def ..

definition fresh_identity :: "uuid \<Rightarrow> uuid \<Rightarrow> db \<Rightarrow> bool" where
  "fresh_identity uid oid s \<longleftrightarrow> uid \<notin> u_id ` set (users s) \<and> oid \<notin> o_id ` set (organizations s)"

definition identity_unused :: "register_request \<Rightarrow> db \<Rightarrow> bool" where
  "identity_unused rq s \<longleftrightarrow> lower_s (sstrip (rr_email rq)) \<notin> u_email ` set (users s) \<and>
     rr_organization_slug rq \<notin> o_slug ` set (organizations s)"

definition storable_identity :: "(string \<Rightarrow> string) \<Rightarrow> register_request \<Rightarrow> bool" where
  \<comment> \<open>what the columns need beyond the schemas: lengths of the address and the hash, no \<open>NUL\<close>\<close>
  "storable_identity pwhash rq \<longleftrightarrow> vchar 320 (lower_s (sstrip (rr_email rq))) \<and> vchar 512 (pwhash (rr_password rq)) \<and>
     text_ok (rr_organization_name rq)"

lemma lower_char_idem [simp]: "lower_char (lower_char c) = lower_char c"
proof (cases "65 \<le> (of_char c :: nat) \<and> (of_char c :: nat) \<le> 90")
  case True
  then have "(of_char (lower_char c) :: nat) = of_char c + 32"
    by (simp add: lower_char_def of_char_of)
  then show ?thesis using True by (simp add: lower_char_def [of "lower_char c"])
qed (auto simp: lower_char_def)

lemma lower_s_idem [simp]: "lower_s (lower_s w) = lower_s w"
  by (simp add: lower_s_def)

lemma slug_pattern_lower: "slug_pattern w \<Longrightarrow> lower_s w = w \<and> CHR 0x00 \<notin> set w"
proof -
  assume p: "slug_pattern w"
  have chars: "set (join_with (CHR ''-'') ws) \<subseteq> insert (CHR ''-'') (\<Union> (set ` set ws))" for ws
    by (induction "CHR ''-''" ws rule: join_with.induct) auto
  have sub: "set w \<subseteq> set ''-abcdefghijklmnopqrstuvwxyz0123456789''"
    using p chars [of "split_on (CHR ''-'') w"] unfolding slug_pattern_def list_all_iff join_split by fastforce
  have low: "\<forall>c \<in> set ''-abcdefghijklmnopqrstuvwxyz0123456789''. lower_char c = c"
    by (simp add: lower_char_def)
  have "lower_s w = w" unfolding lower_s_def by (rule map_idI) (use low sub in blast)
  moreover have "CHR 0x00 \<notin> set w" using sub by auto
  ultimately show ?thesis ..
qed

text \<open>
  At registration the identifiers are lower-cased before they are checked; the browser login has no such
  step, so that a slug with a capital letter is refused there although the type asks for lower case.
\<close>

lemma capital_slug_refused:
  assumes "c \<in> set (sstrip w)" and "lower_char c \<noteq> c"
  shows "OrganizationSlug w = None"
proof -
  have "lower_s (sstrip w) \<noteq> sstrip w"
  proof
    assume "lower_s (sstrip w) = sstrip w"
    then have "lower_char c = c" using assms(1) by (simp add: lower_s_def map_eq_conv [of _ _ id, simplified])
    with assms(2) show False by simp
  qed
  then show ?thesis using slug_pattern_lower by (auto simp: OrganizationSlug_def Let_def)
qed

lemma capital_slug_refused_example: "OrganizationSlug ''Acme'' = None"
proof (rule capital_slug_refused [of "CHR ''A''"])
  show "CHR ''A'' \<in> set (sstrip ''Acme'')" by (simp add: sstrip_def strip_by_def is_space_def)
  show "lower_char CHR ''A'' \<noteq> CHR ''A''" by code_simp
qed

lemma parsed_slug:
  assumes "parse_register valid_email trim raw = Some rq"
  shows "rr_organization_slug rq = lower_s (rr_organization_slug rq)" "vchar 100 (rr_organization_slug rq)"
    "length (rr_organization_name rq) \<le> 200"
proof -
  have slug: "OrganizationSlug w = Some (rr_organization_slug rq) \<Longrightarrow>
      rr_organization_slug rq = lower_s (rr_organization_slug rq) \<and> vchar 100 (rr_organization_slug rq)" for w
    using slug_pattern_lower [of "sstrip w"] by (auto simp: OrganizationSlug_def Let_def vchar_def split: if_splits)
  from assms obtain w where "OrganizationSlug w = Some (rr_organization_slug rq)" "length (rr_organization_name rq) \<le> 200"
    by (auto simp: parse_register_def string_constraints_def Let_def split: option.splits if_splits)
  with slug show "rr_organization_slug rq = lower_s (rr_organization_slug rq)" "vchar 100 (rr_organization_slug rq)"
    "length (rr_organization_name rq) \<le> 200" by blast+
qed

lemma fresh_user_no_member:
  assumes "db_ok s" and "fresh_identity uid oid s" and "x \<in> set (organization_members s)"
  shows "m_user_id x \<noteq> uid"
proof -
  have "member_ok s x" using assms(1,3) by (auto simp: db_ok_defs list_all_iff)
  then show ?thesis using assms(2) unfolding member_ok_def list_ex_iff fresh_identity_def by (metis imageI)
qed

lemma registered_db_ok:
  assumes ok: "db_ok s" and parsed: "parse_register valid_email trim raw = Some rq"
    and fresh: "fresh_identity uid oid s" and unused: "identity_unused rq s" and store: "storable_identity pwhash rq"
  shows "db_ok (registered now uid oid pwhash rq s)"
  unfolding registered_def
proof (rule joined_db_ok [OF ok])
  have "(oid, uid) \<notin> (\<lambda>r. (m_organization_id r, m_user_id r)) ` set (organization_members s)"
    using fresh_user_no_member [OF ok fresh] by auto
  moreover have "distinct (map (\<lambda>r. (m_organization_id r, m_user_id r)) (organization_members s))"
    using ok by (simp add: db_ok_defs)
  ultimately show "distinct (map (\<lambda>r. (m_organization_id r, m_user_id r)) (organization_members s @ [new_admin now uid oid]))"
    by (simp add: new_admin_def)
  have "distinct (map u_id (users s))" "distinct (map u_email (users s))" "distinct (map o_id (organizations s))"
      "distinct (map o_slug (organizations s))" using ok by (simp_all add: db_ok_defs)
  then show "distinct (map u_id (users s @ [new_user uid pwhash rq]))" "distinct (map u_email (users s @ [new_user uid pwhash rq]))"
      "distinct (map o_id (organizations s @ [new_organization oid rq]))"
      "distinct (map o_slug (organizations s @ [new_organization oid rq]))"
    using fresh unused by (simp_all add: fresh_identity_def identity_unused_def new_user_def new_organization_def)
qed (use parsed_slug [OF parsed] store in \<open>simp_all add: organization_ok_def user_ok_def member_ok_def new_user_def
    new_organization_def new_admin_def storable_identity_def utext_def\<close>)

lemma register_commits:
  "db_ok (registered now uid oid pwhash rq s) \<Longrightarrow> register now NoFault uid oid pwhash rq s =
     (Inr (new_user uid pwhash rq, new_organization oid rq, new_admin now uid oid), registered now uid oid pwhash rq s)"
  by (simp add: register_unfold commit_def db_ok_def)

lemma authenticate_registered:
  assumes "identity_unused rq s" and "lower_s (sstrip email) = lower_s (sstrip (rr_email rq))"
    and "pm_verify pm password (pwhash (rr_password rq))"
  shows "fst (authenticate pm email password (registered now uid oid pwhash rq s)) = Inr (new_user uid pwhash rq)"
proof -
  have "find (\<lambda>r. u_email r = lower_s (sstrip email)) (users s) = None"
    using assms(1,2) unfolding find_None_iff identity_unused_def by (metis imageI)
  then have "find (\<lambda>r. u_email r = lower_s (sstrip email)) (users s @ [new_user uid pwhash rq]) = Some (new_user uid pwhash rq)"
    using assms(2) by (simp add: find_append new_user_def)
  then show ?thesis using assms(3) by (simp add: authenticate_def registered_def new_user_def)
qed

lemma context_rows_registered:
  assumes "db_ok s" and "fresh_identity uid oid s"
  shows "context_rows oid uid (registered now uid oid pwhash rq s) = [(new_organization oid rq, new_admin now uid oid)]"
proof -
  have m: "\<forall>x \<in> set (organization_members s). m_user_id x \<noteq> uid"
    using fresh_user_no_member [OF assms] by blast
  have none: "filter (\<lambda>x. m_organization_id x = o_id r \<and> o_id r = oid \<and> o_status r = ORG_ACTIVE \<and> m_user_id x = uid \<and>
      m_status x = MEMBER_ACTIVE) (organization_members s) = []" for r
    using m by (auto simp: filter_empty_conv)
  let ?f = "\<lambda>r. map (\<lambda>x. (r, x)) (filter (\<lambda>x. m_organization_id x = o_id r \<and> o_id r = oid \<and> o_status r = ORG_ACTIVE \<and>
      m_user_id x = uid \<and> m_status x = MEMBER_ACTIVE) (organization_members s @ [new_admin now uid oid]))"
  have "?f r = []" if "r \<in> set (organizations s)" for r
  proof -
    have "o_id r \<noteq> oid" using that assms(2) unfolding fresh_identity_def by blast
    then show ?thesis by simp
  qed
  then have "concat (map ?f (organizations s)) = []" by (simp only: concat_eq_Nil_conv set_map) blast
  moreover have "?f (new_organization oid rq) = [(new_organization oid rq, new_admin now uid oid)]"
    unfolding filter_append none by (simp add: new_organization_def new_admin_def)
  ultimately show ?thesis
    by (simp only: context_rows_def registered_def joined_tables map_append concat_append list.map concat.simps append_Nil append_Nil2)
qed

lemma current_user_of_token:
  assumes "jwt_ok lib" and "uuid_range uid" and "uuid_range jti"
    and "find (\<lambda>r. u_id r = uid) (users s) = Some user" and "u_status user = USER_ACTIVE"
    and "issued_at \<le> now" and "now + seconds 1 \<le> issued_at + mg_lifetime mg"
  shows "get_current_user lib mg now (Some (''Bearer'', fst (issue lib mg issued_at jti uid))) s = Inr user"
proof -
  have "decode_user_id lib mg now (fst (issue lib mg issued_at jti uid)) = Inr uid"
    using floor_seconds [of issued_at] floor_seconds [of "issued_at + mg_lifetime mg"] assms(6,7)
    unfolding decode_issued [OF assms(1-3)] by simp
  moreover have "lower_s ''Bearer'' = ''bearer''" by code_simp
  ultimately show ?thesis using assms(4,5) by (simp add: get_current_user_def)
qed

text \<open>
  C15. Registration leads to an administrator who can act. A parsed registration with an unused address
  and slug commits; logging in with that password and any spelling of the address yields a token;
  and for the lifetime of that token, less one second, it authorizes administrator requests for the
  new organization as the new user.
\<close>

theorem registration_grants_admin:
  assumes "db_ok s" and "parse_register valid_email trim raw = Some rq" and "fresh_identity uid oid s"
    and "identity_unused rq s" and "storable_identity pwhash rq" and "jwt_ok lib" and "uuid_range uid" and "uuid_range jti"
    and "pm_verify pm (rr_password rq) (pwhash (rr_password rq))"
    and "lower_s (sstrip email) = lower_s (sstrip (rr_email rq))"
    and "issued_at \<le> later" and "later + seconds 1 \<le> issued_at + mg_lifetime mg"
  shows "\<exists>r s' tok n. api_register now NoFault uid oid pwhash rq s = (Inr r, s') \<and> db_ok s' \<and>
    login lib mg pm issued_at jti email (rr_password rq) s' = Inr (tok, n) \<and>
    authorize lib mg later [ADMIN] (Some (''Bearer'', tok)) oid s' =
      Inr \<lparr>ctx_organization = new_organization oid rq, ctx_membership = new_admin now uid oid\<rparr>"
proof -
  let ?s = "registered now uid oid pwhash rq s"
  have ok: "db_ok ?s" by (rule registered_db_ok [OF assms(1-5)])
  have user: "find (\<lambda>r. u_id r = uid) (users ?s) = Some (new_user uid pwhash rq)" "u_status (new_user uid pwhash rq) = USER_ACTIVE"
    "u_id (new_user uid pwhash rq) = uid"
  proof -
    have "find (\<lambda>r. u_id r = uid) (users s) = None"
      using assms(3) unfolding find_None_iff fresh_identity_def by (metis imageI)
    then show "find (\<lambda>r. u_id r = uid) (users ?s) = Some (new_user uid pwhash rq)"
      by (simp add: registered_def find_append new_user_def)
  qed (simp_all add: new_user_def)
  have "login lib mg pm issued_at jti email (rr_password rq) ?s = Inr (issue lib mg issued_at jti uid)"
    using authenticate_registered [OF assms(4,10), where pm = pm and password = "rr_password rq" and pwhash = pwhash] assms(9)
      user(3) by (simp add: login_def)
  moreover have "authorize lib mg later [ADMIN] (Some (''Bearer'', fst (issue lib mg issued_at jti uid))) oid ?s =
      Inr \<lparr>ctx_organization = new_organization oid rq, ctx_membership = new_admin now uid oid\<rparr>"
    using current_user_of_token [OF assms(6-8) user(1,2) assms(11,12)] context_rows_registered [OF assms(1,3)]
    by (simp add: authorize_def get_organization_context_def require_roles_def user(3)) (simp add: new_admin_def)
  moreover have "\<exists>r. api_register now NoFault uid oid pwhash rq s = (Inr r, ?s)"
    using register_commits [OF ok] by (simp add: api_register_def)
  ultimately show ?thesis using ok by (metis prod.collapse)
qed

definition sample_registration :: register_request where
  "sample_registration = \<lparr>rr_email = ''eve@corp.test'', rr_password = ''correct horse'',
     rr_organization_name = u ''Corp'', rr_organization_slug = ''corp-1''\<rparr>"

definition plain_passwords :: password_manager where
  "plain_passwords = \<lparr>pm_verify = (\<lambda>p h. h = CHR ''#'' # p), pm_dummy_hash = ''#''\<rparr>"

lemma lower_sample: "lower_s (sstrip ''eve@corp.test'') = ''eve@corp.test''" "sstrip ''corp-1'' = ''corp-1''"
    "lower_s ''corp-1'' = ''corp-1''"
  by (simp_all add: lower_s_def lower_char_def sstrip_def strip_by_def is_space_def)

lemma sample_registration_parsed: "parse_register Some pg_trim sample_registration = Some sample_registration"
  by (simp add: parse_register_def sample_registration_def lower_sample OrganizationSlug_def slug_pattern_def
      string_constraints_def pg_trim_def strip_by_def u_def Let_def)

lemma sample_registration_ready:
  "fresh_identity 60 61 sample_db" "identity_unused sample_registration sample_db"
  "storable_identity (Cons (CHR ''#'')) sample_registration"
  by (simp_all add: fresh_identity_def identity_unused_def storable_identity_def sample_registration_def lower_sample
      sample_db_def vchar_def u_def text_ok_def)

theorem registration_grants_admin_witness:
  "\<exists>r s' tok n. api_register 5 NoFault 60 61 (Cons (CHR ''#'')) sample_registration sample_db = (Inr r, s') \<and> db_ok s' \<and>
    login transparent_jwt sample_manager plain_passwords 6 50 ''eve@corp.test'' ''correct horse'' s' = Inr (tok, n) \<and>
    authorize transparent_jwt sample_manager 7 [ADMIN] (Some (''Bearer'', tok)) 61 s' =
      Inr \<lparr>ctx_organization = new_organization 61 sample_registration, ctx_membership = new_admin 5 60 61\<rparr>"
proof -
  have pw: "pm_verify plain_passwords (rr_password sample_registration) (CHR ''#'' # rr_password sample_registration)"
      "rr_password sample_registration = ''correct horse''" "rr_email sample_registration = ''eve@corp.test''"
      "(7::int) + seconds 1 \<le> 6 + mg_lifetime sample_manager"
    by (simp_all add: plain_passwords_def sample_registration_def sample_manager_def seconds_def)
  from registration_grants_admin [OF sample_db_ok sample_registration_parsed sample_registration_ready transparent_jwt_ok
      sample_uuid_range(3,2) pw(1), of "''eve@corp.test''" 6 7 sample_manager 5] pw
  show ?thesis by simp
qed

subsection \<open>Authorization\<close>

lemma distinct_pairs:
  "distinct rs \<Longrightarrow> distinct ms \<Longrightarrow> distinct (concat (map (\<lambda>r. map (\<lambda>x. (r, x)) (filter (P r) ms)) rs))"
  by (induction rs) (auto simp: distinct_map inj_on_def)

lemma distinct_singleton: "distinct xs \<Longrightarrow> set xs = {a} \<Longrightarrow> xs = [a]"
  by (cases xs; cases "tl xs") auto

lemma context_rows_mem:
  "(r, x) \<in> set (context_rows oid uid s) \<longleftrightarrow> r \<in> set (organizations s) \<and> x \<in> set (organization_members s) \<and>
     m_organization_id x = o_id r \<and> o_id r = oid \<and> o_status r = ORG_ACTIVE \<and> m_user_id x = uid \<and> m_status x = MEMBER_ACTIVE"
  by (auto simp: context_rows_def)

lemma context_rows_single:
  assumes ok: "db_ok s" and mem: "(r, x) \<in> set (context_rows oid uid s)"
  shows "context_rows oid uid s = [(r, x)]"
proof -
  have keys: "distinct (map o_id (organizations s))"
      "distinct (map (\<lambda>r. (m_organization_id r, m_user_id r)) (organization_members s))"
    using ok by (simp_all add: db_ok_defs)
  then have "distinct (organizations s)" "distinct (organization_members s)" by (simp_all add: distinct_map)
  then have d: "distinct (context_rows oid uid s)" unfolding context_rows_def by (rule distinct_pairs)
  have all: "p = (r, x)" if "p \<in> set (context_rows oid uid s)" for p
  proof -
    obtain r' x' where p: "p = (r', x')" by (cases p)
    note f = mem [unfolded context_rows_mem] that [unfolded p context_rows_mem]
    have "r' = r" by (rule distinct_key_unique [OF keys(1)]) (simp_all add: f)
    moreover have "x' = x" by (rule distinct_key_unique [OF keys(2)]) (simp_all add: f)
    ultimately show ?thesis using p by simp
  qed
  then have "set (context_rows oid uid s) = {(r, x)}" using mem by blast
  with d show ?thesis by (rule distinct_singleton)
qed

lemma organization_context_iff:
  assumes "db_ok s"
  shows "get_organization_context oid user s = Inr ctx \<longleftrightarrow>
    (ctx_organization ctx, ctx_membership ctx) \<in> set (context_rows oid (u_id user) s)"
proof
  assume "get_organization_context oid user s = Inr ctx"
  then show "(ctx_organization ctx, ctx_membership ctx) \<in> set (context_rows oid (u_id user) s)"
    by (auto simp: get_organization_context_def split: list.splits)
next
  assume "(ctx_organization ctx, ctx_membership ctx) \<in> set (context_rows oid (u_id user) s)"
  from context_rows_single [OF assms this] show "get_organization_context oid user s = Inr ctx"
    by (simp add: get_organization_context_def)
qed

lemma current_user_iff:
  assumes "db_ok s"
  shows "get_current_user lib mg now credentials s = Inr user \<longleftrightarrow>
    (\<exists>scheme token. credentials = Some (scheme, token) \<and> lower_s scheme = ''bearer'' \<and>
       decode_user_id lib mg now token = Inr (u_id user)) \<and> user \<in> set (users s) \<and> u_status user = USER_ACTIVE"
proof -
  have "distinct (map u_id (users s))" using assms by (simp add: db_ok_defs)
  then have "user \<in> set (users s) \<Longrightarrow> find (\<lambda>r. u_id r = u_id user) (users s) = Some user"
    by (rule find_key)
  then show ?thesis
    by (auto simp: get_current_user_def dest: find_SomeD split: option.splits sum.splits if_splits)
qed

text \<open>
  C12. A request is authorized exactly when its token names an active user with an active membership,
  in one of the required roles, of the active organization it asks for; the context handed to the
  endpoint is that organization and that membership, so everything an endpoint then writes for
  the caller refers to rows that exist.
\<close>

theorem authorize_iff:
  assumes "db_ok s"
  shows "authorize lib mg now roles credentials oid s = Inr ctx \<longleftrightarrow>
    (\<exists>scheme token user. credentials = Some (scheme, token) \<and> lower_s scheme = ''bearer'' \<and>
       decode_user_id lib mg now token = Inr (u_id user) \<and> user \<in> set (users s) \<and> u_status user = USER_ACTIVE \<and>
       ctx_organization ctx \<in> set (organizations s) \<and> o_id (ctx_organization ctx) = oid \<and>
       o_status (ctx_organization ctx) = ORG_ACTIVE \<and> ctx_membership ctx \<in> set (organization_members s) \<and>
       m_organization_id (ctx_membership ctx) = oid \<and> m_user_id (ctx_membership ctx) = u_id user \<and>
       m_status (ctx_membership ctx) = MEMBER_ACTIVE \<and> m_role (ctx_membership ctx) \<in> set roles)"
proof -
  have "authorize lib mg now roles credentials oid s = Inr ctx \<longleftrightarrow>
      (\<exists>user. get_current_user lib mg now credentials s = Inr user \<and> get_organization_context oid user s = Inr ctx \<and>
        m_role (ctx_membership ctx) \<in> set roles)"
    by (auto simp: authorize_def bindE_def require_roles_def split: sum.splits if_splits)
  then show ?thesis
    unfolding current_user_iff [OF assms] organization_context_iff [OF assms] context_rows_mem by auto
qed

theorem authorize_iff_witness:
  "authorize transparent_jwt sample_manager 7 [ADMIN] (Some (''Bearer'', fst (issue transparent_jwt sample_manager 6 50 10))) 1 sample_db =
     Inr \<lparr>ctx_organization = hd (organizations sample_db), ctx_membership = hd (organization_members sample_db)\<rparr>"
proof -
  have "decode_user_id transparent_jwt sample_manager 7 (fst (issue transparent_jwt sample_manager 6 50 10)) = Inr 10"
    unfolding decode_issued [OF transparent_jwt_ok sample_uuid_range(1,2)] by (simp add: sample_manager_def seconds_def)
  moreover have "lower_s ''Bearer'' = ''bearer''" by code_simp
  ultimately show ?thesis unfolding authorize_iff [OF sample_db_ok]
    by (intro exI [of _ "''Bearer''"] exI [of _ "fst (issue transparent_jwt sample_manager 6 50 10)"]
        exI [of _ "hd (users sample_db)"]) (simp add: sample_db_def)
qed

subsection \<open>Login failures and conflicts\<close>

text \<open>
  Login does not tell why it failed: an unknown address, a wrong password and a disabled account
  give the same 401 response, and every attempt, successful or not, costs exactly one verification
  of the given password. A token is issued only for an active account whose password verifies.
\<close>

lemma login_uniform:
  "(case login lib mg pm now jti email password s of
      Inl e \<Rightarrow> e = unauthorized ''Invalid email or password''
    | Inr tok \<Rightarrow> (\<exists>user \<in> set (users s). u_email user = lower_s (sstrip email) \<and> u_status user = USER_ACTIVE \<and>
        pm_verify pm password (u_password_hash user) \<and> tok = issue lib mg now jti (u_id user))) \<and>
   (\<exists>h. snd (authenticate pm email password s) = [(password, h)])"
  by (cases "find (\<lambda>r. u_email r = lower_s (sstrip email)) (users s)")
    (auto simp: login_def authenticate_def dest: find_SomeD)

text \<open>
  A registration whose address or slug is taken answers 409 and leaves the database as it was,
  whatever the identifiers drawn for it.
\<close>

lemma registration_conflict:
  assumes "types_ok s" and "parse_register valid_email trim raw = Some rq" and "storable_identity pwhash rq"
    and "\<not> identity_unused rq s"
  shows "\<exists>e. api_register now fault uid oid pwhash rq s = (Inl e, s) \<and> api_status e = 409"
proof -
  let ?s = "registered now uid oid pwhash rq s"
  have "types_ok ?s"
    using assms(1,3) parsed_slug [OF assms(2)]
    by (simp add: types_ok_def registered_def new_user_def new_organization_def storable_identity_def utext_def)
  moreover have "\<not> unique_keys_ok ?s"
    using assms(4) by (auto simp: unique_keys_ok_def unique_by_def registered_def new_user_def new_organization_def
        identity_unused_def)
  ultimately have "commit ?s = Inl IntegrityError" by (simp add: commit_def constraints_ok_def)
  then show ?thesis by (simp add: api_register_def register_unfold)
qed

lemma registration_conflict_example:
  "\<exists>e. api_register 9 NoFault 70 71 (Cons (CHR ''#'')) sample_registration
      (registered 5 60 61 (Cons (CHR ''#'')) sample_registration sample_db) =
    (Inl e, registered 5 60 61 (Cons (CHR ''#'')) sample_registration sample_db) \<and> api_status e = 409"
proof -
  let ?s = "registered 5 60 61 (Cons (CHR ''#'')) sample_registration sample_db"
  have "db_ok ?s" by (rule registered_db_ok [OF sample_db_ok sample_registration_parsed sample_registration_ready])
  then have "types_ok ?s" by (simp add: db_ok_def)
  moreover have "\<not> identity_unused sample_registration ?s"
    by (simp add: identity_unused_def registered_def new_user_def)
  ultimately show ?thesis
    using registration_conflict [OF _ sample_registration_parsed sample_registration_ready(3)] by blast
qed

subsection \<open>New members\<close>

definition agent_member :: "instant \<Rightarrow> uuid \<Rightarrow> uuid \<Rightarrow> organization_member" where
  "agent_member now org uid = \<lparr>m_organization_id = org, m_user_id = uid, m_role = AGENT, m_status = MEMBER_ACTIVE,
     m_created_at = now\<rparr>"

definition agent_joined :: "tx \<Rightarrow> uuid \<Rightarrow> uuid \<Rightarrow> uuid \<Rightarrow> db \<Rightarrow> db" where
  \<comment> \<open>the specification of an addition: one membership and its audit event\<close>
  "agent_joined t org actor uid s = s\<lparr>organization_members := organization_members s @ [agent_member (tx_now t) org uid],
     audit_events := audit_events s @ [\<lparr>a_id = tx_event t, a_organization_id = org, a_actor_user_id = Some actor,
       a_action = ''organization_member.created'', a_resource_type = ''organization_member'', a_resource_id = Some uid,
       a_metadata = [(''role'', MStr ''agent'')], a_created_at = tx_now t\<rparr>]\<rparr>"

lemma joined_member: "joined [] [] ms s = s\<lparr>organization_members := organization_members s @ ms\<rparr>"
  by (cases s) (simp add: joined_def)

lemma member_pending:
  "record_organization_member_created (tx_now t) (tx_event t) org actor uid (membership_role_value AGENT)
     (s\<lparr>organization_members := organization_members s @ [agent_member (tx_now t) org uid]\<rparr>) =
   Inr (agent_joined t org actor uid s)"
  by (simp add: record_organization_member_created_def record_event_Inr MEMBERSHIP_ROLES_def agent_joined_def)

lemma agent_joined_db_ok:
  assumes "db_ok s" and "has_org s org" and "has_member s org actor" and "\<not> has_member s org uid"
    and "uid \<in> u_id ` set (users s)" and "tx_event t \<notin> a_id ` set (audit_events s)"
  shows "db_ok (agent_joined t org actor uid s)"
proof -
  let ?x = "agent_member (tx_now t) org uid"
  let ?s = "joined [] [] [?x] s"
  have ok: "db_ok ?s"
  proof (rule joined_db_ok [OF assms(1)])
    have "(org, uid) \<notin> (\<lambda>r. (m_organization_id r, m_user_id r)) ` set (organization_members s)"
      using assms(4) by (auto simp: has_member_def list_ex_iff)
    moreover have "distinct (map (\<lambda>r. (m_organization_id r, m_user_id r)) (organization_members s))"
      using assms(1) by (simp add: db_ok_defs)
    ultimately show "distinct (map (\<lambda>r. (m_organization_id r, m_user_id r)) (organization_members s @ [?x]))"
      by (simp add: agent_member_def)
    show "list_all (member_ok ?s) [?x]"
      using assms(2,5) by (auto simp: member_ok_def agent_member_def list_ex_iff)
  qed (use assms(1) in \<open>simp_all add: db_ok_defs\<close>)
  have rec: "record_event (tx_now t) (tx_event t) org ORGANIZATION_MEMBER_CREATED (Some actor) ORGANIZATION_MEMBER
      (Some uid) [(''role'', MStr ''agent'')] ?s = Inr (agent_joined t org actor uid s)"
    by (simp add: record_event_Inr joined_member agent_joined_def)
  show ?thesis using record_event_db_ok [OF ok _ _ _ rec] assms(2,3,6) by simp
qed

text \<open>
  An administrator adds an agent by address: an address without an active account answers 404, an
  existing membership, active or not, answers 409, both without change; otherwise exactly one
  active agent membership and its audit event are stored and every constraint still holds.
\<close>

lemma agent_added:
  assumes "db_ok s" and "tx_others t s = s" and "tx_fault t = NoFault"
    and "ctx_organization ctx \<in> set (organizations s)" and "ctx_membership ctx \<in> set (organization_members s)"
    and "m_organization_id (ctx_membership ctx) = o_id (ctx_organization ctx)" and "tx_event t \<notin> a_id ` set (audit_events s)"
  shows "case find (\<lambda>r. u_email r = email \<and> u_status r = USER_ACTIVE) (users s) of
      None \<Rightarrow> (\<exists>e. add_organization_member t ctx email s = (Inl e, s) \<and> api_status e = 404)
    | Some user \<Rightarrow>
        if has_member s (o_id (ctx_organization ctx)) (u_id user)
        then \<exists>e. add_organization_member t ctx email s = (Inl e, s) \<and> api_status e = 409
        else \<exists>r. add_organization_member t ctx email s =
            (Inr r, agent_joined t (o_id (ctx_organization ctx)) (m_user_id (ctx_membership ctx)) (u_id user) s) \<and>
          mv_email r = email \<and> mv_role r = AGENT \<and> mv_status r = MEMBER_ACTIVE \<and>
          db_ok (agent_joined t (o_id (ctx_organization ctx)) (m_user_id (ctx_membership ctx)) (u_id user) s)"
proof (cases "find (\<lambda>r. u_email r = email \<and> u_status r = USER_ACTIVE) (users s)")
  case None
  then show ?thesis by (simp add: add_organization_member_def add_agent_def)
next
  case (Some user)
  let ?org = "o_id (ctx_organization ctx)" and ?actor = "m_user_id (ctx_membership ctx)"
  have user: "user \<in> set (users s)" "u_email user = email" using find_SomeD [OF Some] by simp_all
  show ?thesis
  proof (cases "has_member s ?org (u_id user)")
    case True
    with Some show ?thesis by (simp add: add_organization_member_def add_agent_def)
  next
    case False
    let ?s = "agent_joined t ?org ?actor (u_id user) s"
    have "has_org s ?org" "has_member s ?org ?actor"
      using assms(4-6) by (auto simp: has_org_def has_member_def list_ex_iff)
    then have ok: "db_ok ?s" using agent_joined_db_ok [OF assms(1)] False user(1) assms(7) by simp
    have "add_agent t ?org ?actor email s = (Inr (agent_member (tx_now t) ?org (u_id user)), ?s)"
      using Some False assms(2,3) member_pending [of t ?org ?actor "u_id user" s] ok
      by (simp add: add_agent_def agent_member_def commit_def db_ok_def)
    moreover have "find (\<lambda>x. u_id x = u_id user) (users ?s) = Some user"
      using find_key [of u_id "users s" user] user(1) assms(1) by (simp add: agent_joined_def db_ok_defs)
    ultimately show ?thesis using Some False ok user(2)
      by (simp add: add_organization_member_def member_response_def agent_member_def)
  qed
qed

definition beta_context :: organization_context where
  "beta_context = \<lparr>ctx_organization = organizations sample_db ! 1, ctx_membership = organization_members sample_db ! 2\<rparr>"

lemma agent_added_example:
  "\<exists>r. fst (add_organization_member (quiet_tx 8 50) beta_context ''bob@acme.test'' sample_db) = Inr r \<and> mv_role r = AGENT"
proof -
  have f: "find (\<lambda>r. u_email r = ''bob@acme.test'' \<and> u_status r = USER_ACTIVE) (users sample_db) = Some (users sample_db ! 1)"
      "\<not> has_member sample_db (o_id (ctx_organization beta_context)) (u_id (users sample_db ! 1))"
      "ctx_organization beta_context \<in> set (organizations sample_db)"
      "ctx_membership beta_context \<in> set (organization_members sample_db)"
      "m_organization_id (ctx_membership beta_context) = o_id (ctx_organization beta_context)"
    by (simp_all add: beta_context_def sample_db_def has_member_def)
  from agent_added [OF sample_db_ok _ _ f(3-5), of "quiet_tx 8 50" "''bob@acme.test''"] f(1,2) show ?thesis by auto
qed

end
