(* ===== verification/SF_Classification.thy ===== *)
theory SF_Classification
  imports SF_Identity
begin

text \<open>
  \<open>app/classification\<close>: the preparation of the opening request (\<open>inputs.py\<close>), the provider port and its
  scripted fake (\<open>providers.py\<close>), the output schema (\<open>schemas.py\<close>), and the application service
  (\<open>application.py\<close>) with its endpoints. \<open>classify\<close> is two transactions with the provider call between
  them, during which other sessions run (\<open>tx_others\<close>). Digests and the JSON reader are arguments: the
  record \<open>digests\<close> (SHA-256 of the canonical JSON of its argument, of which the columns need that it
  is 64 hexadecimal digits) and \<open>json_pairs\<close> (\<open>json.loads\<close> with the pairs of every object in order).
\<close>

subsection \<open>Errors and schemas\<close>

datatype classification_error =
    ProviderTimeoutError | ProviderUnavailableError | ProviderRateLimitedError
  | ProviderAuthenticationError | InvalidProviderOutputError | InputTooLargeError

fun error_category :: "classification_error \<Rightarrow> string" where
  "error_category ProviderTimeoutError = ''provider_timeout''"
| "error_category ProviderUnavailableError = ''provider_unavailable''"
| "error_category ProviderRateLimitedError = ''provider_rate_limited''"
| "error_category ProviderAuthenticationError = ''provider_authentication''"
| "error_category InvalidProviderOutputError = ''invalid_provider_output''"
| "error_category InputTooLargeError = ''input_too_large''"

definition SCHEMA_VERSION :: string where "SCHEMA_VERSION = ''ticket_classification.v1''"
definition INPUT_POLICY_VERSION :: string where "INPUT_POLICY_VERSION = ''opening_request.v1''"
definition TAXONOMY_VERSION :: string where "TAXONOMY_VERSION = ''support_categories.v1''"

record classification_result =
  cr_outcome :: string
  cr_category :: "string option"

definition category_matches_outcome :: "classification_result \<Rightarrow> bool" where
  "category_matches_outcome r \<longleftrightarrow> (cr_outcome r = ''classified'') = (cr_category r \<noteq> None)"

definition parse_category :: "json \<Rightarrow> string option option" where
  "parse_category j = (case j of JNull \<Rightarrow> Some None
     | JStr w \<Rightarrow> if w \<in> set classification_categories then Some (Some w) else None | _ \<Rightarrow> None)"

definition result_of_values :: "json \<Rightarrow> json \<Rightarrow> classification_result option" where
  "result_of_values outcome category =
     (case (outcome, parse_category category) of
        (JStr w, Some cat) \<Rightarrow>
          let r = \<lparr>cr_outcome = w, cr_category = cat\<rparr>
          in if (w = ''classified'' \<or> w = ''insufficient_context'') \<and> category_matches_outcome r then Some r else None
      | _ \<Rightarrow> None)"

definition ClassificationResult :: "json \<Rightarrow> classification_result option" where
  \<comment> \<open>strict validation of a mapping, extra keys forbidden\<close>
  "ClassificationResult j = (case j of
     JObj kvs \<Rightarrow>
       if set (map fst kvs) \<noteq> {''outcome'', ''category''} then None
       else
         (case (map_of kvs ''outcome'', map_of kvs ''category'') of
            (Some outcome, Some category) \<Rightarrow> result_of_values outcome category
          | _ \<Rightarrow> None)
   | _ \<Rightarrow> None)"

fun unique_objects :: "json \<Rightarrow> bool" where
  \<comment> \<open>\<open>_unique_object\<close> applied by the reader to every object\<close>
  "unique_objects (JList js) \<longleftrightarrow> list_all unique_objects js"
| "unique_objects (JObj kvs) \<longleftrightarrow> distinct (map fst kvs) \<and> list_all (\<lambda>(k, v). unique_objects v) kvs"
| "unique_objects _ \<longleftrightarrow> True"

definition parse_provider_output :: "(string \<Rightarrow> json option) \<Rightarrow> string \<Rightarrow> classification_error + classification_result" where
  "parse_provider_output json_pairs raw =
     (if 4096 < length raw then Inl InvalidProviderOutputError
      else
        (case json_pairs raw of
           None \<Rightarrow> Inl InvalidProviderOutputError
         | Some value \<Rightarrow>
             if \<not> unique_objects value then Inl InvalidProviderOutputError
             else (case ClassificationResult value of None \<Rightarrow> Inl InvalidProviderOutputError | Some r \<Rightarrow> Inr r)))"

subsection \<open>Inputs and providers\<close>

record opening_message =
  om_id :: uuid
  om_created_at :: instant
  om_author_type :: message_author_type
  om_body :: ustr

record provider_input =
  pi_subject :: ustr
  pi_body :: ustr
  pi_schema_version :: string
  pi_taxonomy_version :: string

record input_identity =
  ii_subject :: ustr
  ii_body :: ustr
  ii_message_id :: "string option"
  ii_input_policy_version :: string
  ii_taxonomy_version :: string
  ii_schema_version :: string

record prepared_input =
  pr_payload :: provider_input
  pr_message_id :: "uuid option"
  pr_fingerprint :: string
  pr_insufficient_context :: bool

record fake_provider =
  fp_response :: "classification_error + string"
  fp_calls :: nat

record digests =
  dg_input :: "input_identity \<Rightarrow> string"
  dg_script :: "classification_error + string \<Rightarrow> string"
  dg_list :: "string list \<Rightarrow> string"

datatype input_exn = TooLarge | InputValueError

definition prepare_input :: "digests \<Rightarrow> ustr \<Rightarrow> opening_message list \<Rightarrow> input_exn + prepared_input" where
  "prepare_input dg subject messages =
     (if 300 < length subject then Inl TooLarge
      else if \<not> distinct (map om_id messages) then Inl InputValueError
      else
        let eligible = filter (\<lambda>x. om_author_type x \<noteq> AUTHOR_SYSTEM) messages;
            opening = first_by (\<lambda>x. (om_created_at x, om_id x)) eligible;
            body = (case opening of None \<Rightarrow> [] | Some x \<Rightarrow> om_body x)
        in if 8000 < length body then Inl TooLarge
           else Inr \<lparr>pr_payload = \<lparr>pi_subject = subject, pi_body = body, pi_schema_version = SCHEMA_VERSION,
                       pi_taxonomy_version = TAXONOMY_VERSION\<rparr>,
                     pr_message_id = map_option om_id opening,
                     pr_fingerprint = dg_input dg \<lparr>ii_subject = subject, ii_body = body,
                       ii_message_id = map_option (\<lambda>x. uuid_str (om_id x)) opening,
                       ii_input_policy_version = INPUT_POLICY_VERSION, ii_taxonomy_version = TAXONOMY_VERSION,
                       ii_schema_version = SCHEMA_VERSION\<rparr>,
                     pr_insufficient_context = (opening = None \<or> ustrip subject = [] \<and> ustrip body = [])\<rparr>)"

definition provider_classify :: "provider_input \<Rightarrow> fake_provider \<Rightarrow> (classification_error + string) \<times> fake_provider" where
  "provider_classify payload p = (fp_response p, p\<lparr>fp_calls := fp_calls p + 1\<rparr>)"

definition classify_opening_request :: "digests \<Rightarrow> (string \<Rightarrow> json option) \<Rightarrow> ustr \<Rightarrow> opening_message list \<Rightarrow> fake_provider \<Rightarrow>
    ((input_exn + classification_error) + classification_result) \<times> fake_provider" where
  "classify_opening_request dg json_pairs subject messages provider =
     (case prepare_input dg subject messages of
        Inl e \<Rightarrow> (Inl (Inl e), provider)
      | Inr prepared \<Rightarrow>
          if pr_insufficient_context prepared
          then (Inr \<lparr>cr_outcome = ''insufficient_context'', cr_category = None\<rparr>, provider)
          else
            (case provider_classify (pr_payload prepared) provider of
               (Inl e, p) \<Rightarrow> (Inl (Inr e), p)
             | (Inr raw, p) \<Rightarrow> (case parse_provider_output json_pairs raw of Inl e \<Rightarrow> (Inl (Inr e), p) | Inr r \<Rightarrow> (Inr r, p))))"

subsection \<open>The application service\<close>

datatype class_exn = ApplicationClassificationError string nat | ClassDatabaseError | ClassAssertionError

record classification_view =
  cv_state :: string
  cv_result_id :: "uuid option"
  cv_completed_at :: "instant option"
  cv_configuration_version :: string
  cv_result :: "classification_result option"
  cv_error_code :: "string option"

record classification_runtime =
  rt_provider :: fake_provider
  rt_configuration_version :: string

definition runtime_digest :: "digests \<Rightarrow> classification_runtime \<Rightarrow> string" where
  "runtime_digest dg rt = dg_list dg [rt_configuration_version rt, dg_script dg (fp_response (rt_provider rt)),
     INPUT_POLICY_VERSION, TAXONOMY_VERSION, SCHEMA_VERSION, ''scripted.v1'', ''fake.v1'', ''fake'', ''scripted-no-model'']"

definition authorized :: "uuid \<Rightarrow> uuid \<Rightarrow> db \<Rightarrow> bool" where
  "authorized org actor s \<longleftrightarrow> list_ex (\<lambda>x. m_organization_id x = org \<and> m_user_id x = actor \<and> m_status x = MEMBER_ACTIVE \<and>
     m_role x \<in> {ADMIN, AGENT} \<and>
     list_ex (\<lambda>r. o_id r = m_organization_id x \<and> o_status r = ORG_ACTIVE) (organizations s) \<and>
     list_ex (\<lambda>r. u_id r = m_user_id x \<and> u_status r = USER_ACTIVE) (users s)) (organization_members s)"

definition ticket_input :: "digests \<Rightarrow> ticket \<Rightarrow> db \<Rightarrow> input_exn + prepared_input" where
  "ticket_input dg ticket s = prepare_input dg (t_subject ticket)
     (map (\<lambda>x. \<lparr>om_id = tm_id x, om_created_at = tm_created_at x, om_author_type = tm_author_type x, om_body = tm_body x\<rparr>)
       (list_ticket_messages (t_organization_id ticket) (t_id ticket) s))"

definition error_status :: "string \<Rightarrow> nat" where
  "error_status code =
     (if code = ''provider_timeout'' then 504
      else if code \<in> {''provider_unavailable'', ''provider_authentication'', ''provider_rate_limited''} then 503
      else if code = ''invalid_provider_output'' then 502
      else if code = ''input_too_large'' then 422
      else if code = ''authorization_changed'' then 403
      else 409)"

definition class_ticket :: "uuid \<Rightarrow> uuid \<Rightarrow> uuid \<Rightarrow> db \<Rightarrow> class_exn + ticket" where
  "class_ticket org actor ticket_id s =
     (if \<not> authorized org actor s then Inl (ApplicationClassificationError ''classification_forbidden'' 403)
      else (case get_ticket org ticket_id s of
              None \<Rightarrow> Inl (ApplicationClassificationError ''ticket_not_found'' 404)
            | Some t \<Rightarrow> Inr t))"

definition class_view :: "classification_runtime option \<Rightarrow> instant \<Rightarrow> classification_operation option \<Rightarrow> bool \<Rightarrow>
    classification_view" where
  "class_view runtime now operation matches =
     (case operation of
        None \<Rightarrow> \<lparr>cv_state = ''not_requested'', cv_result_id = None, cv_completed_at = None,
                 cv_configuration_version = (case runtime of None \<Rightarrow> ''disabled'' | Some rt \<Rightarrow> rt_configuration_version rt),
                 cv_result = None, cv_error_code = None\<rparr>
      | Some p \<Rightarrow>
          let expired = (op_state p = ''in_progress'' \<and> op_expires_at p \<le> now);
              state1 = (if expired then ''unknown'' else op_state p);
              error = (if expired then Some ''classification_unknown'' else op_error_code p);
              state2 = (if matches then state1 else ''stale'');
              state = (if state2 = ''succeeded'' then ''current'' else state2)
          in \<lparr>cv_state = state, cv_result_id = Some (op_id p), cv_completed_at = op_completed_at p,
              cv_configuration_version = op_configuration_version p,
              cv_result = (if state = ''current''
                then Some \<lparr>cr_outcome = (case op_outcome p of None \<Rightarrow> [] | Some x \<Rightarrow> x), cr_category = op_category p\<rparr> else None),
              cv_error_code = error\<rparr>)"

definition return_or_error :: "classification_view \<Rightarrow> class_exn + classification_view" where
  "return_or_error view =
     (if cv_state view = ''current'' then Inr view
      else
        let code = (case cv_error_code view of Some e \<Rightarrow> e
              | None \<Rightarrow> if cv_state view = ''in_progress'' then ''classification_in_progress'' else ''classification_unknown'')
        in Inl (ApplicationClassificationError code (error_status code)))"

definition operations_of :: "uuid \<Rightarrow> uuid \<Rightarrow> db \<Rightarrow> classification_operation list" where
  "operations_of org ticket_id s =
     filter (\<lambda>p. op_organization_id p = org \<and> op_ticket_id p = ticket_id) (classification_operations s)"

definition find_operation :: "uuid \<Rightarrow> uuid \<Rightarrow> string \<Rightarrow> string \<Rightarrow> db \<Rightarrow> classification_operation option" where
  "find_operation org ticket_id fingerprint config_digest s =
     find (\<lambda>p. op_input_fingerprint p = fingerprint \<and> op_config_digest p = config_digest) (operations_of org ticket_id s)"

definition class_read :: "digests \<Rightarrow> classification_runtime option \<Rightarrow> instant \<Rightarrow> uuid \<Rightarrow> uuid \<Rightarrow> uuid \<Rightarrow> db \<Rightarrow>
    class_exn + classification_view" where
  "class_read dg runtime now org actor ticket_id s =
     (case class_ticket org actor ticket_id s of
        Inl e \<Rightarrow> Inl e
      | Inr ticket \<Rightarrow>
          let latest = (case order_by_desc (\<lambda>p. (op_created_at p, op_id p)) (operations_of org ticket_id s) of
                [] \<Rightarrow> None | p # _ \<Rightarrow> Some p)
          in (case ticket_input dg ticket s of
                Inl InputValueError \<Rightarrow> Inl ClassAssertionError
              | Inl TooLarge \<Rightarrow> Inr (class_view runtime now latest False)
              | Inr prepared \<Rightarrow>
                  (case (case runtime of None \<Rightarrow> None
                         | Some rt \<Rightarrow> find_operation org ticket_id (pr_fingerprint prepared) (runtime_digest dg rt) s) of
                     Some p \<Rightarrow> Inr (class_view runtime now (Some p) True)
                   | None \<Rightarrow> Inr (class_view runtime now latest False))))"

definition class_audit :: "instant \<Rightarrow> uuid \<Rightarrow> classification_operation \<Rightarrow> db \<Rightarrow> audit_error + db" where
  "class_audit now eid p s =
     record_classification_finished now eid (op_organization_id p) (op_requesting_actor_user_id p) (op_id p) (op_state p) s"

definition save_operation :: "classification_operation \<Rightarrow> db \<Rightarrow> db" where
  "save_operation p s = s\<lparr>classification_operations := upd_row op_id (op_id p) (\<lambda>_. p) (classification_operations s)\<rparr>"

definition class_commit :: "db_fault \<Rightarrow> 'r \<Rightarrow> db \<Rightarrow> db \<Rightarrow> (class_exn + 'r) \<times> db" where
  \<comment> \<open>the end of \<open>with self.sessions.begin()\<close>\<close>
  "class_commit fault result pending s =
     (case commit pending of
        Inl _ \<Rightarrow> (Inl ClassDatabaseError, s)
      | Inr s' \<Rightarrow> (case fault of NoFault \<Rightarrow> (Inr result, s') | Aborted \<Rightarrow> (Inl ClassDatabaseError, s)
          | AckLost \<Rightarrow> (Inl ClassDatabaseError, s')))"

record claimed_request =
  cl_operation_id :: uuid
  cl_prepared :: prepared_input
  cl_digest :: string

definition new_operation :: "digests \<Rightarrow> classification_runtime \<Rightarrow> instant \<Rightarrow> uuid \<Rightarrow> uuid \<Rightarrow> uuid \<Rightarrow> uuid \<Rightarrow> prepared_input \<Rightarrow>
    classification_operation" where
  "new_operation dg rt now oid org actor ticket_id prepared =
     \<lparr>op_id = oid, op_organization_id = org, op_ticket_id = ticket_id, op_requesting_actor_user_id = actor,
      op_opening_message_id = pr_message_id prepared, op_input_fingerprint = pr_fingerprint prepared,
      op_config_digest = runtime_digest dg rt, op_configuration_version = rt_configuration_version rt,
      op_input_policy_version = INPUT_POLICY_VERSION, op_taxonomy_version = TAXONOMY_VERSION,
      op_schema_version = SCHEMA_VERSION, op_prompt_version = ''scripted.v1'', op_adapter_version = ''fake.v1'',
      op_provider = ''fake'', op_model = ''scripted-no-model'', op_mode = ''fake'', op_state = ''in_progress'',
      op_outcome = None, op_category = None, op_error_code = None,
      op_attempt_count = (if pr_insufficient_context prepared then 0 else 1), op_elapsed_ms = None,
      op_input_tokens = None, op_output_tokens = None, op_cost = None, op_created_at = now,
      op_expires_at = now + seconds 30, op_completed_at = None\<rparr>"

record claim_tx =
  ck_now :: instant \<comment> \<open>the clock of the transaction\<close>
  ck_operation :: uuid
  ck_event :: uuid
  ck_fault :: db_fault

definition claim_classification :: "digests \<Rightarrow> classification_runtime option \<Rightarrow> claim_tx \<Rightarrow> uuid \<Rightarrow> uuid \<Rightarrow> uuid \<Rightarrow> db \<Rightarrow>
    (class_exn + classification_view + claimed_request) \<times> db" where
  \<comment> \<open>the first transaction of \<open>classify\<close>\<close>
  "claim_classification dg runtime t org actor ticket_id s =
     (case class_ticket org actor ticket_id s of
        Inl e \<Rightarrow> (Inl e, s)
      | Inr ticket \<Rightarrow>
     (case runtime of
        None \<Rightarrow> (Inl (ApplicationClassificationError ''classification_disabled'' 503), s)
      | Some rt \<Rightarrow>
     (case ticket_input dg ticket s of
        Inl TooLarge \<Rightarrow> (Inl (ApplicationClassificationError ''input_too_large'' 422), s)
      | Inl InputValueError \<Rightarrow> (Inl ClassAssertionError, s)
      | Inr prepared \<Rightarrow>
     (case find_operation org ticket_id (pr_fingerprint prepared) (runtime_digest dg rt) s of
        Some existing \<Rightarrow>
          let view = class_view runtime (ck_now t) (Some existing) True in
          if cv_state view = ''unknown'' \<and> op_state existing = ''in_progress''
          then
            let settled = existing\<lparr>op_state := ''unknown'', op_error_code := Some ''classification_unknown'',
                  op_completed_at := Some (ck_now t)\<rparr>
            in (case class_audit (ck_now t) (ck_event t) settled (save_operation settled s) of
                  Inl _ \<Rightarrow> (Inl ClassAssertionError, s)
                | Inr pending \<Rightarrow> class_commit (ck_fault t) (Inl view) pending s)
          else class_commit (ck_fault t) (Inl view) s s
      | None \<Rightarrow>
          class_commit (ck_fault t)
            (Inr \<lparr>cl_operation_id = ck_operation t, cl_prepared = prepared, cl_digest = runtime_digest dg rt\<rparr>)
            (s\<lparr>classification_operations := classification_operations s @
                 [new_operation dg rt (ck_now t) (ck_operation t) org actor ticket_id prepared]\<rparr>) s))))"

record provider_outcome =
  po_result :: "classification_result option"
  po_failure :: "string option"
  po_uncertain :: bool

definition run_provider :: "(string \<Rightarrow> json option) \<Rightarrow> classification_runtime \<Rightarrow> prepared_input \<Rightarrow>
    provider_outcome \<times> classification_runtime" where
  "run_provider json_pairs rt prepared =
     (if pr_insufficient_context prepared
      then (\<lparr>po_result = Some \<lparr>cr_outcome = ''insufficient_context'', cr_category = None\<rparr>, po_failure = None,
             po_uncertain = False\<rparr>, rt)
      else
        let (answer, p) = provider_classify (pr_payload prepared) (rt_provider rt);
            parsed = bindE answer (parse_provider_output json_pairs);
            outcome = (case parsed of
                Inr r \<Rightarrow> \<lparr>po_result = Some r, po_failure = None, po_uncertain = False\<rparr>
              | Inl e \<Rightarrow>
                  if e \<in> {ProviderTimeoutError, ProviderUnavailableError}
                  then \<lparr>po_result = None, po_failure = Some (error_category e), po_uncertain = True\<rparr>
                  else if e \<in> {ProviderRateLimitedError, ProviderAuthenticationError, InvalidProviderOutputError}
                  then \<lparr>po_result = None, po_failure = Some (error_category e), po_uncertain = False\<rparr>
                  else \<lparr>po_result = None, po_failure = Some ''provider_unavailable'', po_uncertain = True\<rparr>)
        in (outcome, rt\<lparr>rt_provider := p\<rparr>))"

record settle_tx =
  st_done :: instant \<comment> \<open>the reading of the clock stored as completion\<close>
  st_check :: instant \<comment> \<open>the later reading compared with the expiry\<close>
  st_elapsed :: int
  st_event :: uuid
  st_fault :: db_fault

definition settled_operation :: "settle_tx \<Rightarrow> bool \<Rightarrow> bool \<Rightarrow> provider_outcome \<Rightarrow> classification_operation \<Rightarrow>
    classification_operation" where
  "settled_operation t auth changed po p =
     (let p1 = p\<lparr>op_completed_at := Some (st_done t), op_elapsed_ms := Some (max 0 (st_elapsed t))\<rparr> in
      if \<not> auth then p1\<lparr>op_state := ''failed'', op_error_code := Some ''authorization_changed''\<rparr>
      else if op_expires_at p \<le> st_check t
        then p1\<lparr>op_state := ''unknown'', op_error_code := Some ''classification_unknown''\<rparr>
      else if changed then p1\<lparr>op_state := ''stale'', op_error_code := Some ''input_changed''\<rparr>
      else (case po_failure po of
              Some f \<Rightarrow> p1\<lparr>op_state := (if po_uncertain po then ''unknown'' else ''failed''), op_error_code := Some f\<rparr>
            | None \<Rightarrow>
                (case po_result po of
                   None \<Rightarrow> p1
                 | Some r \<Rightarrow> p1\<lparr>op_state := ''succeeded'', op_outcome := Some (cr_outcome r), op_category := cr_category r\<rparr>)))"

definition input_changed :: "digests \<Rightarrow> classification_runtime \<Rightarrow> claimed_request \<Rightarrow> uuid \<Rightarrow> uuid \<Rightarrow> db \<Rightarrow> bool" where
  "input_changed dg rt cl org ticket_id s \<longleftrightarrow>
     (case get_ticket org ticket_id s of
        None \<Rightarrow> True
      | Some ticket \<Rightarrow> runtime_digest dg rt \<noteq> cl_digest cl \<or>
          (case ticket_input dg ticket s of Inl _ \<Rightarrow> True | Inr pr \<Rightarrow> pr_fingerprint pr \<noteq> pr_fingerprint (cl_prepared cl)))"

definition settle_classification :: "digests \<Rightarrow> classification_runtime \<Rightarrow> settle_tx \<Rightarrow> claimed_request \<Rightarrow> provider_outcome \<Rightarrow>
    uuid \<Rightarrow> uuid \<Rightarrow> uuid \<Rightarrow> db \<Rightarrow> (class_exn + classification_view) \<times> db" where
  \<comment> \<open>the second transaction of \<open>classify\<close>\<close>
  "settle_classification dg rt t cl po org actor ticket_id s =
     (let auth = authorized org actor s in
      case find (\<lambda>p. op_organization_id p = org \<and> op_id p = cl_operation_id cl) (classification_operations s) of
        None \<Rightarrow> (Inl ClassAssertionError, s)
      | Some p \<Rightarrow>
          let done = (if op_state p \<noteq> ''in_progress'' then Inr (p, s)
                else
                  let q = settled_operation t auth (input_changed dg rt cl org ticket_id s) po p
                  in bindE (class_audit (st_done t) (st_event t) q (save_operation q s)) (\<lambda>s'. Inr (q, s')))
          in (case done of
                Inl _ \<Rightarrow> (Inl ClassAssertionError, s)
              | Inr (q, pending) \<Rightarrow>
                  (case class_commit (st_fault t) (class_view (Some rt) (st_check t) (Some q) True) pending s of
                     (Inl e, s') \<Rightarrow> (Inl e, s')
                   | (Inr view, s') \<Rightarrow>
                       (if \<not> auth then Inl (ApplicationClassificationError ''classification_forbidden'' 403)
                        else return_or_error view, s'))))"

definition classify :: "digests \<Rightarrow> (string \<Rightarrow> json option) \<Rightarrow> classification_runtime option \<Rightarrow> claim_tx \<Rightarrow> (db \<Rightarrow> db) \<Rightarrow> settle_tx \<Rightarrow>
    uuid \<Rightarrow> uuid \<Rightarrow> uuid \<Rightarrow> db \<Rightarrow> (class_exn + classification_view) \<times> db" where
  \<comment> \<open>\<open>others\<close> is what other sessions do while the provider runs\<close>
  "classify dg json_pairs runtime t1 others t2 org actor ticket_id s =
     (case claim_classification dg runtime t1 org actor ticket_id s of
        (Inl e, s1) \<Rightarrow> (Inl e, s1)
      | (Inr (Inl view), s1) \<Rightarrow> (return_or_error view, s1)
      | (Inr (Inr cl), s1) \<Rightarrow>
          (case runtime of
             None \<Rightarrow> (Inl ClassAssertionError, s1)
           | Some rt \<Rightarrow>
               let (po, rt') = run_provider json_pairs rt (cl_prepared cl)
               in settle_classification dg rt' t2 cl po org actor ticket_id (others s1)))"

definition class_http :: "class_exn \<Rightarrow> class_exn api_exn" where
  "class_http e = (case e of
     ApplicationClassificationError code n \<Rightarrow>
       Http \<lparr>he_status = n, he_detail = Coded code ''Classification request could not be completed'' None, he_headers = []\<rparr>
   | _ \<Rightarrow> Unhandled e)"

definition get_classification :: "digests \<Rightarrow> classification_runtime option \<Rightarrow> instant \<Rightarrow> organization_context \<Rightarrow> uuid \<Rightarrow> db \<Rightarrow>
    class_exn api_exn + classification_view" where
  "get_classification dg runtime now ctx ticket_id s =
     (case class_read dg runtime now (o_id (ctx_organization ctx)) (m_user_id (ctx_membership ctx)) ticket_id s of
        Inl e \<Rightarrow> Inl (class_http e) | Inr v \<Rightarrow> Inr v)"

definition classify_ticket :: "digests \<Rightarrow> (string \<Rightarrow> json option) \<Rightarrow> classification_runtime option \<Rightarrow> claim_tx \<Rightarrow> (db \<Rightarrow> db) \<Rightarrow>
    settle_tx \<Rightarrow> organization_context \<Rightarrow> uuid \<Rightarrow> db \<Rightarrow> (class_exn api_exn + classification_view) \<times> db" where
  "classify_ticket dg json_pairs runtime t1 others t2 ctx ticket_id s =
     (case classify dg json_pairs runtime t1 others t2 (o_id (ctx_organization ctx)) (m_user_id (ctx_membership ctx)) ticket_id s of
        (Inl e, s') \<Rightarrow> (Inl (class_http e), s') | (Inr v, s') \<Rightarrow> (Inr v, s'))"

subsection \<open>Results fit their columns\<close>

definition result_ok :: "classification_result \<Rightarrow> bool" where
  "result_ok r \<longleftrightarrow> (cr_outcome r = ''classified'' \<and> (\<exists>c \<in> set classification_categories. cr_category r = Some c)) \<or>
     (cr_outcome r = ''insufficient_context'' \<and> cr_category r = None)"

lemma parse_category_listed: "parse_category j = Some (Some w) \<Longrightarrow> w \<in> set classification_categories"
  by (cases j) (simp_all add: parse_category_def split: if_splits)

lemma result_of_values_ok:
  assumes "result_of_values a b = Some r"
  shows "result_ok r"
proof -
  from assms have c: "parse_category b = Some (cr_category r)"
      "cr_outcome r = ''classified'' \<or> cr_outcome r = ''insufficient_context''" "category_matches_outcome r"
    by (cases a; auto simp: result_of_values_def Let_def split: if_splits option.splits)+
  show ?thesis
  proof (cases "cr_category r")
    case None
    with c show ?thesis by (auto simp: result_ok_def category_matches_outcome_def)
  next
    case (Some w)
    with c parse_category_listed [of b w] show ?thesis
      unfolding result_ok_def category_matches_outcome_def by auto
  qed
qed

lemma ClassificationResult_ok:
  assumes "ClassificationResult j = Some r"
  shows "result_ok r"
proof (cases j)
  case (JObj kvs)
  with assms have "(case (map_of kvs ''outcome'', map_of kvs ''category'') of
      (Some a, Some b) \<Rightarrow> result_of_values a b | _ \<Rightarrow> None) = Some r"
    by (simp only: ClassificationResult_def json.case option.distinct split: if_split_asm)
  then show ?thesis using result_of_values_ok by (auto split: option.splits)
qed (use assms in \<open>simp_all add: ClassificationResult_def\<close>)

lemma parse_provider_output_ok: "parse_provider_output json_pairs raw = Inr r \<Longrightarrow> result_ok r"
  by (auto simp: parse_provider_output_def ClassificationResult_ok split: if_splits option.splits)

lemma run_provider_ok:
  assumes "run_provider json_pairs rt prepared = (po, rt')"
  shows "po_failure po = None \<Longrightarrow> \<exists>r. po_result po = Some r \<and> result_ok r"
    and "on_some (vchar 60) (po_failure po)" and "runtime_digest dg rt' = runtime_digest dg rt"
proof -
  have v: "vchar 60 (error_category e)" for e by (cases e) (simp_all add: vchar_def)
  have "vchar 60 ''provider_unavailable''" by (simp add: vchar_def)
  with v show "on_some (vchar 60) (po_failure po)"
    using assms by (auto simp: run_provider_def vchar_def Let_def split: if_splits prod.splits sum.splits)
  show "po_failure po = None \<Longrightarrow> \<exists>r. po_result po = Some r \<and> result_ok r"
    using assms by (auto simp: run_provider_def Let_def bindE_def result_ok_def parse_provider_output_ok
        split: if_splits prod.splits sum.splits dest!: parse_provider_output_ok)
  show "runtime_digest dg rt' = runtime_digest dg rt"
    using assms by (auto simp: run_provider_def runtime_digest_def provider_classify_def Let_def split: if_splits prod.splits)
qed

lemma db_ok_operation: "db_ok s \<Longrightarrow> p \<in> set (classification_operations s) \<Longrightarrow> operation_ok s p \<and> operation_types p"
  by (auto simp: db_ok_defs list_all_iff)

lemma db_ok_operation_ids: "db_ok s \<Longrightarrow> distinct (map op_id (classification_operations s))"
  by (simp add: db_ok_defs)

definition same_operation :: "classification_operation \<Rightarrow> classification_operation \<Rightarrow> bool" where
  "same_operation p q \<longleftrightarrow> op_id q = op_id p \<and> op_organization_id q = op_organization_id p \<and> op_ticket_id q = op_ticket_id p \<and>
     op_input_fingerprint q = op_input_fingerprint p \<and> op_config_digest q = op_config_digest p \<and>
     op_requesting_actor_user_id q = op_requesting_actor_user_id p"

lemma save_operation_db_ok:
  assumes ok: "db_ok s" and p: "p \<in> set (classification_operations s)" and same: "same_operation p q"
    and q: "operation_ok s q" "operation_types q"
  shows "db_ok (save_operation q s)"
proof -
  let ?ops = "classification_operations s" and ?key = "\<lambda>r. (op_organization_id r, op_ticket_id r, op_input_fingerprint r, op_config_digest r)"
  let ?new = "upd_row op_id (op_id q) (\<lambda>_. q) ?ops"
  have only: "x = p" if "x \<in> set ?ops" "op_id x = op_id q" for x
    using distinct_key_unique [OF db_ok_operation_ids [OF ok] that(1) p] that(2) same by (simp add: same_operation_def)
  have new: "?new = map (\<lambda>x. if x = p then q else x) ?ops"
    unfolding upd_row_def using only same by (auto simp: same_operation_def)
  have ids: "map op_id ?new = map op_id ?ops" and keys: "map ?key ?new = map ?key ?ops"
    unfolding new using same by (auto simp: same_operation_def)
  have "list_all (operation_ok s) ?new" "list_all operation_types ?new"
    unfolding new using db_ok_operation [OF ok] q by (auto simp: list_all_iff)
  moreover have "distinct (map op_id ?ops)" "distinct (map ?key ?ops)" using ok by (simp_all add: db_ok_defs)
  ultimately show ?thesis using ok ids keys by (simp add: save_operation_def db_ok_defs)
qed

lemma db_ok_operation_append:
  assumes "db_ok s" and "operation_ok s p" and "operation_types p" and "op_id p \<notin> op_id ` set (classification_operations s)"
    and "find_operation (op_organization_id p) (op_ticket_id p) (op_input_fingerprint p) (op_config_digest p) s = None"
  shows "db_ok (s\<lparr>classification_operations := classification_operations s @ [p]\<rparr>)"
proof -
  have "(op_organization_id p, op_ticket_id p, op_input_fingerprint p, op_config_digest p) \<notin>
      (\<lambda>r. (op_organization_id r, op_ticket_id r, op_input_fingerprint r, op_config_digest r)) ` set (classification_operations s)"
    using assms(5) by (auto simp: find_operation_def operations_of_def find_None_iff)
  then show ?thesis using assms(1-4) by (simp add: db_ok_defs)
qed

subsection \<open>Claims and settlements\<close>

definition digests_ok :: "digests \<Rightarrow> bool" where
  "digests_ok dg \<longleftrightarrow> (\<forall>x. vchar 64 (dg_input dg x)) \<and> (\<forall>x. vchar 64 (dg_list dg x))"


lemma authorized_member: "authorized org actor s \<Longrightarrow> has_member s org actor"
  by (auto simp: authorized_def has_member_def list_ex_iff)

lemma authorized_org: "authorized org actor s \<Longrightarrow> has_org s org"
  by (auto simp: authorized_def has_org_def list_ex_iff)

lemma prepared_fingerprint: "ticket_input dg tk s = Inr pr \<Longrightarrow> digests_ok dg \<Longrightarrow> vchar 64 (pr_fingerprint pr)"
  by (auto simp: ticket_input_def prepare_input_def digests_ok_def Let_def split: if_splits)

lemma new_operation_ok:
  assumes "get_ticket org tid s = Some tk" and "has_member s org actor" and "digests_ok dg" and "vchar 64 (pr_fingerprint pr)"
    and "vchar 100 (rt_configuration_version rt)"
  shows "operation_ok s (new_operation dg rt now oid org actor tid pr)" "operation_types (new_operation dg rt now oid org actor tid pr)"
proof -
  have "list_ex (\<lambda>t. t_organization_id t = org \<and> t_id t = tid) (tickets s)"
    using get_ticket_SomeD [OF assms(1)] by (auto simp: list_ex_iff)
  then show "operation_ok s (new_operation dg rt now oid org actor tid pr)"
    using assms(2) by (simp add: operation_ok_def new_operation_def operation_states_def result_pair_def)
  show "operation_types (new_operation dg rt now oid org actor tid pr)"
    using assms(3-5) by (simp add: operation_types_def new_operation_def runtime_digest_def digests_ok_def INPUT_POLICY_VERSION_def
        TAXONOMY_VERSION_def SCHEMA_VERSION_def) (simp add: vchar_def)
qed




lemma db_ok_not_current: "db_ok s \<Longrightarrow> p \<in> set (classification_operations s) \<Longrightarrow> op_state p \<noteq> ''current''"
proof -
  assume "db_ok s" and "p \<in> set (classification_operations s)"
  then have "operation_ok s p" by (simp add: db_ok_operation)
  then show ?thesis by (auto simp: operation_ok_def operation_states_def)
qed


lemma settled_success:
  assumes "auth" and "st_check t < op_expires_at p" and "\<not> changed" and "po_failure po = None" and "po_result po = Some r"
  shows "settled_operation t auth changed po p = p\<lparr>op_completed_at := Some (st_done t), op_elapsed_ms := Some (max 0 (st_elapsed t)),
    op_state := ''succeeded'', op_outcome := Some (cr_outcome r), op_category := cr_category r\<rparr>"
  using assms by (simp add: settled_operation_def Let_def)

lemma result_ok_cases:
  assumes "result_ok r"
  obtains (classified) c where "cr_outcome r = ''classified''" "c \<in> set classification_categories" "cr_category r = Some c"
  | (insufficient) "cr_outcome r = ''insufficient_context''" "cr_category r = None"
  using assms unfolding result_ok_def by metis

lemma category_short: "c \<in> set classification_categories \<Longrightarrow> vchar 30 c"
  by (auto simp: classification_categories_def vchar_def)

lemma succeeded_operation_ok:
  assumes "operation_ok s p" and "operation_types p" and "op_error_code p = None" and "result_ok r" and "0 \<le> n"
    and q: "q = p\<lparr>op_completed_at := Some t, op_elapsed_ms := Some n, op_state := ''succeeded'',
      op_outcome := Some (cr_outcome r), op_category := cr_category r\<rparr>"
  shows "operation_ok s q \<and> operation_types q"
  using assms(4)
proof (cases rule: result_ok_cases)
  case (classified c)
  have "operation_ok s q"
    using assms(1,3,5) classified by (simp add: q operation_ok_def result_pair_def operation_states_def)
  moreover have "operation_types q"
    using assms(2) classified category_short by (simp add: q operation_types_def) (simp add: vchar_def)
  ultimately show ?thesis ..
next
  case insufficient
  have "operation_ok s q"
    using assms(1,3,5) insufficient by (simp add: q operation_ok_def result_pair_def operation_states_def)
  moreover have "operation_types q"
    using assms(2) insufficient by (simp add: q operation_types_def) (simp add: vchar_def)
  ultimately show ?thesis ..
qed

definition claimed_db :: "digests \<Rightarrow> classification_runtime \<Rightarrow> claim_tx \<Rightarrow> uuid \<Rightarrow> uuid \<Rightarrow> uuid \<Rightarrow> prepared_input \<Rightarrow> db \<Rightarrow> db" where
  "claimed_db dg rt t org actor tid pr s = s\<lparr>classification_operations := classification_operations s @
     [new_operation dg rt (ck_now t) (ck_operation t) org actor tid pr]\<rparr>"

definition claimable :: "digests \<Rightarrow> classification_runtime \<Rightarrow> claim_tx \<Rightarrow> uuid \<Rightarrow> uuid \<Rightarrow> uuid \<Rightarrow> prepared_input \<Rightarrow> db \<Rightarrow> bool" where
  \<comment> \<open>an authorized request for a ticket whose current input has not been classified under this configuration\<close>
  "claimable dg rt t org actor tid pr s \<longleftrightarrow> authorized org actor s \<and>
     (\<exists>tk. get_ticket org tid s = Some tk \<and> ticket_input dg tk s = Inr pr) \<and>
     find_operation org tid (pr_fingerprint pr) (runtime_digest dg rt) s = None"

lemma class_commit_ok: "db_ok p \<Longrightarrow> class_commit NoFault r p s = (Inr r, p)"
  by (simp add: class_commit_def commit_def db_ok_def)

lemma claim_new:
  assumes "claimable dg rt t org actor tid pr s"
  shows "claim_classification dg (Some rt) t org actor tid s = class_commit (ck_fault t)
    (Inr \<lparr>cl_operation_id = ck_operation t, cl_prepared = pr, cl_digest = runtime_digest dg rt\<rparr>) (claimed_db dg rt t org actor tid pr s) s"
  using assms by (auto simp: claimable_def claim_classification_def class_ticket_def claimed_db_def)

lemma claimed_db_ok:
  assumes "db_ok s" and "claimable dg rt t org actor tid pr s" and "digests_ok dg" and "vchar 100 (rt_configuration_version rt)"
    and "ck_operation t \<notin> op_id ` set (classification_operations s)"
  shows "db_ok (claimed_db dg rt t org actor tid pr s)"
proof -
  from assms(2) obtain tk where tk: "get_ticket org tid s = Some tk" "ticket_input dg tk s = Inr pr" "authorized org actor s"
      "find_operation org tid (pr_fingerprint pr) (runtime_digest dg rt) s = None"
    by (auto simp: claimable_def)
  note rows = new_operation_ok [OF tk(1) authorized_member [OF tk(3)] assms(3) prepared_fingerprint [OF tk(2) assms(3)] assms(4)]
  show ?thesis unfolding claimed_db_def
    by (rule db_ok_operation_append [OF assms(1) rows]) (use assms(5) tk(4) in \<open>simp_all add: new_operation_def\<close>)
qed

definition finished_event :: "instant \<Rightarrow> uuid \<Rightarrow> classification_operation \<Rightarrow> audit_event" where
  "finished_event now eid p = \<lparr>a_id = eid, a_organization_id = op_organization_id p,
     a_actor_user_id = Some (op_requesting_actor_user_id p), a_action = ''classification.finished'',
     a_resource_type = ''classification_operation'', a_resource_id = Some (op_id p),
     a_metadata = [(''mode'', MStr ''fake''), (''state'', MStr (op_state p))], a_created_at = now\<rparr>"

lemma class_audit_Inr:
  "op_state p \<in> {''succeeded'', ''failed'', ''stale'', ''unknown''} \<Longrightarrow>
     class_audit now eid p s = Inr (s\<lparr>audit_events := audit_events s @ [finished_event now eid p]\<rparr>)"
  by (simp add: class_audit_def record_classification_finished_def record_event_Inr finished_event_def)

lemma finished_db_ok:
  assumes "db_ok s" and "has_org s (op_organization_id p)" and "has_member s (op_organization_id p) (op_requesting_actor_user_id p)"
    and "eid \<notin> a_id ` set (audit_events s)" and "op_state p \<in> {''succeeded'', ''failed'', ''stale'', ''unknown''}"
  shows "db_ok (s\<lparr>audit_events := audit_events s @ [finished_event now eid p]\<rparr>)"
proof -
  have r: "record_event now eid (op_organization_id p) CLASSIFICATION_FINISHED (Some (op_requesting_actor_user_id p))
      CLASSIFICATION_OPERATION (Some (op_id p)) [(''mode'', MStr ''fake''), (''state'', MStr (op_state p))] s =
      Inr (s\<lparr>audit_events := audit_events s @ [finished_event now eid p]\<rparr>)"
    by (simp add: record_event_Inr finished_event_def)
  show ?thesis using record_event_db_ok [OF assms(1,2,4) _ r] assms(3) by simp
qed

lemma find_operation_id:
  assumes "db_ok s" and "p \<in> set (classification_operations s)"
  shows "find (\<lambda>x. op_organization_id x = op_organization_id p \<and> op_id x = op_id p) (classification_operations s) = Some p"
proof -
  have "find (\<lambda>x. op_organization_id x = op_organization_id p \<and> op_id x = op_id p) (classification_operations s) \<noteq> None"
    using assms(2) by (auto simp: find_None_iff)
  then obtain q where q: "find (\<lambda>x. op_organization_id x = op_organization_id p \<and> op_id x = op_id p) (classification_operations s) = Some q"
    by blast
  then have "q \<in> set (classification_operations s)" "op_id q = op_id p" using find_SomeD [OF q] by simp_all
  then have "q = p" using distinct_key_unique [OF db_ok_operation_ids [OF assms(1)] _ assms(2)] by blast
  with q show ?thesis by simp
qed

definition succeeded_row :: "settle_tx \<Rightarrow> classification_result \<Rightarrow> classification_operation \<Rightarrow> classification_operation" where
  "succeeded_row t r p = p\<lparr>op_completed_at := Some (st_done t), op_elapsed_ms := Some (max 0 (st_elapsed t)),
    op_state := ''succeeded'', op_outcome := Some (cr_outcome r), op_category := cr_category r\<rparr>"

definition classified_db :: "settle_tx \<Rightarrow> classification_result \<Rightarrow> classification_operation \<Rightarrow> db \<Rightarrow> db" where
  "classified_db t r p s = (save_operation (succeeded_row t r p) s)\<lparr>audit_events := audit_events s @
     [finished_event (st_done t) (st_event t) (succeeded_row t r p)]\<rparr>"

lemma classified_db_ok:
  assumes "db_ok s" and "p \<in> set (classification_operations s)" and "op_error_code p = None" and "result_ok r"
    and "st_event t \<notin> a_id ` set (audit_events s)"
  shows "db_ok (classified_db t r p s)"
proof -
  let ?q = "succeeded_row t r p"
  note p = db_ok_operation [OF assms(1,2)]
  have rows: "operation_ok s ?q \<and> operation_types ?q"
    by (rule succeeded_operation_ok [OF _ _ assms(3,4), where n = "max 0 (st_elapsed t)"]) (use p in \<open>simp_all add: succeeded_row_def\<close>)
  have same: "same_operation p ?q" by (simp add: same_operation_def succeeded_row_def)
  have ok: "db_ok (save_operation ?q s)" using save_operation_db_ok [OF assms(1,2) same] rows by blast
  have tk: "has_member s (op_organization_id p) (op_requesting_actor_user_id p)"
    using p by (simp add: operation_ok_def)
  have "has_org s (op_organization_id p)"
  proof -
    from p obtain x where "x \<in> set (tickets s)" "t_organization_id x = op_organization_id p"
      by (auto simp: operation_ok_def list_ex_iff)
    moreover have "list_all (ticket_ok s) (tickets s)" using assms(1) by (simp add: db_ok_defs)
    ultimately show ?thesis by (auto simp: list_all_iff ticket_ok_def)
  qed
  then show ?thesis
    using finished_db_ok [OF ok, of ?q "st_event t" "st_done t"] tk assms(5)
    by (simp add: classified_db_def save_operation_def succeeded_row_def)
qed

lemma settle_success:
  assumes "db_ok s" and p: "p \<in> set (classification_operations s)" "op_organization_id p = org" "op_id p = cl_operation_id cl"
      "op_state p = ''in_progress''" "op_error_code p = None"
    and "authorized org actor s" and "\<not> input_changed dg rt cl org tid s" and "st_check t < op_expires_at p"
    and "po_failure po = None" and "po_result po = Some r" and "result_ok r" and "st_fault t = NoFault"
    and "st_event t \<notin> a_id ` set (audit_events s)"
  shows "\<exists>view. settle_classification dg rt t cl po org actor tid s = (Inr view, classified_db t r p s) \<and>
    cv_state view = ''current'' \<and> cv_result view = Some r \<and> cv_result_id view = Some (op_id p)"
proof -
  have q: "settled_operation t True False po p = succeeded_row t r p"
    using settled_success [of True t p False po r] assms(9-11) by (simp add: succeeded_row_def)
  have find: "find (\<lambda>x. op_organization_id x = org \<and> op_id x = cl_operation_id cl) (classification_operations s) = Some p"
    using find_operation_id [OF assms(1) p(1)] p(2,3) by simp
  have audit: "class_audit (st_done t) (st_event t) (succeeded_row t r p) (save_operation (succeeded_row t r p) s) =
      Inr (classified_db t r p s)"
    by (simp add: class_audit_Inr succeeded_row_def classified_db_def save_operation_def)
  have ok: "db_ok (classified_db t r p s)" by (rule classified_db_ok [OF assms(1) p(1,5) assms(12,14)])
  let ?view = "class_view (Some rt) (st_check t) (Some (succeeded_row t r p)) True"
  have view: "cv_state ?view = ''current''" "cv_result ?view = Some r" "cv_result_id ?view = Some (op_id p)"
    by (simp_all add: class_view_def succeeded_row_def Let_def)
  have "settle_classification dg rt t cl po org actor tid s = (return_or_error ?view, classified_db t r p s)"
    using assms(7,8,13) p(4) by (simp add: settle_classification_def find q audit class_commit_ok [OF ok])
  with view show ?thesis by (simp add: return_or_error_def)
qed

definition claim_of :: "digests \<Rightarrow> classification_runtime \<Rightarrow> claim_tx \<Rightarrow> prepared_input \<Rightarrow> claimed_request" where
  "claim_of dg rt t pr = \<lparr>cl_operation_id = ck_operation t, cl_prepared = pr, cl_digest = runtime_digest dg rt\<rparr>"

lemma input_changed_runtime:
  "runtime_digest dg rt' = runtime_digest dg rt \<Longrightarrow> input_changed dg rt' cl org tid s = input_changed dg rt cl org tid s"
  by (simp add: input_changed_def split: option.split)

lemma classify_undisturbed:
  assumes "db_ok s" and "digests_ok dg" and "vchar 100 (rt_configuration_version rt)"
    and "claimable dg rt t1 org actor tid pr s" and "ck_fault t1 = NoFault"
    and "ck_operation t1 \<notin> op_id ` set (classification_operations s)"
    and "run_provider json_pairs rt pr = (po, rt')" and "po_failure po = None"
    and "s2 = others (claimed_db dg rt t1 org actor tid pr s)" and "db_ok s2"
    and "new_operation dg rt (ck_now t1) (ck_operation t1) org actor tid pr \<in> set (classification_operations s2)"
    and "authorized org actor s2" and "\<not> input_changed dg rt (claim_of dg rt t1 pr) org tid s2"
    and "st_check t2 < ck_now t1 + seconds 30" and "st_fault t2 = NoFault" and "st_event t2 \<notin> a_id ` set (audit_events s2)"
  shows "\<exists>view r. classify dg json_pairs (Some rt) t1 others t2 org actor tid s =
      (Inr view, classified_db t2 r (new_operation dg rt (ck_now t1) (ck_operation t1) org actor tid pr) s2) \<and>
    po_result po = Some r \<and> cv_state view = ''current'' \<and> cv_result view = Some r \<and> cv_result_id view = Some (ck_operation t1) \<and>
    db_ok (classified_db t2 r (new_operation dg rt (ck_now t1) (ck_operation t1) org actor tid pr) s2)"
proof -
  let ?p = "new_operation dg rt (ck_now t1) (ck_operation t1) org actor tid pr"
  have p: "op_organization_id ?p = org" "op_id ?p = cl_operation_id (claim_of dg rt t1 pr)" "op_state ?p = ''in_progress''"
      "op_error_code ?p = None" "op_expires_at ?p = ck_now t1 + seconds 30" "op_id ?p = ck_operation t1"
    by (simp_all add: new_operation_def claim_of_def)
  obtain r where r: "po_result po = Some r" "result_ok r" using run_provider_ok(1) [OF assms(7,8)] by blast
  have same: "\<not> input_changed dg rt' (claim_of dg rt t1 pr) org tid s2"
    using assms(13) input_changed_runtime [OF run_provider_ok(3) [OF assms(7)]] by blast
  have "st_check t2 < op_expires_at ?p" using assms(14) p(5) by simp
  from settle_success [OF assms(10,11) p(1-4) assms(12) same this assms(8) r assms(15,16)]
  obtain view where view: "settle_classification dg rt' t2 (claim_of dg rt t1 pr) po org actor tid s2 = (Inr view, classified_db t2 r ?p s2)"
      "cv_state view = ''current''" "cv_result view = Some r" "cv_result_id view = Some (op_id ?p)" by blast
  have claim: "claim_classification dg (Some rt) t1 org actor tid s =
      (Inr (Inr (claim_of dg rt t1 pr)), claimed_db dg rt t1 org actor tid pr s)"
    using claim_new [OF assms(4)] class_commit_ok [OF claimed_db_ok [OF assms(1,4,2,3,6)]] assms(5) by (simp add: claim_of_def)
  have "classify dg json_pairs (Some rt) t1 others t2 org actor tid s = (Inr view, classified_db t2 r ?p s2)"
    using view(1) assms(7,9) by (simp add: classify_def claim) (simp add: claim_of_def)
  moreover have "db_ok (classified_db t2 r ?p s2)" by (rule classified_db_ok [OF assms(10,11) p(4) r(2) assms(16)])
  ultimately show ?thesis using r(1) view(2-4) p(6) by auto
qed

text \<open>
  C16. A classification that nothing disturbs succeeds. For an authorized request on an input not yet
  classified under this configuration, a provider answer that passes the schema, and other sessions
  that leave the claim, the authorization and the input as they were until the answer is stored
  within thirty seconds: the caller receives exactly the parsed result, the operation is stored as
  succeeded with it, one audit event records that, and every constraint holds.
\<close>

theorem classification_succeeds:
  assumes "db_ok s" and "digests_ok dg" and "vchar 100 (rt_configuration_version rt)"
    and "claimable dg rt t1 org actor tid pr s" and "ck_fault t1 = NoFault"
    and "ck_operation t1 \<notin> op_id ` set (classification_operations s)"
    and "run_provider json_pairs rt pr = (po, rt')" and "po_failure po = None"
    and "s2 = others (claimed_db dg rt t1 org actor tid pr s)" and "db_ok s2"
    and "new_operation dg rt (ck_now t1) (ck_operation t1) org actor tid pr \<in> set (classification_operations s2)"
    and "authorized org actor s2" and "\<not> input_changed dg rt (claim_of dg rt t1 pr) org tid s2"
    and "st_check t2 < ck_now t1 + seconds 30" and "st_fault t2 = NoFault" and "st_event t2 \<notin> a_id ` set (audit_events s2)"
  shows "\<exists>view r. classify dg json_pairs (Some rt) t1 others t2 org actor tid s =
      (Inr view, classified_db t2 r (new_operation dg rt (ck_now t1) (ck_operation t1) org actor tid pr) s2) \<and>
    po_result po = Some r \<and> cv_state view = ''current'' \<and> cv_result view = Some r \<and> cv_result_id view = Some (ck_operation t1) \<and>
    db_ok (classified_db t2 r (new_operation dg rt (ck_now t1) (ck_operation t1) org actor tid pr) s2)"
  by (rule classify_undisturbed [where others = others, OF assms])

subsection \<open>Classifications on current grounds\<close>

















text \<open>
  One input is classified once per configuration. When the current input of the ticket already has
  a settled operation under the configuration, a request never consults the provider and changes
  nothing: it returns the stored result if that operation succeeded, and otherwise raises the error
  of the stored code, at every later time. So an operation that failed, went stale or stayed
  unknown is never retried as long as the ticket's input stays the same.
\<close>

lemma classification_replay:
  assumes "db_ok s" and "authorized org actor s" and "get_ticket org tid s = Some tk" and "ticket_input dg tk s = Inr pr"
    and "find_operation org tid (pr_fingerprint pr) (runtime_digest dg rt) s = Some p" and "op_state p \<noteq> ''in_progress''"
    and "ck_fault t1 = NoFault"
  shows "if op_state p = ''succeeded''
    then \<exists>view. classify dg json_pairs (Some rt) t1 others t2 org actor tid s = (Inr view, s) \<and> cv_result_id view = Some (op_id p) \<and>
      map_option cr_category (cv_result view) = Some (op_category p) \<and>
      map_option (\<lambda>r. Some (cr_outcome r)) (cv_result view) = Some (op_outcome p)
    else classify dg json_pairs (Some rt) t1 others t2 org actor tid s =
      (Inl (let code = (case op_error_code p of Some e \<Rightarrow> e | None \<Rightarrow> ''classification_unknown'')
            in ApplicationClassificationError code (error_status code)), s)"
proof -
  let ?view = "class_view (Some rt) (ck_now t1) (Some p) True"
  have ok: "op_state p \<noteq> ''current''" "op_state p = ''succeeded'' \<longrightarrow> op_outcome p \<noteq> None"
  proof -
    have "p \<in> set (classification_operations s)"
      using find_SomeD [OF assms(5) [unfolded find_operation_def]] by (simp add: operations_of_def)
    from db_ok_operation [OF assms(1) this] db_ok_not_current [OF assms(1) this]
    show "op_state p \<noteq> ''current''" "op_state p = ''succeeded'' \<longrightarrow> op_outcome p \<noteq> None"
      by (simp_all add: operation_ok_def)
  qed
  have "claim_classification dg (Some rt) t1 org actor tid s = (Inr (Inl ?view), s)"
    using assms by (simp add: claim_classification_def class_ticket_def class_commit_ok Let_def)
  then have run: "classify dg json_pairs (Some rt) t1 others t2 org actor tid s = (return_or_error ?view, s)"
    by (simp add: classify_def)
  show ?thesis
  proof (cases "op_state p = ''succeeded''")
    case True
    with ok(2) show ?thesis by (auto simp: run return_or_error_def class_view_def Let_def)
  next
    case False
    have "op_state p \<noteq> ''current''" by (rule ok(1))
    with False assms(6) show ?thesis by (simp add: run return_or_error_def class_view_def Let_def split: option.split)
  qed
qed

subsection \<open>A concrete classification\<close>

definition sample_digests :: digests where
  "sample_digests = \<lparr>dg_input = (\<lambda>_. replicate 64 (CHR ''a'')), dg_script = (\<lambda>_. replicate 64 (CHR ''b'')),
     dg_list = (\<lambda>_. replicate 64 (CHR ''c''))\<rparr>"

definition sample_json :: "string \<Rightarrow> json option" where
  "sample_json raw = Some (JObj [(''outcome'', JStr ''classified''), (''category'', JStr ''billing'')])"

definition sample_runtime :: classification_runtime where
  "sample_runtime = \<lparr>rt_provider = \<lparr>fp_response = Inr ''...'', fp_calls = 0\<rparr>, rt_configuration_version = ''fake_application.v1''\<rparr>"

definition sample_claim_tx :: claim_tx where
  "sample_claim_tx = \<lparr>ck_now = 8, ck_operation = 70, ck_event = 71, ck_fault = NoFault\<rparr>"

definition sample_settle_tx :: settle_tx where
  "sample_settle_tx = \<lparr>st_done = 9, st_check = 9, st_elapsed = 1, st_event = 72, st_fault = NoFault\<rparr>"

definition sample_prepared :: prepared_input where
  "sample_prepared = \<lparr>pr_payload = \<lparr>pi_subject = u ''Login'', pi_body = u ''Cannot sign in'', pi_schema_version = SCHEMA_VERSION,
     pi_taxonomy_version = TAXONOMY_VERSION\<rparr>, pr_message_id = Some 41, pr_fingerprint = replicate 64 (CHR ''a''),
     pr_insufficient_context = False\<rparr>"

definition billing :: classification_result where
  "billing = \<lparr>cr_outcome = ''classified'', cr_category = Some ''billing''\<rparr>"

lemma sample_provider_run:
  "run_provider sample_json sample_runtime sample_prepared =
     (\<lparr>po_result = Some billing, po_failure = None, po_uncertain = False\<rparr>,
      sample_runtime\<lparr>rt_provider := \<lparr>fp_response = Inr ''...'', fp_calls = 1\<rparr>\<rparr>)"
  by (simp add: run_provider_def sample_prepared_def sample_runtime_def provider_classify_def parse_provider_output_def sample_json_def
      ClassificationResult_def result_of_values_def parse_category_def classification_categories_def category_matches_outcome_def
      billing_def insert_commute)

lemma sample_ticket_input:
  "get_ticket 1 40 sample_ticket_db = Some (new_ticket 7 40 1 sample_request)"
  "ticket_input sample_digests (new_ticket 7 40 1 sample_request) sample_ticket_db = Inr sample_prepared"
  "authorized 1 11 sample_ticket_db"
proof -
  show "get_ticket 1 40 sample_ticket_db = Some (new_ticket 7 40 1 sample_request)" by (rule sample_ticket_facts(6))
  show "authorized 1 11 sample_ticket_db"
    by (simp add: authorized_def sample_ticket_db_def ticket_rows_def sample_db_def)
  show "ticket_input sample_digests (new_ticket 7 40 1 sample_request) sample_ticket_db = Inr sample_prepared"
    by (simp add: ticket_input_def prepare_input_def list_ticket_messages_def sample_ticket_db_def ticket_rows_def new_ticket_def
        agent_message_def sample_ticket_ids_def sample_request_def sample_digests_def sample_prepared_def order_by_def first_by_def
        u_def ustrip_def strip_by_def is_space_def Let_def)
qed

lemma claimed_frame [simp]:
  "authorized org actor (claimed_db dg rt t o1 a1 t1 pr s) = authorized org actor s"
  "get_ticket org tid (claimed_db dg rt t o1 a1 t1 pr s) = get_ticket org tid s"
  "ticket_input d1 tk (claimed_db dg rt t o1 a1 t1 pr s) = ticket_input d1 tk s"
  "audit_events (claimed_db dg rt t o1 a1 t1 pr s) = audit_events s"
  by (simp_all add: claimed_db_def authorized_def get_ticket_def ticket_input_def list_ticket_messages_def)

lemma sample_operations [simp]: "classification_operations sample_ticket_db = []"
  by (simp add: sample_ticket_db_def ticket_rows_def)

definition sample_claimed_db :: db where
  "sample_claimed_db = claimed_db sample_digests sample_runtime sample_claim_tx 1 11 40 sample_prepared sample_ticket_db"

definition sample_operation :: classification_operation where
  "sample_operation = new_operation sample_digests sample_runtime 8 70 1 11 40 sample_prepared"

lemma sample_claim_ready:
  "digests_ok sample_digests" "vchar 100 (rt_configuration_version sample_runtime)" "ck_fault sample_claim_tx = NoFault"
  "claimable sample_digests sample_runtime sample_claim_tx 1 11 40 sample_prepared sample_ticket_db"
proof -
  show "digests_ok sample_digests" by (simp add: digests_ok_def sample_digests_def vchar_def)
  show "vchar 100 (rt_configuration_version sample_runtime)" by (simp add: sample_runtime_def vchar_def)
  show "ck_fault sample_claim_tx = NoFault" by (simp add: sample_claim_tx_def)
  show "claimable sample_digests sample_runtime sample_claim_tx 1 11 40 sample_prepared sample_ticket_db"
    unfolding claimable_def find_operation_def operations_of_def using sample_ticket_input by simp
qed

lemma sample_claimed_ok: "db_ok sample_claimed_db"
  unfolding sample_claimed_db_def
  by (rule claimed_db_ok [OF sample_ticket_db_ok sample_claim_ready(4,1,2)]) simp

lemma sample_unchanged:
  "\<not> input_changed sample_digests sample_runtime (claim_of sample_digests sample_runtime sample_claim_tx sample_prepared) 1 40 sample_claimed_db"
  using sample_ticket_input unfolding input_changed_def sample_claimed_db_def by (simp add: claim_of_def)

lemma sample_settle_ready:
  "new_operation sample_digests sample_runtime (ck_now sample_claim_tx) (ck_operation sample_claim_tx) 1 11 40 sample_prepared
     \<in> set (classification_operations sample_claimed_db)"
  "authorized 1 11 sample_claimed_db" "st_check sample_settle_tx < ck_now sample_claim_tx + seconds 30"
  "st_fault sample_settle_tx = NoFault" "st_event sample_settle_tx \<notin> a_id ` set (audit_events sample_claimed_db)"
proof -
  show "new_operation sample_digests sample_runtime (ck_now sample_claim_tx) (ck_operation sample_claim_tx) 1 11 40 sample_prepared
     \<in> set (classification_operations sample_claimed_db)" by (simp add: sample_claimed_db_def claimed_db_def)
  show "authorized 1 11 sample_claimed_db" unfolding sample_claimed_db_def claimed_frame by (rule sample_ticket_input(3))
  show "st_check sample_settle_tx < ck_now sample_claim_tx + seconds 30"
    by (simp add: sample_settle_tx_def sample_claim_tx_def seconds_def)
  show "st_fault sample_settle_tx = NoFault" by (simp add: sample_settle_tx_def)
  show "st_event sample_settle_tx \<notin> a_id ` set (audit_events sample_claimed_db)"
    unfolding sample_claimed_db_def claimed_frame sample_ticket_facts by (simp add: sample_settle_tx_def)
qed

theorem classification_succeeds_witness:
  "\<exists>view s'. classify sample_digests sample_json (Some sample_runtime) sample_claim_tx (\<lambda>s. s) sample_settle_tx 1 11 40 sample_ticket_db =
     (Inr view, s') \<and> cv_result view = Some billing \<and> db_ok s'"
proof -
  have "ck_operation sample_claim_tx \<notin> op_id ` set (classification_operations sample_ticket_db)" by simp
  from classification_succeeds [OF sample_ticket_db_ok sample_claim_ready(1,2,4,3) this sample_provider_run _ _ sample_claimed_ok
      sample_settle_ready(1,2) sample_unchanged sample_settle_ready(3-5), of "\<lambda>s. s"]
  show ?thesis by (auto simp: sample_claimed_db_def)
qed

lemma sample_classify:
  "\<exists>view. classify sample_digests sample_json (Some sample_runtime) sample_claim_tx (\<lambda>s. s) sample_settle_tx 1 11 40 sample_ticket_db =
     (Inr view, classified_db sample_settle_tx billing sample_operation sample_claimed_db) \<and>
     db_ok (classified_db sample_settle_tx billing sample_operation sample_claimed_db)"
proof -
  have "ck_operation sample_claim_tx \<notin> op_id ` set (classification_operations sample_ticket_db)" by simp
  from classify_undisturbed [OF sample_ticket_db_ok sample_claim_ready(1,2,4,3) this sample_provider_run _ _ sample_claimed_ok
      sample_settle_ready(1,2) sample_unchanged sample_settle_ready(3-5), of "\<lambda>s. s"]
  show ?thesis by (auto simp: sample_claimed_db_def sample_operation_def sample_claim_tx_def)
qed


lemma classification_replay_example:
  "\<exists>view. classify sample_digests (\<lambda>_. None) (Some sample_runtime) sample_claim_tx (\<lambda>s. s) sample_settle_tx 1 11 40
       (classified_db sample_settle_tx billing sample_operation sample_claimed_db) =
     (Inr view, classified_db sample_settle_tx billing sample_operation sample_claimed_db) \<and> cv_result_id view = Some 70"
proof -
  let ?s = "classified_db sample_settle_tx billing sample_operation sample_claimed_db"
  have ok: "db_ok ?s" using sample_classify by blast
  have frame: "authorized 1 11 ?s = authorized 1 11 sample_claimed_db" "get_ticket 1 40 ?s = get_ticket 1 40 sample_claimed_db"
      "ticket_input sample_digests tk ?s = ticket_input sample_digests tk sample_claimed_db" for tk
    by (simp_all add: classified_db_def save_operation_def authorized_def get_ticket_def ticket_input_def list_ticket_messages_def)
  have auth: "authorized 1 11 ?s" unfolding frame by (rule sample_settle_ready(2))
  have tk: "get_ticket 1 40 ?s = Some (new_ticket 7 40 1 sample_request)"
    unfolding frame unfolding sample_claimed_db_def claimed_frame by (rule sample_ticket_input(1))
  have inp: "ticket_input sample_digests (new_ticket 7 40 1 sample_request) ?s = Inr sample_prepared"
    unfolding frame unfolding sample_claimed_db_def claimed_frame by (rule sample_ticket_input(2))
  let ?p = "succeeded_row sample_settle_tx billing sample_operation"
  have "find_operation 1 40 (pr_fingerprint sample_prepared) (runtime_digest sample_digests sample_runtime) ?s = Some ?p"
    by (simp add: find_operation_def operations_of_def classified_db_def save_operation_def upd_row_def succeeded_row_def
        sample_operation_def new_operation_def sample_claimed_db_def claimed_db_def sample_claim_tx_def)
  from classification_replay [OF ok auth tk inp this _ sample_claim_ready(3), of "\<lambda>_. None" "\<lambda>s. s" sample_settle_tx]
  show ?thesis by (auto simp: succeeded_row_def sample_operation_def new_operation_def)
qed

end
