(* ===== verification/SF_Sessions.thy ===== *)
theory SF_Sessions
  imports SF_Identity
begin

text \<open>
  \<open>app/ui/session.py\<close>: browser sessions behind signed cookies, with the process-local store and the
  Redis store. Random bytes (\<open>secrets\<close>) are arguments; HMAC-SHA-256 is the argument \<open>hmac\<close>, of which only
  the digest length matters (\<open>digest_ok\<close>); the JSON text and the ISO 8601 form of an instant are the
  record \<open>codec\<close>, whose laws are \<open>codec_ok\<close>. Redis is a map from keys to values with an expiry, each
  call of which may fail before or after it took effect.
\<close>

datatype session_exn = CompareTypeError | BrowserSessionStoreUnavailableError | SessionValueError

record browser_session =
  bs_id :: string
  bs_user_id :: "uuid option"
  bs_organization_id :: "uuid option"
  bs_csrf_token :: string
  bs_expires_at :: instant

definition is_authenticated :: "browser_session \<Rightarrow> bool" where
  "is_authenticated s \<longleftrightarrow> bs_user_id s \<noteq> None \<and> bs_organization_id s \<noteq> None"

record session_config =
  sc_secret_key :: string
  sc_lifetime :: int
  sc_key_prefix :: string

subsection \<open>Signed cookies\<close>

definition B64 :: string where
  "B64 = ''ABCDEFGHIJKLMNOPQRSTUVWXYZabcdefghijklmnopqrstuvwxyz0123456789-_''"

definition b64_char :: "nat \<Rightarrow> char" where
  "b64_char n = B64 ! (n mod 64)"

fun urlsafe_b64encode :: "byte list \<Rightarrow> string" where
  "urlsafe_b64encode [] = []"
| "urlsafe_b64encode [a] = [b64_char (a div 4), b64_char (a mod 4 * 16), CHR ''='', CHR ''='']"
| "urlsafe_b64encode [a, b] = [b64_char (a div 4), b64_char (a mod 4 * 16 + b div 16), b64_char (b mod 16 * 4), CHR ''='']"
| "urlsafe_b64encode (a # b # c # rest) = [b64_char (a div 4), b64_char (a mod 4 * 16 + b div 16),
     b64_char (b mod 16 * 4 + c div 64), b64_char (c mod 64)] @ urlsafe_b64encode rest"

definition unpadded :: "byte list \<Rightarrow> string" where
  \<comment> \<open>\<open>urlsafe_b64encode(...).rstrip(b"=")\<close>, also the text of \<open>secrets.token_urlsafe\<close>\<close>
  "unpadded bs = rev (dropWhile (\<lambda>c. c = CHR ''='') (rev (urlsafe_b64encode bs)))"

definition session_id_pattern :: "string \<Rightarrow> bool" where
  "session_id_pattern w \<longleftrightarrow> length w = 43 \<and> list_all (\<lambda>c. c \<in> set B64) w"

definition rsplit_dot :: "string \<Rightarrow> (string \<times> string) option" where
  \<comment> \<open>\<open>text.rsplit(".", 1)\<close> as two parts, \<open>None\<close> when it is a single one\<close>
  "rsplit_dot w = (if CHR ''.'' \<notin> set w then None
     else Some (rev (tl (dropWhile (\<lambda>c. c \<noteq> CHR ''.'') (rev w))), rev (takeWhile (\<lambda>c. c \<noteq> CHR ''.'') (rev w))))"

definition session_store_config :: "string \<Rightarrow> int \<Rightarrow> string \<Rightarrow> session_exn + session_config" where
  "session_store_config secret_key lifetime key_prefix =
     (if utf8_length secret_key < 32 then Inl SessionValueError
      else if lifetime < seconds 1 then Inl SessionValueError
      else if key_prefix = [] \<or> last key_prefix \<noteq> CHR '':'' then Inl SessionValueError
      else Inr \<lparr>sc_secret_key = secret_key, sc_lifetime = lifetime, sc_key_prefix = key_prefix\<rparr>)"

definition new_session :: "session_config \<Rightarrow> instant \<Rightarrow> byte list \<Rightarrow> byte list \<Rightarrow> uuid option \<Rightarrow> uuid option \<Rightarrow>
    browser_session" where
  "new_session cfg now id_bytes csrf_bytes user_id organization_id =
     \<lparr>bs_id = unpadded id_bytes, bs_user_id = user_id, bs_organization_id = organization_id,
      bs_csrf_token = unpadded csrf_bytes, bs_expires_at = now + sc_lifetime cfg\<rparr>"

type_synonym hmac = "string \<Rightarrow> string \<Rightarrow> byte list"

definition digest_ok :: "hmac \<Rightarrow> bool" where
  "digest_ok hmac \<longleftrightarrow> (\<forall>key message. length (hmac key message) = 32)"

definition signed_cookie :: "hmac \<Rightarrow> session_config \<Rightarrow> string \<Rightarrow> string" where
  "signed_cookie hmac cfg session_id =
     session_id @ ''.'' @ unpadded (hmac (sc_secret_key cfg) (''ui-session:'' @ session_id))"

definition verified_session_id :: "hmac \<Rightarrow> session_config \<Rightarrow> string option \<Rightarrow> session_exn + string option" where
  \<comment> \<open>\<open>hmac.compare_digest\<close> raises \<open>TypeError\<close> for a text that is not ASCII\<close>
  "verified_session_id hmac cfg cookie_value =
     (case cookie_value of
        None \<Rightarrow> Inr None
      | Some w \<Rightarrow>
          if w = [] \<or> 128 < length w then Inr None
          else
            (case rsplit_dot w of
               None \<Rightarrow> Inr None
             | Some (session_id, supplied_signature) \<Rightarrow>
                 if \<not> session_id_pattern session_id then Inr None
                 else
                   (case rsplit_dot (signed_cookie hmac cfg session_id) of
                      None \<Rightarrow> Inl SessionValueError
                    | Some (_, expected_signature) \<Rightarrow>
                        if list_ex (\<lambda>c. 128 \<le> (of_char c :: nat)) supplied_signature then Inl CompareTypeError
                        else if supplied_signature \<noteq> expected_signature then Inr None
                        else Inr (Some session_id))))"

subsection \<open>The process-local store\<close>

type_synonym memory_sessions = "string \<rightharpoonup> browser_session"

definition memory_rotate :: "hmac \<Rightarrow> session_config \<Rightarrow> instant \<Rightarrow> byte list \<Rightarrow> byte list \<Rightarrow> string option \<Rightarrow>
    uuid option \<Rightarrow> uuid option \<Rightarrow> memory_sessions \<Rightarrow> (session_exn + string \<times> browser_session) \<times> memory_sessions" where
  "memory_rotate hmac cfg now id_bytes csrf_bytes previous_cookie user_id organization_id st =
     (case verified_session_id hmac cfg previous_cookie of
        Inl e \<Rightarrow> (Inl e, st)
      | Inr previous_session_id \<Rightarrow>
          let session = new_session cfg now id_bytes csrf_bytes user_id organization_id;
              st1 = (case previous_session_id of None \<Rightarrow> st | Some i \<Rightarrow> st(i := None))
          in (Inr (signed_cookie hmac cfg (bs_id session), session), st1(bs_id session \<mapsto> session)))"

definition memory_create_anonymous :: "hmac \<Rightarrow> session_config \<Rightarrow> instant \<Rightarrow> byte list \<Rightarrow> byte list \<Rightarrow> string option \<Rightarrow>
    memory_sessions \<Rightarrow> (session_exn + string \<times> browser_session) \<times> memory_sessions" where
  "memory_create_anonymous hmac cfg now id_bytes csrf_bytes previous_cookie =
     memory_rotate hmac cfg now id_bytes csrf_bytes previous_cookie None None"

definition memory_authenticate :: "hmac \<Rightarrow> session_config \<Rightarrow> instant \<Rightarrow> byte list \<Rightarrow> byte list \<Rightarrow> string option \<Rightarrow>
    uuid \<Rightarrow> uuid \<Rightarrow> memory_sessions \<Rightarrow> (session_exn + string \<times> browser_session) \<times> memory_sessions" where
  "memory_authenticate hmac cfg now id_bytes csrf_bytes previous_cookie user_id organization_id =
     memory_rotate hmac cfg now id_bytes csrf_bytes previous_cookie (Some user_id) (Some organization_id)"

definition memory_resolve :: "hmac \<Rightarrow> session_config \<Rightarrow> instant \<Rightarrow> string option \<Rightarrow> memory_sessions \<Rightarrow>
    (session_exn + browser_session option) \<times> memory_sessions" where
  "memory_resolve hmac cfg now cookie_value st =
     (case verified_session_id hmac cfg cookie_value of
        Inl e \<Rightarrow> (Inl e, st)
      | Inr None \<Rightarrow> (Inr None, st)
      | Inr (Some session_id) \<Rightarrow>
          (case st session_id of
             None \<Rightarrow> (Inr None, st)
           | Some session \<Rightarrow>
               if bs_expires_at session \<le> now then (Inr None, st(session_id := None)) else (Inr (Some session), st)))"

definition memory_invalidate :: "hmac \<Rightarrow> session_config \<Rightarrow> string option \<Rightarrow> memory_sessions \<Rightarrow>
    (session_exn + unit) \<times> memory_sessions" where
  "memory_invalidate hmac cfg cookie_value st =
     (case verified_session_id hmac cfg cookie_value of
        Inl e \<Rightarrow> (Inl e, st)
      | Inr None \<Rightarrow> (Inr (), st)
      | Inr (Some session_id) \<Rightarrow> (Inr (), st(session_id := None)))"

subsection \<open>The Redis store\<close>

record 'txt codec =
  dumps :: "json \<Rightarrow> 'txt"
  loads :: "'txt \<Rightarrow> json option"
    \<comment> \<open>UTF-8 decoding where the client returns bytes, then \<open>json.loads\<close>\<close>
  isoformat :: "instant \<Rightarrow> string"
  fromisoformat :: "string \<Rightarrow> instant option option"
    \<comment> \<open>\<open>None\<close>: \<open>ValueError\<close>; \<open>Some None\<close>: a naive time\<close>

definition codec_ok :: "'txt codec \<Rightarrow> bool" where
  "codec_ok c \<longleftrightarrow> (\<forall>j. loads c (dumps c j) = Some j) \<and> (\<forall>t. fromisoformat c (isoformat c t) = Some (Some t))"

definition optional_str :: "uuid option \<Rightarrow> json" where
  "optional_str x = (case x of None \<Rightarrow> JNull | Some n \<Rightarrow> JStr (uuid_str n))"

definition serialize :: "'txt codec \<Rightarrow> browser_session \<Rightarrow> 'txt" where
  "serialize c session = dumps c (JObj [(''csrf_token'', JStr (bs_csrf_token session)),
     (''expires_at'', JStr (isoformat c (bs_expires_at session))),
     (''organization_id'', optional_str (bs_organization_id session)),
     (''user_id'', optional_str (bs_user_id session))])"

definition parse_optional :: "json \<Rightarrow> uuid option option" where
  \<comment> \<open>\<open>UUID(value) if value is not None else None\<close>, \<open>None\<close> for \<open>ValueError\<close>\<close>
  "parse_optional j = (case j of JNull \<Rightarrow> Some None | JStr w \<Rightarrow> map_option Some (UUID w) | _ \<Rightarrow> None)"

definition text_or_null :: "json \<Rightarrow> bool" where
  "text_or_null j \<longleftrightarrow> (case j of JNull \<Rightarrow> True | JStr _ \<Rightarrow> True | _ \<Rightarrow> False)"

definition deserialize_payload :: "'txt codec \<Rightarrow> string \<Rightarrow> (string \<times> json) list \<Rightarrow> browser_session option" where
  "deserialize_payload c session_id payload =
     (if set (map fst payload) \<noteq> {''csrf_token'', ''expires_at'', ''organization_id'', ''user_id''} then None
      else
        (case (map_of payload ''csrf_token'', map_of payload ''expires_at'', map_of payload ''user_id'',
               map_of payload ''organization_id'') of
           (Some (JStr csrf_token), Some (JStr expires_at_value), Some user_id_value, Some organization_id_value) \<Rightarrow>
             if csrf_token = [] \<or> \<not> text_or_null user_id_value \<or> \<not> text_or_null organization_id_value \<or>
                (user_id_value = JNull) \<noteq> (organization_id_value = JNull) then None
             else
               (case (fromisoformat c expires_at_value, parse_optional user_id_value, parse_optional organization_id_value) of
                  (Some (Some expires_at), Some user_id, Some organization_id) \<Rightarrow>
                    Some \<lparr>bs_id = session_id, bs_user_id = user_id, bs_organization_id = organization_id,
                          bs_csrf_token = csrf_token, bs_expires_at = expires_at\<rparr>
                | _ \<Rightarrow> None)
         | _ \<Rightarrow> None))"

definition deserialize :: "'txt codec \<Rightarrow> string \<Rightarrow> 'txt option \<Rightarrow> browser_session option" where
  "deserialize c session_id stored_value =
     (case stored_value of
        None \<Rightarrow> None
      | Some txt \<Rightarrow> (case loads c txt of Some (JObj payload) \<Rightarrow> deserialize_payload c session_id payload | _ \<Rightarrow> None))"

type_synonym 'txt redis = "string \<rightharpoonup> 'txt \<times> instant"

definition redis_value :: "instant \<Rightarrow> string \<Rightarrow> 'txt redis \<Rightarrow> 'txt option" where
  \<comment> \<open>\<open>GET\<close>: a key set with \<open>EX\<close> is gone when its time has come\<close>
  "redis_value now key st = (case st key of None \<Rightarrow> None | Some (v, expiry) \<Rightarrow> if now < expiry then Some v else None)"

definition redis_apply :: "db_fault \<Rightarrow> 'r \<Rightarrow> 'txt redis \<Rightarrow> 'txt redis \<Rightarrow> (session_exn + 'r) \<times> 'txt redis" where
  \<comment> \<open>one atomic write of the server, translated by \<open>except RedisError\<close>\<close>
  "redis_apply fault result st' st = (case fault of
     NoFault \<Rightarrow> (Inr result, st')
   | Aborted \<Rightarrow> (Inl BrowserSessionStoreUnavailableError, st)
   | AckLost \<Rightarrow> (Inl BrowserSessionStoreUnavailableError, st'))"

definition session_key :: "session_config \<Rightarrow> string \<Rightarrow> string" where
  "session_key cfg session_id = sc_key_prefix cfg @ session_id"

definition redis_delete :: "session_config \<Rightarrow> db_fault \<Rightarrow> string \<Rightarrow> 'txt redis \<Rightarrow> (session_exn + unit) \<times> 'txt redis" where
  "redis_delete cfg fault session_id st = redis_apply fault () (st(session_key cfg session_id := None)) st"

definition redis_rotate :: "hmac \<Rightarrow> 'txt codec \<Rightarrow> session_config \<Rightarrow> db_fault \<Rightarrow> instant \<Rightarrow> byte list \<Rightarrow> byte list \<Rightarrow>
    string option \<Rightarrow> uuid option \<Rightarrow> uuid option \<Rightarrow> 'txt redis \<Rightarrow> (session_exn + string \<times> browser_session) \<times> 'txt redis" where
  \<comment> \<open>the pipeline is one transaction: the deletion of the previous session and the new one\<close>
  "redis_rotate hmac c cfg fault now id_bytes csrf_bytes previous_cookie user_id organization_id st =
     (case verified_session_id hmac cfg previous_cookie of
        Inl e \<Rightarrow> (Inl e, st)
      | Inr previous_session_id \<Rightarrow>
          let session = new_session cfg now id_bytes csrf_bytes user_id organization_id;
              st1 = (case previous_session_id of None \<Rightarrow> st | Some i \<Rightarrow> st(session_key cfg i := None));
              st2 = st1(session_key cfg (bs_id session) \<mapsto>
                (serialize c session, now + seconds (sc_lifetime cfg div seconds 1)))
          in redis_apply fault (signed_cookie hmac cfg (bs_id session), session) st2 st)"

definition redis_create_anonymous :: "hmac \<Rightarrow> 'txt codec \<Rightarrow> session_config \<Rightarrow> db_fault \<Rightarrow> instant \<Rightarrow> byte list \<Rightarrow> byte list \<Rightarrow>
    string option \<Rightarrow> 'txt redis \<Rightarrow> (session_exn + string \<times> browser_session) \<times> 'txt redis" where
  "redis_create_anonymous hmac c cfg fault now id_bytes csrf_bytes previous_cookie =
     redis_rotate hmac c cfg fault now id_bytes csrf_bytes previous_cookie None None"

definition redis_authenticate :: "hmac \<Rightarrow> 'txt codec \<Rightarrow> session_config \<Rightarrow> db_fault \<Rightarrow> instant \<Rightarrow> byte list \<Rightarrow> byte list \<Rightarrow>
    string option \<Rightarrow> uuid \<Rightarrow> uuid \<Rightarrow> 'txt redis \<Rightarrow> (session_exn + string \<times> browser_session) \<times> 'txt redis" where
  "redis_authenticate hmac c cfg fault now id_bytes csrf_bytes previous_cookie user_id organization_id =
     redis_rotate hmac c cfg fault now id_bytes csrf_bytes previous_cookie (Some user_id) (Some organization_id)"

definition redis_resolve :: "hmac \<Rightarrow> 'txt codec \<Rightarrow> session_config \<Rightarrow> bool \<Rightarrow> db_fault \<Rightarrow> instant \<Rightarrow> string option \<Rightarrow>
    'txt redis \<Rightarrow> (session_exn + browser_session option) \<times> 'txt redis" where
  \<comment> \<open>\<open>get_ok\<close> says whether \<open>GET\<close> is answered; \<open>fault\<close> is the fate of the deletion\<close>
  "redis_resolve hmac c cfg get_ok fault now cookie_value st =
     (case verified_session_id hmac cfg cookie_value of
        Inl e \<Rightarrow> (Inl e, st)
      | Inr None \<Rightarrow> (Inr None, st)
      | Inr (Some session_id) \<Rightarrow>
          if \<not> get_ok then (Inl BrowserSessionStoreUnavailableError, st)
          else
            let stored_value = redis_value now (session_key cfg session_id) st;
                deleted = (let (r, st') = redis_delete cfg fault session_id st in
                  (case r of Inl e \<Rightarrow> (Inl e, st') | Inr _ \<Rightarrow> (Inr None, st')))
            in (case deserialize c session_id stored_value of
                  None \<Rightarrow> if stored_value \<noteq> None then deleted else (Inr None, st)
                | Some session \<Rightarrow> if bs_expires_at session \<le> now then deleted else (Inr (Some session), st)))"

definition redis_invalidate :: "hmac \<Rightarrow> session_config \<Rightarrow> db_fault \<Rightarrow> string option \<Rightarrow> 'txt redis \<Rightarrow>
    (session_exn + unit) \<times> 'txt redis" where
  "redis_invalidate hmac cfg fault cookie_value st =
     (case verified_session_id hmac cfg cookie_value of
        Inl e \<Rightarrow> (Inl e, st)
      | Inr None \<Rightarrow> (Inr (), st)
      | Inr (Some session_id) \<Rightarrow> redis_delete cfg fault session_id st)"

subsection \<open>Cookies\<close>

lemma b64_char_mem [simp]: "b64_char n \<in> set B64"
proof -
  have "n mod 64 < length B64" by (simp add: B64_def)
  then show ?thesis unfolding b64_char_def by (rule nth_mem)
qed

lemma b64_shape: "length bs mod 3 = 2 \<Longrightarrow>
    \<exists>ys. urlsafe_b64encode bs = ys @ ''='' \<and> length ys = 4 * (length bs div 3) + 3 \<and> set ys \<subseteq> set B64"
proof (induction bs rule: urlsafe_b64encode.induct)
  case (4 a b c rest)
  then have "length rest mod 3 = 2" by simp
  with 4 obtain ys where ys: "urlsafe_b64encode rest = ys @ ''=''" "length ys = 4 * (length rest div 3) + 3" "set ys \<subseteq> set B64"
    by blast
  have "length (a # b # c # rest) div 3 = Suc (length rest div 3)" by simp
  with ys show ?case
    by (intro exI [of _ "[b64_char (a div 4), b64_char (a mod 4 * 16 + b div 16), b64_char (b mod 16 * 4 + c div 64),
        b64_char (c mod 64)] @ ys"]) simp
qed simp_all

lemma unpadded_pattern:
  assumes "length bs = 32"
  shows "session_id_pattern (unpadded bs)"
proof -
  have "length bs mod 3 = 2" using assms by simp
  from b64_shape [OF this] obtain ys where ys: "urlsafe_b64encode bs = ys @ ''=''" "length ys = 43" "set ys \<subseteq> set B64"
    using assms by auto
  then have "ys \<noteq> []" by auto
  moreover from this ys(3) have "last ys \<in> set B64" using last_in_set by blast
  moreover have "CHR ''='' \<notin> set B64" by (simp add: B64_def)
  ultimately have "dropWhile (\<lambda>c. c = CHR ''='') (rev ys) = rev ys"
    by (metis dropWhile_fix_iff hd_rev)
  with ys show ?thesis by (auto simp: unpadded_def session_id_pattern_def list_all_iff)
qed

lemma pattern_chars:
  assumes "session_id_pattern w"
  shows "CHR ''.'' \<notin> set w" "\<forall>c \<in> set w. (of_char c :: nat) < 128" "length w = 43" "w \<noteq> []"
proof -
  have "\<forall>c \<in> set B64. c \<noteq> CHR ''.'' \<and> (of_char c :: nat) < 128" by (simp add: B64_def)
  then show "CHR ''.'' \<notin> set w" "\<forall>c \<in> set w. (of_char c :: nat) < 128" "length w = 43"
    using assms unfolding session_id_pattern_def list_all_iff by blast+
  then show "w \<noteq> []" by auto
qed

lemma rsplit_dot_join: "CHR ''.'' \<notin> set b \<Longrightarrow> rsplit_dot (a @ ''.'' @ b) = Some (a, b)"
proof -
  assume b: "CHR ''.'' \<notin> set b"
  have "takeWhile (\<lambda>c. c \<noteq> CHR ''.'') (xs @ CHR ''.'' # ys) = xs \<and>
      dropWhile (\<lambda>c. c \<noteq> CHR ''.'') (xs @ CHR ''.'' # ys) = CHR ''.'' # ys" if "CHR ''.'' \<notin> set xs" for xs ys
    using that by (induction xs) auto
  with b have "takeWhile (\<lambda>c. c \<noteq> CHR ''.'') (rev b @ CHR ''.'' # rev a) = rev b"
    "dropWhile (\<lambda>c. c \<noteq> CHR ''.'') (rev b @ CHR ''.'' # rev a) = CHR ''.'' # rev a"
    by (metis set_rev)+
  then show ?thesis by (simp add: rsplit_dot_def)
qed

lemma split_at_first: "x \<in> set r \<Longrightarrow> takeWhile (\<lambda>c. c \<noteq> x) r @ x # tl (dropWhile (\<lambda>c. c \<noteq> x) r) = r"
  by (induction r) auto

lemma rsplit_dot_SomeD: "rsplit_dot w = Some (a, b) \<Longrightarrow> w = a @ ''.'' @ b"
proof -
  assume s: "rsplit_dot w = Some (a, b)"
  then have dot: "CHR ''.'' \<in> set (rev w)" and ab: "rev a = tl (dropWhile (\<lambda>c. c \<noteq> CHR ''.'') (rev w))"
      "rev b = takeWhile (\<lambda>c. c \<noteq> CHR ''.'') (rev w)"
    by (auto simp: rsplit_dot_def split: if_splits)
  have "rev b @ CHR ''.'' # rev a = rev w" using split_at_first [OF dot] by (simp only: ab)
  then have "rev (rev b @ CHR ''.'' # rev a) = w" by simp
  then show ?thesis by simp
qed

lemma expected_signature:
  "digest_ok hmac \<Longrightarrow> rsplit_dot (signed_cookie hmac cfg i) =
     Some (i, unpadded (hmac (sc_secret_key cfg) (''ui-session:'' @ i)))"
  unfolding signed_cookie_def by (rule rsplit_dot_join) (use unpadded_pattern pattern_chars(1) in \<open>auto simp: digest_ok_def\<close>)

lemma verified_signed:
  assumes "digest_ok hmac" and "session_id_pattern i"
  shows "verified_session_id hmac cfg (Some (signed_cookie hmac cfg i)) = Inr (Some i)"
proof -
  let ?sig = "unpadded (hmac (sc_secret_key cfg) (''ui-session:'' @ i))"
  have sig: "session_id_pattern ?sig" using assms(1) unpadded_pattern by (simp add: digest_ok_def)
  have "length (signed_cookie hmac cfg i) = 87" "signed_cookie hmac cfg i \<noteq> []"
    using pattern_chars(3) [OF sig] pattern_chars(3) [OF assms(2)] by (auto simp: signed_cookie_def)
  moreover have "\<not> list_ex (\<lambda>c. 128 \<le> (of_char c :: nat)) ?sig"
    using pattern_chars(2) [OF sig] by (auto simp: list_ex_iff)
  ultimately show ?thesis using expected_signature [OF assms(1), of cfg i] assms(2)
    by (simp add: verified_session_id_def)
qed

lemma verified_only_signed:
  assumes "digest_ok hmac" and "verified_session_id hmac cfg c = Inr (Some i)"
  shows "c = Some (signed_cookie hmac cfg i) \<and> session_id_pattern i"
proof -
  from assms(2) obtain w sig where w: "c = Some w" "rsplit_dot w = Some (i, sig)" "session_id_pattern i"
      "rsplit_dot (signed_cookie hmac cfg i) = Some (i, sig)"
    using expected_signature [OF assms(1), of cfg]
    by (auto simp: verified_session_id_def split: option.splits if_splits prod.splits)
  from w(2,4) have "w = signed_cookie hmac cfg i" by (metis rsplit_dot_SomeD)
  with w show ?thesis by simp
qed

subsection \<open>What a session store promises\<close>

definition owner_ok :: "uuid option \<Rightarrow> uuid option \<Rightarrow> bool" where
  "owner_ok usr org \<longleftrightarrow> (usr = None \<longleftrightarrow> org = None) \<and> on_some uuid_range usr \<and> on_some uuid_range org"

text \<open>
  The specification both stores implement: a partial map \<open>live\<close> from session identifiers to sessions
  at a time, changed only by rotation and invalidation. \<open>verified\<close> reads the identifier of a cookie,
  \<open>fresh\<close> is the session a rotation creates.
\<close>

locale session_store =
  fixes verified :: "string option \<Rightarrow> session_exn + string option"
    and cookie_of :: "string \<Rightarrow> string"
    and fresh :: "instant \<Rightarrow> byte list \<Rightarrow> byte list \<Rightarrow> uuid option \<Rightarrow> uuid option \<Rightarrow> browser_session"
    and rotate :: "instant \<Rightarrow> byte list \<Rightarrow> byte list \<Rightarrow> string option \<Rightarrow> uuid option \<Rightarrow> uuid option \<Rightarrow> 's \<Rightarrow>
      (session_exn + string \<times> browser_session) \<times> 's"
    and resolve :: "instant \<Rightarrow> string option \<Rightarrow> 's \<Rightarrow> (session_exn + browser_session option) \<times> 's"
    and invalidate :: "string option \<Rightarrow> 's \<Rightarrow> (session_exn + unit) \<times> 's"
    and live :: "'s \<Rightarrow> instant \<Rightarrow> string \<Rightarrow> browser_session option"
  assumes verified_cookie: "length rnd = 32 \<Longrightarrow>
      verified (Some (cookie_of (bs_id (fresh now rnd csrf usr org)))) = Inr (Some (bs_id (fresh now rnd csrf usr org)))"
    and verified_only: "verified c = Inr (Some i) \<Longrightarrow> c = Some (cookie_of i)"
    and rotate_result: "verified prev = Inr p \<Longrightarrow> length rnd = 32 \<Longrightarrow> length csrf = 32 \<Longrightarrow> owner_ok usr org \<Longrightarrow>
      fst (rotate now rnd csrf prev usr org st) =
        Inr (cookie_of (bs_id (fresh now rnd csrf usr org)), fresh now rnd csrf usr org)"
    and rotate_live: "verified prev = Inr p \<Longrightarrow> length rnd = 32 \<Longrightarrow> length csrf = 32 \<Longrightarrow> owner_ok usr org \<Longrightarrow> now \<le> t \<Longrightarrow>
      live (snd (rotate now rnd csrf prev usr org st)) t i =
        (if i = bs_id (fresh now rnd csrf usr org)
         then if t < bs_expires_at (fresh now rnd csrf usr org) then Some (fresh now rnd csrf usr org) else None
         else if p = Some i then None else live st t i)"
    and resolve_result: "verified c = Inr p \<Longrightarrow>
      fst (resolve now c st) = Inr (case p of None \<Rightarrow> None | Some i \<Rightarrow> live st now i)"
    and resolve_live: "now \<le> t \<Longrightarrow> live (snd (resolve now c st)) t i = live st t i"
    and invalidate_result: "verified c = Inr p \<Longrightarrow> fst (invalidate c st) = Inr ()"
    and invalidate_live: "verified c = Inr p \<Longrightarrow>
      live (snd (invalidate c st)) t i = (if p = Some i then None else live st t i)"
begin

lemma sign_in:
  assumes "verified prev = Inr p" and "length rnd = 32" and "length csrf = 32" and "owner_ok usr org" and "now \<le> t"
  shows "fst (resolve t (Some (cookie_of (bs_id (fresh now rnd csrf usr org)))) (snd (rotate now rnd csrf prev usr org st))) =
    Inr (if t < bs_expires_at (fresh now rnd csrf usr org) then Some (fresh now rnd csrf usr org) else None)"
  using resolve_result [OF verified_cookie [OF assms(2)]] rotate_live [OF assms] by simp

lemma rotated_out:
  assumes "verified prev = Inr (Some j)" and "j \<noteq> bs_id (fresh now rnd csrf usr org)"
    and "length rnd = 32" and "length csrf = 32" and "owner_ok usr org" and "now \<le> t"
  shows "fst (resolve t prev (snd (rotate now rnd csrf prev usr org st))) = Inr None"
  using resolve_result [OF assms(1)] rotate_live [OF assms(1,3-6)] assms(2) by simp

lemma signed_out:
  assumes "verified c = Inr (Some j)"
  shows "fst (resolve t c (snd (invalidate c st))) = Inr None"
  using resolve_result [OF assms] invalidate_live [OF assms] by simp

lemma foreign_cookie: "fst (resolve t c st) = Inr (Some session) \<Longrightarrow> \<forall>e. verified c \<noteq> Inl e \<Longrightarrow>
    \<exists>i. c = Some (cookie_of i) \<and> live st t i = Some session"
proof -
  assume r: "fst (resolve t c st) = Inr (Some session)" and v: "\<forall>e. verified c \<noteq> Inl e"
  then obtain p where p: "verified c = Inr p" by (cases "verified c") auto
  with r resolve_result [OF p, of t st] obtain i where i: "p = Some i" "live st t i = Some session"
    by (cases p) auto
  with verified_only p show ?thesis by blast
qed

end

definition memory_live :: "memory_sessions \<Rightarrow> instant \<Rightarrow> string \<Rightarrow> browser_session option" where
  "memory_live st t i = (case st i of None \<Rightarrow> None | Some s \<Rightarrow> if t < bs_expires_at s then Some s else None)"

definition redis_live :: "'txt codec \<Rightarrow> session_config \<Rightarrow> 'txt redis \<Rightarrow> instant \<Rightarrow> string \<Rightarrow> browser_session option" where
  "redis_live c cfg st t i = (case deserialize c i (redis_value t (session_key cfg i) st) of
     None \<Rightarrow> None | Some s \<Rightarrow> if t < bs_expires_at s then Some s else None)"

definition whole_seconds :: "session_config \<Rightarrow> bool" where
  \<comment> \<open>lifetimes are configured in minutes, so that the expiry in Redis is the expiry of the session\<close>
  "whole_seconds cfg \<longleftrightarrow> (\<exists>k. sc_lifetime cfg = seconds k)"

lemma parse_optional_str: "on_some uuid_range x \<Longrightarrow> parse_optional (optional_str x) = Some x"
  by (cases x) (simp_all add: parse_optional_def optional_str_def UUID_uuid_str)

lemma deserialize_serialize:
  assumes "codec_ok c" and "owner_ok (bs_user_id s) (bs_organization_id s)" and "bs_csrf_token s \<noteq> []" and "bs_id s = i"
  shows "deserialize c i (Some (serialize c s)) = Some s"
proof -
  have "text_or_null (optional_str x)" "(optional_str x = JNull) = (x = None)" for x
    by (cases x; simp add: text_or_null_def optional_str_def)+
  moreover have "parse_optional (optional_str (bs_user_id s)) = Some (bs_user_id s)"
      "parse_optional (optional_str (bs_organization_id s)) = Some (bs_organization_id s)"
    using assms(2) by (simp_all add: parse_optional_str owner_ok_def)
  ultimately show ?thesis
    using assms unfolding deserialize_def serialize_def deserialize_payload_def
    by (auto simp: codec_ok_def owner_ok_def)
qed

lemma session_key_inj [simp]: "session_key cfg i = session_key cfg j \<longleftrightarrow> i = j"
  by (simp add: session_key_def)

lemma deserialize_None [simp]: "deserialize c i None = None"
  by (simp add: deserialize_def)

lemma redis_live_deleted:
  "redis_live c cfg (st(session_key cfg j := None)) t i = (if i = j then None else redis_live c cfg st t i)"
  by (simp add: redis_live_def redis_value_def)

lemma redis_live_stored:
  "redis_live c cfg (st(session_key cfg j \<mapsto> (v, e))) t i =
     (if i = j then (case deserialize c i (if t < e then Some v else None) of None \<Rightarrow> None
        | Some s \<Rightarrow> if t < bs_expires_at s then Some s else None) else redis_live c cfg st t i)"
  by (simp add: redis_live_def redis_value_def)

lemma new_session_csrf: "length csrf = 32 \<Longrightarrow> bs_csrf_token (new_session cfg now rnd csrf usr org) \<noteq> []"
  using unpadded_pattern pattern_chars(4) by (auto simp: new_session_def)

lemma seconds_div: "seconds k div seconds 1 = k"
  by (simp add: seconds_def)

lemma redis_value_later: "now \<le> t \<Longrightarrow> redis_value t k st = Some v \<Longrightarrow> redis_value now k st = Some v"
  by (auto simp: redis_value_def split: option.splits if_splits)

lemma redis_resolve_live:
  assumes "now \<le> t"
  shows "redis_live c cfg (snd (redis_resolve hmac c cfg get_ok fault now cookie st)) t i = redis_live c cfg st t i"
proof -
  have dead: "redis_live c cfg st t j = None"
    if "case deserialize c j (redis_value now (session_key cfg j) st) of None \<Rightarrow> True | Some s \<Rightarrow> bs_expires_at s \<le> now" for j
  proof (cases "redis_value t (session_key cfg j) st")
    case (Some v)
    from redis_value_later [OF assms Some] that Some assms show ?thesis
      by (auto simp: redis_live_def split: option.splits)
  qed (simp add: redis_live_def)
  have "snd (redis_resolve hmac c cfg get_ok fault now cookie st) = st \<or>
     (\<exists>j. snd (redis_resolve hmac c cfg get_ok fault now cookie st) = st(session_key cfg j := None) \<and>
        (case deserialize c j (redis_value now (session_key cfg j) st) of None \<Rightarrow> True | Some s \<Rightarrow> bs_expires_at s \<le> now))"
    by (auto simp: redis_resolve_def redis_delete_def redis_apply_def Let_def split: sum.splits option.splits db_fault.splits)
  then show ?thesis using dead by (auto simp: redis_live_deleted)
qed

text \<open>The environment of the stores: a digest function, a text format and a configuration.\<close>

locale session_env =
  fixes hmac :: hmac and c :: "'txt codec" and cfg :: session_config
  assumes digests: "digest_ok hmac" and texts: "codec_ok c" and lifetimes: "whole_seconds cfg"

sublocale session_env \<subseteq> memory: session_store "verified_session_id hmac cfg" "signed_cookie hmac cfg" "new_session cfg"
  "memory_rotate hmac cfg" "memory_resolve hmac cfg" "memory_invalidate hmac cfg" memory_live
proof
  fix rnd csrf :: "byte list" and now :: instant and usr org :: "uuid option"
  assume "length rnd = 32"
  then show "verified_session_id hmac cfg (Some (signed_cookie hmac cfg (bs_id (new_session cfg now rnd csrf usr org)))) =
      Inr (Some (bs_id (new_session cfg now rnd csrf usr org)))"
    using verified_signed [OF digests unpadded_pattern] by (simp add: new_session_def)
next
  show "verified_session_id hmac cfg ck = Inr (Some i) \<Longrightarrow> ck = Some (signed_cookie hmac cfg i)" for ck i
    using verified_only_signed [OF digests] by blast
qed (auto simp: memory_rotate_def memory_resolve_def memory_invalidate_def memory_live_def Let_def
    split: sum.split option.split)

sublocale session_env \<subseteq> redis: session_store "verified_session_id hmac cfg" "signed_cookie hmac cfg" "new_session cfg"
  "redis_rotate hmac c cfg NoFault" "redis_resolve hmac c cfg True NoFault" "redis_invalidate hmac cfg NoFault" "redis_live c cfg"
proof
  fix rnd csrf :: "byte list" and now t :: instant and usr org :: "uuid option" and prev p and st :: "'txt redis" and i
  assume v: "verified_session_id hmac cfg prev = Inr p" and len: "length rnd = 32" "length csrf = 32"
    and own: "owner_ok usr org" and t: "now \<le> t"
  let ?new = "new_session cfg now rnd csrf usr org"
  have decoded: "deserialize c (bs_id ?new) (Some (serialize c ?new)) = Some ?new"
    by (rule deserialize_serialize [OF texts _ new_session_csrf [OF len(2)]]) (use own in \<open>simp_all add: new_session_def\<close>)
  have ttl: "now + seconds (sc_lifetime cfg div seconds 1) = bs_expires_at ?new"
    using lifetimes by (auto simp: whole_seconds_def seconds_div new_session_def)
  show "redis_live c cfg (snd (redis_rotate hmac c cfg NoFault now rnd csrf prev usr org st)) t i =
      (if i = bs_id ?new then if t < bs_expires_at ?new then Some ?new else None
       else if p = Some i then None else redis_live c cfg st t i)"
    using decoded v by (auto simp: redis_rotate_def redis_apply_def Let_def ttl redis_live_stored redis_live_deleted split: option.split)
next
  show "redis_live c cfg (snd (redis_resolve hmac c cfg True NoFault now ck st)) t i = redis_live c cfg st t i"
    if "now \<le> t" for now t ck st i using redis_resolve_live [OF that] .
  show "fst (redis_resolve hmac c cfg True NoFault now ck st) = Inr (case p of None \<Rightarrow> None | Some i \<Rightarrow> redis_live c cfg st now i)"
    if "verified_session_id hmac cfg ck = Inr p" for ck p now st
    using that by (auto simp: redis_resolve_def redis_delete_def redis_apply_def redis_live_def Let_def split: option.split)
  show "redis_live c cfg (snd (redis_invalidate hmac cfg NoFault ck st)) t i = (if p = Some i then None else redis_live c cfg st t i)"
    if "verified_session_id hmac cfg ck = Inr p" for ck p st t i
    using that by (auto simp: redis_invalidate_def redis_delete_def redis_apply_def redis_live_deleted split: option.split)
qed (auto simp: memory.verified_cookie redis_rotate_def redis_invalidate_def redis_delete_def redis_apply_def Let_def
    split: option.split dest: memory.verified_only)

definition sample_hmac :: hmac where
  "sample_hmac key message = replicate 32 (length message)"

definition sample_codec :: "json codec" where
  "sample_codec = \<lparr>dumps = (\<lambda>j. j), loads = Some,
     isoformat = (\<lambda>t. (if t < 0 then CHR ''-'' else CHR ''+'') # replicate (nat \<bar>t\<bar>) (CHR ''1'')),
     fromisoformat = (\<lambda>w. Some (Some (if hd w = CHR ''-'' then - int (length w - 1) else int (length w - 1))))\<rparr>"

definition sample_session_config :: session_config where
  "sample_session_config = \<lparr>sc_secret_key = ''0123456789abcdef0123456789abcdef'', sc_lifetime = seconds 1800,
     sc_key_prefix = ''supportflow:ui-session:v1:''\<rparr>"

lemma sample_session_env: "digest_ok sample_hmac" "codec_ok sample_codec" "whole_seconds sample_session_config"
  by (auto simp: digest_ok_def sample_hmac_def codec_ok_def sample_codec_def whole_seconds_def sample_session_config_def)

interpretation sample_sessions: session_env sample_hmac sample_codec sample_session_config
  by unfold_locales (rule sample_session_env)+

subsection \<open>Sessions in Redis\<close>

inductive redis_run :: "hmac \<Rightarrow> 'txt codec \<Rightarrow> session_config \<Rightarrow> string \<Rightarrow> instant \<Rightarrow> 'txt redis \<Rightarrow> 'txt redis \<Rightarrow> bool"
  for hmac c cfg j t where
  \<comment> \<open>requests of any browsers up to time \<open>t\<close>, with any faults, that neither replace nor end session \<open>j\<close>\<close>
  no_request: "redis_run hmac c cfg j t st st"
| rotates: "now \<le> t \<Longrightarrow> verified_session_id hmac cfg prev \<noteq> Inr (Some j) \<Longrightarrow> unpadded id_bytes \<noteq> j \<Longrightarrow>
    redis_run hmac c cfg j t (snd (redis_rotate hmac c cfg fault now id_bytes csrf_bytes prev usr org st)) st' \<Longrightarrow>
    redis_run hmac c cfg j t st st'"
| resolves: "now \<le> t \<Longrightarrow>
    redis_run hmac c cfg j t (snd (redis_resolve hmac c cfg get_ok fault now ck st)) st' \<Longrightarrow> redis_run hmac c cfg j t st st'"
| invalidates: "verified_session_id hmac cfg ck \<noteq> Inr (Some j) \<Longrightarrow>
    redis_run hmac c cfg j t (snd (redis_invalidate hmac cfg fault ck st)) st' \<Longrightarrow> redis_run hmac c cfg j t st st'"

lemma redis_rotate_other:
  assumes "verified_session_id hmac cfg prev \<noteq> Inr (Some j)" and "unpadded id_bytes \<noteq> j"
  shows "redis_live c cfg (snd (redis_rotate hmac c cfg fault now id_bytes csrf_bytes prev usr org st)) t j = redis_live c cfg st t j"
  using assms by (auto simp: redis_rotate_def redis_apply_def Let_def redis_live_stored redis_live_deleted new_session_def
      split: sum.split option.split db_fault.split)

lemma redis_invalidate_other:
  assumes "verified_session_id hmac cfg ck \<noteq> Inr (Some j)"
  shows "redis_live c cfg (snd (redis_invalidate hmac cfg fault ck st)) t j = redis_live c cfg st t j"
  using assms by (auto simp: redis_invalidate_def redis_delete_def redis_apply_def redis_live_deleted
      split: sum.split option.split db_fault.split)

lemma redis_run_live: "redis_run hmac c cfg j t st st' \<Longrightarrow> redis_live c cfg st' t j = redis_live c cfg st t j"
  by (induction rule: redis_run.induct) (simp_all add: redis_rotate_other redis_invalidate_other redis_resolve_live)

lemma authenticate_parts:
  assumes "redis_authenticate hmac c cfg NoFault now id_bytes csrf_bytes prev usr org st = (Inr (cookie, session), st')"
  shows "\<exists>p. verified_session_id hmac cfg prev = Inr p" "session = new_session cfg now id_bytes csrf_bytes (Some usr) (Some org)"
    "cookie = signed_cookie hmac cfg (bs_id session)"
    "st' = snd (redis_rotate hmac c cfg NoFault now id_bytes csrf_bytes prev (Some usr) (Some org) st)"
  using assms by (auto simp: redis_authenticate_def redis_rotate_def redis_apply_def Let_def split: sum.splits)

definition stores_match :: "'txt codec \<Rightarrow> session_config \<Rightarrow> instant \<Rightarrow> memory_sessions \<Rightarrow> 'txt redis \<Rightarrow> bool" where
  \<comment> \<open>the same sessions are live from a time on\<close>
  "stores_match c cfg now ms rs \<longleftrightarrow> (\<forall>t i. now \<le> t \<longrightarrow> memory_live ms t i = redis_live c cfg rs t i)"

context session_env
begin

lemma signed_in_until_expiry:
  assumes "length id_bytes = 32" and "length csrf_bytes = 32" and "uuid_range usr" and "uuid_range org"
    and auth: "redis_authenticate hmac c cfg NoFault now id_bytes csrf_bytes prev usr org st = (Inr (cookie, session), st1)"
    and "redis_run hmac c cfg (bs_id session) t st1 st2" and "now \<le> t"
  shows "fst (redis_resolve hmac c cfg True NoFault t (Some cookie) st2) =
      Inr (if t < now + sc_lifetime cfg then Some session else None)"
proof -
  note parts = authenticate_parts [OF auth]
  obtain p where p: "verified_session_id hmac cfg prev = Inr p" using parts(1) by blast
  have own: "owner_ok (Some usr) (Some org)" using assms(3,4) by (simp add: owner_ok_def)
  have "redis_live c cfg st2 t (bs_id session) = redis_live c cfg st1 t (bs_id session)"
    by (rule redis_run_live [OF assms(6)])
  also have "\<dots> = (if t < bs_expires_at session then Some session else None)"
    using redis.rotate_live [OF p assms(1,2) own assms(7), of st] parts(2,4) by simp
  finally have "redis_live c cfg st2 t (bs_id session) = (if t < bs_expires_at session then Some session else None)" .
  moreover have "verified_session_id hmac cfg (Some cookie) = Inr (Some (bs_id session))"
    using redis.verified_cookie [OF assms(1)] parts(2,3) by simp
  ultimately show ?thesis
    using redis.resolve_result [of "Some cookie"] parts(2) by (simp add: new_session_def)
qed

lemma revoked:
  assumes "length id_bytes = 32" and "length csrf_bytes = 32" and "uuid_range usr" and "uuid_range org"
    and auth: "redis_authenticate hmac c cfg NoFault now id_bytes csrf_bytes prev usr org st = (Inr (cookie, session), st1)"
    and t: "now \<le> t"
  shows "verified_session_id hmac cfg prev = Inr (Some i) \<Longrightarrow> i \<noteq> bs_id session \<Longrightarrow>
      fst (redis_resolve hmac c cfg True NoFault t prev st1) = Inr None"
    and "fst (redis_invalidate hmac cfg NoFault (Some cookie) st1) = Inr ()"
    and "fst (redis_resolve hmac c cfg True NoFault t (Some cookie) (snd (redis_invalidate hmac cfg NoFault (Some cookie) st1))) = Inr None"
proof -
  note parts = authenticate_parts [OF auth]
  have own: "owner_ok (Some usr) (Some org)" using assms(3,4) by (simp add: owner_ok_def)
  have v: "verified_session_id hmac cfg (Some cookie) = Inr (Some (bs_id session))"
    using redis.verified_cookie [OF assms(1)] parts(2,3) by simp
  show "fst (redis_invalidate hmac cfg NoFault (Some cookie) st1) = Inr ()" by (rule redis.invalidate_result [OF v])
  show "fst (redis_resolve hmac c cfg True NoFault t (Some cookie) (snd (redis_invalidate hmac cfg NoFault (Some cookie) st1))) = Inr None"
    by (rule redis.signed_out [OF v])
  show "fst (redis_resolve hmac c cfg True NoFault t prev st1) = Inr None"
    if "verified_session_id hmac cfg prev = Inr (Some i)" "i \<noteq> bs_id session"
    using redis.rotated_out [OF that(1) _ assms(1,2) own t] that(2) parts(2,4) by simp
qed

lemma resolved_is_signed:
  assumes "fst (redis_resolve hmac c cfg True NoFault t ck st) = Inr (Some session)"
  shows "\<exists>i. ck = Some (signed_cookie hmac cfg i) \<and> redis_live c cfg st t i = Some session"
proof (rule redis.foreign_cookie [OF assms])
  show "\<forall>e. verified_session_id hmac cfg ck \<noteq> Inl e" using assms by (auto simp: redis_resolve_def)
qed

lemma stores_step:
  assumes m: "stores_match c cfg now ms rs" and "length id_bytes = 32" and "length csrf_bytes = 32" and "owner_ok usr org"
  shows "fst (memory_resolve hmac cfg now ck ms) = fst (redis_resolve hmac c cfg True NoFault now ck rs)"
    "stores_match c cfg now (snd (memory_resolve hmac cfg now ck ms)) (snd (redis_resolve hmac c cfg True NoFault now ck rs))"
    "fst (memory_rotate hmac cfg now id_bytes csrf_bytes ck usr org ms) =
       fst (redis_rotate hmac c cfg NoFault now id_bytes csrf_bytes ck usr org rs)"
    "stores_match c cfg now (snd (memory_rotate hmac cfg now id_bytes csrf_bytes ck usr org ms))
       (snd (redis_rotate hmac c cfg NoFault now id_bytes csrf_bytes ck usr org rs))"
    "fst (memory_invalidate hmac cfg ck ms) = fst (redis_invalidate hmac cfg NoFault ck rs)"
    "stores_match c cfg now (snd (memory_invalidate hmac cfg ck ms)) (snd (redis_invalidate hmac cfg NoFault ck rs))"
proof -
  have same: "memory_live ms t i = redis_live c cfg rs t i" if "now \<le> t" for t i
    using m that by (simp add: stores_match_def)
  have "stores_match c cfg now (snd (memory_resolve hmac cfg now ck ms)) (snd (redis_resolve hmac c cfg True NoFault now ck rs))"
    unfolding stores_match_def using memory.resolve_live redis.resolve_live same by simp
  then show "stores_match c cfg now (snd (memory_resolve hmac cfg now ck ms)) (snd (redis_resolve hmac c cfg True NoFault now ck rs))" .
  consider (bad) e where "verified_session_id hmac cfg ck = Inl e" | (good) p where "verified_session_id hmac cfg ck = Inr p"
    by (cases "verified_session_id hmac cfg ck") auto
  then have "fst (memory_resolve hmac cfg now ck ms) = fst (redis_resolve hmac c cfg True NoFault now ck rs) \<and>
     fst (memory_rotate hmac cfg now id_bytes csrf_bytes ck usr org ms) =
       fst (redis_rotate hmac c cfg NoFault now id_bytes csrf_bytes ck usr org rs) \<and>
     stores_match c cfg now (snd (memory_rotate hmac cfg now id_bytes csrf_bytes ck usr org ms))
       (snd (redis_rotate hmac c cfg NoFault now id_bytes csrf_bytes ck usr org rs)) \<and>
     fst (memory_invalidate hmac cfg ck ms) = fst (redis_invalidate hmac cfg NoFault ck rs) \<and>
     stores_match c cfg now (snd (memory_invalidate hmac cfg ck ms)) (snd (redis_invalidate hmac cfg NoFault ck rs))"
  proof cases
    case bad
    with m show ?thesis by (simp add: memory_resolve_def redis_resolve_def memory_rotate_def redis_rotate_def
          memory_invalidate_def redis_invalidate_def)
  next
    case good
    then show ?thesis unfolding stores_match_def
      using memory.resolve_result [OF good, of now ms] redis.resolve_result [OF good, of now rs]
        memory.rotate_result [OF good assms(2-4), of now ms] redis.rotate_result [OF good assms(2-4), of now rs]
        memory.rotate_live [OF good assms(2-4)] redis.rotate_live [OF good assms(2-4)]
        memory.invalidate_result [OF good, of ms] redis.invalidate_result [OF good, of rs]
        memory.invalidate_live [OF good, of ms] redis.invalidate_live [OF good, of rs] same
      by (simp split: option.split)
  qed
  then show "fst (memory_resolve hmac cfg now ck ms) = fst (redis_resolve hmac c cfg True NoFault now ck rs)"
    "fst (memory_rotate hmac cfg now id_bytes csrf_bytes ck usr org ms) =
       fst (redis_rotate hmac c cfg NoFault now id_bytes csrf_bytes ck usr org rs)"
    "stores_match c cfg now (snd (memory_rotate hmac cfg now id_bytes csrf_bytes ck usr org ms))
       (snd (redis_rotate hmac c cfg NoFault now id_bytes csrf_bytes ck usr org rs))"
    "fst (memory_invalidate hmac cfg ck ms) = fst (redis_invalidate hmac cfg NoFault ck rs)"
    "stores_match c cfg now (snd (memory_invalidate hmac cfg ck ms)) (snd (redis_invalidate hmac cfg NoFault ck rs))"
    by blast+
qed

end

text \<open>
  C18. A signed-in browser stays signed in until its session expires. After a sign-in, whatever other
  browsers request, with Redis failing in between or losing replies, as long as nobody rotates or
  ends this session, its cookie resolves to exactly the session of that user and organization at
  every time before its expiry, and to nothing from then on.
\<close>

theorem session_survives:
  assumes "digest_ok hmac" and "codec_ok c" and "whole_seconds cfg" and "length id_bytes = 32" and "length csrf_bytes = 32"
    and "uuid_range usr" and "uuid_range org"
    and "redis_authenticate hmac c cfg NoFault now id_bytes csrf_bytes prev usr org st = (Inr (cookie, session), st1)"
    and "redis_run hmac c cfg (bs_id session) t st1 st2" and "now \<le> t"
  shows "fst (redis_resolve hmac c cfg True NoFault t (Some cookie) st2) =
      Inr (if t < now + sc_lifetime cfg then Some session else None) \<and>
    bs_user_id session = Some usr \<and> bs_organization_id session = Some org \<and> is_authenticated session"
  using session_env.signed_in_until_expiry [OF session_env.intro [OF assms(1-3)] assms(4-10)] authenticate_parts(2) [OF assms(8)]
  by (simp add: new_session_def is_authenticated_def)

definition sample_signed_in :: "json redis" where
  "sample_signed_in = snd (redis_authenticate sample_hmac sample_codec sample_session_config NoFault 5
     (replicate 32 7) (replicate 32 9) None 10 50 Map.empty)"

definition sample_session :: browser_session where
  "sample_session = new_session sample_session_config 5 (replicate 32 7) (replicate 32 9) (Some 10) (Some 50)"

lemma sample_sign_in:
  "redis_authenticate sample_hmac sample_codec sample_session_config NoFault 5 (replicate 32 7) (replicate 32 9) None 10 50 Map.empty =
     (Inr (signed_cookie sample_hmac sample_session_config (bs_id sample_session), sample_session), sample_signed_in)"
  by (simp add: redis_authenticate_def redis_rotate_def redis_apply_def verified_session_id_def sample_signed_in_def
      sample_session_def Let_def)

theorem session_survives_witness:
  "fst (redis_resolve sample_hmac sample_codec sample_session_config True NoFault 6
     (Some (signed_cookie sample_hmac sample_session_config (bs_id sample_session))) sample_signed_in) = Inr (Some sample_session)"
proof -
  have "redis_run sample_hmac sample_codec sample_session_config (bs_id sample_session) 6 sample_signed_in sample_signed_in"
    by (rule no_request)
  from session_survives [OF sample_session_env _ _ sample_uuid_range(1,2) sample_sign_in this] show ?thesis
    by (simp add: sample_session_config_def seconds_def)
qed

text \<open>
  C19. Cookies cannot be fixed, replayed after sign-out or made up. Signing in invalidates the session
  the browser came with, signing out ends the new one for good, and at any time the only cookies
  that resolve to a session are the signed cookies of live sessions.
\<close>

theorem session_revocation:
  assumes "digest_ok hmac" and "codec_ok c" and "whole_seconds cfg" and "length id_bytes = 32" and "length csrf_bytes = 32"
    and "uuid_range usr" and "uuid_range org"
    and "redis_authenticate hmac c cfg NoFault now id_bytes csrf_bytes prev usr org st = (Inr (cookie, session), st1)"
    and "verified_session_id hmac cfg prev = Inr (Some i)" and "i \<noteq> bs_id session" and "now \<le> t"
  shows "fst (redis_resolve hmac c cfg True NoFault t prev st1) = Inr None \<and>
    fst (redis_resolve hmac c cfg True NoFault t (Some cookie) (snd (redis_invalidate hmac cfg NoFault (Some cookie) st1))) = Inr None \<and>
    (fst (redis_resolve hmac c cfg True NoFault t ck st1) = Inr (Some s) \<longrightarrow>
       (\<exists>j. ck = Some (signed_cookie hmac cfg j) \<and> redis_live c cfg st1 t j = Some s))"
proof -
  note env = session_env.intro [OF assms(1-3)]
  show ?thesis using session_env.revoked [OF env assms(4-8,11)] assms(9,10) session_env.resolved_is_signed [OF env] by blast
qed

theorem session_revocation_witness:
  \<comment> \<open>the same browser signs in a second time\<close>
  "\<exists>st1. fst (redis_resolve sample_hmac sample_codec sample_session_config True NoFault 8
     (Some (signed_cookie sample_hmac sample_session_config (bs_id sample_session))) st1) = Inr None"
proof -
  let ?prev = "Some (signed_cookie sample_hmac sample_session_config (bs_id sample_session))"
  let ?new = "new_session sample_session_config 7 (replicate 32 8) (replicate 32 9) (Some 10) (Some 50)"
  have v: "verified_session_id sample_hmac sample_session_config ?prev = Inr (Some (bs_id sample_session))"
    by (rule verified_signed [OF sample_session_env(1)]) (simp add: sample_session_def new_session_def unpadded_pattern)
  obtain st1 where auth: "redis_authenticate sample_hmac sample_codec sample_session_config NoFault 7 (replicate 32 8) (replicate 32 9)
      ?prev 10 50 sample_signed_in = (Inr (signed_cookie sample_hmac sample_session_config (bs_id ?new), ?new), st1)"
    by (simp add: redis_authenticate_def redis_rotate_def redis_apply_def v Let_def)
  have "unpadded (replicate 32 7) \<noteq> unpadded (replicate 32 8)" by code_simp
  then have "bs_id sample_session \<noteq> bs_id ?new" by (simp add: sample_session_def new_session_def)
  from session_revocation [OF sample_session_env _ _ sample_uuid_range(1,2) auth v this, of 8] show ?thesis by auto
qed

text \<open>
  A cookie whose signature part is not ASCII is not treated as invalid: the comparison raises
  \<open>TypeError\<close>, which no caller handles, so every operation given such a cookie fails with it and
  changes nothing.
\<close>

lemma nonascii_cookie_raises:
  assumes "digest_ok hmac" and "session_id_pattern i" and "list_ex (\<lambda>x. 128 \<le> (of_char x :: nat)) sig" and "CHR ''.'' \<notin> set sig"
    and "length sig \<le> 84"
  shows "redis_resolve hmac c cfg get_ok fault now (Some (i @ ''.'' @ sig)) st = (Inl CompareTypeError, st) \<and>
    redis_invalidate hmac cfg fault (Some (i @ ''.'' @ sig)) st = (Inl CompareTypeError, st) \<and>
    redis_rotate hmac c cfg fault now id_bytes csrf_bytes (Some (i @ ''.'' @ sig)) usr org st = (Inl CompareTypeError, st)"
proof -
  have "verified_session_id hmac cfg (Some (i @ ''.'' @ sig)) = Inl CompareTypeError"
    using rsplit_dot_join [OF assms(4), of i] expected_signature [OF assms(1), of cfg i] assms(2,3,5) pattern_chars(3) [OF assms(2)]
    by (simp add: verified_session_id_def)
  then show ?thesis by (simp add: redis_resolve_def redis_invalidate_def redis_rotate_def)
qed

lemma nonascii_cookie_raises_example:
  "redis_resolve sample_hmac sample_codec sample_session_config True NoFault 6
     (Some (replicate 43 (CHR ''A'') @ ''.'' @ [CHR 0xE9])) sample_signed_in = (Inl CompareTypeError, sample_signed_in)"
proof -
  have "session_id_pattern (replicate 43 (CHR ''A''))" by (simp add: session_id_pattern_def B64_def list_all_iff)
  from conjunct1 [OF nonascii_cookie_raises [OF sample_session_env(1) this, of "[CHR 0xE9]"]] show ?thesis by simp
qed

subsection \<open>The two stores answer alike\<close>

datatype session_request =
    Rotate "byte list" "byte list" "string option" "uuid option" "uuid option"
  | Resolve "string option"
  | Invalidate "string option"

datatype session_reply =
    Rotated "session_exn + string \<times> browser_session"
  | Resolved "session_exn + browser_session option"
  | Invalidated "session_exn + unit"

fun memory_serve :: "hmac \<Rightarrow> session_config \<Rightarrow> instant \<Rightarrow> session_request \<Rightarrow> memory_sessions \<Rightarrow> session_reply \<times> memory_sessions" where
  "memory_serve hmac cfg now (Rotate id_bytes csrf_bytes prev usr org) st =
     map_prod Rotated (\<lambda>x. x) (memory_rotate hmac cfg now id_bytes csrf_bytes prev usr org st)"
| "memory_serve hmac cfg now (Resolve ck) st = map_prod Resolved (\<lambda>x. x) (memory_resolve hmac cfg now ck st)"
| "memory_serve hmac cfg now (Invalidate ck) st = map_prod Invalidated (\<lambda>x. x) (memory_invalidate hmac cfg ck st)"

fun redis_serve :: "hmac \<Rightarrow> 'txt codec \<Rightarrow> session_config \<Rightarrow> instant \<Rightarrow> session_request \<Rightarrow> 'txt redis \<Rightarrow> session_reply \<times> 'txt redis" where
  "redis_serve hmac c cfg now (Rotate id_bytes csrf_bytes prev usr org) st =
     map_prod Rotated (\<lambda>x. x) (redis_rotate hmac c cfg NoFault now id_bytes csrf_bytes prev usr org st)"
| "redis_serve hmac c cfg now (Resolve ck) st = map_prod Resolved (\<lambda>x. x) (redis_resolve hmac c cfg True NoFault now ck st)"
| "redis_serve hmac c cfg now (Invalidate ck) st = map_prod Invalidated (\<lambda>x. x) (redis_invalidate hmac cfg NoFault ck st)"

fun replies :: "(instant \<Rightarrow> session_request \<Rightarrow> 's \<Rightarrow> session_reply \<times> 's) \<Rightarrow> (instant \<times> session_request) list \<Rightarrow> 's \<Rightarrow> session_reply list" where
  "replies serve [] st = []"
| "replies serve ((now, rq) # rest) st = fst (serve now rq st) # replies serve rest (snd (serve now rq st))"

fun request_ok :: "session_request \<Rightarrow> bool" where
  "request_ok (Rotate id_bytes csrf_bytes prev usr org) \<longleftrightarrow> length id_bytes = 32 \<and> length csrf_bytes = 32 \<and> owner_ok usr org"
| "request_ok (Resolve ck) \<longleftrightarrow> True"
| "request_ok (Invalidate ck) \<longleftrightarrow> True"

lemma stores_match_later: "stores_match c cfg now ms rs \<Longrightarrow> now \<le> now' \<Longrightarrow> stores_match c cfg now' ms rs"
  unfolding stores_match_def by (meson order_trans)

context session_env
begin

lemma serve_step:
  assumes "stores_match c cfg now ms rs" and "request_ok rq"
  shows "fst (memory_serve hmac cfg now rq ms) = fst (redis_serve hmac c cfg now rq rs)"
    "stores_match c cfg now (snd (memory_serve hmac cfg now rq ms)) (snd (redis_serve hmac c cfg now rq rs))"
proof -
  have own: "owner_ok None None" by (simp add: owner_ok_def)
  note plain = stores_step [OF assms(1), of "replicate 32 0" "replicate 32 0" None None, simplified, OF own]
  have "fst (memory_serve hmac cfg now rq ms) = fst (redis_serve hmac c cfg now rq rs) \<and>
    stores_match c cfg now (snd (memory_serve hmac cfg now rq ms)) (snd (redis_serve hmac c cfg now rq rs))"
  proof (cases rq)
    case (Rotate id_bytes csrf_bytes prev usr org)
    with assms(2) have "length id_bytes = 32" "length csrf_bytes = 32" "owner_ok usr org" by simp_all
    from stores_step(3,4) [OF assms(1) this, of prev] Rotate show ?thesis by simp
  qed (use plain(1,2,5,6) in simp_all)
  then show "fst (memory_serve hmac cfg now rq ms) = fst (redis_serve hmac c cfg now rq rs)"
    "stores_match c cfg now (snd (memory_serve hmac cfg now rq ms)) (snd (redis_serve hmac c cfg now rq rs))" by blast+
qed

lemma replies_agree:
  assumes "stores_match c cfg start ms rs" and "sorted (start # map fst reqs)" and "list_all (request_ok \<circ> snd) reqs"
  shows "replies (memory_serve hmac cfg) reqs ms = replies (redis_serve hmac c cfg) reqs rs"
  using assms
proof (induction reqs arbitrary: start ms rs)
  case (Cons r rest)
  obtain now rq where r: "r = (now, rq)" by (cases r)
  have m: "stores_match c cfg now ms rs" using Cons.prems(1,2) r stores_match_later by auto
  have ok: "request_ok rq" using Cons.prems(3) r by simp
  note step = serve_step [OF m ok]
  have "replies (memory_serve hmac cfg) rest (snd (memory_serve hmac cfg now rq ms)) =
      replies (redis_serve hmac c cfg) rest (snd (redis_serve hmac c cfg now rq rs))"
    by (rule Cons.IH [OF step(2)]) (use Cons.prems r in simp_all)
  with step(1) r show ?case by simp
qed simp

end

text \<open>
  C35. The store used in tests and the one used in production are the same program to a browser: from
  empty stores, any sequence of sign-ins, look-ups and sign-outs at non-decreasing times gets the
  same replies from both, errors included, while Redis answers.
\<close>

theorem session_stores_equivalent:
  assumes "digest_ok hmac" and "codec_ok c" and "whole_seconds cfg" and "sorted (map fst reqs)"
    and "list_all (request_ok \<circ> snd) reqs"
  shows "replies (memory_serve hmac cfg) reqs Map.empty = replies (redis_serve hmac c cfg) reqs Map.empty"
proof (cases reqs)
  case (Cons r rest)
  have empty: "stores_match c cfg (fst r) Map.empty Map.empty"
    by (simp add: stores_match_def memory_live_def redis_live_def redis_value_def)
  show ?thesis
    by (rule session_env.replies_agree [OF session_env.intro [OF assms(1-3)] empty]) (use assms(4,5) Cons in simp_all)
qed simp

definition sample_requests :: "(instant \<times> session_request) list" where
  "sample_requests = [(5, Rotate (replicate 32 7) (replicate 32 9) None (Some 10) (Some 50)),
     (6, Resolve (Some ''nonsense'')), (7, Invalidate None)]"

theorem session_stores_equivalent_witness:
  "replies (memory_serve sample_hmac sample_session_config) sample_requests Map.empty =
   replies (redis_serve sample_hmac sample_codec sample_session_config) sample_requests Map.empty"
  by (rule session_stores_equivalent [OF sample_session_env]) (simp_all add: sample_requests_def owner_ok_def)

end
