(* ===== verification/SF_Scanner.thy ===== *)
theory SF_Scanner
  imports SF_Delivery
begin

text \<open>
  The malware scanner client \<open>app/documents/clamd.py\<close>.

  A \<open>clamd_link\<close> is one connection to the daemon as the client meets it: whether the connection is
  made, what the successive calls of \<open>monotonic()\<close> read (in microseconds), which calls of
  \<open>sendall\<close> succeed, and, for the bytes written so far, what the successive calls of \<open>recv(1024)\<close>
  do (a chunk, the empty chunk at the end of the stream, or \<open>None\<close> for an exception). The daemon is
  thereby a parameter. \<open>wire\<close> is the client's side of the connection: the number of clock readings
  and of \<open>sendall\<close> calls, and the bytes written. \<open>OSError\<close>, \<open>TimeoutError\<close> and \<open>ValueError\<close> are
  the exceptions of \<open>clamd_exn\<close>. The scanned source is a \<open>stream\<close> of the results of its \<open>read\<close>.
\<close>

subsection \<open>The version reply\<close>

definition digit_zeros :: "nat list" where
  \<comment> \<open>the zeros of the decimal digits of Unicode 15.1; the other digits follow each of them\<close>
  "digit_zeros = [48, 1632, 1776, 1984, 2406, 2534, 2662, 2790, 2918, 3046, 3174, 3302, 3430, 3558,
     3664, 3792, 3872, 4160, 4240, 6112, 6160, 6470, 6608, 6784, 6800, 6992, 7088, 7232, 7248, 42528,
     43216, 43264, 43472, 43504, 43600, 44016, 65296, 66720, 68912, 69734, 69872, 69942, 70096, 70384,
     70736, 70864, 71248, 71360, 71472, 71904, 72016, 72784, 73040, 73120, 73552, 92768, 92864, 93008,
     120782, 120792, 120802, 120812, 120822, 123200, 123632, 124144, 125264, 130032]"

definition digit_value :: "nat \<Rightarrow> nat option" where
  \<comment> \<open>\<open>\d\<close> of a \<open>str\<close> pattern, with the value \<open>int\<close> gives the digit\<close>
  "digit_value c = map_option (\<lambda>z. c - z) (find (\<lambda>z. z \<le> c \<and> c < z + 10) digit_zeros)"

definition match_lit :: "ustr \<Rightarrow> ustr \<Rightarrow> ustr option" where
  "match_lit s xs = (if take (length s) xs = s then Some (drop (length s) xs) else None)"

definition match_no_slash :: "ustr \<Rightarrow> ustr option" where
  \<comment> \<open>\<open>[^/]+/\<close>\<close>
  "match_no_slash xs = (let r = dropWhile (\<lambda>c. c \<noteq> 47) xs in
     if take 1 xs = [47] \<or> r = [] then None else Some (tl r))"

definition match_spaces :: "ustr \<Rightarrow> ustr option" where
  \<comment> \<open>\<open>" +"\<close>; what follows it in the pattern never is a space\<close>
  "match_spaces xs = (if take 1 xs = [32] then Some (dropWhile (\<lambda>c. c = 32) xs) else None)"

definition match_one_of :: "ustr list \<Rightarrow> ustr \<Rightarrow> (nat \<times> ustr) option" where
  \<comment> \<open>an alternation of words, with the position of the one that matches\<close>
  "match_one_of ws xs =
     map_option (\<lambda>(i, w). (i, drop (length w) xs))
       (find (\<lambda>(i, w). take (length w) xs = w) (List.enumerate 0 ws))"

fun match_digits :: "nat \<Rightarrow> nat \<Rightarrow> ustr \<Rightarrow> (nat \<times> ustr) option" where
  \<comment> \<open>\<open>\d{n}\<close> after a prefix of value \<open>acc\<close>\<close>
  "match_digits 0 acc xs = Some (acc, xs)"
| "match_digits (Suc n) acc [] = None"
| "match_digits (Suc n) acc (x # xs) =
     (case digit_value x of None \<Rightarrow> None | Some d \<Rightarrow> match_digits n (10 * acc + d) xs)"

definition match_day :: "ustr \<Rightarrow> (nat \<times> ustr) option" where
  \<comment> \<open>\<open>\d{1,2}\<close>, greedy; the space that follows is no digit\<close>
  "match_day xs = (case match_digits 2 0 xs of Some r \<Rightarrow> Some r | None \<Rightarrow> match_digits 1 0 xs)"

definition WEEKDAYS :: "ustr list" where
  "WEEKDAYS = map u [''Mon'', ''Tue'', ''Wed'', ''Thu'', ''Fri'', ''Sat'', ''Sun'']"

definition MONTHS :: "ustr list" where
  "MONTHS = map u [''Jan'', ''Feb'', ''Mar'', ''Apr'', ''May'', ''Jun'', ''Jul'', ''Aug'', ''Sep'',
     ''Oct'', ''Nov'', ''Dec'']"

definition VERSION_TIMESTAMP :: "ustr \<Rightarrow> (nat \<times> nat \<times> nat \<times> nat \<times> nat \<times> nat) option" where
  \<comment> \<open>\<open>fullmatch\<close>: year, month, day, hour, minute and second\<close>
  "VERSION_TIMESTAMP xs =
     Option.bind (match_lit (u ''ClamAV '') xs) (\<lambda>xs.
     Option.bind (match_no_slash xs) (\<lambda>xs.
     Option.bind (match_no_slash xs) (\<lambda>xs.
     Option.bind (match_one_of WEEKDAYS xs) (\<lambda>(_, xs).
     Option.bind (match_spaces xs) (\<lambda>xs.
     Option.bind (match_one_of MONTHS xs) (\<lambda>(month, xs).
     Option.bind (match_spaces xs) (\<lambda>xs.
     Option.bind (match_day xs) (\<lambda>(day, xs).
     Option.bind (match_spaces xs) (\<lambda>xs.
     Option.bind (match_digits 2 0 xs) (\<lambda>(hour, xs).
     Option.bind (match_lit (u '':'') xs) (\<lambda>xs.
     Option.bind (match_digits 2 0 xs) (\<lambda>(minute, xs).
     Option.bind (match_lit (u '':'') xs) (\<lambda>xs.
     Option.bind (match_digits 2 0 xs) (\<lambda>(second, xs).
     Option.bind (match_spaces xs) (\<lambda>xs.
     Option.bind (match_digits 4 0 xs) (\<lambda>(year, xs).
       if xs = [] then Some (year, Suc month, day, hour, minute, second) else None))))))))))))))))"

subsection \<open>Calendar time\<close>

definition leap_year :: "nat \<Rightarrow> bool" where
  "leap_year y \<longleftrightarrow> 4 dvd y \<and> (\<not> 100 dvd y \<or> 400 dvd y)"

definition month_lengths :: "nat \<Rightarrow> nat list" where
  "month_lengths y = [31, if leap_year y then 29 else 28, 31, 30, 31, 30, 31, 31, 30, 31, 30, 31]"

definition days_before_year :: "nat \<Rightarrow> nat" where
  "days_before_year y = (let n = y - 1 in n * 365 + n div 4 - n div 100 + n div 400)"

definition civil_ok :: "nat \<Rightarrow> nat \<Rightarrow> nat \<Rightarrow> nat \<Rightarrow> nat \<Rightarrow> nat \<Rightarrow> bool" where
  "civil_ok year month day hour minute second \<longleftrightarrow>
     1 \<le> year \<and> year \<le> 9999 \<and> 1 \<le> month \<and> month \<le> 12 \<and> 1 \<le> day \<and>
     day \<le> month_lengths year ! (month - 1) \<and> hour < 24 \<and> minute < 60 \<and> second < 60"

definition civil_instant :: "nat \<Rightarrow> nat \<Rightarrow> nat \<Rightarrow> nat \<Rightarrow> nat \<Rightarrow> nat \<Rightarrow> instant" where
  \<comment> \<open>microseconds since the day before the first of January of year 1, whose ordinal is 1\<close>
  "civil_instant year month day hour minute second =
     seconds (int ((days_before_year year + sum_list (take (month - 1) (month_lengths year)) + day)
       * 86400 + hour * 3600 + minute * 60 + second))"

definition parse_clamd_database_timestamp :: "ustr \<Rightarrow> instant option" where
  "parse_clamd_database_timestamp version_reply =
     (case VERSION_TIMESTAMP (ustrip version_reply) of
        None \<Rightarrow> None
      | Some (year, month, day, hour, minute, second) \<Rightarrow>
          if civil_ok year month day hour minute second
          then Some (civil_instant year month day hour minute second) else None)"

subsection \<open>The connection\<close>

datatype clamd_exn = ClamdOSError | ClamdTimeoutError | ClamdValueError

record clamd_link =
  lk_connect :: bool
  lk_clock :: "nat \<Rightarrow> int"
  lk_sendall :: "nat \<Rightarrow> bool"
  lk_recv :: "byte list \<Rightarrow> stream"

record wire =
  w_ticks :: nat
  w_sends :: nat
  w_sent :: "byte list"

record clamd_config =
  cc_connect_timeout_seconds :: int
  cc_scan_timeout_seconds :: int
  cc_max_stream_bytes :: int
  cc_signature_max_age_seconds :: int
  cc_clock_skew_tolerance_seconds :: int

record clamd_env =
  ce_ping :: clamd_link
  ce_version :: clamd_link
  ce_stream :: clamd_link
  ce_now :: instant

definition CLAMD_STREAM_CHUNK_BYTES :: nat where
  "CLAMD_STREAM_CHUNK_BYTES = 64 * 1024"

definition CLAMD_MAX_REPLY_BYTES :: nat where
  "CLAMD_MAX_REPLY_BYTES = 4 * 1024"

definition set_remaining_timeout :: "clamd_link \<Rightarrow> int \<Rightarrow> wire \<Rightarrow> clamd_exn + wire" where
  \<comment> \<open>\<open>_remaining_seconds\<close>, then \<open>settimeout\<close>\<close>
  "set_remaining_timeout lk deadline w =
     (if deadline - lk_clock lk (w_ticks w) \<le> 0 then Inl ClamdTimeoutError
      else Inr (w\<lparr>w_ticks := Suc (w_ticks w)\<rparr>))"

definition connect :: "clamd_link \<Rightarrow> int \<Rightarrow> wire \<Rightarrow> clamd_exn + wire" where
  "connect lk deadline w = bindE (set_remaining_timeout lk deadline w) (\<lambda>w.
     if lk_connect lk then Inr w else Inl ClamdOSError)"

definition sendall :: "clamd_link \<Rightarrow> byte list \<Rightarrow> wire \<Rightarrow> clamd_exn + wire" where
  "sendall lk data w =
     (if lk_sendall lk (w_sends w)
      then Inr (w\<lparr>w_sends := Suc (w_sends w), w_sent := w_sent w @ data\<rparr>) else Inl ClamdOSError)"

fun receive_loop :: "clamd_link \<Rightarrow> int \<Rightarrow> stream \<Rightarrow> byte list \<Rightarrow> wire \<Rightarrow> clamd_exn + byte list" where
  "receive_loop lk deadline [] reply w =
     bindE (set_remaining_timeout lk deadline w) (\<lambda>_. Inr reply)"
| "receive_loop lk deadline (None # rest) reply w =
     bindE (set_remaining_timeout lk deadline w) (\<lambda>_. Inl ClamdOSError)"
| "receive_loop lk deadline (Some chunk # rest) reply w =
     bindE (set_remaining_timeout lk deadline w) (\<lambda>w.
       if chunk = [] then Inr reply
       else if 0 \<in> set chunk then Inr (reply @ takeWhile (\<lambda>b. b \<noteq> 0) chunk)
       else if CLAMD_MAX_REPLY_BYTES < length (reply @ chunk) then Inl ClamdValueError
       else receive_loop lk deadline rest (reply @ chunk) w)"

definition receive_record :: "clamd_link \<Rightarrow> int \<Rightarrow> wire \<Rightarrow> clamd_exn + ustr" where
  "receive_record lk deadline w =
     bindE (receive_loop lk deadline (lk_recv lk (w_sent w)) [] w) (\<lambda>reply.
       if reply = [] \<or> CLAMD_MAX_REPLY_BYTES < length reply then Inl ClamdValueError
       else case utf8_decode reply of None \<Rightarrow> Inl ClamdValueError | Some t \<Rightarrow> Inr (ustrip t))"

definition open_wire :: wire where
  \<comment> \<open>the first reading of the clock has fixed the deadline\<close>
  "open_wire = \<lparr>w_ticks = 1, w_sends = 0, w_sent = []\<rparr>"

definition clamd_command :: "clamd_config \<Rightarrow> clamd_link \<Rightarrow> string \<Rightarrow> clamd_exn + ustr" where
  "clamd_command cfg lk cmd =
     (let deadline = lk_clock lk 0 + seconds (cc_connect_timeout_seconds cfg) in
      bindE (connect lk deadline open_wire) (\<lambda>w.
      bindE (set_remaining_timeout lk deadline w) (\<lambda>w.
      bindE (sendall lk (u ''z'' @ u cmd @ [0]) w) (\<lambda>w.
        receive_record lk deadline w))))"

definition pack_be32 :: "nat \<Rightarrow> byte list" where
  \<comment> \<open>\<open>pack(">I", n)\<close> for a length below \<open>2 ^ 32\<close>, as that of every chunk is\<close>
  "pack_be32 n = [n div 16777216 mod 256, n div 65536 mod 256, n div 256 mod 256, n mod 256]"

fun send_chunks :: "clamd_link \<Rightarrow> int \<Rightarrow> int \<Rightarrow> stream \<Rightarrow> int \<Rightarrow> wire \<Rightarrow> clamd_exn + wire" where
  "send_chunks lk deadline max_bytes [] streamed w = Inr w"
| "send_chunks lk deadline max_bytes (None # rest) streamed w = Inl ClamdOSError"
| "send_chunks lk deadline max_bytes (Some chunk # rest) streamed w =
     (if chunk = [] then Inr w
      else
        let streamed = streamed + int (length chunk) in
        if max_bytes < streamed then Inl ClamdValueError
        else
          bindE (set_remaining_timeout lk deadline w) (\<lambda>w.
          bindE (sendall lk (pack_be32 (length chunk) @ chunk) w) (\<lambda>w.
            send_chunks lk deadline max_bytes rest streamed w)))"

definition scan_stream :: "clamd_config \<Rightarrow> clamd_link \<Rightarrow> stream \<Rightarrow> clamd_exn + ustr" where
  "scan_stream cfg lk source =
     (let deadline = lk_clock lk 0 + seconds (cc_scan_timeout_seconds cfg) in
      bindE (connect lk deadline open_wire) (\<lambda>w.
      bindE (set_remaining_timeout lk deadline w) (\<lambda>w.
      bindE (sendall lk (u ''zINSTREAM'' @ [0]) w) (\<lambda>w.
      bindE (send_chunks lk deadline (cc_max_stream_bytes cfg) source 0 w) (\<lambda>w.
      bindE (set_remaining_timeout lk deadline w) (\<lambda>w.
      bindE (sendall lk (pack_be32 0) w) (\<lambda>w.
        receive_record lk deadline w)))))))"

subsection \<open>The scanner\<close>

definition is_healthy :: "clamd_config \<Rightarrow> clamd_env \<Rightarrow> bool" where
  "is_healthy cfg env =
     (case clamd_command cfg (ce_ping env) ''PING'' of
        Inl _ \<Rightarrow> False
      | Inr pong \<Rightarrow>
          if pong \<noteq> u ''PONG'' then False
          else
            case clamd_command cfg (ce_version env) ''VERSION'' of
              Inl _ \<Rightarrow> False
            | Inr version \<Rightarrow>
                (case parse_clamd_database_timestamp version of
                   None \<Rightarrow> False
                 | Some signature_timestamp \<Rightarrow>
                     if ce_now env + seconds (cc_clock_skew_tolerance_seconds cfg) < signature_timestamp
                     then False
                     else max 0 (ce_now env - signature_timestamp)
                       \<le> seconds (cc_signature_max_age_seconds cfg)))"

definition starts_with :: "'a list \<Rightarrow> 'a list \<Rightarrow> bool" where
  "starts_with xs p \<longleftrightarrow> take (length p) xs = p"

definition ends_with :: "'a list \<Rightarrow> 'a list \<Rightarrow> bool" where
  "ends_with xs p \<longleftrightarrow> length p \<le> length xs \<and> drop (length xs - length p) xs = p"

definition scan_verdict :: "ustr \<Rightarrow> scan_result" where
  "scan_verdict reply =
     (if reply = u ''stream: OK'' then CLEAN
      else if starts_with reply (u ''stream: '') \<and> ends_with reply (u '' FOUND'') then
        let signature = drop 8 (take (length reply - 6) reply) in
        if signature \<noteq> [] \<and> 0 \<notin> set signature then INFECTED else UNAVAILABLE
      else UNAVAILABLE)"

definition clamd_scan :: "clamd_config \<Rightarrow> clamd_env \<Rightarrow> stream \<Rightarrow> scan_result" where
  "clamd_scan cfg env source =
     (if \<not> is_healthy cfg env then UNAVAILABLE
      else case scan_stream cfg (ce_stream env) source of
        Inl _ \<Rightarrow> UNAVAILABLE
      | Inr reply \<Rightarrow> scan_verdict reply)"

definition file_reads :: "byte list \<Rightarrow> stream" where
  \<comment> \<open>what \<open>read(CLAMD_STREAM_CHUNK_BYTES)\<close> returns, call by call, on a file with these bytes\<close>
  "file_reads bs = map Some (chunks CLAMD_STREAM_CHUNK_BYTES bs)"

subsection \<open>The protocol as the daemon reads it\<close>

text \<open>
  Reference definitions, independent of the client's loops: what a stream of reads amounts to, the
  record a stream of replies holds, and the documented \<open>INSTREAM\<close> framing, in which each chunk is
  preceded by its length and a chunk of length zero ends the data.
\<close>

fun stream_content :: "stream \<Rightarrow> byte list option" where
  "stream_content [] = Some []"
| "stream_content (None # rest) = None"
| "stream_content (Some chunk # rest) =
     (if chunk = [] then Some [] else map_option (append chunk) (stream_content rest))"

fun record_bytes :: "stream \<Rightarrow> byte list option" where
  "record_bytes [] = Some []"
| "record_bytes (None # rest) = None"
| "record_bytes (Some chunk # rest) =
     (if chunk = [] then Some []
      else if 0 \<in> set chunk then Some (takeWhile (\<lambda>b. b \<noteq> 0) chunk)
      else map_option (append chunk) (record_bytes rest))"

definition reply_text :: "stream \<Rightarrow> ustr option" where
  "reply_text replies = Option.bind (record_bytes replies) (\<lambda>reply.
     if reply = [] \<or> CLAMD_MAX_REPLY_BYTES < length reply then None
     else map_option ustrip (utf8_decode reply))"

definition unpack_be32 :: "byte list \<Rightarrow> nat" where
  "unpack_be32 bs = foldl (\<lambda>n b. 256 * n + b) 0 bs"

function instream_decode :: "byte list \<Rightarrow> byte list option" where
  "instream_decode bs =
     (if length bs < 4 then None
      else
        let n = unpack_be32 (take 4 bs); rest = drop 4 bs in
        if n = 0 then (if rest = [] then Some [] else None)
        else if length rest < n then None
        else map_option (append (take n rest)) (instream_decode (drop n rest)))"
  by auto

termination instream_decode
  by (relation "measure length") auto

declare instream_decode.simps [simp del]

definition reads_fit :: "stream \<Rightarrow> bool" where
  \<comment> \<open>no \<open>read(n)\<close> returns more than \<open>n\<close> bytes\<close>
  "reads_fit src \<longleftrightarrow> list_all (\<lambda>r. case r of None \<Rightarrow> True
     | Some chunk \<Rightarrow> length chunk \<le> CLAMD_STREAM_CHUNK_BYTES) src"

lemma unpack_pack_be32: "n < 4294967296 \<Longrightarrow> unpack_be32 (pack_be32 n) = n"
proof -
  assume n: "n < 4294967296"
  have d: "n div 65536 = n div 256 div 256" "n div 16777216 = n div 256 div 256 div 256"
    by (simp_all add: div_mult2_eq [symmetric])
  have "n div 256 div 256 div 256 < 256" using n by (simp add: div_mult2_eq [symmetric] less_mult_imp_div_less)
  then have top: "n div 256 div 256 div 256 mod 256 = n div 256 div 256 div 256" by simp
  have step: "256 * (m div 256) + m mod 256 = m" for m :: nat by simp
  show ?thesis unfolding unpack_be32_def pack_be32_def d top by (simp only: foldl.simps step) simp
qed

lemma length_pack_be32 [simp]: "length (pack_be32 n) = 4"
  by (simp add: pack_be32_def)

lemma instream_decode_end: "instream_decode (pack_be32 0) = Some []"
  by (subst instream_decode.simps) (simp add: unpack_pack_be32)

lemma instream_decode_frame:
  assumes "chunk \<noteq> []" and "length chunk < 4294967296"
  shows "instream_decode (pack_be32 (length chunk) @ chunk @ rest) =
    map_option (append chunk) (instream_decode rest)"
  using assms by (subst instream_decode.simps) (simp add: unpack_pack_be32 Let_def)

subsection \<open>What the client exchanges\<close>

lemma set_remaining_timeout_Inr: "set_remaining_timeout lk deadline w = Inr w' \<longleftrightarrow>
    lk_clock lk (w_ticks w) < deadline \<and> w' = w\<lparr>w_ticks := Suc (w_ticks w)\<rparr>"
  by (auto simp: set_remaining_timeout_def)

lemma sendall_Inr: "sendall lk data w = Inr w' \<longleftrightarrow> lk_sendall lk (w_sends w) \<and>
    w' = w\<lparr>w_sends := Suc (w_sends w), w_sent := w_sent w @ data\<rparr>"
  by (auto simp: sendall_def)

lemma connect_Inr: "connect lk deadline w = Inr w' \<longleftrightarrow> lk_connect lk \<and>
    lk_clock lk (w_ticks w) < deadline \<and> w' = w\<lparr>w_ticks := Suc (w_ticks w)\<rparr>"
  by (auto simp: connect_def bindE_Inr_iff set_remaining_timeout_Inr)

lemmas wire_simps = set_remaining_timeout_Inr sendall_Inr connect_Inr bindE_Inr_iff

lemma receive_loop_sound:
  "receive_loop lk deadline replies reply w = Inr r \<Longrightarrow>
   \<exists>more. record_bytes replies = Some more \<and> r = reply @ more"
  by (induction lk deadline replies reply w rule: receive_loop.induct)
    (fastforce simp: wire_simps split: if_splits)+

lemma receive_record_sound:
  "receive_record lk deadline w = Inr t \<Longrightarrow> reply_text (lk_recv lk (w_sent w)) = Some t"
  by (auto simp: receive_record_def reply_text_def bindE_Inr_iff dest!: receive_loop_sound
      split: if_splits option.splits)

lemma clamd_command_sound:
  "clamd_command cfg lk cmd = Inr t \<Longrightarrow> reply_text (lk_recv lk (u ''z'' @ u cmd @ [0])) = Some t"
  by (auto simp: clamd_command_def Let_def wire_simps open_wire_def dest!: receive_record_sound)

lemma map_option_append_Nil [simp]: "map_option (append []) x = x"
  by (cases x) simp_all

lemma send_chunks_sound:
  "send_chunks lk deadline max_bytes src streamed w = Inr w' \<Longrightarrow> reads_fit src \<Longrightarrow>
   \<exists>bs payload. stream_content src = Some bs \<and> w_sent w' = w_sent w @ payload \<and>
     (bs = [] \<or> streamed + int (length bs) \<le> max_bytes) \<and>
     (\<forall>rest. instream_decode (payload @ rest) = map_option (append bs) (instream_decode rest))"
proof (induction lk deadline max_bytes src streamed w rule: send_chunks.induct)
  case (1 lk deadline max_bytes streamed w)
  then show ?case by auto
next
  case (3 lk deadline max_bytes chunk rest streamed w)
  show ?case
  proof (cases "chunk = []")
    case True
    then show ?thesis using "3.prems"(1) by auto
  next
    case False
    let ?n = "streamed + int (length chunk)"
    from False "3.prems"(1) obtain w1 w2 where w: "\<not> max_bytes < ?n"
      "set_remaining_timeout lk deadline w = Inr w1"
      "sendall lk (pack_be32 (length chunk) @ chunk) w1 = Inr w2"
      "send_chunks lk deadline max_bytes rest ?n w2 = Inr w'"
      by (auto simp: Let_def bindE_Inr_iff split: if_splits)
    from "3.prems"(2) have fit: "length chunk < 4294967296" "reads_fit rest"
      by (auto simp: reads_fit_def CLAMD_STREAM_CHUNK_BYTES_def)
    from "3.IH" [OF False refl w(1,4) fit(2)] obtain bs payload where IH:
      "stream_content rest = Some bs" "w_sent w' = w_sent w2 @ payload"
      "bs = [] \<or> ?n + int (length bs) \<le> max_bytes"
      "\<And>rest. instream_decode (payload @ rest) = map_option (append bs) (instream_decode rest)"
      by blast
    have "instream_decode ((pack_be32 (length chunk) @ chunk @ payload) @ more) =
        map_option (append (chunk @ bs)) (instream_decode more)" for more
      using instream_decode_frame [OF False fit(1), of "payload @ more"] IH(4) [of more]
      by (cases "instream_decode more") simp_all
    moreover have "w_sent w' = w_sent w @ pack_be32 (length chunk) @ chunk @ payload"
      using w(2,3) IH(2) by (simp add: set_remaining_timeout_Inr sendall_Inr)
    ultimately show ?thesis using False w(1) IH(1,3) by auto
  qed
qed simp

lemma scan_stream_sound:
  assumes "scan_stream cfg lk src = Inr reply" and "reads_fit src"
  shows "\<exists>bs payload. stream_content src = Some bs \<and>
    (bs = [] \<or> int (length bs) \<le> cc_max_stream_bytes cfg) \<and> instream_decode payload = Some bs \<and>
    reply_text (lk_recv lk (u ''zINSTREAM'' @ [0] @ payload)) = Some reply"
proof -
  let ?deadline = "lk_clock lk 0 + seconds (cc_scan_timeout_seconds cfg)"
  define w1 where "w1 = \<lparr>w_ticks = 3, w_sends = 1, w_sent = u ''zINSTREAM'' @ [0]\<rparr>"
  from assms(1) obtain w2 where w:
      "send_chunks lk ?deadline (cc_max_stream_bytes cfg) src 0 w1 = Inr w2"
      "receive_record lk ?deadline (w2\<lparr>w_ticks := Suc (w_ticks w2), w_sends := Suc (w_sends w2),
         w_sent := w_sent w2 @ pack_be32 0\<rparr>) = Inr reply"
    by (auto simp: scan_stream_def Let_def wire_simps open_wire_def w1_def eval_nat_numeral)
  from send_chunks_sound [OF w(1) assms(2)] obtain bs payload where p: "stream_content src = Some bs"
      "w_sent w2 = w_sent w1 @ payload" "bs = [] \<or> int (length bs) \<le> cc_max_stream_bytes cfg"
      "instream_decode (payload @ pack_be32 0) = Some bs"
    by (auto simp: instream_decode_end)
  with receive_record_sound [OF w(2)] show ?thesis
    by (intro exI [of _ bs] exI [of _ "payload @ pack_be32 0"]) (simp add: w1_def)
qed

lemma scan_verdict_CLEAN [simp]: "scan_verdict reply = CLEAN \<longleftrightarrow> reply = u ''stream: OK''"
  by (simp add: scan_verdict_def Let_def)

lemma length_markers: "length (u ''stream: '') = 8" "length (u '' FOUND'') = 6"
  by (simp_all add: u_def)

lemma scan_verdict_FOUND:
  "scan_verdict reply = INFECTED \<longleftrightarrow>
   (\<exists>sig. sig \<noteq> [] \<and> 0 \<notin> set sig \<and> reply = u ''stream: '' @ sig @ u '' FOUND'')"
proof
  assume "scan_verdict reply = INFECTED"
  then have r: "take 8 reply = u ''stream: ''" "6 \<le> length reply"
      "drop (length reply - 6) reply = u '' FOUND''"
      "drop 8 (take (length reply - 6) reply) \<noteq> []" "0 \<notin> set (drop 8 (take (length reply - 6) reply))"
    by (auto simp: scan_verdict_def Let_def starts_with_def ends_with_def length_markers split: if_splits)
  have "8 \<le> length reply - 6" using r(4) by simp
  then have "take 8 (take (length reply - 6) reply) = u ''stream: ''" using r(1) by (simp add: min_def)
  then have "reply = u ''stream: '' @ drop 8 (take (length reply - 6) reply) @ u '' FOUND''"
    by (metis append.assoc append_take_drop_id r(3))
  with r(4,5) show "\<exists>sig. sig \<noteq> [] \<and> 0 \<notin> set sig \<and> reply = u ''stream: '' @ sig @ u '' FOUND''" by blast
next
  assume "\<exists>sig. sig \<noteq> [] \<and> 0 \<notin> set sig \<and> reply = u ''stream: '' @ sig @ u '' FOUND''"
  then obtain sig where s: "sig \<noteq> []" "0 \<notin> set sig" "reply = u ''stream: '' @ sig @ u '' FOUND''" by blast
  have "last reply = 68" "last (u ''stream: OK'') = 75" using s(3) by (simp_all add: u_def)
  then have "reply \<noteq> u ''stream: OK''" by auto
  then show "scan_verdict reply = INFECTED"
    using s by (simp add: scan_verdict_def starts_with_def ends_with_def length_markers)
qed

definition signatures_fresh :: "clamd_config \<Rightarrow> clamd_env \<Rightarrow> bool" where
  \<comment> \<open>the daemon answers, and reports signatures that are neither too old nor from the future\<close>
  "signatures_fresh cfg env \<longleftrightarrow>
     reply_text (lk_recv (ce_ping env) (u ''zPING'' @ [0])) = Some (u ''PONG'') \<and>
     (\<exists>version ts. reply_text (lk_recv (ce_version env) (u ''zVERSION'' @ [0])) = Some version \<and>
        parse_clamd_database_timestamp version = Some ts \<and>
        ce_now env - seconds (cc_signature_max_age_seconds cfg) \<le> ts \<and>
        ts \<le> ce_now env + seconds (cc_clock_skew_tolerance_seconds cfg))"

lemma is_healthy_sound: "is_healthy cfg env \<Longrightarrow> signatures_fresh cfg env"
  unfolding is_healthy_def signatures_fresh_def
  by (auto dest!: clamd_command_sound simp: u_def split: sum.splits if_splits option.splits)

definition streamed_reply :: "clamd_config \<Rightarrow> clamd_link \<Rightarrow> byte list \<Rightarrow> ustr \<Rightarrow> bool" where
  \<comment> \<open>a daemon that read exactly these bytes, framed and within the limit, answered with \<open>reply\<close>\<close>
  "streamed_reply cfg lk bs reply \<longleftrightarrow>
     (bs = [] \<or> int (length bs) \<le> cc_max_stream_bytes cfg) \<and>
     (\<exists>payload. instream_decode payload = Some bs \<and>
        reply_text (lk_recv lk (u ''zINSTREAM'' @ [0] @ payload)) = Some reply)"

lemma clamd_scan_sound:
  assumes "clamd_scan cfg env src = verdict" and "verdict \<noteq> UNAVAILABLE" and "reads_fit src"
  shows "signatures_fresh cfg env \<and> (\<exists>bs reply. stream_content src = Some bs \<and>
    streamed_reply cfg (ce_stream env) bs reply \<and> scan_verdict reply = verdict)"
proof -
  from assms(1,2) obtain reply where r: "is_healthy cfg env" "scan_verdict reply = verdict"
      "scan_stream cfg (ce_stream env) src = Inr reply"
    by (auto simp: clamd_scan_def split: if_splits sum.splits)
  from scan_stream_sound [OF r(3) assms(3)] r(2) is_healthy_sound [OF r(1)] show ?thesis
    unfolding streamed_reply_def by blast
qed

subsection \<open>A responsive daemon\<close>

lemma stream_content_chunks: "[] \<notin> set cs \<Longrightarrow> stream_content (map Some cs) = Some (concat cs)"
  by (induction cs) auto

lemma file_reads_content: "stream_content (file_reads bs) = Some bs"
  by (simp add: file_reads_def stream_content_chunks chunks_nonempty chunks_concat CLAMD_STREAM_CHUNK_BYTES_def)

lemma chunks_bound: "list_all (\<lambda>c. length c \<le> n) (chunks n bs)"
  by (induction n bs rule: chunks.induct) (subst chunks.simps, simp)

lemma file_reads_fit: "reads_fit (file_reads bs)"
  using chunks_bound [of CLAMD_STREAM_CHUNK_BYTES bs] by (simp add: file_reads_def reads_fit_def list.pred_map comp_def)

definition punctual :: "clamd_link \<Rightarrow> int \<Rightarrow> bool" where
  \<comment> \<open>the connection is made, every write succeeds and the deadline is never reached\<close>
  "punctual lk timeout \<longleftrightarrow> lk_connect lk \<and>
     (\<forall>n. lk_clock lk n < lk_clock lk 0 + seconds timeout) \<and> (\<forall>n. lk_sendall lk n)"

lemma receive_loop_complete:
  "record_bytes replies = Some suffix \<Longrightarrow> length (reply @ suffix) \<le> CLAMD_MAX_REPLY_BYTES \<Longrightarrow>
   (\<And>n. lk_clock lk n < deadline) \<Longrightarrow> receive_loop lk deadline replies reply w = Inr (reply @ suffix)"
  by (induction lk deadline replies reply w arbitrary: suffix rule: receive_loop.induct)
    (auto simp: set_remaining_timeout_def not_le split: if_splits)

lemma receive_record_complete:
  assumes "reply_text (lk_recv lk (w_sent w)) = Some t" and "\<And>n. lk_clock lk n < deadline"
  shows "receive_record lk deadline w = Inr t"
proof -
  from assms(1) obtain reply where r: "record_bytes (lk_recv lk (w_sent w)) = Some reply" "reply \<noteq> []"
      "length reply \<le> CLAMD_MAX_REPLY_BYTES" "map_option ustrip (utf8_decode reply) = Some t"
    by (auto simp: reply_text_def bind_eq_Some_conv split: if_splits)
  with receive_loop_complete [of "lk_recv lk (w_sent w)" reply "[]" lk deadline w, OF r(1) _ assms(2)]
  show ?thesis by (auto simp: receive_record_def)
qed

lemma clamd_command_complete:
  assumes "punctual lk (cc_connect_timeout_seconds cfg)"
    and "reply_text (lk_recv lk (u ''z'' @ u cmd @ [0])) = Some t"
  shows "clamd_command cfg lk cmd = Inr t"
proof -
  let ?deadline = "lk_clock lk 0 + seconds (cc_connect_timeout_seconds cfg)"
  have ok: "lk_connect lk" "\<And>n. lk_clock lk n < ?deadline" "\<And>n. lk_sendall lk n"
    using assms(1) by (auto simp: punctual_def)
  let ?w = "\<lparr>w_ticks = 3, w_sends = 1, w_sent = u ''z'' @ u cmd @ [0]\<rparr>"
  have "receive_record lk ?deadline ?w = Inr t"
    using assms(2) by (intro receive_record_complete ok) simp
  then show ?thesis using ok
    by (simp add: clamd_command_def Let_def connect_def set_remaining_timeout_def sendall_def
        open_wire_def not_le eval_nat_numeral)
qed

lemma send_chunks_complete:
  "stream_content src = Some bs \<Longrightarrow> bs = [] \<or> streamed + int (length bs) \<le> max_bytes \<Longrightarrow>
   (\<And>n. lk_clock lk n < deadline) \<Longrightarrow> (\<And>n. lk_sendall lk n) \<Longrightarrow>
   \<exists>w'. send_chunks lk deadline max_bytes src streamed w = Inr w'"
  by (induction lk deadline max_bytes src streamed w arbitrary: bs rule: send_chunks.induct)
    (auto simp: set_remaining_timeout_def sendall_def not_le Let_def split: if_splits)

lemma scan_stream_complete:
  assumes "punctual lk (cc_scan_timeout_seconds cfg)" and "reads_fit src"
    and "stream_content src = Some bs" and "bs = [] \<or> int (length bs) \<le> cc_max_stream_bytes cfg"
    and "\<And>payload. instream_decode payload = Some bs \<Longrightarrow>
      reply_text (lk_recv lk (u ''zINSTREAM'' @ [0] @ payload)) = Some reply"
  shows "scan_stream cfg lk src = Inr reply"
proof -
  let ?deadline = "lk_clock lk 0 + seconds (cc_scan_timeout_seconds cfg)"
  have ok: "lk_connect lk" "\<And>n. lk_clock lk n < ?deadline" "\<And>n. lk_sendall lk n"
    using assms(1) by (auto simp: punctual_def)
  define w1 where "w1 = \<lparr>w_ticks = Suc (Suc (Suc 0)), w_sends = Suc 0, w_sent = u ''zINSTREAM'' @ [0]\<rparr>"
  obtain w2 where w2: "send_chunks lk ?deadline (cc_max_stream_bytes cfg) src 0 w1 = Inr w2"
    using send_chunks_complete [OF assms(3) _ ok(2,3), of 0 "cc_max_stream_bytes cfg" w1] assms(4) by auto
  from send_chunks_sound [OF w2 assms(2)] assms(3) obtain payload where
    p: "w_sent w2 = w_sent w1 @ payload" "instream_decode (payload @ pack_be32 0) = Some bs"
    by (auto simp: instream_decode_end)
  let ?w = "w2\<lparr>w_ticks := Suc (w_ticks w2), w_sends := Suc (w_sends w2), w_sent := w_sent w2 @ pack_be32 0\<rparr>"
  have "receive_record lk ?deadline ?w = Inr reply"
    using assms(5) [OF p(2)] p(1) by (intro receive_record_complete ok) (simp add: w1_def)
  then show ?thesis using w2 ok
    by (simp add: scan_stream_def Let_def connect_def set_remaining_timeout_def sendall_def
        open_wire_def not_le w1_def)
qed

lemma is_healthy_complete:
  assumes "punctual (ce_ping env) (cc_connect_timeout_seconds cfg)"
    and "punctual (ce_version env) (cc_connect_timeout_seconds cfg)"
    and "signatures_fresh cfg env" and "0 \<le> cc_signature_max_age_seconds cfg"
  shows "is_healthy cfg env"
proof -
  from assms(3) obtain version ts where v:
      "reply_text (lk_recv (ce_ping env) (u ''zPING'' @ [0])) = Some (u ''PONG'')"
      "reply_text (lk_recv (ce_version env) (u ''zVERSION'' @ [0])) = Some version"
      "parse_clamd_database_timestamp version = Some ts"
      "ce_now env - seconds (cc_signature_max_age_seconds cfg) \<le> ts"
      "ts \<le> ce_now env + seconds (cc_clock_skew_tolerance_seconds cfg)"
    by (auto simp: signatures_fresh_def)
  have "clamd_command cfg (ce_ping env) ''PING'' = Inr (u ''PONG'')"
    using v(1) by (intro clamd_command_complete assms) (simp add: u_def)
  moreover have "clamd_command cfg (ce_version env) ''VERSION'' = Inr version"
    using v(2) by (intro clamd_command_complete assms) (simp add: u_def)
  moreover have "0 \<le> seconds (cc_signature_max_age_seconds cfg)" using assms(4) by (simp add: seconds_def)
  ultimately show ?thesis using v(3-5) by (simp add: is_healthy_def)
qed

subsection \<open>Reading the version line\<close>

definition two_digits :: "nat \<Rightarrow> ustr" where
  "two_digits n = [48 + n div 10, 48 + n mod 10]"

definition version_line :: "ustr \<Rightarrow> ustr \<Rightarrow> nat \<Rightarrow> nat \<Rightarrow> nat \<Rightarrow> nat \<Rightarrow> nat \<Rightarrow> nat \<Rightarrow> nat \<Rightarrow> ustr" where
  \<comment> \<open>\<open>ClamAV <engine>/<database>/Mon Jan  5 08:00:00 2026\<close>, the time as \<open>ctime\<close> prints it\<close>
  "version_line engine database weekday year month day hour minute second =
     u ''ClamAV '' @ engine @ 47 # database @ 47 # (WEEKDAYS ! weekday) @ 32 # (MONTHS ! (month - 1)) @
     32 # (if day < 10 then [32, 48 + day] else two_digits day) @ 32 # two_digits hour @ 58 #
     two_digits minute @ 58 # two_digits second @ 32 # two_digits (year div 100) @ two_digits (year mod 100)"

lemma digit_value_ascii [simp]: "d < 10 \<Longrightarrow> digit_value (48 + d) = Some d"
  by (simp add: digit_value_def digit_zeros_def)

lemma match_two_digits: "n < 100 \<Longrightarrow> match_digits (Suc (Suc k)) acc (two_digits n @ xs) =
    match_digits k (100 * acc + n) xs"
proof -
  assume n: "n < 100"
  then have "digit_value (48 + n div 10) = Some (n div 10)" "digit_value (48 + n mod 10) = Some (n mod 10)"
    by (intro digit_value_ascii; simp)+
  moreover have "10 * (10 * acc + n div 10) + n mod 10 = 100 * acc + n" by simp
  ultimately show ?thesis by (simp only: two_digits_def append.simps match_digits.simps option.simps)
qed

lemma match_no_slash_append: "47 \<notin> set v \<Longrightarrow> v \<noteq> [] \<Longrightarrow> match_no_slash (v @ 47 # xs) = Some xs"
proof -
  assume v: "47 \<notin> set v" "v \<noteq> []"
  then have "dropWhile (\<lambda>c. c \<noteq> 47) (v @ 47 # xs) = 47 # xs" by (auto simp: dropWhile_append)
  with v show ?thesis by (cases v) (auto simp: match_no_slash_def Let_def)
qed

lemma match_one_of_same:
  assumes "distinct ws" and "list_all (\<lambda>w. length w = n) ws" and "k < length ws"
  shows "match_one_of ws (ws ! k @ xs) = Some (k, xs)"
proof -
  have "length (ws ! j) = n" if "j < length ws" for j using assms(2) that by (simp add: list_all_length)
  then have "find (\<lambda>(i, w). take (length w) (ws ! k @ xs) = w) (List.enumerate 0 ws) = Some (k, ws ! k)"
    unfolding find_Some_iff using assms(1,3)
    by (intro exI [of _ k]) (auto simp: nth_enumerate_eq nth_eq_iff_index_eq)
  then show ?thesis by (simp add: match_one_of_def)
qed

lemma match_weekday: "k < 7 \<Longrightarrow> match_one_of WEEKDAYS (WEEKDAYS ! k @ xs) = Some (k, xs)"
  by (intro match_one_of_same [where n = 3]) (simp_all add: WEEKDAYS_def u_def)

lemma match_month: "k < 12 \<Longrightarrow> match_one_of MONTHS (MONTHS ! k @ xs) = Some (k, xs)"
  by (intro match_one_of_same [where n = 3]) (simp_all add: MONTHS_def u_def)

lemma match_day_printed: "day < 100 \<Longrightarrow>
    Option.bind (match_spaces (32 # (if day < 10 then [32, 48 + day] else two_digits day) @ 32 # xs)) match_day =
      Some (day, 32 # xs)"
proof (cases "day < 10")
  case True
  have "digit_value 32 = None" by (simp add: digit_value_def digit_zeros_def)
  then have "match_digits (Suc (Suc 0)) 0 ((48 + day) # 32 # xs) = None"
    "match_digits (Suc 0) 0 ((48 + day) # 32 # xs) = Some (day, 32 # xs)"
    using True by (simp_all only: match_digits.simps digit_value_ascii option.simps) simp
  with True show ?thesis by (simp add: match_spaces_def match_day_def numeral_2_eq_2)
next
  case False
  assume "day < 100"
  then have "match_digits 2 0 (two_digits day @ 32 # xs) = Some (day, 32 # xs)"
    using match_two_digits [of day 0 0] by (simp add: numeral_2_eq_2)
  with False show ?thesis by (simp add: match_spaces_def match_day_def two_digits_def)
qed

lemma match_lit_append: "match_lit s (s @ xs) = Some xs"
  by (simp add: match_lit_def)

lemma match_spaces_once: "x \<noteq> 32 \<Longrightarrow> match_spaces (32 # x # xs) = Some (x # xs)"
  by (simp add: match_spaces_def)

lemma match_spaces_month: "k < 12 \<Longrightarrow> match_spaces (32 # MONTHS ! k @ xs) = Some (MONTHS ! k @ xs)"
proof -
  assume k: "k < 12"
  have "list_all (\<lambda>w. w \<noteq> [] \<and> hd w \<noteq> 32) MONTHS" "length MONTHS = 12" by (simp_all add: MONTHS_def u_def)
  with k have "MONTHS ! k \<noteq> []" "hd (MONTHS ! k) \<noteq> 32" by (auto simp: list_all_length)
  then show ?thesis by (cases "MONTHS ! k") (simp_all add: match_spaces_once)
qed

lemma match_spaces_digits: "match_spaces (32 # two_digits n @ xs) = Some (two_digits n @ xs)"
  by (simp add: two_digits_def match_spaces_once)

lemma match_hms: "n < 100 \<Longrightarrow> match_digits 2 0 (two_digits n @ xs) = Some (n, xs)"
  using match_two_digits [of n 0 0 xs] by (simp add: numeral_2_eq_2)

lemma match_year: "n < 10000 \<Longrightarrow>
    match_digits 4 0 (two_digits (n div 100) @ two_digits (n mod 100)) = Some (n, [])"
proof -
  assume n: "n < 10000"
  have four: "(4 :: nat) = Suc (Suc (Suc (Suc 0)))" by simp
  show ?thesis
    unfolding four using n match_two_digits [of "n div 100" "Suc (Suc 0)" 0 "two_digits (n mod 100)"]
      match_two_digits [of "n mod 100" 0 "n div 100" "[]"]
    by (simp add: less_mult_imp_div_less)
qed

lemma VERSION_TIMESTAMP_line:
  assumes "civil_ok year month day hour minute second" and "weekday < 7"
    and "engine \<noteq> []" "47 \<notin> set engine" and "database \<noteq> []" "47 \<notin> set database"
  shows "VERSION_TIMESTAMP (version_line engine database weekday year month day hour minute second) =
    Some (year, month, day, hour, minute, second)"
proof -
  have b: "1 \<le> month" "month - 1 < 12" "hour < 100" "minute < 100" "second < 100" "year < 10000"
    using assms(1) by (auto simp: civil_ok_def)
  have "list_all (\<lambda>n. n < 100) (month_lengths year)" "length (month_lengths year) = 12"
    by (simp_all add: month_lengths_def)
  then have "month_lengths year ! (month - 1) < 100" using b(2) by (simp add: list_all_length)
  then have d: "day < 100" using assms(1) by (simp add: civil_ok_def)
  have colon: "match_lit (u '':'') (58 # xs) = Some xs" for xs by (simp add: match_lit_def u_def)
  define daytext where "daytext = (if day < 10 then [32, 48 + day] else two_digits day)"
  have "\<exists>r. match_spaces (32 # daytext @ 32 # xs) = Some r \<and> match_day r = Some (day, 32 # xs)" for xs
    using match_day_printed [OF d, of xs] unfolding daytext_def [symmetric] bind_eq_Some_conv by blast
  then obtain rd where rd: "\<And>xs. match_spaces (32 # daytext @ 32 # xs) = Some (rd xs)"
      "\<And>xs. match_day (rd xs) = Some (day, 32 # xs)" by metis
  note steps = match_lit_append match_no_slash_append match_weekday match_spaces_month match_month
    match_spaces_digits match_hms colon match_year rd
  show ?thesis
    unfolding version_line_def VERSION_TIMESTAMP_def daytext_def [symmetric]
    using b assms(2-6) by (simp only: steps bind.bind_lunit prod.case simp_thms if_True Suc_diff_1
      less_eq_Suc_le One_nat_def [symmetric])
qed

subsection \<open>Sample connections\<close>

definition sample_link :: "byte list \<Rightarrow> clamd_link" where
  "sample_link reply = \<lparr>lk_connect = True, lk_clock = (\<lambda>n. int n mod 7), lk_sendall = (\<lambda>_. True),
     lk_recv = (\<lambda>_. [Some (reply @ [0])])\<rparr>"

definition sample_clamd :: clamd_config where
  "sample_clamd = \<lparr>cc_connect_timeout_seconds = 2, cc_scan_timeout_seconds = 60,
     cc_max_stream_bytes = 10485760, cc_signature_max_age_seconds = 86400,
     cc_clock_skew_tolerance_seconds = 300\<rparr>"

definition sample_version_line :: ustr where
  "sample_version_line = version_line (u ''1.4.1'') (u ''27500'') 0 2026 1 5 8 0 0"

definition sample_clamd_env :: "ustr \<Rightarrow> clamd_env" where
  "sample_clamd_env reply = \<lparr>ce_ping = sample_link (u ''PONG''), ce_version = sample_link sample_version_line,
     ce_stream = sample_link reply, ce_now = civil_instant 2026 1 5 12 0 0\<rparr>"

lemma utf8_decode_ascii: "list_all (\<lambda>b. b < 128) bs \<Longrightarrow> utf8_decode bs = Some bs"
  by (induction bs) (simp_all add: utf8_decode_1)

lemma sample_reply:
  assumes "reply \<noteq> []" and "0 \<notin> set reply" and "length reply \<le> CLAMD_MAX_REPLY_BYTES"
    and "list_all (\<lambda>b. b < 128) reply" and "ustrip reply = reply"
  shows "reply_text (lk_recv (sample_link reply) bs) = Some reply"
proof -
  have "takeWhile (\<lambda>b. b \<noteq> 0) (reply @ [0]) = reply" using assms(2) by (subst takeWhile_append2) (auto intro!: gr0I)
  then show ?thesis using assms by (simp add: reply_text_def sample_link_def utf8_decode_ascii)
qed

lemma sample_link_punctual: "1 \<le> timeout \<Longrightarrow> punctual (sample_link reply) timeout"
proof -
  assume "1 \<le> timeout"
  moreover have "int n mod 7 < 7" for n by simp
  ultimately have "int n mod 7 < seconds timeout" for n by (auto simp: seconds_def intro: less_le_trans)
  then show ?thesis by (simp add: punctual_def sample_link_def)
qed

lemma sample_clamd_healthy:
  "punctual (ce_ping (sample_clamd_env reply)) (cc_connect_timeout_seconds sample_clamd)"
  "punctual (ce_version (sample_clamd_env reply)) (cc_connect_timeout_seconds sample_clamd)"
  "punctual (ce_stream (sample_clamd_env reply)) (cc_scan_timeout_seconds sample_clamd)"
  "0 \<le> cc_signature_max_age_seconds sample_clamd" "cc_max_stream_bytes sample_clamd = 10485760"
  by (simp_all add: sample_clamd_env_def sample_clamd_def sample_link_punctual)

lemma sample_signatures: "signatures_fresh sample_clamd (sample_clamd_env reply)"
proof -
  have line: "sample_version_line = u ''ClamAV 1.4.1/27500/Mon Jan  5 08:00:00 2026''"
    by (simp add: sample_version_line_def version_line_def WEEKDAYS_def MONTHS_def two_digits_def u_def)
  have strip: "ustrip sample_version_line = sample_version_line"
    unfolding ustrip_def by (rule strip_by_fix) (simp_all add: line u_def is_space_def)
  have version: "reply_text (lk_recv (sample_link sample_version_line) bs) = Some sample_version_line" for bs
    using strip by (intro sample_reply) (simp_all add: line u_def CLAMD_MAX_REPLY_BYTES_def)
  have pong: "reply_text (lk_recv (sample_link (u ''PONG'')) bs) = Some (u ''PONG'')" for bs
    by (intro sample_reply) (simp_all add: u_def CLAMD_MAX_REPLY_BYTES_def ustrip_def strip_by_def is_space_def)
  have ok: "civil_ok 2026 1 5 8 0 0" by (simp add: civil_ok_def month_lengths_def)
  have "VERSION_TIMESTAMP sample_version_line = Some (2026, 1, 5, 8, 0, 0)"
    unfolding sample_version_line_def by (rule VERSION_TIMESTAMP_line [OF ok]) (simp_all add: u_def)
  then have "parse_clamd_database_timestamp sample_version_line = Some (civil_instant 2026 1 5 8 0 0)"
    using ok by (simp add: parse_clamd_database_timestamp_def strip)
  then show ?thesis using pong version
    unfolding signatures_fresh_def sample_clamd_env_def
    by (simp add: sample_clamd_def civil_instant_def seconds_def)
qed

subsection \<open>Properties of the scanner\<close>

lemma clamd_scan_complete:
  assumes "punctual (ce_ping env) (cc_connect_timeout_seconds cfg)"
    and "punctual (ce_version env) (cc_connect_timeout_seconds cfg)"
    and "punctual (ce_stream env) (cc_scan_timeout_seconds cfg)"
    and "signatures_fresh cfg env" and "0 \<le> cc_signature_max_age_seconds cfg"
    and "int (length bs) \<le> cc_max_stream_bytes cfg"
    and "\<And>payload. instream_decode payload = Some bs \<Longrightarrow>
      reply_text (lk_recv (ce_stream env) (u ''zINSTREAM'' @ [0] @ payload)) = Some reply"
  shows "clamd_scan cfg env (file_reads bs) = scan_verdict reply"
proof -
  have "is_healthy cfg env" using assms by (intro is_healthy_complete)
  moreover have "scan_stream cfg (ce_stream env) (file_reads bs) = Inr reply"
    using assms by (intro scan_stream_complete [OF _ file_reads_fit file_reads_content]) auto
  ultimately show ?thesis by (simp add: clamd_scan_def)
qed

lemma sample_clamd_scan:
  assumes "int (length bs) \<le> 10485760"
    and "reply \<noteq> []" "0 \<notin> set reply" "length reply \<le> CLAMD_MAX_REPLY_BYTES"
    and "list_all (\<lambda>b. b < 128) reply" "ustrip reply = reply"
  shows "clamd_scan sample_clamd (sample_clamd_env reply) (file_reads bs) = scan_verdict reply"
  using assms sample_reply [of reply]
  by (intro clamd_scan_complete sample_clamd_healthy sample_signatures)
    (simp_all add: sample_clamd_healthy(5) sample_clamd_env_def)

lemma sample_replies:
  "scan_verdict (u ''stream: OK'') = CLEAN" "scan_verdict (u ''stream: Eicar FOUND'') = INFECTED"
  "int (length bs) \<le> 10485760 \<Longrightarrow>
     clamd_scan sample_clamd (sample_clamd_env (u ''stream: OK'')) (file_reads bs) = CLEAN"
  "int (length bs) \<le> 10485760 \<Longrightarrow>
     clamd_scan sample_clamd (sample_clamd_env (u ''stream: Eicar FOUND'')) (file_reads bs) = INFECTED"
proof -
  show ok: "scan_verdict (u ''stream: OK'') = CLEAN" by simp
  show found: "scan_verdict (u ''stream: Eicar FOUND'') = INFECTED"
    unfolding scan_verdict_FOUND by (intro exI [of _ "u ''Eicar''"]) (simp add: u_def)
  show "int (length bs) \<le> 10485760 \<Longrightarrow>
     clamd_scan sample_clamd (sample_clamd_env (u ''stream: OK'')) (file_reads bs) = CLEAN"
    unfolding ok [symmetric] by (rule sample_clamd_scan)
      (simp_all add: u_def CLAMD_MAX_REPLY_BYTES_def ustrip_def strip_by_def is_space_def)
  show "int (length bs) \<le> 10485760 \<Longrightarrow>
     clamd_scan sample_clamd (sample_clamd_env (u ''stream: Eicar FOUND'')) (file_reads bs) = INFECTED"
    unfolding found [symmetric] by (rule sample_clamd_scan)
      (simp_all add: u_def CLAMD_MAX_REPLY_BYTES_def ustrip_def strip_by_def is_space_def)
qed

text \<open>
  C23. The scanner fails closed: whatever the clock, the network, the daemon and the source do, a
  verdict other than \<open>UNAVAILABLE\<close> is given only if the daemon answered \<open>PING\<close> and reported
  signatures within the allowed age and clock skew, and answered a stream that frames exactly the
  bytes of the source, within the size limit, with \<open>stream: OK\<close> (\<open>CLEAN\<close>) or with
  \<open>stream: <signature> FOUND\<close> (\<open>INFECTED\<close>).
\<close>

theorem clamd_scan_fails_closed:
  assumes "clamd_scan cfg env src = verdict" and "verdict \<noteq> UNAVAILABLE" and "reads_fit src"
  shows "signatures_fresh cfg env \<and> (\<exists>bs reply. stream_content src = Some bs \<and>
    streamed_reply cfg (ce_stream env) bs reply \<and>
    (if verdict = CLEAN then reply = u ''stream: OK''
     else \<exists>sig. sig \<noteq> [] \<and> 0 \<notin> set sig \<and> reply = u ''stream: '' @ sig @ u '' FOUND''))"
proof -
  from clamd_scan_sound [OF assms] obtain bs reply where r: "signatures_fresh cfg env"
      "stream_content src = Some bs" "streamed_reply cfg (ce_stream env) bs reply"
      "scan_verdict reply = verdict" by blast
  have "if verdict = CLEAN then reply = u ''stream: OK''
     else \<exists>sig. sig \<noteq> [] \<and> 0 \<notin> set sig \<and> reply = u ''stream: '' @ sig @ u '' FOUND''"
    using r(4) assms(2) scan_verdict_FOUND [of reply] by (cases verdict) auto
  with r show ?thesis by blast
qed

theorem clamd_scan_fails_closed_witness:
  "\<exists>reply. streamed_reply sample_clamd (ce_stream (sample_clamd_env (u ''stream: Eicar FOUND''))) [1, 2, 3] reply \<and>
     scan_verdict reply = INFECTED"
proof -
  let ?env = "sample_clamd_env (u ''stream: Eicar FOUND'')"
  have "clamd_scan sample_clamd ?env (file_reads [1, 2, 3]) = INFECTED"
    by (rule sample_replies(4)) simp
  from clamd_scan_fails_closed [OF this _ file_reads_fit] obtain bs reply sig where
    r: "stream_content (file_reads [1, 2, 3]) = Some bs" "streamed_reply sample_clamd (ce_stream ?env) bs reply"
      "sig \<noteq> []" "0 \<notin> set sig" "reply = u ''stream: '' @ sig @ u '' FOUND''" by auto
  have "scan_verdict reply = INFECTED" using r(3-5) scan_verdict_FOUND by blast
  with r(1,2) show ?thesis by (auto simp: file_reads_content)
qed

text \<open>
  A responsive daemon is heard: if the connections are made, no deadline passes, the reported
  signatures are fresh and the file is within the limit, then the verdict is the one the daemon
  gives to a stream that decodes to exactly the bytes of the file.
\<close>

lemma clamd_scan_answers:
  assumes "punctual (ce_ping env) (cc_connect_timeout_seconds cfg)"
    and "punctual (ce_version env) (cc_connect_timeout_seconds cfg)"
    and "punctual (ce_stream env) (cc_scan_timeout_seconds cfg)"
    and "signatures_fresh cfg env" and "0 \<le> cc_signature_max_age_seconds cfg"
    and "int (length bs) \<le> cc_max_stream_bytes cfg"
    and "\<And>payload. instream_decode payload = Some bs \<Longrightarrow>
      reply_text (lk_recv (ce_stream env) (u ''zINSTREAM'' @ [0] @ payload)) = Some reply"
  shows "clamd_scan cfg env (file_reads bs) = scan_verdict reply"
  using assms by (rule clamd_scan_complete)

lemma clamd_scan_answers_example:
  "clamd_scan sample_clamd (sample_clamd_env (u ''stream: OK'')) (file_reads [1, 2, 3]) = CLEAN"
proof -
  have "reply_text (lk_recv (sample_link (u ''stream: OK'')) p) = Some (u ''stream: OK'')" for p
    by (intro sample_reply) (simp_all add: u_def CLAMD_MAX_REPLY_BYTES_def ustrip_def strip_by_def is_space_def)
  then have "clamd_scan sample_clamd (sample_clamd_env (u ''stream: OK'')) (file_reads [1, 2, 3]) =
      scan_verdict (u ''stream: OK'')"
    by (intro clamd_scan_answers sample_clamd_healthy sample_signatures)
      (simp_all add: sample_clamd_healthy(5) sample_clamd_env_def)
  then show ?thesis by simp
qed

text \<open>
  The database timestamp survives printing and parsing: from a \<open>VERSION\<close> reply in the format
  of the daemon, with any engine and database names and any valid time from year 1 to 9999,
  \<open>parse_clamd_database_timestamp\<close> recovers exactly that time.
\<close>

lemma version_timestamp_roundtrip:
  assumes "civil_ok year month day hour minute second" and "weekday < 7"
    and "engine \<noteq> []" "47 \<notin> set engine" and "database \<noteq> []" "47 \<notin> set database"
  shows "parse_clamd_database_timestamp
      (version_line engine database weekday year month day hour minute second) =
    Some (civil_instant year month day hour minute second)"
proof -
  let ?line = "version_line engine database weekday year month day hour minute second"
  have "\<not> is_space (hd ?line)" by (simp add: version_line_def u_def is_space_def)
  moreover have "last ?line = 48 + year mod 100 mod 10" by (simp add: version_line_def two_digits_def)
  then have "48 \<le> last ?line" "last ?line < 58" by simp_all
  then have "\<not> is_space (last ?line)" by (simp add: is_space_def)
  moreover have "?line \<noteq> []" by (simp add: version_line_def u_def)
  ultimately have "ustrip ?line = ?line" unfolding ustrip_def by (intro strip_by_fix)
  then show ?thesis
    using assms(1) VERSION_TIMESTAMP_line [OF assms] by (simp add: parse_clamd_database_timestamp_def)
qed

lemma version_timestamp_roundtrip_example:
  "parse_clamd_database_timestamp (u ''ClamAV 1.4.1/27500/Thu Feb 29 23:59:59 2024'') =
     Some (civil_instant 2024 2 29 23 59 59)"
  using version_timestamp_roundtrip [of 2024 2 29 23 59 59 3 "u ''1.4.1''" "u ''27500''"]
  by (simp add: civil_ok_def month_lengths_def leap_year_def version_line_def WEEKDAYS_def MONTHS_def
      two_digits_def u_def)

text \<open>
  C5. Only scanned content becomes ready: with the \<open>clamd\<close> client as the worker's scanner, a row
  that \<open>process\<close> turns \<open>ready\<close>, under any faults and interference, holds the text extracted from
  bytes of the recorded size and digest that were streamed to a daemon with fresh signatures,
  exactly and within the limit, and that the daemon answered with \<open>stream: OK\<close>.
\<close>

theorem ready_only_scanned:
  assumes "db_ok s" and "rely (tx_others t1)" and "rely (tx_others t2)"
    and "process w t1 t2 vid task s = (r, s')"
    and "v' \<in> set (document_versions s')" "v_status v' = READY"
      "v' \<notin> set (document_versions (tx_others t1 s))"
      "v' \<notin> set (document_versions
         (tx_others t2 (snd (claim (worker_max_attempts w) t1 vid task (tx_others t1 s)))))"
    and clamd: "scanner w = (\<lambda>bs. Some (clamd_scan cfg env (file_reads bs)))"
  shows "signatures_fresh cfg env \<and> (\<exists>bs words. int (length bs) = v_size_bytes v' \<and>
    digest w bs = v_content_sha256 v' \<and> streamed_reply cfg (ce_stream env) bs (u ''stream: OK'') \<and>
    v_extracted_text v' = Some words \<and>
    registry_get (read_pdf w) (v_media_type v') bs (limits w) = Inr words)"
proof -
  from ready_rows_verified [OF assms(1-8)] obtain words bs where v: "v_extracted_text v' = Some words"
      "int (length bs) = v_size_bytes v'" "digest w bs = v_content_sha256 v'"
      "scanner w bs = Some CLEAN" "registry_get (read_pdf w) (v_media_type v') bs (limits w) = Inr words"
    unfolding verified_content_def by blast
  from v(4) have "clamd_scan cfg env (file_reads bs) = CLEAN" by (simp add: clamd)
  from clamd_scan_sound [OF this _ file_reads_fit] v show ?thesis
    by (auto simp: file_reads_content)
qed

theorem ready_only_scanned_witness:
  "\<exists>(v' :: document_version) bs words. v_status v' = READY \<and> v_extracted_text v' = Some words \<and>
     int (length bs) = v_size_bytes v' \<and>
     streamed_reply sample_clamd (ce_stream (sample_clamd_env (u ''stream: OK''))) bs (u ''stream: OK'')"
proof -
  let ?sc = "\<lambda>bs. Some (clamd_scan sample_clamd (sample_clamd_env (u ''stream: OK'')) (file_reads bs))"
  let ?w = "sample_worker [build_storage_key 1 100 101 \<mapsto> [104, 105]]\<lparr>scanner := ?sc\<rparr>"
  obtain s' v' where run: "process ?w (sample_tx 8 110) (sample_tx 9 111) (v_id sample_version) ''task''
      sample_uploaded = (Inr OutReady, s')" "v' \<in> set (document_versions s')" "v_status v' = READY"
    using sample_process_scanned [of ?sc] by (auto simp: sample_replies(3))
  have rely: "rely (tx_others (sample_tx n k))" for n k by (simp add: rely_def sample_tx_def)
  have old: "v' \<notin> set (document_versions sample_uploaded)"
    using run(3) by (auto simp: sample_uploaded_tables)
  have mid: "v' \<notin> set (document_versions (snd (claim (worker_max_attempts ?w) (sample_tx 8 110)
      (v_id sample_version) ''task'' sample_uploaded)))"
    using claim_new_rows [of _ _ _ _ _ "fst (claim (worker_max_attempts ?w) (sample_tx 8 110)
      (v_id sample_version) ''task'' sample_uploaded)", OF surjective_pairing _ run(3)] old by blast
  have idle: "tx_others (sample_tx n k) x = x" for n k x by (simp add: sample_tx_def)
  have sc: "scanner ?w = ?sc" by simp
  show ?thesis
    using ready_only_scanned [OF sample_uploaded_ok rely rely run, unfolded idle, OF old mid sc] run(3)
    by blast
qed

end
