(* ===== verification/SF_Settings.thy ===== *)
theory SF_Settings
  imports SF_Identity SF_Scanner
begin

text \<open>
  \<open>app/config.py\<close>: the settings with their field bounds, the model validator that hardens staging and
  production, the checks of the database and Redis URLs, and the recovery interval of the outbox; and
  \<open>app/documents/composition.py\<close>, which turns settings into storage and scanner adapters.

  The strings of the settings are ASCII, so that \<open>str.lower\<close> is \<open>lower_s\<close>, and a percent escape
  beyond ASCII decodes to one character per byte. \<open>urlsplit\<close> and \<open>parse_qs\<close> are those of Python
  3.13 on such strings; whether a bracketed host is an IPv6 literal is the argument \<open>ip_literal\<close>.
  Reading the environment and the \<open>.env\<close> file is left out: the fields are given, without the four
  free-text ones (\<open>app_name\<close>, \<open>app_version\<close>, \<open>auth_issuer\<close>, \<open>auth_audience\<close>) and \<open>debug\<close>, which nothing checks.
\<close>

subsection \<open>URLs\<close>

record url =
  url_scheme :: string
  url_netloc :: string
  url_query :: string

definition after_first :: "'a \<Rightarrow> 'a list \<Rightarrow> 'a list" where
  \<comment> \<open>\<open>s.partition(c)[2]\<close>\<close>
  "after_first c xs = tl (dropWhile (\<lambda>x. x \<noteq> c) xs)"

definition before_first :: "'a \<Rightarrow> 'a list \<Rightarrow> 'a list" where
  \<comment> \<open>\<open>s.partition(c)[0]\<close>\<close>
  "before_first c xs = takeWhile (\<lambda>x. x \<noteq> c) xs"

definition after_last :: "'a \<Rightarrow> 'a list \<Rightarrow> 'a list" where
  \<comment> \<open>\<open>s.rpartition(c)[2]\<close>\<close>
  "after_last c xs = rev (takeWhile (\<lambda>x. x \<noteq> c) (rev xs))"

definition is_letter :: "char \<Rightarrow> bool" where
  "is_letter c \<longleftrightarrow> (let n = of_char c :: nat in 65 \<le> n \<and> n \<le> 90 \<or> 97 \<le> n \<and> n \<le> 122)"

definition scheme_char :: "char \<Rightarrow> bool" where
  "scheme_char c \<longleftrightarrow> is_letter c \<or> (let n = of_char c :: nat in 48 \<le> n \<and> n \<le> 57) \<or> c \<in> set ''+-.''"

definition bracketed_host_ok :: "(string \<Rightarrow> bool) \<Rightarrow> string \<Rightarrow> bool" where
  "bracketed_host_ok ip_literal h =
     (if take 1 h = ''v'' then
        let hex = takeWhile (\<lambda>c. hex_value c \<noteq> None) (tl h); rest = drop (Suc (length hex)) h
        in hex \<noteq> [] \<and> take 1 rest = ''.'' \<and> tl rest \<noteq> []
      else ip_literal h)"

definition netloc_ok :: "(string \<Rightarrow> bool) \<Rightarrow> string \<Rightarrow> bool" where
  "netloc_ok ip_literal netloc =
     (if (CHR ''['' \<in> set netloc) \<noteq> (CHR '']'' \<in> set netloc) then False
      else if CHR ''['' \<notin> set netloc then True
      else
        let hostinfo = after_last (CHR ''@'') netloc; bracketed = after_first (CHR ''['') hostinfo in
        if CHR ''['' \<in> set hostinfo then
          before_first (CHR ''['') hostinfo = [] \<and>
          (let port = after_first (CHR '']'') bracketed in port = [] \<or> take 1 port = '':'') \<and>
          bracketed_host_ok ip_literal (before_first (CHR '']'') bracketed)
        else bracketed_host_ok ip_literal (before_first (CHR '':'') hostinfo))"

definition urlsplit :: "(string \<Rightarrow> bool) \<Rightarrow> string \<Rightarrow> url option" where
  \<comment> \<open>\<open>None\<close>: \<open>ValueError\<close>\<close>
  "urlsplit ip_literal raw =
     (let url = filter (\<lambda>c. c \<notin> {CHR 0x09, CHR 0x0A, CHR 0x0D})
                  (dropWhile (\<lambda>c. (of_char c :: nat) \<le> 32) raw);
          scheme = before_first (CHR '':'') url;
          has_scheme = (CHR '':'' \<in> set url \<and> scheme \<noteq> [] \<and> is_letter (hd scheme) \<and> list_all scheme_char scheme);
          rest = (if has_scheme then after_first (CHR '':'') url else url);
          has_netloc = (take 2 rest = ''//'');
          netloc = (if has_netloc then takeWhile (\<lambda>c. c \<notin> set ''/?#'') (drop 2 rest) else []);
          rest = (if has_netloc then dropWhile (\<lambda>c. c \<notin> set ''/?#'') (drop 2 rest) else rest)
      in if netloc_ok ip_literal netloc
         then Some \<lparr>url_scheme = (if has_scheme then lower_s scheme else []), url_netloc = netloc,
                    url_query = after_first (CHR ''?'') (before_first (CHR ''#'') rest)\<rparr>
         else None)"

definition hostname :: "url \<Rightarrow> string option" where
  "hostname p =
     (let hostinfo = after_last (CHR ''@'') (url_netloc p);
          host = (if CHR ''['' \<in> set hostinfo
                  then before_first (CHR '']'') (after_first (CHR ''['') hostinfo)
                  else before_first (CHR '':'') hostinfo)
      in if host = [] then None
         else Some (lower_s (before_first (CHR ''%'') host) @ dropWhile (\<lambda>c. c \<noteq> CHR ''%'') host))"

fun unquote :: "string \<Rightarrow> string" where
  "unquote (c # a # b # rest) =
     (if c = CHR ''%'' then
        (case (hex_value a, hex_value b) of
           (Some x, Some y) \<Rightarrow> char_of (16 * x + y) # unquote rest
         | _ \<Rightarrow> c # unquote (a # b # rest))
      else c # unquote (a # b # rest))"
| "unquote short = short"

definition unquote_plus :: "string \<Rightarrow> string" where
  "unquote_plus w = unquote (map (\<lambda>c. if c = CHR ''+'' then CHR '' '' else c) w)"

definition parse_qs :: "string \<Rightarrow> (string \<times> string) list" where
  \<comment> \<open>with \<open>keep_blank_values\<close>; the dictionary as its list of pairs in order\<close>
  "parse_qs qs = map (\<lambda>f. (unquote_plus (before_first (CHR ''='') f), unquote_plus (after_first (CHR ''='') f)))
     (filter (\<lambda>f. f \<noteq> []) (split_on (CHR ''&'') qs))"

definition qs_get :: "string \<Rightarrow> (string \<times> string) list \<Rightarrow> string list" where
  "qs_get k q = map snd (filter (\<lambda>(n, _). n = k) q)"

subsection \<open>Settings\<close>

datatype app_environment = ENV_LOCAL | ENV_TEST | ENV_STAGING | ENV_PRODUCTION

datatype storage_mode = STORAGE_LOCAL | STORAGE_S3

datatype scanner_mode = SCANNER_FAKE | SCANNER_EXTERNAL | SCANNER_CLAMD

datatype redis_setting = REDIS_URL | CELERY_BROKER_URL | CELERY_RESULT_BACKEND_URL

datatype settings_error =
    FieldOutOfRange | MalformedUrl | DevelopmentSecret | FakeScannerForbidden | S3StorageRequired
  | S3BucketRequired | S3RegionRequired | EndpointNotHttps | FakeGateRestricted | ClamdHostNotLoopback
  | HardLimitNotAboveSoft | ScannerTimeoutTooLong | VisibilityTooShort
  | DatabaseUrlScheme | DatabaseTlsWeakened | DatabaseRootCertInUrl | DatabaseRootCertMissing
  | RedisUrlScheme redis_setting | RedisCertificateUnverified redis_setting | RedisHostnameUnverified redis_setting

record settings =
  environment :: app_environment
  database_url :: string
  database_ssl_root_cert_path :: "string option"
  redis_url :: string
  dependency_connect_timeout_seconds :: int
  celery_broker_url :: string
  celery_result_backend_url :: string
  celery_visibility_timeout_seconds :: int
  auth_secret_key :: string
  outbox_poll_seconds :: int
  outbox_recovery_seconds :: int
  access_token_ttl_minutes :: int
  ui_session_ttl_minutes :: int
  document_storage_mode :: storage_mode
  document_storage_root :: string
  document_s3_bucket :: "string option"
  document_s3_region :: "string option"
  document_s3_endpoint_url :: "string option"
  document_s3_read_timeout_seconds :: int
  document_s3_total_max_attempts :: int
  document_max_upload_bytes :: int
  document_scanner_mode :: scanner_mode
  document_clamd_host :: string
  document_clamd_port :: int
  document_scanner_connect_timeout_seconds :: int
  document_scanner_scan_timeout_seconds :: int
  document_scanner_signature_max_age_seconds :: int
  document_scanner_clock_skew_tolerance_seconds :: int
  document_fake_scanner_gate_path :: "string option"
  document_fake_scanner_gate_timeout_seconds :: int
  document_max_pdf_pages :: int
  document_max_extracted_characters :: int
  document_ingestion_max_retries :: int
  document_ingestion_soft_time_limit_seconds :: int
  document_ingestion_hard_time_limit_seconds :: int

definition DEVELOPMENT_AUTH_SECRET :: string where
  "DEVELOPMENT_AUTH_SECRET = ''development-only-secret-change-before-production''"

definition between :: "int \<Rightarrow> int \<Rightarrow> int \<Rightarrow> bool" where
  "between lo hi x \<longleftrightarrow> lo \<le> x \<and> x \<le> hi"

definition fields_ok :: "settings \<Rightarrow> bool" where
  "fields_ok s \<longleftrightarrow>
     between 1 10 (dependency_connect_timeout_seconds s) \<and>
     between 5 86400 (celery_visibility_timeout_seconds s) \<and>
     between 1 10 (outbox_poll_seconds s) \<and> between 60 86400 (outbox_recovery_seconds s) \<and>
     between 1 1440 (access_token_ttl_minutes s) \<and> between 5 1440 (ui_session_ttl_minutes s) \<and>
     between 1 120 (document_s3_read_timeout_seconds s) \<and> between 1 10 (document_s3_total_max_attempts s) \<and>
     between 1 (10 * 1024 * 1024) (document_max_upload_bytes s) \<and> between 1 65535 (document_clamd_port s) \<and>
     between 1 10 (document_scanner_connect_timeout_seconds s) \<and>
     between 1 600 (document_scanner_scan_timeout_seconds s) \<and>
     between 60 (7 * 24 * 60 * 60) (document_scanner_signature_max_age_seconds s) \<and>
     between 0 (60 * 60) (document_scanner_clock_skew_tolerance_seconds s) \<and>
     between 1 300 (document_fake_scanner_gate_timeout_seconds s) \<and>
     between 1 1000 (document_max_pdf_pages s) \<and> between 1 10000000 (document_max_extracted_characters s) \<and>
     between 0 10 (document_ingestion_max_retries s) \<and>
     between 1 600 (document_ingestion_soft_time_limit_seconds s) \<and>
     between 2 900 (document_ingestion_hard_time_limit_seconds s)"

definition deployed :: "settings \<Rightarrow> bool" where
  "deployed s \<longleftrightarrow> environment s \<in> {ENV_STAGING, ENV_PRODUCTION}"

definition require_verified_redis_tls :: "(string \<Rightarrow> bool) \<Rightarrow> redis_setting \<Rightarrow> string \<Rightarrow> settings_error + unit" where
  "require_verified_redis_tls ip_literal name value =
     (case urlsplit ip_literal value of
        None \<Rightarrow> Inl MalformedUrl
      | Some parsed \<Rightarrow>
          bindE (guardE (lower_s (url_scheme parsed) = ''rediss'' \<and> hostname parsed \<noteq> None) (RedisUrlScheme name)) (\<lambda>_.
          let query = parse_qs (url_query parsed);
              certificate_modes = map lower_s (qs_get ''ssl_cert_reqs'' query);
              hostname_modes = map lower_s (qs_get ''ssl_check_hostname'' query) in
          bindE (guardE (certificate_modes = [] \<or> certificate_modes = [''required''])
                   (RedisCertificateUnverified name)) (\<lambda>_.
          guardE (hostname_modes = [] \<or> hostname_modes = [''true'']) (RedisHostnameUnverified name))))"

definition path_str :: "string \<Rightarrow> string" where
  \<comment> \<open>\<open>str(Path(p))\<close>\<close>
  "path_str p =
     (let root = (if take 1 p \<noteq> ''/'' then [] else if take 2 p = ''//'' \<and> take 3 p \<noteq> ''///'' then ''//'' else ''/'');
          text = root @ join_with (CHR ''/'') (posix_parts p)
      in if text = [] then ''.'' else text)"

definition require_verified_database_tls :: "(string \<Rightarrow> bool) \<Rightarrow> string \<Rightarrow> string option \<Rightarrow> settings_error + unit" where
  "require_verified_database_tls ip_literal value ssl_root_cert_path =
     (case urlsplit ip_literal value of
        None \<Rightarrow> Inl MalformedUrl
      | Some parsed \<Rightarrow>
          bindE (guardE (lower_s (url_scheme parsed) = ''postgresql+psycopg'' \<and> hostname parsed \<noteq> None)
                   DatabaseUrlScheme) (\<lambda>_.
          let query = parse_qs (url_query parsed); ssl_modes = map lower_s (qs_get ''sslmode'' query) in
          bindE (guardE (ssl_modes = [] \<or> ssl_modes = [''verify-full'']) DatabaseTlsWeakened) (\<lambda>_.
          bindE (guardE (qs_get ''sslrootcert'' query = []) DatabaseRootCertInUrl) (\<lambda>_.
          guardE (case ssl_root_cert_path of None \<Rightarrow> False | Some p \<Rightarrow> sstrip (path_str p) \<notin> {[], ''.''})
            DatabaseRootCertMissing))))"

definition blank_option :: "string option \<Rightarrow> bool" where
  \<comment> \<open>\<open>not value or not value.strip()\<close>\<close>
  "blank_option v \<longleftrightarrow> (case v of None \<Rightarrow> True | Some w \<Rightarrow> w = [] \<or> sstrip w = [])"

definition validate_settings :: "(string \<Rightarrow> bool) \<Rightarrow> settings \<Rightarrow> settings_error + settings" where
  \<comment> \<open>field validation, then the model validator\<close>
  "validate_settings ip_literal s =
     bindE (guardE (fields_ok s) FieldOutOfRange) (\<lambda>_.
     bindE (guardE (\<not> (deployed s \<and> auth_secret_key s = DEVELOPMENT_AUTH_SECRET)) DevelopmentSecret) (\<lambda>_.
     bindE (guardE (\<not> (deployed s \<and> document_scanner_mode s = SCANNER_FAKE)) FakeScannerForbidden) (\<lambda>_.
     bindE (guardE (\<not> (deployed s \<and> document_storage_mode s \<noteq> STORAGE_S3)) S3StorageRequired) (\<lambda>_.
     bindE (guardE (\<not> (document_storage_mode s = STORAGE_S3 \<and> blank_option (document_s3_bucket s))) S3BucketRequired) (\<lambda>_.
     bindE (guardE (\<not> (document_storage_mode s = STORAGE_S3 \<and> blank_option (document_s3_region s))) S3RegionRequired) (\<lambda>_.
     bindE (guardE (\<not> (deployed s \<and> (case document_s3_endpoint_url s of None \<Rightarrow> False
              | Some e \<Rightarrow> \<not> starts_with (sstrip e) ''https://''))) EndpointNotHttps) (\<lambda>_.
     bindE (guardE (\<not> (document_fake_scanner_gate_path s \<noteq> None \<and>
              (environment s \<notin> {ENV_LOCAL, ENV_TEST} \<or> document_scanner_mode s \<noteq> SCANNER_FAKE))) FakeGateRestricted) (\<lambda>_.
     bindE (guardE (\<not> (deployed s \<and> document_scanner_mode s = SCANNER_CLAMD \<and>
              document_clamd_host s \<noteq> ''127.0.0.1'')) ClamdHostNotLoopback) (\<lambda>_.
     bindE (guardE (\<not> document_ingestion_hard_time_limit_seconds s \<le> document_ingestion_soft_time_limit_seconds s)
              HardLimitNotAboveSoft) (\<lambda>_.
     bindE (guardE (\<not> document_ingestion_soft_time_limit_seconds s \<le> document_scanner_scan_timeout_seconds s)
              ScannerTimeoutTooLong) (\<lambda>_.
     bindE (guardE (\<not> (deployed s \<and>
              celery_visibility_timeout_seconds s \<le> document_ingestion_hard_time_limit_seconds s)) VisibilityTooShort) (\<lambda>_.
     if deployed s then
       bindE (require_verified_database_tls ip_literal (database_url s) (database_ssl_root_cert_path s)) (\<lambda>_.
       bindE (require_verified_redis_tls ip_literal REDIS_URL (redis_url s)) (\<lambda>_.
       bindE (require_verified_redis_tls ip_literal CELERY_BROKER_URL (celery_broker_url s)) (\<lambda>_.
       bindE (require_verified_redis_tls ip_literal CELERY_RESULT_BACKEND_URL (celery_result_backend_url s)) (\<lambda>_.
       Inr s))))
     else Inr s))))))))))))"

definition outbox_effective_recovery_seconds :: "settings \<Rightarrow> int" where
  "outbox_effective_recovery_seconds s =
     max (outbox_recovery_seconds s)
       (celery_visibility_timeout_seconds s
        + document_ingestion_hard_time_limit_seconds s * (document_ingestion_max_retries s + 1)
        + 60 * document_ingestion_max_retries s + 60)"

subsection \<open>Composition\<close>

record s3_client_config =
  region_name :: string
  endpoint_url :: "string option"
  connect_timeout_seconds :: int
  read_timeout_seconds :: int
  total_max_attempts :: int

datatype composition_error =
  DocumentStorageConfigurationError | DocumentScannerConfigurationError | EmptyBucketError

datatype 'a storage_adapter =
    ConfiguredStorage 'a
  | LocalDocumentStorage string
  | S3DocumentStorage s3_client_config string

datatype scanner_adapter =
    FakeDocumentSafetyScanner scan_result "string option" int
  | ClamdDocumentSafetyScanner string int clamd_config
  | OtherScanner bool \<comment> \<open>whether it has the methods of the protocol\<close>

definition s3_document_storage :: "s3_client_config \<Rightarrow> string \<Rightarrow> composition_error + 'a storage_adapter" where
  \<comment> \<open>the constructor of \<open>S3DocumentStorage\<close>\<close>
  "s3_document_storage client bucket =
     (if sstrip bucket = [] then Inl EmptyBucketError else Inr (S3DocumentStorage client (sstrip bucket)))"

definition resolve_document_storage :: "settings \<Rightarrow> 'a option \<Rightarrow> composition_error + 'a storage_adapter" where
  "resolve_document_storage s configured =
     (case configured of
        Some a \<Rightarrow> Inr (ConfiguredStorage a)
      | None \<Rightarrow>
          if document_storage_mode s = STORAGE_LOCAL then Inr (LocalDocumentStorage (document_storage_root s))
          else
            (case (document_s3_bucket s, document_s3_region s) of
               (Some bucket, Some region) \<Rightarrow>
                 s3_document_storage
                   \<lparr>region_name = sstrip region,
                    endpoint_url = (case document_s3_endpoint_url s of None \<Rightarrow> None
                      | Some e \<Rightarrow> if sstrip e = [] then None else Some (sstrip e)),
                    connect_timeout_seconds = dependency_connect_timeout_seconds s,
                    read_timeout_seconds = document_s3_read_timeout_seconds s,
                    total_max_attempts = document_s3_total_max_attempts s\<rparr> (sstrip bucket)
             | _ \<Rightarrow> Inl DocumentStorageConfigurationError))"

definition clamd_config_of :: "settings \<Rightarrow> clamd_config" where
  "clamd_config_of s =
     \<lparr>cc_connect_timeout_seconds = document_scanner_connect_timeout_seconds s,
      cc_scan_timeout_seconds = document_scanner_scan_timeout_seconds s,
      cc_max_stream_bytes = document_max_upload_bytes s,
      cc_signature_max_age_seconds = document_scanner_signature_max_age_seconds s,
      cc_clock_skew_tolerance_seconds = document_scanner_clock_skew_tolerance_seconds s\<rparr>"

definition resolve_document_safety_scanner :: "settings \<Rightarrow> scanner_adapter option \<Rightarrow>
    composition_error + scanner_adapter" where
  "resolve_document_safety_scanner s configured =
     (case document_scanner_mode s of
        SCANNER_FAKE \<Rightarrow>
          (case configured of
             None \<Rightarrow> Inr (FakeDocumentSafetyScanner CLEAN (document_fake_scanner_gate_path s)
                       (document_fake_scanner_gate_timeout_seconds s))
           | Some (FakeDocumentSafetyScanner r g n) \<Rightarrow> Inr (FakeDocumentSafetyScanner r g n)
           | Some _ \<Rightarrow> Inl DocumentScannerConfigurationError)
      | SCANNER_CLAMD \<Rightarrow>
          (case configured of
             None \<Rightarrow> Inr (ClamdDocumentSafetyScanner (document_clamd_host s) (document_clamd_port s) (clamd_config_of s))
           | Some (ClamdDocumentSafetyScanner h p c) \<Rightarrow> Inr (ClamdDocumentSafetyScanner h p c)
           | Some _ \<Rightarrow> Inl DocumentScannerConfigurationError)
      | SCANNER_EXTERNAL \<Rightarrow>
          (case configured of
             None \<Rightarrow> Inl DocumentScannerConfigurationError
           | Some (OtherScanner implements) \<Rightarrow>
               if implements then Inr (OtherScanner implements) else Inl DocumentScannerConfigurationError
           | Some (FakeDocumentSafetyScanner _ _ _) \<Rightarrow> Inl DocumentScannerConfigurationError
           | Some (ClamdDocumentSafetyScanner h p c) \<Rightarrow> Inr (ClamdDocumentSafetyScanner h p c)))"

subsection \<open>What accepted settings guarantee\<close>

definition redis_verified :: "(string \<Rightarrow> bool) \<Rightarrow> string \<Rightarrow> bool" where
  \<comment> \<open>TLS to a named host, and no parameter of the URL switches a verification off\<close>
  "redis_verified ip_literal value \<longleftrightarrow> (\<exists>p. urlsplit ip_literal value = Some p \<and>
     url_scheme p = ''rediss'' \<and> hostname p \<noteq> None \<and>
     (\<forall>m \<in> set (qs_get ''ssl_cert_reqs'' (parse_qs (url_query p))). lower_s m = ''required'') \<and>
     (\<forall>m \<in> set (qs_get ''ssl_check_hostname'' (parse_qs (url_query p))). lower_s m = ''true''))"

definition database_verified :: "(string \<Rightarrow> bool) \<Rightarrow> string \<Rightarrow> string option \<Rightarrow> bool" where
  "database_verified ip_literal value cert \<longleftrightarrow> (\<exists>p c. urlsplit ip_literal value = Some p \<and>
     url_scheme p = ''postgresql+psycopg'' \<and> hostname p \<noteq> None \<and> cert = Some c \<and> sstrip (path_str c) \<notin> {[], ''.''} \<and>
     (\<forall>m \<in> set (qs_get ''sslmode'' (parse_qs (url_query p))). lower_s m = ''verify-full'') \<and>
     qs_get ''sslrootcert'' (parse_qs (url_query p)) = [])"

lemma if_Some_iff: "(if b then Some x else None) = Some y \<longleftrightarrow> b \<and> x = y"
  by simp

lemma url_scheme_lower: "urlsplit ip_literal value = Some p \<Longrightarrow> lower_s (url_scheme p) = url_scheme p"
proof -
  have "lower_s [] = []" by (simp add: lower_s_def)
  then show "urlsplit ip_literal value = Some p \<Longrightarrow> lower_s (url_scheme p) = url_scheme p"
    unfolding urlsplit_def Let_def by (clarsimp split del: if_split simp: if_Some_iff) simp
qed

lemma modes_only: "map lower_s ms = [] \<or> map lower_s ms = [w] \<Longrightarrow> m \<in> set ms \<Longrightarrow> lower_s m = w"
  by auto

lemma require_redis_ok:
  "require_verified_redis_tls ip_literal name value = Inr x \<Longrightarrow> redis_verified ip_literal value"
  unfolding require_verified_redis_tls_def redis_verified_def
  by (auto simp: bindE_Inr_iff Let_def url_scheme_lower split: option.splits)

lemma require_database_ok:
  "require_verified_database_tls ip_literal value cert = Inr x \<Longrightarrow> database_verified ip_literal value cert"
  unfolding require_verified_database_tls_def database_verified_def
  by (auto simp: bindE_Inr_iff Let_def url_scheme_lower split: option.splits)

lemma validate_settings_same: "validate_settings ip_literal s = Inr s' \<Longrightarrow> s' = s \<and> fields_ok s"
  by (auto simp: validate_settings_def bindE_Inr_iff split: if_splits)

lemma deployed_checks:
  assumes "validate_settings ip_literal s = Inr s'" and "deployed s"
  shows "auth_secret_key s \<noteq> DEVELOPMENT_AUTH_SECRET" "document_scanner_mode s \<noteq> SCANNER_FAKE"
    "document_storage_mode s = STORAGE_S3" "\<not> blank_option (document_s3_bucket s)"
    "\<not> blank_option (document_s3_region s)"
    "document_s3_endpoint_url s = Some e \<Longrightarrow> starts_with (sstrip e) ''https://''"
    "document_scanner_mode s = SCANNER_CLAMD \<Longrightarrow> document_clamd_host s = ''127.0.0.1''"
    "celery_visibility_timeout_seconds s > document_ingestion_hard_time_limit_seconds s"
    "database_verified ip_literal (database_url s) (database_ssl_root_cert_path s)"
    "redis_verified ip_literal (redis_url s)" "redis_verified ip_literal (celery_broker_url s)"
    "redis_verified ip_literal (celery_result_backend_url s)"
  using assms unfolding validate_settings_def
  by (auto simp: bindE_Inr_iff dest: require_redis_ok require_database_ok)

lemma limits_ordered:
  "validate_settings ip_literal s = Inr s' \<Longrightarrow>
   document_scanner_scan_timeout_seconds s < document_ingestion_soft_time_limit_seconds s \<and>
   document_ingestion_soft_time_limit_seconds s < document_ingestion_hard_time_limit_seconds s"
  unfolding validate_settings_def by (auto simp: bindE_Inr_iff)

lemma deployed_storage:
  assumes "validate_settings ip_literal s = Inr s'" and "deployed s"
  shows "\<exists>client bucket. resolve_document_storage s None = Inr (S3DocumentStorage client bucket) \<and>
    bucket \<noteq> [] \<and> region_name client \<noteq> [] \<and>
    (case endpoint_url client of None \<Rightarrow> True | Some e \<Rightarrow> starts_with e ''https://'')"
proof -
  obtain b r where br: "document_s3_bucket s = Some b" "sstrip b \<noteq> []" "document_s3_region s = Some r" "sstrip r \<noteq> []"
    using deployed_checks(4,5) [OF assms] by (auto simp: blank_option_def split: option.splits)
  have "sstrip (sstrip b) = sstrip b" by (simp add: sstrip_def)
  with br show ?thesis using deployed_checks(3,6) [OF assms]
    by (auto simp: resolve_document_storage_def s3_document_storage_def split: option.splits)
qed

lemma deployed_scanner:
  assumes "validate_settings ip_literal s = Inr s'" and "deployed s"
  shows "resolve_document_safety_scanner s configured \<noteq> Inr (FakeDocumentSafetyScanner r g n)"
    "resolve_document_safety_scanner s None = Inr (ClamdDocumentSafetyScanner host port cfg) \<Longrightarrow>
       host = ''127.0.0.1'' \<and> cfg = clamd_config_of s"
  using deployed_checks(2,7) [OF assms]
  by (auto simp: resolve_document_safety_scanner_def split: scanner_mode.splits option.splits scanner_adapter.splits if_splits)

text \<open>
  C24. A deployed configuration is hardened. Settings for staging or production that the validator
  accepts have a secret of their own, a database connection verified against a configured CA and
  three Redis connections over TLS to named hosts none of whose URL parameters weakens the
  verification; they are composed into S3 storage with a bucket, a region and no plain-text
  endpoint, never into the fake scanner, whatever adapter is passed in, and the default scanner is
  the daemon on the loopback interface; and the time limits are nested: scan, soft limit, hard
  limit, visibility timeout.
\<close>

theorem deployed_settings_hardened:
  assumes "validate_settings ip_literal s = Inr s'" and "deployed s"
  shows "s' = s \<and> auth_secret_key s \<noteq> DEVELOPMENT_AUTH_SECRET \<and>
    database_verified ip_literal (database_url s) (database_ssl_root_cert_path s) \<and>
    redis_verified ip_literal (redis_url s) \<and> redis_verified ip_literal (celery_broker_url s) \<and>
    redis_verified ip_literal (celery_result_backend_url s) \<and>
    (\<exists>client bucket. resolve_document_storage s None = Inr (S3DocumentStorage client bucket) \<and>
       bucket \<noteq> [] \<and> region_name client \<noteq> [] \<and>
       (case endpoint_url client of None \<Rightarrow> True | Some e \<Rightarrow> starts_with e ''https://'')) \<and>
    (\<forall>configured r g n. resolve_document_safety_scanner s configured \<noteq> Inr (FakeDocumentSafetyScanner r g n)) \<and>
    (\<forall>host port cfg. resolve_document_safety_scanner s None = Inr (ClamdDocumentSafetyScanner host port cfg) \<longrightarrow>
       host = ''127.0.0.1'' \<and> cfg = clamd_config_of s) \<and>
    document_scanner_scan_timeout_seconds s < document_ingestion_soft_time_limit_seconds s \<and>
    document_ingestion_soft_time_limit_seconds s < document_ingestion_hard_time_limit_seconds s \<and>
    document_ingestion_hard_time_limit_seconds s < celery_visibility_timeout_seconds s"
  using validate_settings_same [OF assms(1)] deployed_checks [OF assms] deployed_storage [OF assms]
    deployed_scanner [OF assms] limits_ordered [OF assms(1)]
  by (intro conjI allI impI) auto

definition sample_settings :: settings where
  "sample_settings =
     \<lparr>environment = ENV_PRODUCTION,
      database_url = ''postgresql+psycopg://app@db/app?sslmode=Verify-Full'',
      database_ssl_root_cert_path = Some ''/rds.pem'', redis_url = ''rediss://cache/0'',
      dependency_connect_timeout_seconds = 2,
      celery_broker_url = ''rediss://cache/0?ssl_cert_reqs=required'',
      celery_result_backend_url = ''rediss://cache/1'', celery_visibility_timeout_seconds = 180,
      auth_secret_key = ''a-secret'', outbox_poll_seconds = 2, outbox_recovery_seconds = 1200,
      access_token_ttl_minutes = 15, ui_session_ttl_minutes = 480, document_storage_mode = STORAGE_S3,
      document_storage_root = ''.supportflow/documents'', document_s3_bucket = Some '' documents '',
      document_s3_region = Some ''eu-west-1'', document_s3_endpoint_url = None,
      document_s3_read_timeout_seconds = 30, document_s3_total_max_attempts = 3,
      document_max_upload_bytes = 10485760, document_scanner_mode = SCANNER_CLAMD,
      document_clamd_host = ''127.0.0.1'', document_clamd_port = 3310,
      document_scanner_connect_timeout_seconds = 2, document_scanner_scan_timeout_seconds = 60,
      document_scanner_signature_max_age_seconds = 86400, document_scanner_clock_skew_tolerance_seconds = 300,
      document_fake_scanner_gate_path = None, document_fake_scanner_gate_timeout_seconds = 120,
      document_max_pdf_pages = 250, document_max_extracted_characters = 2000000,
      document_ingestion_max_retries = 3, document_ingestion_soft_time_limit_seconds = 120,
      document_ingestion_hard_time_limit_seconds = 135\<rparr>"

lemma sample_urls:
  "require_verified_redis_tls (\<lambda>_. False) REDIS_URL ''rediss://cache/0'' = Inr ()"
  "require_verified_redis_tls (\<lambda>_. False) CELERY_BROKER_URL ''rediss://cache/0?ssl_cert_reqs=required'' = Inr ()"
  "require_verified_redis_tls (\<lambda>_. False) CELERY_RESULT_BACKEND_URL ''rediss://cache/1'' = Inr ()"
  "require_verified_database_tls (\<lambda>_. False)
     ''postgresql+psycopg://app@db/app?sslmode=Verify-Full'' (Some ''/rds.pem'') = Inr ()"
  by code_simp+

lemma sample_settings_ok: "validate_settings (\<lambda>_. False) sample_settings = Inr sample_settings"
  unfolding validate_settings_def
  by (simp add: sample_settings_def sample_urls fields_ok_def between_def deployed_def DEVELOPMENT_AUTH_SECRET_def
      blank_option_def sstrip_def strip_by_def is_space_def guardE_def)

theorem deployed_settings_hardened_witness:
  "\<exists>client bucket. resolve_document_storage sample_settings (None :: unit option) =
     Inr (S3DocumentStorage client bucket) \<and> bucket \<noteq> [] \<and> auth_secret_key sample_settings \<noteq> DEVELOPMENT_AUTH_SECRET"
proof -
  have "deployed sample_settings" by (simp add: deployed_def sample_settings_def)
  from deployed_settings_hardened [OF sample_settings_ok this] show ?thesis by blast
qed

subsection \<open>The recovery interval\<close>

lemma countdown_sum:
  "list_all (\<lambda>(rnd, n). 0 \<le> rnd \<and> rnd < 1) delays \<Longrightarrow>
   (\<Sum>(rnd, n)\<leftarrow>delays. retry_countdown rnd n None) \<le> 60 * int (length delays)"
proof (induction delays)
  case (Cons a delays)
  obtain rnd n where a: "a = (rnd, n)" by (cases a)
  have "retry_countdown rnd n None \<le> 60" using Cons.prems retry_countdown_bounds [of rnd n None] by (simp add: a)
  with Cons show ?case by (simp add: a)
qed simp

text \<open>
  C32. The outbox never re-publishes a message that is still being worked on: the effective recovery
  interval strictly exceeds the visibility timeout of the broker plus every run of the task, each
  cut off by the hard limit, for the first delivery and all configured retries, plus every back-off
  that \<open>retry_countdown\<close> can schedule between them; and it is at most about 27 hours.
\<close>

theorem recovery_outlasts_retries:
  assumes "validate_settings ip_literal s = Inr s'"
    and "int (length runs) \<le> document_ingestion_max_retries s + 1"
    and "list_all (\<lambda>r. r \<le> document_ingestion_hard_time_limit_seconds s) runs"
    and "int (length delays) \<le> document_ingestion_max_retries s"
    and "list_all (\<lambda>(rnd, n). 0 \<le> rnd \<and> rnd < 1) delays"
  shows "celery_visibility_timeout_seconds s + sum_list runs +
      (\<Sum>(rnd, n)\<leftarrow>delays. retry_countdown rnd n None) < outbox_effective_recovery_seconds s \<and>
    outbox_effective_recovery_seconds s \<le> 97020"
proof -
  let ?hard = "document_ingestion_hard_time_limit_seconds s" and ?k = "document_ingestion_max_retries s"
  have ok: "0 \<le> ?hard" "?hard \<le> 900" "0 \<le> ?k" "?k \<le> 10" "celery_visibility_timeout_seconds s \<le> 86400"
      "outbox_recovery_seconds s \<le> 86400"
    using validate_settings_same [OF assms(1)] by (auto simp: fields_ok_def between_def)
  have "sum_list runs \<le> int (length runs) * ?hard"
    using assms(3) by (induction runs) (auto simp: algebra_simps)
  also have "\<dots> \<le> ?hard * (?k + 1)" using assms(2) ok(1) by (simp add: mult.commute mult_left_mono)
  finally have runs: "sum_list runs \<le> ?hard * (?k + 1)" .
  have "(\<Sum>(rnd, n)\<leftarrow>delays. retry_countdown rnd n None) \<le> 60 * int (length delays)"
    using assms(5) by (rule countdown_sum)
  with assms(4) have delays: "(\<Sum>(rnd, n)\<leftarrow>delays. retry_countdown rnd n None) \<le> 60 * ?k" by simp
  have "?hard * (?k + 1) \<le> 900 * 11" using ok by (intro mult_mono) simp_all
  then show ?thesis using runs delays ok by (simp add: outbox_effective_recovery_seconds_def)
qed

theorem recovery_outlasts_retries_witness:
  "180 + sum_list [135, 135, 90, 135] + (\<Sum>(rnd, n)\<leftarrow>[(1 / 2, 0), (1 / 3, 1), (0, 2)]. retry_countdown rnd n None)
     < outbox_effective_recovery_seconds sample_settings"
  using recovery_outlasts_retries [OF sample_settings_ok, of "[135, 135, 90, 135]" "[(1 / 2, 0), (1 / 3, 1), (0, 2)]"]
  by (simp add: sample_settings_def)

end
