(* ===== verification/SF_Ui.thy ===== *)
theory SF_Ui
  imports SF_Sessions SF_Settings
begin

text \<open>
  \<open>app/ui/router.py\<close>: the pages and forms of the agent interface over the session store, the
  authentication service and the ticket service.

  A handler takes the operations of the session store (\<open>session_ops\<close>: each already applied to the
  clock, the random bytes and the faults of this request), the cookie of the request and the form,
  and returns its response with the new states of the store and of the database. A response is what
  reaches the browser: a redirection or a page with its status, and what happens to the cookie. A
  page is the template with the values it is given; the Turkish messages are the constructors of
  \<open>ui_message\<close>. A form field is a text or an uploaded file.
\<close>

subsection \<open>Responses and forms\<close>

datatype 't form_value = FormText 't | FormFile

record 'st session_ops =
  op_resolve :: "string option \<Rightarrow> 'st \<Rightarrow> (session_exn + browser_session option) \<times> 'st"
  op_create_anonymous :: "string option \<Rightarrow> 'st \<Rightarrow> (session_exn + string \<times> browser_session) \<times> 'st"
  op_authenticate :: "string option \<Rightarrow> uuid \<Rightarrow> uuid \<Rightarrow> 'st \<Rightarrow> (session_exn + string \<times> browser_session) \<times> 'st"
  op_invalidate :: "string option \<Rightarrow> 'st \<Rightarrow> (session_exn + unit) \<times> 'st"

datatype ui_message =
    SessionServiceUnavailable | LoginSessionInvalid | InvalidLoginData | SessionInvalid | CsrfInvalid
  | TicketMissing | EmptyMessage | MessageNotSaved | InvalidStatus | TransitionNotAllowed | StatusNotSaved

record browser_context =
  bc_session :: browser_session
  bc_user :: user
  bc_organization :: organization
  bc_membership :: organization_member

record ticket_page =
  tp_context :: browser_context
  tp_tickets :: "ticket list"
  tp_limit :: nat
  tp_offset :: nat
  tp_total :: nat
  tp_query :: ticket_query
  tp_previous_url :: "string option"
  tp_next_url :: "string option"

datatype ui_page =
    LoginPage string "ui_message option"
  | ErrorPage ui_message
  | TicketListPage ticket_page
  | TicketDetailPage browser_context ticket "ticket_message list" "ticket_status option"

datatype cookie_effect = KeepCookie | SetCookie string int bool | DeleteCookie

datatype ui_response = Redirect string cookie_effect | Page nat ui_page cookie_effect

datatype ui_exn = UiSession session_exn | UiTicket ticket_exn | UiAuth auth_exn | UiMultipleRows

type_synonym 'st ui_result = "(ui_exn + ui_response) \<times> 'st \<times> db"

record login_form =
  lf_csrf_token :: "string form_value option"
  lf_email :: "string form_value option"
  lf_password :: "string form_value option"
  lf_organization_slug :: "string form_value option"

record message_form =
  mf_csrf_token :: "string form_value option"
  mf_body :: "ustr form_value option"

record status_form =
  sf_csrf_token :: "string form_value option"
  sf_status :: "string form_value option"

definition cookie_secure :: "settings \<Rightarrow> bool" where
  "cookie_secure cfg \<longleftrightarrow> environment cfg \<in> {ENV_STAGING, ENV_PRODUCTION}"

definition set_session_cookie :: "settings \<Rightarrow> string \<Rightarrow> cookie_effect" where
  \<comment> \<open>value, \<open>max_age\<close> and \<open>secure\<close>; always \<open>httponly\<close>, \<open>samesite=lax\<close> and for the path \<open>/\<close>\<close>
  "set_session_cookie cfg cookie_value =
     SetCookie cookie_value (ui_session_ttl_minutes cfg * 60) (cookie_secure cfg)"

definition ui_error :: "ui_message \<Rightarrow> nat \<Rightarrow> ui_response" where
  "ui_error message status_code = Page status_code (ErrorPage message) KeepCookie"

definition login_redirect :: ui_response where
  "login_redirect = Redirect ''/ui/login'' KeepCookie"

definition form_text :: "'t list form_value option \<Rightarrow> 't list" where
  "form_text v = (case v of Some (FormText w) \<Rightarrow> w | _ \<Rightarrow> [])"

definition compare_digest :: "string \<Rightarrow> string \<Rightarrow> session_exn + bool" where
  \<comment> \<open>\<open>hmac.compare_digest\<close> raises \<open>TypeError\<close> for a text that is not ASCII\<close>
  "compare_digest a b =
     (if list_ex (\<lambda>c. 128 \<le> (of_char c :: nat)) (a @ b) then Inl CompareTypeError else Inr (a = b))"

definition valid_csrf :: "browser_context \<Rightarrow> string form_value option \<Rightarrow> session_exn + bool" where
  "valid_csrf context supplied_token =
     (case supplied_token of
        Some (FormText w) \<Rightarrow> if w = [] then Inr False else compare_digest w (bs_csrf_token (bc_session context))
      | _ \<Rightarrow> Inr False)"

definition session_unavailable_handler :: "ui_exn \<Rightarrow> ui_response option" where
  \<comment> \<open>\<open>browser_session_unavailable_handler\<close>; \<open>None\<close> for an exception that ends as an internal error\<close>
  "session_unavailable_handler e =
     (if e = UiSession BrowserSessionStoreUnavailableError
      then Some (ui_error SessionServiceUnavailable 503) else None)"

subsection \<open>The browser's context\<close>

definition browser_rows :: "uuid \<Rightarrow> uuid \<Rightarrow> db \<Rightarrow> (user \<times> organization \<times> organization_member) list" where
  \<comment> \<open>the join of users, memberships and organizations\<close>
  "browser_rows user_id organization_id s =
     filter (\<lambda>(r, g, x). m_user_id x = u_id r \<and> o_id g = m_organization_id x \<and> u_id r = user_id \<and>
         u_status r = USER_ACTIVE \<and> o_id g = organization_id \<and> o_status g = ORG_ACTIVE \<and> m_status x = MEMBER_ACTIVE)
       (List.product (users s) (List.product (organizations s) (organization_members s)))"

definition resolve_browser_context :: "'st session_ops \<Rightarrow> string option \<Rightarrow> 'st \<Rightarrow> db \<Rightarrow>
    (ui_exn + browser_context option) \<times> 'st" where
  "resolve_browser_context ops cookie st s =
     (case op_resolve ops cookie st of
        (Inl e, st1) \<Rightarrow> (Inl (UiSession e), st1)
      | (Inr None, st1) \<Rightarrow> (Inr None, st1)
      | (Inr (Some session), st1) \<Rightarrow>
          (case (bs_user_id session, bs_organization_id session) of
             (Some user_id, Some organization_id) \<Rightarrow>
               (case browser_rows user_id organization_id s of
                  [] \<Rightarrow>
                    (case op_invalidate ops cookie st1 of
                       (Inl e, st2) \<Rightarrow> (Inl (UiSession e), st2)
                     | (Inr _, st2) \<Rightarrow> (Inr None, st2))
                | [(r, g, x)] \<Rightarrow>
                    (Inr (Some \<lparr>bc_session = session, bc_user = r, bc_organization = g, bc_membership = x\<rparr>), st1)
                | _ \<Rightarrow> (Inl UiMultipleRows, st1))
           | _ \<Rightarrow> (Inr None, st1)))"

definition with_context :: "'st session_ops \<Rightarrow> string option \<Rightarrow> 'st \<Rightarrow> db \<Rightarrow> (browser_context \<Rightarrow> 'st \<Rightarrow> 'st ui_result) \<Rightarrow>
    'st ui_result" where
  \<comment> \<open>the opening of every page: without a context the browser is sent to the login page\<close>
  "with_context ops cookie st s handler =
     (case resolve_browser_context ops cookie st s of
        (Inl e, st1) \<Rightarrow> (Inl e, st1, s)
      | (Inr None, st1) \<Rightarrow> (Inr login_redirect, st1, s)
      | (Inr (Some context), st1) \<Rightarrow> handler context st1)"

definition with_csrf :: "ui_message \<Rightarrow> browser_context \<Rightarrow> string form_value option \<Rightarrow> 'st \<Rightarrow> db \<Rightarrow> 'st ui_result \<Rightarrow> 'st ui_result" where
  "with_csrf message context token st s result =
     (case valid_csrf context token of
        Inl e \<Rightarrow> (Inl (UiSession e), st, s)
      | Inr ok \<Rightarrow> if \<not> ok then (Inr (ui_error message 403), st, s) else result)"

subsection \<open>Signing in and out\<close>

definition login_page :: "settings \<Rightarrow> 'st session_ops \<Rightarrow> string option \<Rightarrow> 'st \<Rightarrow> db \<Rightarrow> 'st ui_result" where
  "login_page cfg ops cookie st s =
     (case resolve_browser_context ops cookie st s of
        (Inl e, st1) \<Rightarrow> (Inl e, st1, s)
      | (Inr (Some _), st1) \<Rightarrow> (Inr (Redirect ''/ui/tickets'' KeepCookie), st1, s)
      | (Inr None, st1) \<Rightarrow>
          (case op_create_anonymous ops cookie st1 of
             (Inl e, st2) \<Rightarrow> (Inl (UiSession e), st2, s)
           | (Inr (cookie_value, session), st2) \<Rightarrow>
               (Inr (Page 200 (LoginPage (bs_csrf_token session) None) (set_session_cookie cfg cookie_value)), st2, s)))"

definition parse_browser_login :: "(string \<Rightarrow> string option) \<Rightarrow> login_form \<Rightarrow> (string \<times> string \<times> string) option" where
  \<comment> \<open>\<open>BrowserLoginRequest.model_validate\<close>: e-mail, password and slug\<close>
  "parse_browser_login valid_email form =
     (case (valid_email (form_text (lf_email form)), OrganizationSlug (form_text (lf_organization_slug form))) of
        (Some email, Some slug) \<Rightarrow>
          let password = form_text (lf_password form) in
          if 1 \<le> length password \<and> length password \<le> 128 then Some (email, password, slug) else None
      | _ \<Rightarrow> None)"

definition login_organization :: "string \<Rightarrow> uuid \<Rightarrow> db \<Rightarrow> organization option" where
  \<comment> \<open>\<open>session.scalar\<close>: the first row of the join\<close>
  "login_organization slug user_id s =
     map_option fst (find (\<lambda>(g, x). m_organization_id x = o_id g \<and> o_slug g = slug \<and> o_status g = ORG_ACTIVE \<and>
         m_user_id x = user_id \<and> m_status x = MEMBER_ACTIVE)
       (List.product (organizations s) (organization_members s)))"

definition login_refused :: "browser_session \<Rightarrow> ui_response" where
  "login_refused session = Page 401 (LoginPage (bs_csrf_token session) (Some InvalidLoginData)) KeepCookie"

definition login_credentials :: "settings \<Rightarrow> (string \<Rightarrow> string option) \<Rightarrow> password_manager \<Rightarrow> 'st session_ops \<Rightarrow> string option \<Rightarrow>
    login_form \<Rightarrow> browser_session \<Rightarrow> 'st \<Rightarrow> db \<Rightarrow> 'st ui_result" where
  \<comment> \<open>\<open>login_submit\<close> from the validation of the credentials on\<close>
  "login_credentials cfg valid_email pm ops cookie form session st s =
     (case parse_browser_login valid_email form of
        None \<Rightarrow> (Inr (login_refused session), st, s)
      | Some (email, password, slug) \<Rightarrow>
          (case fst (authenticate pm email password s) of
             Inl InvalidCredentialsError \<Rightarrow> (Inr (login_refused session), st, s)
           | Inl e \<Rightarrow> (Inl (UiAuth e), st, s)
           | Inr user \<Rightarrow>
               (case login_organization slug (u_id user) s of
                  None \<Rightarrow> (Inr (login_refused session), st, s)
                | Some organization \<Rightarrow>
                    (case op_authenticate ops cookie (u_id user) (o_id organization) st of
                       (Inl e, st') \<Rightarrow> (Inl (UiSession e), st', s)
                     | (Inr (cookie_value, _), st') \<Rightarrow>
                         (Inr (Redirect ''/ui/tickets'' (set_session_cookie cfg cookie_value)), st', s)))))"

definition login_submit :: "settings \<Rightarrow> (string \<Rightarrow> string option) \<Rightarrow> password_manager \<Rightarrow> 'st session_ops \<Rightarrow> string option \<Rightarrow>
    login_form \<Rightarrow> 'st \<Rightarrow> db \<Rightarrow> 'st ui_result" where
  "login_submit cfg valid_email pm ops cookie form st s =
     (let refused = ui_error LoginSessionInvalid 403 in
      case op_resolve ops cookie st of
        (Inl e, st1) \<Rightarrow> (Inl (UiSession e), st1, s)
      | (Inr None, st1) \<Rightarrow> (Inr refused, st1, s)
      | (Inr (Some session), st1) \<Rightarrow>
          if is_authenticated session then (Inr refused, st1, s)
          else
            (case lf_csrf_token form of
               Some (FormText w) \<Rightarrow>
                 (case compare_digest w (bs_csrf_token session) of
                    Inl e \<Rightarrow> (Inl (UiSession e), st1, s)
                  | Inr ok \<Rightarrow>
                      if \<not> ok then (Inr refused, st1, s)
                      else login_credentials cfg valid_email pm ops cookie form session st1 s)
             | _ \<Rightarrow> (Inr refused, st1, s)))"

definition logout :: "'st session_ops \<Rightarrow> string option \<Rightarrow> string form_value option \<Rightarrow> 'st \<Rightarrow> db \<Rightarrow> 'st ui_result" where
  "logout ops cookie token st s =
     with_context ops cookie st s (\<lambda>context st1.
       with_csrf SessionInvalid context token st1 s
         (case op_invalidate ops cookie st1 of
            (Inl e, st2) \<Rightarrow> (Inl (UiSession e), st2, s)
          | (Inr _, st2) \<Rightarrow> (Inr (Redirect ''/ui/login'' DeleteCookie), st2, s)))"

subsection \<open>Tickets\<close>

fun nat_str :: "nat \<Rightarrow> string" where
  "nat_str n = (if n < 10 then [char_of (48 + n)] else nat_str (n div 10) @ [char_of (48 + n mod 10)])"

declare nat_str.simps [simp del]

definition urlencode :: "(string \<times> string) list \<Rightarrow> string" where
  \<comment> \<open>of digits, letters, \<open>_\<close> and \<open>-\<close>, which it leaves as they are\<close>
  "urlencode kvs = join_with (CHR ''&'') (map (\<lambda>(k, v). k @ CHR ''='' # v) kvs)"

definition list_url_query :: "nat \<Rightarrow> int \<Rightarrow> ticket_query \<Rightarrow> (string \<times> string) list" where
  "list_url_query limit offset q =
     [(''limit'', nat_str limit), (''offset'', nat_str (nat (max 0 offset)))] @
     (case tq_status q of None \<Rightarrow> [] | Some x \<Rightarrow> [(''status'', ticket_status_value x)]) @
     (case tq_source q of None \<Rightarrow> [] | Some x \<Rightarrow> [(''source_type'', ticket_source_value x)]) @
     (case tq_customer q of None \<Rightarrow> [] | Some x \<Rightarrow> [(''customer_id'', uuid_str x)])"

definition ticket_list_url :: "nat \<Rightarrow> int \<Rightarrow> ticket_query \<Rightarrow> string" where
  "ticket_list_url limit offset q = ''/ui/tickets?'' @ urlencode (list_url_query limit offset q)"

definition build_ticket_page :: "browser_context \<Rightarrow> nat \<Rightarrow> nat \<Rightarrow> ticket_query \<Rightarrow> ticket list \<times> nat \<Rightarrow> ticket_page" where
  "build_ticket_page context limit offset q page =
     \<lparr>tp_context = context, tp_tickets = fst page, tp_limit = limit, tp_offset = offset, tp_total = snd page, tp_query = q,
      tp_previous_url = (if 0 < offset then Some (ticket_list_url limit (int offset - int limit) q) else None),
      tp_next_url = (if offset + limit < snd page then Some (ticket_list_url limit (int offset + int limit) q) else None)\<rparr>"

definition ticket_list_page :: "'st session_ops \<Rightarrow> string option \<Rightarrow> nat \<Rightarrow> nat \<Rightarrow> ticket_status option \<Rightarrow>
    ticket_source_type option \<Rightarrow> uuid option \<Rightarrow> 'st \<Rightarrow> db \<Rightarrow> 'st ui_result" where
  \<comment> \<open>for a limit from 1 to 100, as the route requires\<close>
  "ticket_list_page ops cookie limit offset status source_type customer_id st s =
     with_context ops cookie st s (\<lambda>context st1.
       let q = \<lparr>tq_organization = o_id (bc_organization context), tq_status = status, tq_source = source_type,
                tq_customer = customer_id\<rparr>
       in (Inr (Page 200 (TicketListPage (build_ticket_page context limit offset q (list_tickets s q limit offset)))
             KeepCookie), st1, s))"

fun NEXT_STATUS :: "ticket_status \<Rightarrow> ticket_status option" where
  "NEXT_STATUS OPEN = Some PROCESSING"
| "NEXT_STATUS PROCESSING = Some WAITING_FOR_AGENT"
| "NEXT_STATUS WAITING_FOR_AGENT = Some RESOLVED"
| "NEXT_STATUS RESOLVED = Some CLOSED"
| "NEXT_STATUS CLOSED = None"

definition ticket_detail_page :: "'st session_ops \<Rightarrow> string option \<Rightarrow> uuid \<Rightarrow> 'st \<Rightarrow> db \<Rightarrow> 'st ui_result" where
  "ticket_detail_page ops cookie ticket_id st s =
     with_context ops cookie st s (\<lambda>context st1.
       case get_ticket_detail (o_id (bc_organization context)) ticket_id s of
         Inl TicketNotFoundError \<Rightarrow> (Inr (ui_error TicketMissing 404), st1, s)
       | Inl e \<Rightarrow> (Inl (UiTicket e), st1, s)
       | Inr (ticket, messages) \<Rightarrow>
           (Inr (Page 200 (TicketDetailPage context ticket messages (NEXT_STATUS (t_status ticket))) KeepCookie), st1, s))"

definition ticket_url :: "uuid \<Rightarrow> string" where
  "ticket_url ticket_id = ''/ui/tickets/'' @ uuid_str ticket_id"

definition message_outcome :: "uuid \<Rightarrow> 'st \<Rightarrow> (ticket_exn + ticket_message) \<times> db \<Rightarrow> 'st ui_result" where
  "message_outcome ticket_id st result =
     ((case fst result of
         Inl TicketNotFoundError \<Rightarrow> Inr (ui_error TicketMissing 404)
       | Inl TicketPersistenceError \<Rightarrow> Inr (ui_error MessageNotSaved 409)
       | Inl e \<Rightarrow> Inl (UiTicket e)
       | Inr _ \<Rightarrow> Inr (Redirect (ticket_url ticket_id) KeepCookie)), st, snd result)"

definition status_outcome :: "uuid \<Rightarrow> 'st \<Rightarrow> (ticket_exn + ticket) \<times> db \<Rightarrow> 'st ui_result" where
  "status_outcome ticket_id st result =
     ((case fst result of
         Inl TicketNotFoundError \<Rightarrow> Inr (ui_error TicketMissing 404)
       | Inl (InvalidTicketTransitionError _ _) \<Rightarrow> Inr (ui_error TransitionNotAllowed 409)
       | Inl TicketPersistenceError \<Rightarrow> Inr (ui_error StatusNotSaved 409)
       | Inl e \<Rightarrow> Inl (UiTicket e)
       | Inr _ \<Rightarrow> Inr (Redirect (ticket_url ticket_id) KeepCookie)), st, snd result)"

definition ticket_message_submit :: "(ustr \<Rightarrow> ustr) \<Rightarrow> instant \<Rightarrow> db_fault \<Rightarrow> uuid \<Rightarrow> uuid \<Rightarrow> 'st session_ops \<Rightarrow> string option \<Rightarrow>
    uuid \<Rightarrow> message_form \<Rightarrow> 'st \<Rightarrow> db \<Rightarrow> 'st ui_result" where
  "ticket_message_submit trim now fault mid eid ops cookie ticket_id form st s =
     with_context ops cookie st s (\<lambda>context st1.
       with_csrf CsrfInvalid context (mf_csrf_token form) st1 s
         (case NonEmptyBody trim (form_text (mf_body form)) of
            None \<Rightarrow> (Inr (ui_error EmptyMessage 422), st1, s)
          | Some body \<Rightarrow>
              message_outcome ticket_id st1
                (append_agent_message now fault mid eid (o_id (bc_organization context)) ticket_id body
                   (u_id (bc_user context)) s)))"

definition parse_status :: "string \<Rightarrow> ticket_status option" where
  \<comment> \<open>\<open>TicketStatusUpdateRequest.model_validate\<close>\<close>
  "parse_status w = find (\<lambda>x. ticket_status_value x = w) [OPEN, PROCESSING, WAITING_FOR_AGENT, RESOLVED, CLOSED]"

definition ticket_status_submit :: "tx \<Rightarrow> 'st session_ops \<Rightarrow> string option \<Rightarrow> uuid \<Rightarrow> status_form \<Rightarrow> 'st \<Rightarrow> db \<Rightarrow> 'st ui_result" where
  "ticket_status_submit t ops cookie ticket_id form st s =
     with_context ops cookie st s (\<lambda>context st1.
       with_csrf CsrfInvalid context (sf_csrf_token form) st1 s
         (case parse_status (form_text (sf_status form)) of
            None \<Rightarrow> (Inr (ui_error InvalidStatus 422), st1, s)
          | Some next_status \<Rightarrow>
              status_outcome ticket_id st1
                (transition_ticket t (o_id (bc_organization context)) ticket_id next_status (u_id (bc_user context)) s)))"

subsection \<open>The router\<close>

datatype ui_request =
    GetRoot
  | GetLogin
  | PostLogin login_form
  | PostLogout "string form_value option"
  | GetTickets nat nat "ticket_status option" "ticket_source_type option" "uuid option"
  | GetTicket uuid
  | PostMessage uuid message_form
  | PostStatus uuid status_form

record ui_env =
  ue_settings :: settings
  ue_valid_email :: "string \<Rightarrow> string option"
  ue_trim :: "ustr \<Rightarrow> ustr"
  ue_passwords :: password_manager
  ue_tx :: tx
  ue_message_id :: uuid

definition serve_ui :: "ui_env \<Rightarrow> 'st session_ops \<Rightarrow> string option \<Rightarrow> ui_request \<Rightarrow> 'st \<Rightarrow> db \<Rightarrow> 'st ui_result" where
  "serve_ui env ops cookie request st s =
     (case request of
        GetRoot \<Rightarrow> (Inr (Redirect ''/ui/tickets'' KeepCookie), st, s)
      | GetLogin \<Rightarrow> login_page (ue_settings env) ops cookie st s
      | PostLogin form \<Rightarrow> login_submit (ue_settings env) (ue_valid_email env) (ue_passwords env) ops cookie form st s
      | PostLogout token \<Rightarrow> logout ops cookie token st s
      | GetTickets limit offset status source customer \<Rightarrow>
          ticket_list_page ops cookie limit offset status source customer st s
      | GetTicket ticket_id \<Rightarrow> ticket_detail_page ops cookie ticket_id st s
      | PostMessage ticket_id form \<Rightarrow>
          ticket_message_submit (ue_trim env) (tx_now (ue_tx env)) (tx_fault (ue_tx env)) (ue_message_id env)
            (tx_event (ue_tx env)) ops cookie ticket_id form st s
      | PostStatus ticket_id form \<Rightarrow> ticket_status_submit (ue_tx env) ops cookie ticket_id form st s)"

definition ui_outcome :: "'st ui_result \<Rightarrow> ui_response option" where
  \<comment> \<open>what the browser gets: an exception goes through the handler, \<open>None\<close> is the internal error of \<open>app/errors.py\<close>\<close>
  "ui_outcome result = (case fst result of Inl e \<Rightarrow> session_unavailable_handler e | Inr r \<Rightarrow> Some r)"

subsection \<open>Who a context is\<close>

definition context_of :: "'st session_ops \<Rightarrow> string option \<Rightarrow> 'st \<Rightarrow> db \<Rightarrow> browser_context \<Rightarrow> bool" where
  \<comment> \<open>the cookie resolves to a session of an active member of an active organization\<close>
  "context_of ops cookie st s ctx \<longleftrightarrow>
     fst (op_resolve ops cookie st) = Inr (Some (bc_session ctx)) \<and>
     bs_user_id (bc_session ctx) = Some (u_id (bc_user ctx)) \<and>
     bs_organization_id (bc_session ctx) = Some (o_id (bc_organization ctx)) \<and>
     bc_user ctx \<in> set (users s) \<and> u_status (bc_user ctx) = USER_ACTIVE \<and>
     bc_organization ctx \<in> set (organizations s) \<and> o_status (bc_organization ctx) = ORG_ACTIVE \<and>
     bc_membership ctx \<in> set (organization_members s) \<and> m_user_id (bc_membership ctx) = u_id (bc_user ctx) \<and>
     m_organization_id (bc_membership ctx) = o_id (bc_organization ctx) \<and> m_status (bc_membership ctx) = MEMBER_ACTIVE"

lemma browser_rows_mem: "(r, g, x) \<in> set (browser_rows uid oid s) \<longleftrightarrow> r \<in> set (users s) \<and>
    g \<in> set (organizations s) \<and> x \<in> set (organization_members s) \<and> m_user_id x = u_id r \<and>
    o_id g = m_organization_id x \<and> u_id r = uid \<and> u_status r = USER_ACTIVE \<and> o_id g = oid \<and>
    o_status g = ORG_ACTIVE \<and> m_status x = MEMBER_ACTIVE"
  by (auto simp: browser_rows_def)

lemma browser_rows_single:
  assumes ok: "db_ok s" and mem: "(r, g, x) \<in> set (browser_rows uid oid s)"
  shows "browser_rows uid oid s = [(r, g, x)]"
proof -
  have keys: "distinct (map u_id (users s))" "distinct (map o_id (organizations s))"
      "distinct (map (\<lambda>r. (m_organization_id r, m_user_id r)) (organization_members s))"
    using ok by (simp_all add: db_ok_defs)
  then have d: "distinct (browser_rows uid oid s)"
    by (simp add: browser_rows_def distinct_map distinct_product)
  have all: "p = (r, g, x)" if "p \<in> set (browser_rows uid oid s)" for p
  proof -
    obtain r' g' x' where p: "p = (r', g', x')" by (cases p)
    note f = mem [unfolded browser_rows_mem] that [unfolded p browser_rows_mem]
    have "r' = r" using distinct_key_unique [OF keys(1), of r' r] f by metis
    moreover have "g' = g" using distinct_key_unique [OF keys(2), of g' g] f by metis
    moreover have "(m_organization_id x', m_user_id x') = (m_organization_id x, m_user_id x)" using f by (metis prod.inject)
    with distinct_key_unique [OF keys(3), of x' x] f have "x' = x" by blast
    ultimately show ?thesis using p by blast
  qed
  then have "set (browser_rows uid oid s) = {(r, g, x)}" using mem by blast
  with d show ?thesis by (rule distinct_singleton)
qed

lemma resolve_context_sound:
  assumes "resolve_browser_context ops cookie st s = (Inr (Some ctx), st1)"
  shows "context_of ops cookie st s ctx"
proof -
  from assms obtain session user_id organization_id r g x where
    c: "op_resolve ops cookie st = (Inr (Some session), st1)" "bs_user_id session = Some user_id"
      "bs_organization_id session = Some organization_id" "browser_rows user_id organization_id s = [(r, g, x)]"
      "ctx = \<lparr>bc_session = session, bc_user = r, bc_organization = g, bc_membership = x\<rparr>"
    by (auto simp: resolve_browser_context_def split: prod.splits sum.splits option.splits list.splits)
  have "(r, g, x) \<in> set (browser_rows user_id organization_id s)" using c(4) by simp
  note f = this [unfolded browser_rows_mem]
  show ?thesis using c(1-3,5) f by (simp add: context_of_def)
qed

lemma resolve_context_complete:
  assumes "db_ok s" and "context_of ops cookie st s ctx"
  shows "resolve_browser_context ops cookie st s = (Inr (Some ctx), snd (op_resolve ops cookie st))"
proof -
  let ?row = "(bc_user ctx, bc_organization ctx, bc_membership ctx)"
  have "?row \<in> set (browser_rows (u_id (bc_user ctx)) (o_id (bc_organization ctx)) s)"
    using assms(2) by (simp add: browser_rows_mem context_of_def)
  from browser_rows_single [OF assms(1) this] show ?thesis
    using assms(2) by (cases "op_resolve ops cookie st") (simp add: resolve_browser_context_def context_of_def)
qed

lemma valid_csrf_True: "valid_csrf ctx token = Inr True \<Longrightarrow>
    token = Some (FormText (bs_csrf_token (bc_session ctx))) \<and> bs_csrf_token (bc_session ctx) \<noteq> []"
  by (auto simp: valid_csrf_def compare_digest_def split: option.splits form_value.splits if_splits)

lemma with_context_changed:
  assumes "with_context ops cookie st s h = (r, st', s')" and "s' \<noteq> s"
  shows "\<exists>ctx st1. context_of ops cookie st s ctx \<and> h ctx st1 = (r, st', s')"
proof -
  from assms obtain ctx st1 where "resolve_browser_context ops cookie st s = (Inr (Some ctx), st1)" "h ctx st1 = (r, st', s')"
    by (auto simp: with_context_def split: prod.splits sum.splits option.splits)
  with resolve_context_sound [OF this(1)] show ?thesis by blast
qed

lemma with_csrf_changed:
  assumes "with_csrf message ctx token st s result = (r, st', s')" and "s' \<noteq> s"
  shows "token = Some (FormText (bs_csrf_token (bc_session ctx))) \<and> bs_csrf_token (bc_session ctx) \<noteq> [] \<and>
    result = (r, st', s')"
proof -
  have "valid_csrf ctx token = Inr True" using assms by (auto simp: with_csrf_def split: sum.splits if_splits)
  then show ?thesis using valid_csrf_True [of ctx token] assms by (simp add: with_csrf_def)
qed

lemma guarded_changed:
  assumes "with_context ops cookie st s (\<lambda>ctx st1. with_csrf message ctx token st1 s (f ctx st1)) = (r, st', s')"
    and "s' \<noteq> s"
  shows "\<exists>ctx st1. context_of ops cookie st s ctx \<and> token = Some (FormText (bs_csrf_token (bc_session ctx))) \<and>
    bs_csrf_token (bc_session ctx) \<noteq> [] \<and> f ctx st1 = (r, st', s')"
  using with_context_changed [OF assms] with_csrf_changed [OF _ assms(2)] by metis

lemma read_handlers_keep_db:
  "login_page cfg ops cookie st s = (r, st', s') \<Longrightarrow> s' = s"
  "login_submit cfg valid_email pm ops cookie form st s = (r, st', s') \<Longrightarrow> s' = s"
  "logout ops cookie token st s = (r, st', s') \<Longrightarrow> s' = s"
  "ticket_list_page ops cookie limit offset status source customer st s = (r, st', s') \<Longrightarrow> s' = s"
  "ticket_detail_page ops cookie ticket_id st s = (r, st', s') \<Longrightarrow> s' = s"
  by (auto simp: login_page_def login_submit_def login_credentials_def ticket_list_page_def ticket_detail_page_def
      logout_def with_context_def with_csrf_def Let_def
      split: prod.splits sum.splits option.splits if_splits form_value.splits auth_exn.splits ticket_exn.splits)

subsection \<open>Changes through the interface\<close>

lemma message_submit_changed:
  assumes "ticket_message_submit trim now fault mid eid ops cookie ticket_id form st s = (r, st', s')" and "s' \<noteq> s"
  shows "\<exists>ctx body. context_of ops cookie st s ctx \<and> bs_csrf_token (bc_session ctx) \<noteq> [] \<and>
    mf_csrf_token form = Some (FormText (bs_csrf_token (bc_session ctx))) \<and>
    NonEmptyBody trim (form_text (mf_body form)) = Some body \<and>
    s' = snd (append_agent_message now fault mid eid (o_id (bc_organization ctx)) ticket_id body (u_id (bc_user ctx)) s)"
  using guarded_changed [OF assms(1) [unfolded ticket_message_submit_def] assms(2)] assms(2)
  by (auto simp: message_outcome_def split: option.splits)

lemma status_submit_changed:
  assumes "ticket_status_submit t ops cookie ticket_id form st s = (r, st', s')" and "s' \<noteq> s"
  shows "\<exists>ctx status. context_of ops cookie st s ctx \<and> bs_csrf_token (bc_session ctx) \<noteq> [] \<and>
    sf_csrf_token form = Some (FormText (bs_csrf_token (bc_session ctx))) \<and>
    parse_status (form_text (sf_status form)) = Some status \<and>
    s' = snd (transition_ticket t (o_id (bc_organization ctx)) ticket_id status (u_id (bc_user ctx)) s)"
  using guarded_changed [OF assms(1) [unfolded ticket_status_submit_def] assms(2)] assms(2)
  by (auto simp: status_outcome_def split: option.splits)

text \<open>
  C13. No change without a session, a membership and the token of the form. Whatever a browser sends
  to the agent interface, with any session store and any faults, the database changes only if the
  cookie resolves to the session of an active user with an active membership in an active
  organization, the form carries exactly the CSRF token of that session, and the change is what
  the ticket service does for that user in that organization: a valid message appended or a status
  request.
\<close>

theorem ui_changes_authorized:
  assumes "serve_ui env ops cookie request st s = (r, st', s')" and "s' \<noteq> s"
  shows "\<exists>ctx token ticket_id. context_of ops cookie st s ctx \<and> token \<noteq> [] \<and>
    token = bs_csrf_token (bc_session ctx) \<and>
    ((\<exists>form body. request = PostMessage ticket_id form \<and> mf_csrf_token form = Some (FormText token) \<and>
        NonEmptyBody (ue_trim env) (form_text (mf_body form)) = Some body \<and>
        s' = snd (append_agent_message (tx_now (ue_tx env)) (tx_fault (ue_tx env)) (ue_message_id env)
          (tx_event (ue_tx env)) (o_id (bc_organization ctx)) ticket_id body (u_id (bc_user ctx)) s)) \<or>
     (\<exists>form status. request = PostStatus ticket_id form \<and> sf_csrf_token form = Some (FormText token) \<and>
        parse_status (form_text (sf_status form)) = Some status \<and>
        s' = snd (transition_ticket (ue_tx env) (o_id (bc_organization ctx)) ticket_id status
          (u_id (bc_user ctx)) s)))"
proof (cases request)
  case (PostMessage ticket_id form)
  with assms(1) have "ticket_message_submit (ue_trim env) (tx_now (ue_tx env)) (tx_fault (ue_tx env)) (ue_message_id env)
      (tx_event (ue_tx env)) ops cookie ticket_id form st s = (r, st', s')" by (simp add: serve_ui_def)
  from message_submit_changed [OF this assms(2)] PostMessage show ?thesis by blast
next
  case (PostStatus ticket_id form)
  with assms(1) have "ticket_status_submit (ue_tx env) ops cookie ticket_id form st s = (r, st', s')"
    by (simp add: serve_ui_def)
  from status_submit_changed [OF this assms(2)] PostStatus show ?thesis by blast
qed (use assms in \<open>auto simp: serve_ui_def dest: read_handlers_keep_db\<close>)

subsection \<open>Signing in\<close>

definition redis_ops :: "hmac \<Rightarrow> 'txt codec \<Rightarrow> session_config \<Rightarrow> instant \<Rightarrow> byte list \<Rightarrow> byte list \<Rightarrow> 'txt redis session_ops" where
  \<comment> \<open>the Redis store at one time, with the random bytes it will draw and no fault\<close>
  "redis_ops hmac c scfg now id_bytes csrf_bytes =
     \<lparr>op_resolve = redis_resolve hmac c scfg True NoFault now,
      op_create_anonymous = redis_create_anonymous hmac c scfg NoFault now id_bytes csrf_bytes,
      op_authenticate = redis_authenticate hmac c scfg NoFault now id_bytes csrf_bytes,
      op_invalidate = redis_invalidate hmac scfg NoFault\<rparr>"

lemma authenticate_Inr: "fst (authenticate pm email password s) = Inr r \<Longrightarrow> r \<in> set (users s) \<and> u_status r = USER_ACTIVE"
  by (auto simp: authenticate_def dest: find_SomeD split: option.splits if_splits)

lemma login_organization_Some:
  assumes "login_organization slug uid s = Some g"
  shows "\<exists>x. g \<in> set (organizations s) \<and> o_status g = ORG_ACTIVE \<and> o_slug g = slug \<and> x \<in> set (organization_members s) \<and>
    m_user_id x = uid \<and> m_organization_id x = o_id g \<and> m_status x = MEMBER_ACTIVE"
proof -
  from assms obtain x where x: "find (\<lambda>(g, x). m_organization_id x = o_id g \<and> o_slug g = slug \<and> o_status g = ORG_ACTIVE \<and>
         m_user_id x = uid \<and> m_status x = MEMBER_ACTIVE)
       (List.product (organizations s) (organization_members s)) = Some (g, x)"
    by (auto simp: login_organization_def)
  from find_SomeD [OF x] show ?thesis by auto
qed

lemma compare_digest_same: "list_all (\<lambda>c. (of_char c :: nat) < 128) w \<Longrightarrow> compare_digest w w = Inr True"
  by (auto simp: compare_digest_def list_ex_iff list_all_iff)

lemma csrf_ascii: "length csrf = 32 \<Longrightarrow> list_all (\<lambda>c. (of_char c :: nat) < 128) (unpadded csrf)"
  using pattern_chars(2) [OF unpadded_pattern] by (simp add: list_all_iff)

context session_env
begin

lemma redis_rotate_ok:
  assumes "verified_session_id hmac cfg prev = Inr p"
  shows "redis_rotate hmac c cfg NoFault now rnd csrf prev usr org st =
    (Inr (signed_cookie hmac cfg (bs_id (new_session cfg now rnd csrf usr org)), new_session cfg now rnd csrf usr org),
     snd (redis_rotate hmac c cfg NoFault now rnd csrf prev usr org st))"
  using assms by (simp add: redis_rotate_def redis_apply_def Let_def)

lemma redis_signed_in:
  assumes "verified_session_id hmac cfg prev = Inr p" and "length rnd = 32" and "length csrf = 32" and "owner_ok usr org"
    and "now \<le> t" and "t < now + sc_lifetime cfg"
  shows "fst (redis_resolve hmac c cfg True NoFault t
      (Some (signed_cookie hmac cfg (bs_id (new_session cfg now rnd csrf usr org))))
      (snd (redis_rotate hmac c cfg NoFault now rnd csrf prev usr org st))) =
    Inr (Some (new_session cfg now rnd csrf usr org))"
  using redis.sign_in [OF assms(1-5)] assms(6) by (simp add: new_session_def)

lemma login_page_anonymous:
  "login_page scfg (redis_ops hmac c cfg now rnd csrf) None st s =
     (Inr (Page 200 (LoginPage (bs_csrf_token (new_session cfg now rnd csrf None None)) None)
        (set_session_cookie scfg (signed_cookie hmac cfg (bs_id (new_session cfg now rnd csrf None None))))),
      snd (redis_rotate hmac c cfg NoFault now rnd csrf None None None st), s)"
proof -
  have v: "verified_session_id hmac cfg None = Inr None" by (simp add: verified_session_id_def)
  then have "redis_resolve hmac c cfg True NoFault now None st = (Inr None, st)" by (simp add: redis_resolve_def)
  moreover obtain st2 where "redis_rotate hmac c cfg NoFault now rnd csrf None None None st =
      (Inr (signed_cookie hmac cfg (bs_id (new_session cfg now rnd csrf None None)), new_session cfg now rnd csrf None None), st2)"
    using redis_rotate_ok [OF v] by blast
  ultimately show ?thesis
    by (simp add: login_page_def redis_ops_def resolve_browser_context_def redis_create_anonymous_def)
qed

lemma login_submit_anonymous:
  assumes bytes: "length rnd = 32" "length csrf = 32" and "now \<le> t" "t < now + sc_lifetime cfg"
    and creds: "parse_browser_login valid_email form = Some (email, password, slug)"
      "fst (authenticate pm email password s) = Inr r" "login_organization slug (u_id r) s = Some g"
    and token: "lf_csrf_token form = Some (FormText (bs_csrf_token (new_session cfg now rnd csrf None None)))"
    and ck: "ck = signed_cookie hmac cfg (bs_id (new_session cfg now rnd csrf None None))"
    and st1: "st1 = snd (redis_rotate hmac c cfg NoFault now rnd csrf None None None st)"
  shows "\<exists>st2 prev. login_submit scfg valid_email pm (redis_ops hmac c cfg t rnd2 csrf2) (Some ck) form st1 s =
     (Inr (Redirect ''/ui/tickets'' (set_session_cookie scfg
        (signed_cookie hmac cfg (bs_id (new_session cfg t rnd2 csrf2 (Some (u_id r)) (Some (o_id g))))))),
      snd (redis_rotate hmac c cfg NoFault t rnd2 csrf2 prev (Some (u_id r)) (Some (o_id g)) st2), s) \<and>
     (\<exists>p. verified_session_id hmac cfg prev = Inr p)"
proof -
  let ?anon = "new_session cfg now rnd csrf None None" and ?new = "new_session cfg t rnd2 csrf2 (Some (u_id r)) (Some (o_id g))"
  have v: "verified_session_id hmac cfg (Some ck) = Inr (Some (bs_id ?anon))"
    unfolding ck by (rule redis.verified_cookie [OF bytes(1)])
  have "verified_session_id hmac cfg None = Inr None" by (simp add: verified_session_id_def)
  then have "fst (redis_resolve hmac c cfg True NoFault t (Some ck) st1) = Inr (Some ?anon)"
    unfolding ck st1 using assms(1-4) by (intro redis_signed_in) (auto simp: owner_ok_def)
  then obtain st2 where res: "redis_resolve hmac c cfg True NoFault t (Some ck) st1 = (Inr (Some ?anon), st2)"
    by (metis prod.collapse)
  obtain st3 where rot: "redis_rotate hmac c cfg NoFault t rnd2 csrf2 (Some ck) (Some (u_id r)) (Some (o_id g)) st2 =
      (Inr (signed_cookie hmac cfg (bs_id ?new), ?new), st3)"
    using redis_rotate_ok [OF v] by blast
  have "compare_digest (bs_csrf_token ?anon) (bs_csrf_token ?anon) = Inr True"
    using compare_digest_same [OF csrf_ascii [OF bytes(2)]] by (simp add: new_session_def)
  moreover have "\<not> is_authenticated ?anon" by (simp add: is_authenticated_def new_session_def)
  ultimately have "login_submit scfg valid_email pm (redis_ops hmac c cfg t rnd2 csrf2) (Some ck) form st1 s =
     (Inr (Redirect ''/ui/tickets'' (set_session_cookie scfg (signed_cookie hmac cfg (bs_id ?new)))), st3, s)"
    using res rot creds token
    by (simp add: login_submit_def login_credentials_def redis_ops_def redis_authenticate_def)
  moreover have "st3 = snd (redis_rotate hmac c cfg NoFault t rnd2 csrf2 (Some ck) (Some (u_id r)) (Some (o_id g)) st2)"
    by (simp add: rot)
  ultimately show ?thesis using v by blast
qed

lemma tickets_signed_in:
  assumes "db_ok s" and bytes: "length rnd = 32" "length csrf = 32" and t: "now \<le> t" "t < now + sc_lifetime cfg"
    and prev: "verified_session_id hmac cfg prev = Inr p"
    and "uuid_range (u_id r)" and "uuid_range (o_id g)"
    and r: "r \<in> set (users s)" "u_status r = USER_ACTIVE" and g: "login_organization slug (u_id r) s = Some g"
    and st: "st = snd (redis_rotate hmac c cfg NoFault now rnd csrf prev (Some (u_id r)) (Some (o_id g)) st0)"
    and ck: "ck = signed_cookie hmac cfg (bs_id (new_session cfg now rnd csrf (Some (u_id r)) (Some (o_id g))))"
  shows "\<exists>ctx. context_of (redis_ops hmac c cfg t rnd' csrf') (Some ck) st s ctx \<and>
    bc_user ctx = r \<and> bc_organization ctx = g \<and> o_slug g = slug"
proof -
  obtain x where x: "g \<in> set (organizations s)" "o_status g = ORG_ACTIVE" "o_slug g = slug" "x \<in> set (organization_members s)"
    "m_user_id x = u_id r" "m_organization_id x = o_id g" "m_status x = MEMBER_ACTIVE"
    using login_organization_Some [OF g] by blast
  let ?new = "new_session cfg now rnd csrf (Some (u_id r)) (Some (o_id g))"
  have "fst (redis_resolve hmac c cfg True NoFault t (Some ck) st) = Inr (Some ?new)"
    unfolding ck st using assms(2-8) by (intro redis_signed_in) (auto simp: owner_ok_def)
  with x r show ?thesis
    by (intro exI [of _ "\<lparr>bc_session = ?new, bc_user = r, bc_organization = g, bc_membership = x\<rparr>"])
      (simp add: context_of_def redis_ops_def new_session_def)
qed

end

lemma ticket_list_page_shown:
  assumes "db_ok s" and "context_of ops cookie st s ctx"
  shows "ticket_list_page ops cookie limit offset a b d st s =
    (let q = \<lparr>tq_organization = o_id (bc_organization ctx), tq_status = a, tq_source = b, tq_customer = d\<rparr>
     in (Inr (Page 200 (TicketListPage (build_ticket_page ctx limit offset q (list_tickets s q limit offset))) KeepCookie),
         snd (op_resolve ops cookie st), s))"
  using resolve_context_complete [OF assms] by (simp add: ticket_list_page_def with_context_def Let_def)

text \<open>
  C20. Signing in through the browser works from end to end. The login page gives an unknown browser
  an anonymous session; the form posted with its cookie and its token before it expires, with fields
  the request schema accepts (the slug without capitals), credentials the service accepts and an
  organization the user is an active member of, sets a new cookie; and with that cookie, until the session expires, the ticket page shows exactly the
  requested window of that organization's tickets, to that user.
\<close>

theorem ui_sign_in_works:
  assumes "digest_ok hmac" and "codec_ok c" and "whole_seconds scfg" and "db_ok s"
    and "length rnd = 32" "length csrf = 32" "length rnd2 = 32" "length csrf2 = 32"
    and "now \<le> t2" "t2 < now + sc_lifetime scfg" "t2 \<le> t3" "t3 < t2 + sc_lifetime scfg"
    and "parse_browser_login valid_email form = Some (email, password, slug)"
      "fst (authenticate pm email password s) = Inr r" "login_organization slug (u_id r) s = Some g"
    and "uuid_range (u_id r)" and "uuid_range (o_id g)"
    and token: "lf_csrf_token form = Some (FormText (bs_csrf_token (new_session scfg now rnd csrf None None)))"
  shows "\<exists>ck1 st1 ck2 st2 page st3.
    login_page cfg (redis_ops hmac c scfg now rnd csrf) None st s =
      (Inr (Page 200 (LoginPage (bs_csrf_token (new_session scfg now rnd csrf None None)) None)
         (set_session_cookie cfg ck1)), st1, s) \<and>
    login_submit cfg valid_email pm (redis_ops hmac c scfg t2 rnd2 csrf2) (Some ck1) form st1 s =
      (Inr (Redirect ''/ui/tickets'' (set_session_cookie cfg ck2)), st2, s) \<and>
    ticket_list_page (redis_ops hmac c scfg t3 rnd3 csrf3) (Some ck2) limit offset a b d st2 s =
      (Inr (Page 200 (TicketListPage page) KeepCookie), st3, s) \<and>
    bc_user (tp_context page) = r \<and> o_slug (bc_organization (tp_context page)) = slug \<and>
    tp_tickets page = take limit (drop offset (visible_tickets s
      \<lparr>tq_organization = o_id g, tq_status = a, tq_source = b, tq_customer = d\<rparr>))"
proof -
  note env = session_env.intro [OF assms(1-3)]
  let ?ck1 = "signed_cookie hmac scfg (bs_id (new_session scfg now rnd csrf None None))"
  let ?ck2 = "signed_cookie hmac scfg (bs_id (new_session scfg t2 rnd2 csrf2 (Some (u_id r)) (Some (o_id g))))"
  note user = authenticate_Inr [OF assms(14)]
  define st1 where "st1 = snd (redis_rotate hmac c scfg NoFault now rnd csrf None None None st)"
  obtain st2 prev p where sub: "login_submit cfg valid_email pm (redis_ops hmac c scfg t2 rnd2 csrf2) (Some ?ck1) form st1 s =
     (Inr (Redirect ''/ui/tickets'' (set_session_cookie cfg ?ck2)),
      snd (redis_rotate hmac c scfg NoFault t2 rnd2 csrf2 prev (Some (u_id r)) (Some (o_id g)) st2), s)"
    and p: "verified_session_id hmac scfg prev = Inr p"
    using session_env.login_submit_anonymous [OF env assms(5,6,9,10,13-15) token refl st1_def] by blast
  define st3 where "st3 = snd (redis_rotate hmac c scfg NoFault t2 rnd2 csrf2 prev (Some (u_id r)) (Some (o_id g)) st2)"
  obtain ctx where ctx: "context_of (redis_ops hmac c scfg t3 rnd3 csrf3) (Some ?ck2) st3 s ctx"
      "bc_user ctx = r" "bc_organization ctx = g" "o_slug g = slug"
    using session_env.tickets_signed_in [OF env assms(4,7,8,11,12) p assms(16,17) _ _ assms(15) st3_def refl] user by blast
  let ?q = "\<lparr>tq_organization = o_id g, tq_status = a, tq_source = b, tq_customer = d\<rparr>"
  let ?page = "build_ticket_page ctx limit offset ?q (list_tickets s ?q limit offset)"
  have "ticket_list_page (redis_ops hmac c scfg t3 rnd3 csrf3) (Some ?ck2) limit offset a b d st3 s =
      (Inr (Page 200 (TicketListPage ?page) KeepCookie), snd (op_resolve (redis_ops hmac c scfg t3 rnd3 csrf3) (Some ?ck2) st3), s)"
    using ticket_list_page_shown [OF assms(4) ctx(1)] ctx(3) by (simp add: Let_def)
  moreover have "bc_user (tp_context ?page) = r \<and> o_slug (bc_organization (tp_context ?page)) = slug \<and>
      tp_tickets ?page = take limit (drop offset (visible_tickets s ?q))"
    using ctx(2-4) ticket_pages.page_items [of s ?q limit offset] by (simp add: build_ticket_page_def)
  ultimately show ?thesis
    using session_env.login_page_anonymous [OF env, of cfg now rnd csrf st s, folded st1_def] sub [folded st3_def] by blast
qed

text \<open>
  The form does not lower-case the slug before checking it, as registration does: a capital letter in
  the slug gets the answer to wrong credentials.
\<close>

lemma capital_slug_login_refused:
  assumes "ch \<in> set (sstrip (form_text (lf_organization_slug form)))" and "lower_char ch \<noteq> ch"
  shows "login_credentials cfg valid_email pm ops cookie form session st s = (Inr (login_refused session), st, s)"
  using capital_slug_refused [OF assms]
  by (simp add: login_credentials_def parse_browser_login_def split: option.split)

subsection \<open>Following the links of a listing\<close>

definition nat_of_str :: "string \<Rightarrow> nat option" where
  "nat_of_str w = (if w \<noteq> [] \<and> list_all (\<lambda>c. 48 \<le> (of_char c :: nat) \<and> (of_char c :: nat) \<le> 57) w
     then Some (foldl (\<lambda>n c. 10 * n + (of_char c - 48)) 0 w) else None)"

definition one_param :: "(string \<Rightarrow> 'a option) \<Rightarrow> string list \<Rightarrow> 'a option option" where
  "one_param parse ws = (case ws of [] \<Rightarrow> Some None | [w] \<Rightarrow> map_option Some (parse w) | _ \<Rightarrow> None)"

definition parse_source :: "string \<Rightarrow> ticket_source_type option" where
  "parse_source w = find (\<lambda>x. ticket_source_value x = w) [MANUAL, API]"

type_synonym list_params = "nat \<times> nat \<times> ticket_status option \<times> ticket_source_type option \<times> uuid option"

definition read_list_params :: "string \<Rightarrow> list_params option" where
  \<comment> \<open>what the route reads from the query of a URL that gives its numbers in plain decimals\<close>
  "read_list_params url =
     (let q = parse_qs (after_first (CHR ''?'') url) in
      case (one_param nat_of_str (qs_get ''limit'' q), one_param nat_of_str (qs_get ''offset'' q),
            one_param parse_status (qs_get ''status'' q), one_param parse_source (qs_get ''source_type'' q),
            one_param UUID (qs_get ''customer_id'' q)) of
        (Some (Some limit), Some (Some offset), Some status, Some source, Some customer) \<Rightarrow>
          Some (limit, offset, status, source, customer)
      | _ \<Rightarrow> None)"

definition plain :: "string \<Rightarrow> bool" where
  \<comment> \<open>characters that mean nothing to a query\<close>
  "plain w \<longleftrightarrow> CHR ''&'' \<notin> set w \<and> CHR ''%'' \<notin> set w \<and> CHR ''+'' \<notin> set w"

lemma unquote_plain: "CHR ''%'' \<notin> set w \<Longrightarrow> unquote w = w"
  by (induction w rule: unquote.induct) auto

lemma unquote_plus_plain: "plain w \<Longrightarrow> unquote_plus w = w"
proof -
  assume w: "plain w"
  then have "map (\<lambda>c. if c = CHR ''+'' then CHR '' '' else c) w = w" by (intro map_idI) (auto simp: plain_def)
  with w show ?thesis by (simp add: unquote_plus_def unquote_plain plain_def)
qed

lemma field_parts: "CHR ''='' \<notin> set k \<Longrightarrow> before_first (CHR ''='') (k @ CHR ''='' # v) = k \<and>
    after_first (CHR ''='') (k @ CHR ''='' # v) = v"
  by (induction k) (auto simp: before_first_def after_first_def)

lemma parse_qs_join:
  assumes "list_all (\<lambda>(k, v). plain k \<and> plain v \<and> CHR ''='' \<notin> set k) kvs" and "kvs \<noteq> []"
  shows "parse_qs (join_with (CHR ''&'') (map (\<lambda>(k, v). k @ CHR ''='' # v) kvs)) = kvs"
proof -
  let ?fs = "map (\<lambda>(k, v). k @ CHR ''='' # v) kvs"
  have "list_all (\<lambda>w. CHR ''&'' \<notin> set w) ?fs" using assms(1) by (auto simp: list_all_iff plain_def)
  then have "split_on (CHR ''&'') (join_with (CHR ''&'') ?fs) = ?fs" using assms(2) by (intro split_on_join) simp_all
  moreover have "filter (\<lambda>f. f \<noteq> []) ?fs = ?fs" by (rule filter_True) auto
  ultimately show ?thesis
    using assms(1) by (auto simp: parse_qs_def list_all_iff field_parts unquote_plus_plain intro!: map_idI)
qed

lemma digit_of_char: "n < 10 \<Longrightarrow> (of_char (char_of (48 + n :: nat)) :: nat) = 48 + n"
  by (simp add: of_char_of)

lemma nat_str_digits: "nat_str n \<noteq> [] \<and> list_all (\<lambda>c. 48 \<le> (of_char c :: nat) \<and> (of_char c :: nat) \<le> 57) (nat_str n)"
proof (induction n rule: nat_str.induct)
  case (1 n)
  then show ?case by (subst nat_str.simps, subst (2) nat_str.simps) (auto simp: digit_of_char)
qed

lemma foldl_nat_str: "foldl (\<lambda>n c. 10 * n + (of_char c - 48)) 0 (nat_str n) = n"
proof (induction n rule: nat_str.induct)
  case (1 n)
  show ?case
  proof (cases "n < 10")
    case True
    then show ?thesis by (subst nat_str.simps) (simp add: digit_of_char)
  next
    case False
    with 1 show ?thesis by (subst nat_str.simps) (simp add: digit_of_char)
  qed
qed

lemma nat_of_str_nat_str [simp]: "nat_of_str (nat_str n) = Some n"
  using nat_str_digits [of n] by (simp add: nat_of_str_def foldl_nat_str)

lemma plain_nat_str: "plain (nat_str n)"
proof -
  have "48 \<le> (of_char c :: nat)" if "c \<in> set (nat_str n)" for c using nat_str_digits [of n] that by (simp add: list_all_iff)
  then show ?thesis unfolding plain_def by force
qed

lemma plain_values: "plain (ticket_status_value x)" "plain (ticket_source_value y)" "plain (uuid_str n)"
proof -
  show "plain (ticket_status_value x)" by (cases x) (simp_all add: plain_def)
  show "plain (ticket_source_value y)" by (cases y) (simp_all add: plain_def)
  show "plain (uuid_str n)" using set_uuid_str [of n] by (auto simp: plain_def HEX_def)
qed

lemma parse_list_url: "parse_qs (after_first (CHR ''?'') (ticket_list_url limit offset q)) = list_url_query limit offset q"
proof -
  have "after_first (CHR ''?'') (ticket_list_url limit offset q) = urlencode (list_url_query limit offset q)"
    by (simp add: ticket_list_url_def after_first_def)
  moreover have "list_all (\<lambda>(k, v). plain k \<and> plain v \<and> CHR ''='' \<notin> set k) (list_url_query limit offset q)"
    by (auto simp: list_url_query_def plain_nat_str plain_values split: option.split) (simp_all add: plain_def)
  moreover have "list_url_query limit offset q \<noteq> []" by (simp add: list_url_query_def)
  ultimately show ?thesis by (simp add: urlencode_def parse_qs_join)
qed

lemma parse_values: "parse_status (ticket_status_value x) = Some x" "parse_source (ticket_source_value y) = Some y"
  by (cases x; simp add: parse_status_def) (cases y; simp add: parse_source_def)

lemma read_ticket_list_url:
  assumes "on_some uuid_range (tq_customer q)"
  shows "read_list_params (ticket_list_url limit offset q) =
    Some (limit, nat (max 0 offset), tq_status q, tq_source q, tq_customer q)"
  using assms unfolding read_list_params_def parse_list_url
  by (auto simp: list_url_query_def qs_get_def one_param_def parse_values UUID_uuid_str Let_def split: option.split)

text \<open>Following the \<open>next\<close> links from a page on, with the pages a browser gets for the parameters of a URL.\<close>

partial_function (option) browse :: "(list_params \<Rightarrow> ticket_page option) \<Rightarrow> list_params \<Rightarrow> ticket list list option" where
  "browse get_page params =
     Option.bind (get_page params) (\<lambda>page.
       case tp_next_url page of
         None \<Rightarrow> Some [tp_tickets page]
       | Some url \<Rightarrow>
           Option.bind (read_list_params url) (\<lambda>params'.
             Option.bind (browse get_page params') (\<lambda>rest. Some (tp_tickets page # rest))))"

definition page_of_response :: "'st ui_result \<Rightarrow> ticket_page option" where
  "page_of_response result = (case fst result of Inr (Page _ (TicketListPage page) _) \<Rightarrow> Some page | _ \<Rightarrow> None)"

definition get_list_page :: "'st session_ops \<Rightarrow> string option \<Rightarrow> 'st \<Rightarrow> db \<Rightarrow> list_params \<Rightarrow> ticket_page option" where
  "get_list_page ops cookie st s = (\<lambda>(limit, offset, status, source, customer).
     page_of_response (ticket_list_page ops cookie limit offset status source customer st s))"

lemma browse_from:
  assumes page: "\<And>offset. get_page (limit, offset, a, b, d) =
      Some (build_ticket_page ctx limit offset \<lparr>tq_organization = org, tq_status = a, tq_source = b, tq_customer = d\<rparr>
        (list_tickets s \<lparr>tq_organization = org, tq_status = a, tq_source = b, tq_customer = d\<rparr> limit offset))"
    and "1 \<le> limit" and "on_some uuid_range d"
    and rows: "rows = length (visible_tickets s \<lparr>tq_organization = org, tq_status = a, tq_source = b, tq_customer = d\<rparr>)"
  shows "\<exists>pages. browse get_page (limit, offset, a, b, d) = Some pages \<and>
    concat pages = drop offset (visible_tickets s \<lparr>tq_organization = org, tq_status = a, tq_source = b, tq_customer = d\<rparr>) \<and>
    length pages \<le> Suc ((rows - offset) div limit)"
proof (induction "rows - offset" arbitrary: offset rule: less_induct)
  case less
  let ?q = "\<lparr>tq_organization = org, tq_status = a, tq_source = b, tq_customer = d\<rparr>"
  let ?page = "build_ticket_page ctx limit offset ?q (list_tickets s ?q limit offset)"
  note items = ticket_pages.page_items [of s ?q limit offset] ticket_pages.page_total [of s ?q limit offset]
  show ?case
  proof (cases "offset + limit < rows")
    case False
    then have "tp_next_url ?page = None" using items rows by (simp add: build_ticket_page_def)
    then have "browse get_page (limit, offset, a, b, d) = Some [tp_tickets ?page]"
      by (subst browse.simps) (simp add: page)
    moreover have "take limit (drop offset (visible_tickets s ?q)) = drop offset (visible_tickets s ?q)"
      using False rows by simp
    ultimately show ?thesis using items by (simp add: build_ticket_page_def)
  next
    case True
    have "nat (max 0 (int offset + int limit)) = offset + limit" by simp
    then have next_page: "tp_next_url ?page = Some (ticket_list_url limit (int offset + int limit) ?q)"
        "read_list_params (ticket_list_url limit (int offset + int limit) ?q) = Some (limit, offset + limit, a, b, d)"
      using True items rows assms(3) by (simp_all add: build_ticket_page_def read_ticket_list_url)
    have "rows - (offset + limit) < rows - offset" using True assms(2) by simp
    from less [OF this] obtain pages where p: "browse get_page (limit, offset + limit, a, b, d) = Some pages"
        "concat pages = drop (offset + limit) (visible_tickets s ?q)"
        "length pages \<le> Suc ((rows - (offset + limit)) div limit)" by blast
    have "browse get_page (limit, offset, a, b, d) = Some (tp_tickets ?page # pages)"
      using next_page p(1) by (subst browse.simps) (simp add: page)
    moreover have "take limit (drop offset (visible_tickets s ?q)) @ drop (offset + limit) (visible_tickets s ?q) =
        drop offset (visible_tickets s ?q)" by (metis append_take_drop_id drop_drop add.commute)
    moreover have "(rows - offset) div limit = Suc ((rows - (offset + limit)) div limit)"
    proof -
      have "rows - offset = (rows - (offset + limit)) + limit" using True by simp
      moreover have "(k + limit) div limit = Suc (k div limit)" for k using assms(2) by simp
      ultimately show ?thesis by metis
    qed
    ultimately show ?thesis using p(2,3) items by (simp add: build_ticket_page_def)
  qed
qed

text \<open>
  C14. The \<open>next\<close> links of the ticket list visit every ticket once and come to an end: for a signed-in
  browser, any filters and any page size from one on, following them from the first page returns,
  after at most one page more than the total divided by the page size, and the pages together are
  exactly the tickets of the organization that pass the filters, newest first.
\<close>

theorem browse_visits_every_ticket:
  assumes "db_ok s" and "context_of ops cookie st s ctx" and "1 \<le> limit" and "on_some uuid_range d"
  shows "\<exists>pages. browse (get_list_page ops cookie st s) (limit, 0, a, b, d) = Some pages \<and>
    concat pages = visible_tickets s
      \<lparr>tq_organization = o_id (bc_organization ctx), tq_status = a, tq_source = b, tq_customer = d\<rparr> \<and>
    length pages \<le> Suc (length (visible_tickets s
      \<lparr>tq_organization = o_id (bc_organization ctx), tq_status = a, tq_source = b, tq_customer = d\<rparr>) div limit)"
proof -
  have "get_list_page ops cookie st s (limit, offset, a, b, d) = Some (build_ticket_page ctx limit offset
      \<lparr>tq_organization = o_id (bc_organization ctx), tq_status = a, tq_source = b, tq_customer = d\<rparr>
      (list_tickets s \<lparr>tq_organization = o_id (bc_organization ctx), tq_status = a, tq_source = b, tq_customer = d\<rparr> limit offset))"
    for offset
    using ticket_list_page_shown [OF assms(1,2)] by (simp add: get_list_page_def page_of_response_def Let_def)
  from browse_from [OF this assms(3,4) refl, of 0] show ?thesis by simp
qed

subsection \<open>The offered status\<close>

lemma NEXT_STATUS_allowed: "NEXT_STATUS x = allowed_transition x"
  by (cases x) simp_all

lemma context_references: "context_of ops cookie st s ctx \<Longrightarrow>
    has_org s (o_id (bc_organization ctx)) \<and> has_member s (o_id (bc_organization ctx)) (u_id (bc_user ctx))"
  unfolding context_of_def has_org_def has_member_def list_ex_iff by blast

lemma valid_csrf_own: "list_all (\<lambda>c. (of_char c :: nat) < 128) (bs_csrf_token (bc_session ctx)) \<Longrightarrow>
    bs_csrf_token (bc_session ctx) \<noteq> [] \<Longrightarrow> valid_csrf ctx (Some (FormText (bs_csrf_token (bc_session ctx)))) = Inr True"
  by (simp add: valid_csrf_def compare_digest_same)

lemma status_submit_valid:
  assumes "db_ok s" and ctx: "context_of ops cookie st s ctx"
    and "list_all (\<lambda>c. (of_char c :: nat) < 128) (bs_csrf_token (bc_session ctx))" "bs_csrf_token (bc_session ctx) \<noteq> []"
    and "sf_csrf_token form = Some (FormText (bs_csrf_token (bc_session ctx)))"
    and "sf_status form = Some (FormText (ticket_status_value nx))"
  shows "ticket_status_submit t ops cookie tid form st s = status_outcome tid (snd (op_resolve ops cookie st))
    (transition_ticket t (o_id (bc_organization ctx)) tid nx (u_id (bc_user ctx)) s)"
  using resolve_context_complete [OF assms(1,2)] valid_csrf_own [OF assms(3,4)] assms(5,6)
  by (simp add: ticket_status_submit_def with_context_def with_csrf_def form_text_def parse_values)

lemma detail_page_shown:
  assumes "ticket_detail_page ops cookie tid st s = (Inr (Page 200 (TicketDetailPage ctx tk messages offered) KeepCookie), st', s')"
  shows "context_of ops cookie st s ctx \<and> get_ticket (o_id (bc_organization ctx)) tid s = Some tk \<and>
    offered = allowed_transition (t_status tk)"
  using assms resolve_context_sound [of ops cookie st s]
  by (auto simp: ticket_detail_page_def with_context_def get_ticket_detail_def NEXT_STATUS_allowed login_redirect_def ui_error_def
      split: prod.splits sum.splits option.splits)

text \<open>
  The ticket page offers exactly the status the service accepts. When the page of a ticket shows
  \<open>offered\<close> as the next status, then a form with the token of the session that asks for any status,
  undisturbed, succeeds if it is the offered one, leading back to the ticket, which then has that
  status in a database that keeps every constraint, and is otherwise answered with 409 and no change.
\<close>

lemma offered_status_accepted:
  assumes "db_ok s"
    and page: "ticket_detail_page ops cookie tid st s = (Inr (Page 200 (TicketDetailPage ctx tk messages offered) KeepCookie), st', s)"
    and "list_all (\<lambda>c. (of_char c :: nat) < 128) (bs_csrf_token (bc_session ctx))" "bs_csrf_token (bc_session ctx) \<noteq> []"
    and "sf_csrf_token form = Some (FormText (bs_csrf_token (bc_session ctx)))"
    and "sf_status form = Some (FormText (ticket_status_value nx))"
    and t: "tx_others t s = s" "tx_fault t = NoFault" "tx_event t \<notin> a_id ` set (audit_events s)"
  shows "if offered = Some nx
    then \<exists>s'. ticket_status_submit t ops cookie tid form st s =
        (Inr (Redirect (ticket_url tid) KeepCookie), snd (op_resolve ops cookie st), s') \<and> db_ok s' \<and>
        get_ticket (o_id (bc_organization ctx)) tid s' = Some (tk\<lparr>t_status := nx, t_updated_at := tx_now t\<rparr>)
    else ticket_status_submit t ops cookie tid form st s =
        (Inr (ui_error TransitionNotAllowed 409), snd (op_resolve ops cookie st), s)"
proof -
  note d = detail_page_shown [OF page]
  then have ctx: "context_of ops cookie st s ctx" and tk: "get_ticket (o_id (bc_organization ctx)) tid s = Some tk"
    and offered: "offered = allowed_transition (t_status tk)" by blast+
  note submit = status_submit_valid [OF assms(1) ctx assms(3-6), of t tid]
  note refs = context_references [OF ctx]
  show ?thesis
  proof (cases "offered = Some nx")
    case True
    have "transition_ticket t (o_id (bc_organization ctx)) tid nx (u_id (bc_user ctx)) s =
        (Inr (tk\<lparr>t_status := nx, t_updated_at := tx_now t\<rparr>),
         transitioned t (o_id (bc_organization ctx)) tid (u_id (bc_user ctx)) (t_status tk) nx s)"
      using transition_commits [OF tk, of nx t] True offered t refs assms(1) by simp
    moreover have "db_ok (transitioned t (o_id (bc_organization ctx)) tid (u_id (bc_user ctx)) (t_status tk) nx s)"
      using transitioned_db_ok assms(1) refs t(3) by blast
    ultimately show ?thesis using True submit tk by (simp add: status_outcome_def get_ticket_transitioned)
  next
    case False
    then show ?thesis using submit tk offered by (simp add: transition_ticket_unfold status_outcome_def)
  qed
qed

subsection \<open>A sample browser\<close>

definition sample_browser_session :: browser_session where
  "sample_browser_session = new_session sample_session_config 5 (replicate 32 7) (replicate 32 9) (Some 11) (Some 1)"

definition sample_browser_cookie :: string where
  "sample_browser_cookie = signed_cookie sample_hmac sample_session_config (bs_id sample_browser_session)"

definition sample_browser_store :: "json redis" where
  "sample_browser_store = snd (redis_rotate sample_hmac sample_codec sample_session_config NoFault 5
     (replicate 32 7) (replicate 32 9) None (Some 11) (Some 1) Map.empty)"

abbreviation sample_ops :: "json redis session_ops" where
  "sample_ops \<equiv> redis_ops sample_hmac sample_codec sample_session_config 6 [] []"

definition sample_agent :: user where
  "sample_agent = \<lparr>u_id = 11, u_email = ''bob@acme.test'', u_password_hash = ''h2'', u_status = USER_ACTIVE\<rparr>"

definition sample_organization :: organization where
  "sample_organization = \<lparr>o_id = 1, o_name = u ''Acme'', o_slug = ''acme'', o_status = ORG_ACTIVE\<rparr>"

lemma sample_ui_rows: "sample_agent \<in> set (users sample_ticket_db)" "u_status sample_agent = USER_ACTIVE"
  "login_organization ''acme'' (u_id sample_agent) sample_ticket_db = Some sample_organization"
  "uuid_range (u_id sample_agent)" "uuid_range (o_id sample_organization)"
  by (simp_all add: sample_agent_def sample_organization_def sample_ticket_db_def ticket_rows_def sample_db_def
      login_organization_def uuid_range_def)

lemma sample_context:
  "\<exists>ctx. context_of sample_ops (Some sample_browser_cookie) sample_browser_store sample_ticket_db ctx \<and>
     bc_user ctx = sample_agent \<and> bc_organization ctx = sample_organization \<and> bc_session ctx = sample_browser_session"
proof -
  have ids: "u_id sample_agent = 11" "o_id sample_organization = 1" by (simp_all add: sample_agent_def sample_organization_def)
  have t: "(5 :: int) \<le> 6" "(6 :: int) < 5 + sc_lifetime sample_session_config"
    by (simp_all add: sample_session_config_def seconds_def)
  have own: "owner_ok (Some 11) (Some 1)" using sample_ui_rows(4,5) by (simp add: owner_ok_def ids)
  have v: "verified_session_id sample_hmac sample_session_config None = Inr None" by (simp add: verified_session_id_def)
  have len: "length (replicate 32 (7 :: nat)) = 32" "length (replicate 32 (9 :: nat)) = 32" by simp_all
  have "fst (redis_resolve sample_hmac sample_codec sample_session_config True NoFault 6 (Some sample_browser_cookie)
      sample_browser_store) = Inr (Some sample_browser_session)"
    unfolding sample_browser_cookie_def sample_browser_store_def sample_browser_session_def
    by (rule sample_sessions.redis_signed_in [OF v len own t])
  moreover obtain ctx where "context_of sample_ops (Some sample_browser_cookie) sample_browser_store sample_ticket_db ctx"
      "bc_user ctx = sample_agent" "bc_organization ctx = sample_organization"
    using sample_sessions.tickets_signed_in [OF sample_ticket_db_ok len t v sample_ui_rows(4,5,1,2,3), of
        "sample_browser_store" Map.empty sample_browser_cookie "[]" "[]"]
    unfolding ids sample_browser_store_def sample_browser_cookie_def sample_browser_session_def by blast
  ultimately show ?thesis by (auto simp: context_of_def redis_ops_def)
qed

lemma sample_token: "list_all (\<lambda>c. (of_char c :: nat) < 128) (bs_csrf_token sample_browser_session)"
    "bs_csrf_token sample_browser_session \<noteq> []"
  using csrf_ascii [of "replicate 32 9"] new_session_csrf [of "replicate 32 9"]
  by (simp_all add: sample_browser_session_def) (simp add: new_session_def)

definition sample_status_form :: status_form where
  "sample_status_form = \<lparr>sf_csrf_token = Some (FormText (bs_csrf_token sample_browser_session)),
     sf_status = Some (FormText (ticket_status_value PROCESSING))\<rparr>"

lemma sample_detail_page:
  "\<exists>ctx messages st'. ticket_detail_page sample_ops (Some sample_browser_cookie) 40 sample_browser_store sample_ticket_db =
     (Inr (Page 200 (TicketDetailPage ctx (new_ticket 7 40 1 sample_request) messages (Some PROCESSING)) KeepCookie), st',
      sample_ticket_db) \<and> bc_session ctx = sample_browser_session \<and> bc_organization ctx = sample_organization"
proof -
  obtain ctx where ctx: "context_of sample_ops (Some sample_browser_cookie) sample_browser_store sample_ticket_db ctx"
      "bc_organization ctx = sample_organization" "bc_session ctx = sample_browser_session" using sample_context by blast
  have "o_id sample_organization = 1" by (simp add: sample_organization_def)
  then show ?thesis using resolve_context_complete [OF sample_ticket_db_ok ctx(1)] ctx(2,3)
    by (simp add: ticket_detail_page_def with_context_def get_ticket_detail_def del: One_nat_def)
qed

lemma offered_status_accepted_example:
  "\<exists>s'. ticket_status_submit (quiet_tx 8 50) sample_ops (Some sample_browser_cookie) 40 sample_status_form
     sample_browser_store sample_ticket_db =
     (Inr (Redirect (ticket_url 40) KeepCookie), snd (op_resolve sample_ops (Some sample_browser_cookie) sample_browser_store), s')"
proof -
  obtain ctx messages st' where d: "ticket_detail_page sample_ops (Some sample_browser_cookie) 40 sample_browser_store sample_ticket_db =
     (Inr (Page 200 (TicketDetailPage ctx (new_ticket 7 40 1 sample_request) messages (Some PROCESSING)) KeepCookie), st',
      sample_ticket_db)" "bc_session ctx = sample_browser_session" using sample_detail_page by blast
  have "sf_csrf_token sample_status_form = Some (FormText (bs_csrf_token (bc_session ctx)))"
      "sf_status sample_status_form = Some (FormText (ticket_status_value PROCESSING))"
    by (simp_all add: sample_status_form_def d(2))
  from offered_status_accepted [OF sample_ticket_db_ok d(1) _ _ this, of "quiet_tx 8 50"] sample_token show ?thesis
    by (auto simp: d(2))
qed

theorem browse_visits_every_ticket_witness:
  "\<exists>pages. browse (get_list_page sample_ops (Some sample_browser_cookie) sample_browser_store sample_ticket_db)
     (1, 0, None, None, None) = Some pages \<and> concat pages = [new_ticket 7 40 1 sample_request]"
proof -
  obtain ctx where ctx: "context_of sample_ops (Some sample_browser_cookie) sample_browser_store sample_ticket_db ctx"
      "bc_organization ctx = sample_organization" using sample_context by blast
  have "visible_tickets sample_ticket_db \<lparr>tq_organization = o_id (bc_organization ctx), tq_status = None,
      tq_source = None, tq_customer = None\<rparr> = [new_ticket 7 40 1 sample_request]"
    by (simp add: ctx(2) sample_organization_def visible_tickets_def ticket_filter_def order_by_desc_def new_ticket_def)
  with browse_visits_every_ticket [OF sample_ticket_db_ok ctx(1), of 1 None None None] show ?thesis by auto
qed

definition sample_ui_env :: ui_env where
  "sample_ui_env = \<lparr>ue_settings = sample_settings, ue_valid_email = Some, ue_trim = pg_trim,
     ue_passwords = \<lparr>pm_verify = (\<lambda>p h. h = CHR ''h'' # p), pm_dummy_hash = ''#''\<rparr>, ue_tx = quiet_tx 8 50, ue_message_id = 60\<rparr>"

theorem ui_changes_authorized_witness:
  "\<exists>ctx s'. context_of sample_ops (Some sample_browser_cookie) sample_browser_store sample_ticket_db ctx \<and>
     s' = snd (transition_ticket (quiet_tx 8 50) (o_id (bc_organization ctx)) 40 PROCESSING (u_id (bc_user ctx)) sample_ticket_db) \<and>
     s' \<noteq> sample_ticket_db"
proof -
  obtain ctx where ctx: "context_of sample_ops (Some sample_browser_cookie) sample_browser_store sample_ticket_db ctx"
      "bc_organization ctx = sample_organization" "bc_user ctx = sample_agent" "bc_session ctx = sample_browser_session"
    using sample_context by blast
  have o: "o_id sample_organization = 1" "u_id sample_agent = 11" by (simp_all add: sample_organization_def sample_agent_def)
  have form: "sf_csrf_token sample_status_form = Some (FormText (bs_csrf_token (bc_session ctx)))"
      "sf_status sample_status_form = Some (FormText (ticket_status_value PROCESSING))"
    by (simp_all add: sample_status_form_def ctx(4))
  have tk: "get_ticket 1 40 sample_ticket_db = Some (new_ticket 7 40 1 sample_request)" by (rule sample_ticket_facts(6))
  define s' where "s' = transitioned (quiet_tx 8 50) 1 40 11 OPEN PROCESSING sample_ticket_db"
  have "transition_ticket (quiet_tx 8 50) 1 40 PROCESSING 11 sample_ticket_db =
      (Inr ((new_ticket 7 40 1 sample_request)\<lparr>t_status := PROCESSING, t_updated_at := 8\<rparr>), s')"
    using transition_commits [OF tk, of PROCESSING "quiet_tx 8 50" 11] sample_ticket_db_ok
    by (simp add: s'_def del: One_nat_def)
  with status_submit_valid [OF sample_ticket_db_ok ctx(1) _ _ form, of "quiet_tx 8 50" 40] sample_token
  have run: "serve_ui sample_ui_env sample_ops (Some sample_browser_cookie) (PostStatus 40 sample_status_form)
      sample_browser_store sample_ticket_db = (Inr (Redirect (ticket_url 40) KeepCookie),
        snd (op_resolve sample_ops (Some sample_browser_cookie) sample_browser_store), s')"
    by (simp add: serve_ui_def sample_ui_env_def ctx(2-4) o status_outcome_def del: One_nat_def)
  have "get_ticket 1 40 s' \<noteq> get_ticket 1 40 sample_ticket_db"
  proof
    assume "get_ticket 1 40 s' = get_ticket 1 40 sample_ticket_db"
    then have "t_status ((new_ticket 7 40 1 sample_request)\<lparr>t_status := PROCESSING, t_updated_at := 8\<rparr>) =
        t_status (new_ticket 7 40 1 sample_request)"
      unfolding s'_def get_ticket_transitioned tk by simp
    then show False by (simp add: new_ticket_def)
  qed
  then have ne: "s' \<noteq> sample_ticket_db" by blast
  from ui_changes_authorized [OF run ne] obtain ctx' status where c: "context_of sample_ops (Some sample_browser_cookie)
      sample_browser_store sample_ticket_db ctx'" "parse_status (form_text (sf_status sample_status_form)) = Some status"
      "s' = snd (transition_ticket (ue_tx sample_ui_env) (o_id (bc_organization ctx')) 40 status (u_id (bc_user ctx'))
         sample_ticket_db)" by blast
  have "form_text (sf_status sample_status_form) = ticket_status_value PROCESSING"
    unfolding form(2) by (simp add: form_text_def)
  with c(2) have "status = PROCESSING" by (simp only: parse_values option.inject)
  moreover have "ue_tx sample_ui_env = quiet_tx 8 50" by (simp add: sample_ui_env_def)
  ultimately show ?thesis using c(1,3) ne by auto
qed

definition sample_login_form :: login_form where
  "sample_login_form = \<lparr>lf_csrf_token = Some (FormText (bs_csrf_token
       (new_session sample_session_config 5 (replicate 32 7) (replicate 32 9) None None))),
     lf_email = Some (FormText ''bob@acme.test''), lf_password = Some (FormText ''2''),
     lf_organization_slug = Some (FormText ''acme'')\<rparr>"

theorem ui_sign_in_works_witness:
  "\<exists>ck2 st2 page st3. ticket_list_page (redis_ops sample_hmac sample_codec sample_session_config 7 [] []) (Some ck2) 20 0
       None None None st2 sample_ticket_db = (Inr (Page 200 (TicketListPage page) KeepCookie), st3, sample_ticket_db) \<and>
     bc_user (tp_context page) = sample_agent"
proof -
  let ?pm = "ue_passwords sample_ui_env"
  have "sstrip ''acme'' = ''acme''" by (simp add: sstrip_def strip_by_def is_space_def)
  then have "OrganizationSlug ''acme'' = Some ''acme''"
    by (simp add: OrganizationSlug_def slug_pattern_def lower_s_def lower_char_def Let_def)
  then have parse: "parse_browser_login Some sample_login_form = Some (''bob@acme.test'', ''2'', ''acme'')"
    by (simp add: parse_browser_login_def sample_login_form_def form_text_def)
  have users: "users sample_ticket_db = users sample_db"
    by (simp add: sample_ticket_db_def ticket_rows_def)
  have low: "lower_s (sstrip ''bob@acme.test'') = ''bob@acme.test''"
    by (simp add: lower_s_def lower_char_def sstrip_def strip_by_def is_space_def)
  have auth: "fst (authenticate ?pm ''bob@acme.test'' ''2'' sample_ticket_db) = Inr sample_agent"
    by (simp add: authenticate_def users low sample_db_def sample_agent_def sample_ui_env_def)
  have t: "(5 :: int) \<le> 6" "(6 :: int) < 5 + sc_lifetime sample_session_config" "(6 :: int) \<le> 7"
      "(7 :: int) < 6 + sc_lifetime sample_session_config"
    by (simp_all add: sample_session_config_def seconds_def)
  have tok: "lf_csrf_token sample_login_form = Some (FormText (bs_csrf_token
      (new_session sample_session_config 5 (replicate 32 7) (replicate 32 9) None None)))" by (simp add: sample_login_form_def)
  from ui_sign_in_works [OF sample_session_env sample_ticket_db_ok _ _ _ _ t parse auth sample_ui_rows(3-5) tok,
      of "replicate 32 8" "replicate 32 6" sample_settings Map.empty "[]" "[]" 20 0 None None None]
  show ?thesis by auto
qed

end
