(* ===== verification/SF_Json.thy ===== *)
theory SF_Json
  imports SF_Extraction "HOL-Library.AList"
begin

text \<open>
  The JSON texts that the release tooling reads and writes: what \<open>json.loads\<close> and \<open>json.dumps\<close> of Python
  do with the documents the tooling uses.

  A text is its list of code points. \<open>PFloat\<close> holds a Python float; reading one from its text and
  printing it are the fields of \<open>floats\<close>. A dictionary is its list of items in insertion order.
  \<open>loads\<close> returns \<open>None\<close> for \<open>JSONDecodeError\<close>. The limits of the interpreter on the nesting depth and on
  the digits of an integer are left out.
\<close>

datatype 'f pyjson = PNull | PBool bool | PInt int | PFloat 'f | PStr ustr | PList "'f pyjson list"
  | PDict "(ustr \<times> 'f pyjson) list"

record 'f floats =
  fl_of_text :: "ustr \<Rightarrow> 'f"
    \<comment> \<open>\<open>float(text)\<close>, and the constants \<open>NaN\<close>, \<open>Infinity\<close> and \<open>-Infinity\<close>\<close>
  fl_text :: "'f \<Rightarrow> ustr"
    \<comment> \<open>\<open>float.__repr__\<close>, or the name of the constant\<close>
  fl_is_zero :: "'f \<Rightarrow> bool"

subsection \<open>Printing\<close>

definition hex_code :: "nat \<Rightarrow> nat" where
  "hex_code d = (if d < 10 then 48 + d else 87 + d)"

definition escape_unit :: "nat \<Rightarrow> ustr" where
  \<comment> \<open>\<open>'\\u{0:04x}'.format(n)\<close>\<close>
  "escape_unit n = [92, 117, hex_code (n div 4096 mod 16), hex_code (n div 256 mod 16), hex_code (n div 16 mod 16),
     hex_code (n mod 16)]"

definition escape_char :: "bool \<Rightarrow> nat \<Rightarrow> ustr" where
  "escape_char ascii c =
     (if c = 92 then [92, 92] else if c = 34 then [92, 34]
      else if c = 8 then [92, 98] else if c = 12 then [92, 102] else if c = 10 then [92, 110]
      else if c = 13 then [92, 114] else if c = 9 then [92, 116]
      else if c < 32 then escape_unit c
      else if \<not> ascii \<or> c < 127 then [c]
      else if c < 65536 then escape_unit c
      else escape_unit (55296 + (c - 65536) div 1024 mod 1024) @ escape_unit (56320 + (c - 65536) mod 1024))"

definition string_text :: "bool \<Rightarrow> ustr \<Rightarrow> ustr" where
  "string_text ascii w = 34 # concat (map (escape_char ascii) w) @ [34]"

fun nat_text :: "nat \<Rightarrow> ustr" where
  "nat_text n = (if n < 10 then [48 + n] else nat_text (n div 10) @ [48 + n mod 10])"

declare nat_text.simps [simp del]

definition int_text :: "int \<Rightarrow> ustr" where
  "int_text k = (if k < 0 then 45 # nat_text (nat (- k)) else nat_text (nat k))"

definition newline :: "nat \<Rightarrow> ustr" where
  \<comment> \<open>a line break and the indentation of a level, for \<open>indent=2\<close>\<close>
  "newline lvl = 10 # replicate (2 * lvl) 32"

fun sep_concat :: "ustr \<Rightarrow> ustr list \<Rightarrow> ustr" where
  "sep_concat sep [] = []"
| "sep_concat sep [w] = w"
| "sep_concat sep (w # v # ws) = w @ sep @ sep_concat sep (v # ws)"

fun value_text :: "'f floats \<Rightarrow> bool \<Rightarrow> nat \<Rightarrow> 'f pyjson \<Rightarrow> ustr" where
  "value_text fl ascii lvl PNull = u ''null''"
| "value_text fl ascii lvl (PBool b) = (if b then u ''true'' else u ''false'')"
| "value_text fl ascii lvl (PInt k) = int_text k"
| "value_text fl ascii lvl (PFloat x) = fl_text fl x"
| "value_text fl ascii lvl (PStr w) = string_text ascii w"
| "value_text fl ascii lvl (PList vs) =
     (if vs = [] then u ''[]''
      else 91 # newline (Suc lvl) @ sep_concat (44 # newline (Suc lvl)) (map (value_text fl ascii (Suc lvl)) vs) @
           newline lvl @ [93])"
| "value_text fl ascii lvl (PDict kvs) =
     (if kvs = [] then u ''{}''
      else 123 # newline (Suc lvl) @
           sep_concat (44 # newline (Suc lvl))
             (map (\<lambda>(k, v). string_text ascii k @ 58 # 32 # value_text fl ascii (Suc lvl) v) kvs) @
           newline lvl @ [125])"

definition dumps :: "'f floats \<Rightarrow> bool \<Rightarrow> 'f pyjson \<Rightarrow> ustr" where
  \<comment> \<open>\<open>json.dumps(value, ensure_ascii=ascii, indent=2)\<close>\<close>
  "dumps fl ascii v = value_text fl ascii 0 v"

subsection \<open>Reading\<close>

definition json_space :: "nat \<Rightarrow> bool" where
  "json_space c \<longleftrightarrow> c \<in> {32, 9, 10, 13}"

definition skip_ws :: "ustr \<Rightarrow> ustr" where
  "skip_ws s = dropWhile json_space s"

definition hex_digit_value :: "nat \<Rightarrow> nat option" where
  "hex_digit_value c = (if 48 \<le> c \<and> c \<le> 57 then Some (c - 48) else if 97 \<le> c \<and> c \<le> 102 then Some (c - 87)
     else if 65 \<le> c \<and> c \<le> 70 then Some (c - 55) else None)"

fun read_unit :: "ustr \<Rightarrow> (nat \<times> ustr) option" where
  \<comment> \<open>four hexadecimal digits\<close>
  "read_unit (a # b # c # d # s) =
     (case (hex_digit_value a, hex_digit_value b, hex_digit_value c, hex_digit_value d) of
        (Some x, Some y, Some z, Some w) \<Rightarrow> Some (4096 * x + 256 * y + 16 * z + w, s)
      | _ \<Rightarrow> None)"
| "read_unit s = None"

definition read_escape :: "ustr \<Rightarrow> (nat \<times> ustr) option" where
  \<comment> \<open>what follows a backslash\<close>
  "read_escape s = (case s of [] \<Rightarrow> None | c # r \<Rightarrow>
     if c = 34 \<or> c = 92 \<or> c = 47 then Some (c, r)
     else if c = 98 then Some (8, r) else if c = 102 then Some (12, r) else if c = 110 then Some (10, r)
     else if c = 114 then Some (13, r) else if c = 116 then Some (9, r)
     else if c = 117 then
       (case read_unit r of None \<Rightarrow> None
        | Some (n, r1) \<Rightarrow>
            if 55296 \<le> n \<and> n \<le> 56319 \<and> take 2 r1 = [92, 117] then
              (case read_unit (drop 2 r1) of None \<Rightarrow> None
               | Some (n2, r2) \<Rightarrow>
                   if 56320 \<le> n2 \<and> n2 \<le> 57343
                   then Some (65536 + (n - 55296) * 1024 + (n2 - 56320), r2) else Some (n, r1))
            else Some (n, r1))
     else None)"

lemma read_unit_shorter: "read_unit s = Some (n, r) \<Longrightarrow> length r < length s"
  by (cases s rule: read_unit.cases) (auto split: option.splits)

lemma read_escape_shorter: "read_escape s = Some (n, r) \<Longrightarrow> length r < length s"
  by (auto simp: read_escape_def dest!: read_unit_shorter split: list.splits if_splits option.splits)

function scan_string :: "ustr \<Rightarrow> (ustr \<times> ustr) option" where
  \<comment> \<open>the text up to the closing quote, and what follows it\<close>
  "scan_string [] = None"
| "scan_string (c # s) =
     (if c = 34 then Some ([], s)
      else if c < 32 then None
      else if c = 92 then
        (case read_escape s of None \<Rightarrow> None
         | Some (d, r) \<Rightarrow> map_option (\<lambda>(w, t). (d # w, t)) (scan_string r))
      else map_option (\<lambda>(w, t). (c # w, t)) (scan_string s))"
  by pat_completeness auto

termination
  by (relation "measure length") (auto dest: read_escape_shorter)

lemma scan_string_shorter: "scan_string s = Some (w, r) \<Longrightarrow> length r < length s"
proof (induction s arbitrary: w r rule: scan_string.induct)
  case (2 c s)
  then show ?case
    by (fastforce dest: read_escape_shorter split: if_splits option.splits)
qed simp

definition is_digit :: "nat \<Rightarrow> bool" where
  "is_digit c \<longleftrightarrow> 48 \<le> c \<and> c \<le> 57"

definition digits_value :: "ustr \<Rightarrow> nat" where
  "digits_value ds = foldl (\<lambda>a d. 10 * a + (d - 48)) 0 ds"

definition span_digits :: "ustr \<Rightarrow> ustr \<times> ustr" where
  "span_digits s = (takeWhile is_digit s, dropWhile is_digit s)"

definition read_fraction :: "ustr \<Rightarrow> ustr \<times> ustr" where
  \<comment> \<open>\<open>(\.[0-9]+)?\<close>\<close>
  "read_fraction s = (case s of
     c # r \<Rightarrow> let (ds, t) = span_digits r in if c = 46 \<and> ds \<noteq> [] then (c # ds, t) else ([], s)
   | [] \<Rightarrow> ([], s))"

definition exponent_sign :: "ustr \<Rightarrow> ustr" where
  "exponent_sign s = (if take 1 s = [43] \<or> take 1 s = [45] then take 1 s else [])"

definition read_exponent :: "ustr \<Rightarrow> ustr \<times> ustr" where
  \<comment> \<open>\<open>([eE][-+]?[0-9]+)?\<close>\<close>
  "read_exponent s = (case s of
     c # r \<Rightarrow>
       let (ds, t) = span_digits (drop (length (exponent_sign r)) r)
       in if (c = 101 \<or> c = 69) \<and> ds \<noteq> [] then (c # exponent_sign r @ ds, t) else ([], s)
   | [] \<Rightarrow> ([], s))"

definition read_integer :: "ustr \<Rightarrow> (ustr \<times> ustr) option" where
  \<comment> \<open>\<open>-?(?:0|[1-9][0-9]*)\<close>\<close>
  "read_integer s =
     (let sign = (if take 1 s = [45] then [45] else []) in
      case drop (length sign) s of
        [] \<Rightarrow> None
      | d # r \<Rightarrow>
          if d = 48 then Some (sign @ [48], r)
          else if is_digit d then Some (sign @ d # fst (span_digits r), snd (span_digits r))
          else None)"

definition int_of_text :: "ustr \<Rightarrow> int" where
  "int_of_text w = (if take 1 w = [45] then - int (digits_value (tl w)) else int (digits_value w))"

definition read_number :: "'f floats \<Rightarrow> ustr \<Rightarrow> ('f pyjson \<times> ustr) option" where
  "read_number fl s =
     (case read_integer s of None \<Rightarrow> None
      | Some (i, r) \<Rightarrow>
          let (f, r1) = read_fraction r; (e, r2) = read_exponent r1 in
          if f = [] \<and> e = [] then Some (PInt (int_of_text i), r2)
          else Some (PFloat (fl_of_text fl (i @ f @ e)), r2))"

definition starts :: "string \<Rightarrow> ustr \<Rightarrow> bool" where
  "starts w s \<longleftrightarrow> take (length w) s = u w"

definition read_atom :: "'f floats \<Rightarrow> ustr \<Rightarrow> ('f pyjson \<times> ustr) option" where
  "read_atom fl s =
     (if starts ''null'' s then Some (PNull, drop 4 s)
      else if starts ''true'' s then Some (PBool True, drop 4 s)
      else if starts ''false'' s then Some (PBool False, drop 5 s)
      else if starts ''NaN'' s then Some (PFloat (fl_of_text fl (u ''NaN'')), drop 3 s)
      else if starts ''Infinity'' s then Some (PFloat (fl_of_text fl (u ''Infinity'')), drop 8 s)
      else if starts ''-Infinity'' s then Some (PFloat (fl_of_text fl (u ''-Infinity'')), drop 9 s)
      else read_number fl s)"

fun dict_of :: "(ustr \<times> 'v) list \<Rightarrow> (ustr \<times> 'v) list \<Rightarrow> (ustr \<times> 'v) list" where
  \<comment> \<open>\<open>dict(pairs)\<close> added to a dictionary: a repeated key keeps its place and takes the new value\<close>
  "dict_of acc [] = acc"
| "dict_of acc ((k, v) # kvs) = dict_of (AList.update k v acc) kvs"

datatype 'f json_goal = GValue | GElements "'f pyjson list" | GMembers "(ustr \<times> 'f pyjson) list"
  \<comment> \<open>what \<open>JSONDecoder\<close> reads next: a value, or the rest of an array or object after these items\<close>

function (domintros) parse :: "'f floats \<Rightarrow> 'f json_goal \<Rightarrow> ustr \<Rightarrow> ('f pyjson \<times> ustr) option" where
  "parse fl GValue s = (case s of [] \<Rightarrow> None | c # r \<Rightarrow>
     if c = 34 then map_option (\<lambda>(w, t). (PStr w, t)) (scan_string r)
     else if c = 123 then
       (if take 1 (skip_ws r) = [125] then Some (PDict [], tl (skip_ws r)) else parse fl (GMembers []) (skip_ws r))
     else if c = 91 then
       (if take 1 (skip_ws r) = [93] then Some (PList [], tl (skip_ws r)) else parse fl (GElements []) (skip_ws r))
     else read_atom fl s)"
| "parse fl (GElements vs) s =
     (case parse fl GValue s of None \<Rightarrow> None
      | Some (v, r) \<Rightarrow>
          (case skip_ws r of [] \<Rightarrow> None | d # t \<Rightarrow>
             if d = 93 then Some (PList (vs @ [v]), t)
             else if d = 44 then parse fl (GElements (vs @ [v])) (skip_ws t)
             else None))"
| "parse fl (GMembers kvs) s =
     (if take 1 s \<noteq> [34] then None else
      case scan_string (tl s) of None \<Rightarrow> None
      | Some (k, r) \<Rightarrow>
          if take 1 (skip_ws r) \<noteq> [58] then None else
          (case parse fl GValue (skip_ws (tl (skip_ws r))) of None \<Rightarrow> None
           | Some (v, r2) \<Rightarrow>
               (case skip_ws r2 of [] \<Rightarrow> None | d # t \<Rightarrow>
                  if d = 125 then Some (PDict (dict_of [] (kvs @ [(k, v)])), t)
                  else if d = 44 then parse fl (GMembers (kvs @ [(k, v)])) (skip_ws t)
                  else None)))"
  by pat_completeness auto

lemma length_skip_ws: "length (skip_ws s) \<le> length s"
  by (simp add: skip_ws_def length_dropWhile_le)

lemma span_digits_length: "span_digits s = (ds, t) \<Longrightarrow> length t \<le> length s"
  by (auto simp: span_digits_def length_dropWhile_le)

lemma read_fraction_length: "read_fraction s = (f, r) \<Longrightarrow> length r \<le> length s"
  by (auto simp: read_fraction_def Let_def dest: span_digits_length split: list.splits prod.splits if_splits)

lemma read_exponent_length: "read_exponent s = (e, r) \<Longrightarrow> length r \<le> length s"
  by (auto simp: read_exponent_def Let_def dest: span_digits_length split: list.splits prod.splits if_splits)

lemma read_integer_shorter: "read_integer s = Some (i, r) \<Longrightarrow> length r < length s"
proof -
  assume a: "read_integer s = Some (i, r)"
  define t where "t = (if take 1 s = [45] then drop 1 s else s)"
  have t: "length t \<le> length s" by (simp add: t_def)
  from a obtain d q where q: "t = d # q" and r: "r = q \<or> r = snd (span_digits q)"
    by (auto simp: read_integer_def t_def Let_def split: list.splits if_splits)
  have "length r \<le> length q" using r span_digits_length [of q] by (auto simp: span_digits_def length_dropWhile_le)
  then show ?thesis using t q by simp
qed

lemma read_number_shorter: "read_number fl s = Some (v, r) \<Longrightarrow> length r < length s"
  by (auto simp: read_number_def Let_def split: option.splits prod.splits if_splits
      dest!: read_integer_shorter read_fraction_length read_exponent_length)

lemma starts_length: "starts w s \<Longrightarrow> length w \<le> length s"
  by (auto simp: starts_def u_def dest: arg_cong [of _ _ length])

lemma read_atom_shorter: "read_atom fl s = Some (v, r) \<Longrightarrow> length r < length s"
  by (auto simp: read_atom_def dest: starts_length read_number_shorter split: if_splits)

lemma parse_shorter_dom:
  "parse_dom (fl, g, s) \<Longrightarrow> parse fl g s = Some (v, r) \<Longrightarrow> length r < length s"
proof (induction fl g s arbitrary: v r rule: parse.pinduct)
  case (1 fl s)
  then obtain c t where s: "s = c # t" by (cases s) (auto simp: parse.psimps)
  have tl: "length (tl (skip_ws t)) \<le> length t" using length_skip_ws [of t] by simp
  from 1 s show ?case
    using length_skip_ws [of t] tl
    by (auto simp: parse.psimps dest!: scan_string_shorter read_atom_shorter split: if_splits)
      (meson "1.IH" le_less_trans less_SucI less_le_trans order_less_imp_le)+
next
  case (2 fl vs s)
  from 2(1,4) obtain x t where x: "parse fl GValue s = Some (x, t)" by (auto simp: parse.psimps split: option.splits)
  then have xt: "length t < length s" by (rule 2(2))
  from 2(1,4) x obtain d q where q: "skip_ws t = d # q" by (auto simp: parse.psimps split: list.splits)
  then have ql: "length q < length t" using length_skip_ws [of t] by simp
  show ?case
  proof (cases "d = 93")
    case True
    then show ?thesis using 2(1,4) x q xt ql by (auto simp: parse.psimps)
  next
    case False
    then have "d = 44" and n: "parse fl (GElements (vs @ [x])) (skip_ws q) = Some (v, r)"
      using 2(1,4) x q by (auto simp: parse.psimps split: if_splits)
    have "length r < length (skip_ws q)"
      using 2(3) [OF x refl q False \<open>d = 44\<close> n] .
    then show ?thesis using length_skip_ws [of q] xt ql by simp
  qed
next
  case (3 fl kvs s)
  from 3(1,4) have q: "take 1 s = [34]" by (auto simp: parse.psimps split: if_splits)
  with 3(1,4) obtain k t where k: "scan_string (tl s) = Some (k, t)" by (auto simp: parse.psimps split: option.splits)
  with 3(1,4) q have c: "take 1 (skip_ws t) = [58]" by (auto simp: parse.psimps split: if_splits)
  let ?s1 = "skip_ws (tl (skip_ws t))"
  have "length (tl s) \<le> length s" by simp
  then have s1: "length ?s1 < length s"
    using scan_string_shorter [OF k] length_skip_ws [of t] length_skip_ws [of "tl (skip_ws t)"] by simp
  from 3(1,4) q k c obtain x t2 where x: "parse fl GValue ?s1 = Some (x, t2)"
    by (auto simp: parse.psimps split: option.splits)
  then have xt: "length t2 < length ?s1" using 3(2) q k c by auto
  from 3(1,4) q k c x obtain d w where w: "skip_ws t2 = d # w" by (auto simp: parse.psimps split: list.splits)
  then have wl: "length w < length t2" using length_skip_ws [of t2] by simp
  show ?case
  proof (cases "d = 125")
    case True
    then show ?thesis using 3(1,4) q k c x w wl xt s1 by (auto simp: parse.psimps)
  next
    case False
    then have "d = 44" and n: "parse fl (GMembers (kvs @ [(k, x)])) (skip_ws w) = Some (v, r)"
      using 3(1,4) q k c x w by (auto simp: parse.psimps split: if_splits)
    have "length r < length (skip_ws w)" using 3(3) q k c x w False \<open>d = 44\<close> n by auto
    then show ?thesis using length_skip_ws [of w] xt wl s1 by simp
  qed
qed

lemma skip_ws_Cons: "skip_ws s = c # t \<Longrightarrow> length t < length s"
  using length_skip_ws [of s] by simp

lemma scan_member_length:
  assumes "scan_string (tl s) = Some (k, t)" "take (Suc 0) s = [34]"
  shows "length (skip_ws (tl (skip_ws t))) < length s"
proof -
  have "length (tl (skip_ws t)) \<le> length t" using length_skip_ws [of t] by simp
  moreover have "length (tl s) \<le> length s" by simp
  ultimately show ?thesis
    using scan_string_shorter [OF assms(1)] length_skip_ws [of "tl (skip_ws t)"] by linarith
qed

lemma parse_item_length:
  assumes "parse_dom (fl, GValue, s)" "parse fl GValue s = Some (x, r)" "skip_ws r = c # t"
  shows "length (skip_ws t) < length s"
  using parse_shorter_dom [OF assms(1,2)] skip_ws_Cons [OF assms(3)] length_skip_ws [of t] by linarith

termination parse
  by (relation "measures [\<lambda>(fl, g, s). length s, \<lambda>(fl, g, s). case g of GValue \<Rightarrow> 0 | _ \<Rightarrow> (1 :: nat)]")
    (auto simp: length_skip_ws le_imp_less_Suc scan_member_length
       intro: parse_item_length less_trans [OF parse_item_length scan_member_length])

declare parse.simps [simp del]

definition loads :: "'f floats \<Rightarrow> ustr \<Rightarrow> 'f pyjson option" where
  \<comment> \<open>\<open>json.loads(text)\<close>\<close>
  "loads fl s =
     (if take 1 s = [65279] then None
      else case parse fl GValue (skip_ws s) of
        None \<Rightarrow> None
      | Some (v, r) \<Rightarrow> if skip_ws r = [] then Some v else None)"

subsection \<open>Reading back what was printed\<close>

lemma hex_digit_value_code: "d < 16 \<Longrightarrow> hex_digit_value (hex_code d) = Some d"
  by (auto simp: hex_digit_value_def hex_code_def)

lemma four_hex:
  assumes "n < 65536"
  shows "4096 * (n div 4096 mod 16) + 256 * (n div 256 mod 16) + 16 * (n div 16 mod 16) + n mod 16 = (n :: nat)"
proof -
  have "n div 4096 mod 16 = n div 4096" using assms by simp
  moreover have "n div 256 = 16 * (n div 4096) + n div 256 mod 16"
    using mult_div_mod_eq [of 16 "n div 256"] by (simp add: div_mult2_eq [symmetric])
  moreover have "n div 16 = 16 * (n div 256) + n div 16 mod 16"
    using mult_div_mod_eq [of 16 "n div 16"] by (simp add: div_mult2_eq [symmetric])
  moreover have "n = 16 * (n div 16) + n mod 16" by simp
  ultimately show ?thesis by linarith
qed

lemma read_unit_escape: "n < 65536 \<Longrightarrow> read_unit (drop 2 (escape_unit n) @ s) = Some (n, s)"
  using four_hex [of n] by (simp add: escape_unit_def hex_digit_value_code del: mod_less)

lemma scan_escaped: "read_escape (x @ s) = Some (c, s) \<Longrightarrow>
  scan_string (92 # x @ s) = map_option (\<lambda>(w, t). (c # w, t)) (scan_string s)"
  by simp

lemma escape_unit_prefix: "escape_unit n = 92 # 117 # drop 2 (escape_unit n)"
  by (simp add: escape_unit_def)

lemma read_escape_unit:
  assumes "n < 65536" "\<not> (55296 \<le> n \<and> n \<le> 56319)"
  shows "read_escape (tl (escape_unit n) @ s) = Some (n, s)"
proof -
  have "tl (escape_unit n) @ s = 117 # drop 2 (escape_unit n) @ s" by (simp add: escape_unit_def)
  then show ?thesis using assms read_unit_escape [of n s] by (auto simp: read_escape_def)
qed

lemma read_escape_pair:
  assumes "a < 1024" "b < 1024"
  shows "read_escape (tl (escape_unit (55296 + a)) @ escape_unit (56320 + b) @ s) = Some (65536 + a * 1024 + b, s)"
proof -
  let ?h = "drop 2 (escape_unit (55296 + a))" and ?l = "drop 2 (escape_unit (56320 + b))"
  have e: "tl (escape_unit (55296 + a)) @ escape_unit (56320 + b) @ s = 117 # ?h @ 92 # 117 # ?l @ s"
    by (simp add: escape_unit_def)
  have "read_unit (?h @ r) = Some (55296 + a, r)" for r using assms by (intro read_unit_escape) simp
  moreover have "read_unit (?l @ s) = Some (56320 + b, s)" using assms by (intro read_unit_escape) simp
  ultimately show ?thesis unfolding e using assms by (simp add: read_escape_def)
qed

lemma scan_escape_char:
  assumes "ascii \<longrightarrow> scalar_value c"
  shows "scan_string (escape_char ascii c @ s) = map_option (\<lambda>(w, t). (c # w, t)) (scan_string s)"
proof -
  have unit: "scan_string (escape_unit n @ s) = map_option (\<lambda>(w, t). (n # w, t)) (scan_string s)"
    if "n < 65536" "\<not> (55296 \<le> n \<and> n \<le> 56319)" for n
    using scan_escaped [OF read_escape_unit [OF that]] by (simp add: escape_unit_def)
  consider (named) "c \<in> {92, 34, 8, 12, 10, 13, 9}" | (control) "c \<notin> {92, 34, 8, 12, 10, 13, 9}" "c < 32"
    | (plain) "c \<notin> {92, 34}" "32 \<le> c" "\<not> ascii \<or> c < 127"
    | (bmp) "c \<notin> {92, 34}" "ascii" "127 \<le> c" "c < 65536"
    | (pair) "c \<notin> {92, 34}" "ascii" "65536 \<le> c" by fastforce
  then show ?thesis
  proof cases
    case named
    then show ?thesis by (auto simp: escape_char_def read_escape_def)
  next
    case control
    then have "escape_char ascii c = escape_unit c" by (simp add: escape_char_def)
    with control show ?thesis by (simp add: unit)
  next
    case plain
    then show ?thesis by (auto simp: escape_char_def)
  next
    case bmp
    then have "escape_char ascii c = escape_unit c" by (simp add: escape_char_def)
    moreover have "\<not> (55296 \<le> c \<and> c \<le> 56319)" using bmp assms by (auto simp: scalar_value_def)
    ultimately show ?thesis using bmp by (simp add: unit)
  next
    case pair
    let ?a = "(c - 65536) div 1024" and ?b = "(c - 65536) mod 1024"
    have c: "c < 1114112" using pair assms by (simp add: scalar_value_def)
    then have a: "?a < 1024" by (auto simp: less_mult_imp_div_less)
    have e: "escape_char ascii c = escape_unit (55296 + ?a) @ escape_unit (56320 + ?b)"
      using pair a by (simp add: escape_char_def)
    have "65536 + ?a * 1024 + ?b = c" using pair by simp
    with read_escape_pair [OF a, of ?b s]
    have "read_escape ((tl (escape_unit (55296 + ?a)) @ escape_unit (56320 + ?b)) @ s) = Some (c, s)" by simp
    moreover have "escape_unit (55296 + ?a) = 92 # tl (escape_unit (55296 + ?a))" by (simp add: escape_unit_def)
    ultimately show ?thesis using scan_escaped unfolding e by (metis append_Cons append_assoc)
  qed
qed

lemma scan_string_text:
  assumes "ascii \<Longrightarrow> list_all scalar_value w"
  shows "scan_string (concat (map (escape_char ascii) w) @ 34 # s) = Some (w, s)"
  using assms by (induction w) (simp_all add: scan_escape_char del: scan_string.simps, simp)

lemma nat_text_small: "n < 10 \<Longrightarrow> nat_text n = [48 + n]"
  by (simp add: nat_text.simps)

lemma nat_text_large: "\<not> n < 10 \<Longrightarrow> nat_text n = nat_text (n div 10) @ [48 + n mod 10]"
  by (subst nat_text.simps) simp

lemma nat_text_digits: "list_all is_digit (nat_text n) \<and> nat_text n \<noteq> []"
proof (induction n rule: nat_text.induct)
  case (1 n)
  show ?case
  proof (cases "n < 10")
    case False
    then show ?thesis using 1 nat_text_large [OF False] by (simp add: is_digit_def)
  qed (simp add: nat_text_small is_digit_def)
qed

lemma nat_text_value: "digits_value (nat_text n) = n"
proof (induction n rule: nat_text.induct)
  case (1 n)
  show ?case
  proof (cases "n < 10")
    case False
    then show ?thesis using 1 nat_text_large [OF False] by (simp add: digits_value_def)
  qed (simp add: nat_text_small digits_value_def)
qed

lemma nat_text_head: "n \<noteq> 0 \<Longrightarrow> hd (nat_text n) \<noteq> 48"
proof (induction n rule: nat_text.induct)
  case (1 n)
  show ?case
  proof (cases "n < 10")
    case False
    then have "hd (nat_text (n div 10)) \<noteq> 48" using 1(1) by simp
    then show ?thesis using nat_text_large [OF False] nat_text_digits [of "n div 10"] by simp
  qed (use 1(2) in \<open>simp add: nat_text_small\<close>)
qed

definition closed :: "ustr \<Rightarrow> bool" where
  \<comment> \<open>what follows a printed value: nothing, a comma or a line break\<close>
  "closed s \<longleftrightarrow> s = [] \<or> hd s = 44 \<or> hd s = 10"

lemma span_digits_append:
  "list_all is_digit ds \<Longrightarrow> s = [] \<or> \<not> is_digit (hd s) \<Longrightarrow> span_digits (ds @ s) = (ds, s)"
  by (cases s) (auto simp: span_digits_def takeWhile_append dropWhile_append list_all_iff takeWhile_eq_all_conv)

lemma read_integer_nat:
  assumes "s = [] \<or> \<not> is_digit (hd s)"
  shows "read_integer (nat_text n @ s) = Some (nat_text n, s)"
    and "0 < n \<Longrightarrow> read_integer (45 # nat_text n @ s) = Some (45 # nat_text n, s)"
proof -
  obtain d ds where t: "nat_text n = d # ds" using nat_text_digits [of n] by (cases "nat_text n") auto
  have d: "is_digit d" "list_all is_digit ds" using nat_text_digits [of n] t by auto
  have z: "n = 0 \<Longrightarrow> d = 48 \<and> ds = []" using t by (simp add: nat_text_small)
  have nz: "n \<noteq> 0 \<Longrightarrow> d \<noteq> 48" using nat_text_head [of n] t by simp
  have "d \<noteq> 45" using d by (auto simp: is_digit_def)
  then show "read_integer (nat_text n @ s) = Some (nat_text n, s)"
    unfolding t using z nz d assms by (cases "n = 0") (auto simp: read_integer_def span_digits_append)
  show "0 < n \<Longrightarrow> read_integer (45 # nat_text n @ s) = Some (45 # nat_text n, s)"
    unfolding t using nz d assms by (auto simp: read_integer_def span_digits_append)
qed

lemma closed_no_digit: "closed s \<Longrightarrow> s = [] \<or> \<not> is_digit (hd s)"
  by (auto simp: closed_def is_digit_def)

lemma read_integer_int: "closed s \<Longrightarrow> read_integer (int_text k @ s) = Some (int_text k, s)"
  using read_integer_nat [OF closed_no_digit] by (simp add: int_text_def)

lemma int_of_int_text: "int_of_text (int_text k) = k"
proof (cases "k < 0")
  case False
  obtain d ds where t: "nat_text (nat k) = d # ds" using nat_text_digits [of "nat k"] by (cases "nat_text (nat k)") auto
  with nat_text_digits [of "nat k"] have "d \<noteq> 45" by (auto simp: is_digit_def)
  with t have "take 1 (nat_text (nat k)) \<noteq> [45]" by simp
  then show ?thesis using False by (simp add: int_text_def int_of_text_def nat_text_value)
qed (simp add: int_text_def int_of_text_def nat_text_value)

lemma closed_no_more: "closed s \<Longrightarrow> read_fraction s = ([], s)" "closed s \<Longrightarrow> read_exponent s = ([], s)"
  by (cases s; auto simp: closed_def read_fraction_def read_exponent_def Let_def split: prod.splits)+

lemma read_number_int: "closed s \<Longrightarrow> read_number fl (int_text k @ s) = Some (PInt k, s)"
  by (simp add: read_number_def read_integer_int closed_no_more int_of_int_text)

definition float_token :: "ustr \<Rightarrow> bool" where
  \<comment> \<open>a number with a fraction or an exponent\<close>
  "float_token w \<longleftrightarrow> (case read_integer w of None \<Rightarrow> False
     | Some (i, r) \<Rightarrow> let (f, r1) = read_fraction r; (e, r2) = read_exponent r1 in r2 = [] \<and> (f \<noteq> [] \<or> e \<noteq> []))"

definition floats_ok :: "'f floats \<Rightarrow> bool" where
  \<comment> \<open>\<open>repr\<close> of a float is an ASCII text, a JSON number or a constant, and reads back as the same float\<close>
  "floats_ok fl \<longleftrightarrow> (\<forall>x. fl_of_text fl (fl_text fl x) = x \<and> list_all (\<lambda>c. c < 128) (fl_text fl x) \<and>
     (fl_text fl x \<in> {u ''NaN'', u ''Infinity'', u ''-Infinity''} \<or> float_token (fl_text fl x)))"

lemma span_digits_closed:
  assumes "closed s" "span_digits w = (ds, t)"
  shows "span_digits (w @ s) = (ds, t @ s)"
  using assms closed_no_digit [OF assms(1)]
  by (induction w arbitrary: ds t) (cases s; auto simp: span_digits_def split: if_splits)+

lemma read_fraction_closed:
  assumes "closed s" "read_fraction w = (f, r)"
  shows "read_fraction (w @ s) = (f, r @ s)"
proof (cases w)
  case Nil
  with assms(2) have "f = []" "r = []" by (auto simp: read_fraction_def)
  with Nil closed_no_more(1) [OF assms(1)] show ?thesis by simp
next
  case (Cons c w')
  obtain ds t where "span_digits w' = (ds, t)" by fastforce
  with assms Cons span_digits_closed [OF assms(1)] show ?thesis
    by (auto simp: read_fraction_def Let_def split: if_splits)
qed

lemma read_exponent_closed:
  assumes "closed s" "read_exponent w = (e, r)"
  shows "read_exponent (w @ s) = (e, r @ s)"
proof (cases w)
  case Nil
  with assms(2) have "e = []" "r = []" by (auto simp: read_exponent_def)
  with Nil closed_no_more(2) [OF assms(1)] show ?thesis by simp
next
  case (Cons c w')
  show ?thesis
  proof (cases "w' = []")
    case True
    moreover have "span_digits (drop (length (exponent_sign s)) s) = ([], s)"
      using assms(1) by (cases s) (auto simp: closed_def exponent_sign_def span_digits_def is_digit_def)
    moreover have "span_digits (drop (length (exponent_sign [])) []) = ([], [])"
      by (simp add: span_digits_def)
    ultimately show ?thesis using assms(2) Cons by (auto simp: read_exponent_def split: if_splits)
  next
    case False
    then have l: "length (exponent_sign w') \<le> length w'" "exponent_sign (w' @ s) = exponent_sign w'"
      by (cases w'; simp add: exponent_sign_def)+
    obtain ds t where "span_digits (drop (length (exponent_sign w')) w') = (ds, t)" by fastforce
    with assms Cons span_digits_closed [OF assms(1)] l show ?thesis
      by (auto simp: read_exponent_def Let_def split: if_splits)
  qed
qed

lemma read_integer_cases:
  assumes "read_integer w = Some (i, r)"
  obtains d q where "w = 45 # d # q" | d q where "w = d # q" "d \<noteq> 45"
proof (cases w)
  case (Cons a w')
  with assms that show ?thesis by (cases "a = 45"; cases w') (auto simp: read_integer_def)
qed (use assms in \<open>simp add: read_integer_def\<close>)

lemma read_integer_closed:
  assumes "closed s" "read_integer w = Some (i, r)"
  shows "read_integer (w @ s) = Some (i, r @ s)"
  using assms(2)
proof (rule read_integer_cases)
  fix d q assume "w = 45 # d # q"
  then show ?thesis using assms(2) span_digits_closed [OF assms(1), of q]
    by (cases "span_digits q") (auto simp: read_integer_def Let_def split: if_splits)
next
  fix d q assume "w = d # q" "d \<noteq> 45"
  then show ?thesis using assms(2) span_digits_closed [OF assms(1), of q]
    by (cases "span_digits q") (auto simp: read_integer_def Let_def split: if_splits)
qed

lemma span_digits_parts: "fst (span_digits s) @ snd (span_digits s) = s"
  by (simp add: span_digits_def)

lemma read_integer_parts: "read_integer w = Some (i, r) \<Longrightarrow> w = i @ r"
  using span_digits_parts [of "tl w"] span_digits_parts [of "tl (tl w)"]
  by (cases w; cases "tl w") (auto simp: read_integer_def Let_def split: if_splits)

lemma read_fraction_parts: "read_fraction w = (f, r) \<Longrightarrow> w = f @ r"
  by (cases w) (auto simp: read_fraction_def span_digits_def Let_def split: if_splits)

lemma read_exponent_parts: "read_exponent w = (e, r) \<Longrightarrow> w = e @ r"
proof (cases w)
  case (Cons c w')
  assume a: "read_exponent w = (e, r)"
  have "exponent_sign w' @ drop (length (exponent_sign w')) w' = w'"
    by (cases w') (auto simp: exponent_sign_def)
  then show ?thesis using a Cons span_digits_parts [of "drop (length (exponent_sign w')) w'"]
    by (cases "span_digits (drop (length (exponent_sign w')) w')") (auto simp: read_exponent_def split: if_splits)
qed (simp add: read_exponent_def)

lemma read_number_float:
  assumes "closed s" "float_token w"
  shows "read_number fl (w @ s) = Some (PFloat (fl_of_text fl w), s)"
proof -
  from assms(2) obtain i r f r1 e where w: "read_integer w = Some (i, r)" "read_fraction r = (f, r1)"
      "read_exponent r1 = (e, [])" "f \<noteq> [] \<or> e \<noteq> []"
    by (auto simp: float_token_def split: option.splits prod.splits)
  have eq: "w = i @ f @ e"
    using read_integer_parts [OF w(1)] read_fraction_parts [OF w(2)] read_exponent_parts [OF w(3)] by simp
  have r: "read_integer (w @ s) = Some (i, r @ s)" "read_fraction (r @ s) = (f, r1 @ s)"
      "read_exponent (r1 @ s) = (e, s)"
    using read_integer_closed [OF assms(1) w(1)] read_fraction_closed [OF assms(1) w(2)]
      read_exponent_closed [OF assms(1) w(3)] by simp_all
  show ?thesis unfolding read_number_def r(1) using w(4) by (simp add: r(2,3) eq)
qed

lemma read_integer_head: "read_integer w = Some (i, r) \<Longrightarrow> \<not> starts ''-Infinity'' w \<and> w \<noteq> [] \<and> (hd w = 45 \<or> is_digit (hd w))"
proof (rule read_integer_cases, assumption)
  fix d q assume "read_integer w = Some (i, r)" "w = 45 # d # q"
  then show ?thesis by (auto simp: read_integer_def Let_def is_digit_def starts_def u_def split: if_splits)
next
  fix d q assume "read_integer w = Some (i, r)" "w = d # q" "d \<noteq> 45"
  then show ?thesis by (auto simp: read_integer_def Let_def is_digit_def starts_def u_def split: if_splits)
qed

lemma read_atom_number:
  assumes "read_integer s = Some (i, r)"
  shows "read_atom fl s = read_number fl s"
proof -
  have h: "\<not> starts ''-Infinity'' s" "s \<noteq> []" "hd s = 45 \<or> is_digit (hd s)" using read_integer_head [OF assms] by auto
  then have "\<not> starts ''null'' s" "\<not> starts ''true'' s" "\<not> starts ''false'' s" "\<not> starts ''NaN'' s"
      "\<not> starts ''Infinity'' s"
    by (cases s; auto simp: starts_def u_def is_digit_def)+
  with h show ?thesis by (simp add: read_atom_def)
qed

lemma read_atom_texts:
  "read_atom fl (u ''null'' @ s) = Some (PNull, s)"
  "read_atom fl (u ''true'' @ s) = Some (PBool True, s)"
  "read_atom fl (u ''false'' @ s) = Some (PBool False, s)"
  "read_atom fl (u ''NaN'' @ s) = Some (PFloat (fl_of_text fl (u ''NaN'')), s)"
  "read_atom fl (u ''Infinity'' @ s) = Some (PFloat (fl_of_text fl (u ''Infinity'')), s)"
  "read_atom fl (u ''-Infinity'' @ s) = Some (PFloat (fl_of_text fl (u ''-Infinity'')), s)"
  by (simp_all add: read_atom_def starts_def u_def)

lemma read_atom_int: "closed s \<Longrightarrow> read_atom fl (int_text k @ s) = Some (PInt k, s)"
  using read_atom_number [OF read_integer_int] read_number_int by metis

lemma read_atom_float:
  assumes "floats_ok fl" "closed s"
  shows "read_atom fl (fl_text fl x @ s) = Some (PFloat x, s)"
proof -
  have x: "fl_of_text fl (fl_text fl x) = x"
      "fl_text fl x \<in> {u ''NaN'', u ''Infinity'', u ''-Infinity''} \<or> float_token (fl_text fl x)"
    using assms(1) by (auto simp: floats_ok_def)
  then consider "fl_text fl x = u ''NaN''" | "fl_text fl x = u ''Infinity''" | "fl_text fl x = u ''-Infinity''"
    | "float_token (fl_text fl x)" by blast
  then show ?thesis
  proof cases
    case 4
    then obtain i r where "read_integer (fl_text fl x) = Some (i, r)" by (auto simp: float_token_def split: option.splits)
    from read_integer_closed [OF assms(2) this] show ?thesis
      using read_atom_number read_number_float [OF assms(2) 4] x(1) by metis
  qed (use x(1) in \<open>simp_all add: read_atom_texts\<close>)
qed

lemma skip_ws_newline [simp]: "skip_ws (newline k @ s) = skip_ws s"
proof -
  have "dropWhile json_space (replicate n 32 @ s) = dropWhile json_space s" for n
    by (induction n) (auto simp: json_space_def)
  then show ?thesis by (simp add: skip_ws_def newline_def json_space_def)
qed

definition opens_value :: "nat \<Rightarrow> bool" where
  \<comment> \<open>a character that no white space and no closing bracket is\<close>
  "opens_value c \<longleftrightarrow> c \<notin> {32, 9, 10, 13, 93, 125, 65279}"

lemma skip_ws_opens: "opens_value (hd s) \<Longrightarrow> skip_ws s = s"
  by (cases s) (auto simp: opens_value_def skip_ws_def json_space_def)

lemma float_token_opens: "float_token w \<Longrightarrow> w \<noteq> [] \<and> opens_value (hd w)"
  using read_integer_head [of w] by (fastforce simp: float_token_def opens_value_def is_digit_def split: option.splits)

lemma value_text_opens:
  assumes "floats_ok fl"
  shows "value_text fl ascii lvl v \<noteq> [] \<and> opens_value (hd (value_text fl ascii lvl v))"
proof (cases v)
  case (PInt k)
  obtain d ds where "nat_text (nat \<bar>k\<bar>) = d # ds" "is_digit d"
    using nat_text_digits [of "nat \<bar>k\<bar>"] by (cases "nat_text (nat \<bar>k\<bar>)") auto
  then show ?thesis using PInt by (auto simp: int_text_def opens_value_def is_digit_def)
next
  case (PFloat x)
  have "fl_text fl x \<in> {u ''NaN'', u ''Infinity'', u ''-Infinity''} \<or> float_token (fl_text fl x)"
    using assms by (simp add: floats_ok_def)
  then show ?thesis using PFloat float_token_opens by (auto simp: opens_value_def u_def)
qed (auto simp: opens_value_def u_def string_text_def)

primrec doc_ok :: "bool \<Rightarrow> 'f pyjson \<Rightarrow> bool" where
  \<comment> \<open>dictionaries have distinct keys; no surrogates where they are escaped\<close>
  "doc_ok ascii PNull = True"
| "doc_ok ascii (PBool b) = True"
| "doc_ok ascii (PInt k) = True"
| "doc_ok ascii (PFloat x) = True"
| "doc_ok ascii (PStr w) = (ascii \<longrightarrow> list_all scalar_value w)"
| "doc_ok ascii (PList vs) = list_all (\<lambda>b. b) (map (doc_ok ascii) vs)"
| "doc_ok ascii (PDict kvs) = (distinct (map fst kvs) \<and>
     list_all (\<lambda>(k, b). (ascii \<longrightarrow> list_all scalar_value k) \<and> b) (map (map_prod id (doc_ok ascii)) kvs))"

lemma dict_of_distinct: "distinct (map fst (acc @ kvs)) \<Longrightarrow> dict_of acc kvs = acc @ kvs"
proof (induction acc kvs rule: dict_of.induct)
  case (2 acc k v kvs)
  then have "k \<notin> fst ` set acc" by auto
  then have "AList.update k v acc = acc @ [(k, v)]" by (induction acc) auto
  with 2 show ?case by simp
qed simp

definition reads_back :: "'f floats \<Rightarrow> bool \<Rightarrow> 'f pyjson \<Rightarrow> bool" where
  "reads_back fl ascii v \<longleftrightarrow> (\<forall>lvl s. closed s \<longrightarrow> parse fl GValue (value_text fl ascii lvl v @ s) = Some (v, s))"

lemma closed_simps [simp]: "closed (44 # s)" "closed (newline k @ s)"
  by (simp_all add: closed_def newline_def)

lemma skip_ws_punctuation [simp]:
  "skip_ws (44 # s) = 44 # s" "skip_ws (93 # s) = 93 # s" "skip_ws (125 # s) = 125 # s" "skip_ws (58 # s) = 58 # s"
  "skip_ws (32 # s) = skip_ws s"
  by (simp_all add: skip_ws_def json_space_def)

lemma skip_ws_value [simp]:
  "floats_ok fl \<Longrightarrow> skip_ws (value_text fl ascii lvl v @ s) = value_text fl ascii lvl v @ s"
  using value_text_opens [of fl ascii lvl v] by (simp add: skip_ws_opens)

lemma skip_ws_elements:
  "floats_ok fl \<Longrightarrow> vs \<noteq> [] \<Longrightarrow>
    skip_ws (sep_concat sep (map (value_text fl ascii lvl) vs) @ s) = sep_concat sep (map (value_text fl ascii lvl) vs) @ s"
  by (induction vs rule: induct_list012) auto

lemma parse_elements:
  assumes "floats_ok fl" "\<forall>v \<in> set vs. reads_back fl ascii v" "vs \<noteq> []"
  shows "parse fl (GElements acc) (sep_concat (44 # newline k) (map (value_text fl ascii lvl) vs) @ newline l @ 93 # s) =
    Some (PList (acc @ vs), s)"
  using assms(2,3)
proof (induction vs arbitrary: acc rule: induct_list012)
  case (2 v)
  then show ?case by (simp add: parse.simps(2) reads_back_def)
next
  case (3 v w vs)
  let ?rest = "sep_concat (44 # newline k) (map (value_text fl ascii lvl) (w # vs)) @ newline l @ 93 # s"
  have "parse fl GValue (value_text fl ascii lvl v @ 44 # newline k @ ?rest) = Some (v, 44 # newline k @ ?rest)"
    using 3(3) by (simp add: reads_back_def)
  moreover have "skip_ws ?rest = ?rest" using skip_ws_elements [OF assms(1), of "w # vs"] by blast
  moreover have "parse fl (GElements (acc @ [v])) ?rest = Some (PList (acc @ v # w # vs), s)"
    using 3(2) [of "acc @ [v]"] 3(3) by simp
  ultimately show ?case by (simp add: parse.simps(2))
qed simp

definition member_text :: "'f floats \<Rightarrow> bool \<Rightarrow> nat \<Rightarrow> ustr \<times> 'f pyjson \<Rightarrow> ustr" where
  "member_text fl ascii lvl = (\<lambda>(k, v). string_text ascii k @ 58 # 32 # value_text fl ascii lvl v)"

lemma member_text_opens: "member_text fl ascii lvl kv = 34 # tl (member_text fl ascii lvl kv)"
  by (cases kv) (simp add: member_text_def string_text_def)

lemma skip_ws_members:
  "kvs \<noteq> [] \<Longrightarrow>
    skip_ws (sep_concat sep (map (member_text fl ascii lvl) kvs) @ s) = sep_concat sep (map (member_text fl ascii lvl) kvs) @ s"
proof -
  assume "kvs \<noteq> []"
  then have "take 1 (sep_concat sep (map (member_text fl ascii lvl) kvs)) = [34]"
    by (induction kvs rule: induct_list012) (auto simp: member_text_def string_text_def)
  then have "opens_value (hd (sep_concat sep (map (member_text fl ascii lvl) kvs) @ s))"
    by (cases "sep_concat sep (map (member_text fl ascii lvl) kvs)") (auto simp: opens_value_def)
  then show ?thesis by (rule skip_ws_opens)
qed

lemma parse_member:
  assumes "floats_ok fl" "ascii \<longrightarrow> list_all scalar_value k" "reads_back fl ascii v" "closed s"
  shows "parse fl (GMembers acc) (member_text fl ascii lvl (k, v) @ s) =
    (case skip_ws s of [] \<Rightarrow> None | d # t \<Rightarrow>
       if d = 125 then Some (PDict (dict_of [] (acc @ [(k, v)])), t)
       else if d = 44 then parse fl (GMembers (acc @ [(k, v)])) (skip_ws t)
       else None)"
proof -
  let ?v = "value_text fl ascii lvl v @ s"
  have m: "member_text fl ascii lvl (k, v) @ s = 34 # concat (map (escape_char ascii) k) @ 34 # 58 # 32 # ?v"
    by (simp add: member_text_def string_text_def)
  have "scan_string (concat (map (escape_char ascii) k) @ 34 # 58 # 32 # ?v) = Some (k, 58 # 32 # ?v)"
    using assms(2) by (intro scan_string_text) simp
  moreover have "parse fl GValue ?v = Some (v, s)" using assms(3,4) by (simp add: reads_back_def)
  ultimately show ?thesis unfolding m using assms(1) by (simp add: parse.simps(3))
qed

lemma parse_members:
  assumes "floats_ok fl" "\<forall>(k, v) \<in> set kvs. (ascii \<longrightarrow> list_all scalar_value k) \<and> reads_back fl ascii v" "kvs \<noteq> []"
    and "distinct (map fst (acc @ kvs))"
  shows "parse fl (GMembers acc) (sep_concat (44 # newline n) (map (member_text fl ascii lvl) kvs) @ newline l @ 125 # s) =
    Some (PDict (acc @ kvs), s)"
  using assms(2-4)
proof (induction kvs arbitrary: acc rule: induct_list012)
  case (2 kv)
  then show ?case using assms(1) dict_of_distinct [of "[]" "acc @ [kv]"]
    by (cases kv) (simp add: parse_member)
next
  case (3 kv kv' kvs)
  obtain k v where kv: "kv = (k, v)" by fastforce
  let ?rest = "sep_concat (44 # newline n) (map (member_text fl ascii lvl) (kv' # kvs)) @ newline l @ 125 # s"
  have "skip_ws ?rest = ?rest" using skip_ws_members [of "kv' # kvs"] by blast
  moreover have "parse fl (GMembers (acc @ [(k, v)])) ?rest = Some (PDict (acc @ kv # kv' # kvs), s)"
    using 3(2) [of "acc @ [(k, v)]"] 3(3,5) kv by simp
  ultimately show ?case using 3(3) kv parse_member [OF assms(1), of ascii k v "44 # newline n @ ?rest" acc lvl] by simp
qed simp

lemma value_text_dict:
  "value_text fl ascii lvl (PDict kvs) =
     (if kvs = [] then u ''{}''
      else 123 # newline (Suc lvl) @
           sep_concat (44 # newline (Suc lvl)) (map (member_text fl ascii (Suc lvl)) kvs) @ newline lvl @ [125])"
  by (simp add: member_text_def)

lemma parse_atom:
  "opens_value (hd s) \<Longrightarrow> hd s \<notin> {34, 123, 91} \<Longrightarrow> s \<noteq> [] \<Longrightarrow> parse fl GValue s = read_atom fl s"
  by (cases s) (auto simp: parse.simps(1))

lemma float_text_head:
  assumes "floats_ok fl"
  shows "fl_text fl x \<noteq> [] \<and> hd (fl_text fl x) \<notin> {34, 123, 91}"
proof -
  have "fl_text fl x \<in> {u ''NaN'', u ''Infinity'', u ''-Infinity''} \<or> float_token (fl_text fl x)"
    using assms by (simp add: floats_ok_def)
  then show ?thesis using read_integer_head [of "fl_text fl x"]
    by (fastforce simp: u_def float_token_def is_digit_def split: option.splits)
qed

lemma int_text_head: "int_text k \<noteq> [] \<and> hd (int_text k) \<notin> {34, 123, 91}"
  using read_integer_head [OF read_integer_int [of "[]" k, simplified]] by (auto simp: closed_def is_digit_def)

lemma reads_back_atom:
  assumes "floats_ok fl" "\<And>lvl s. closed s \<Longrightarrow> read_atom fl (value_text fl ascii lvl v @ s) = Some (v, s)"
    and "\<And>lvl. hd (value_text fl ascii lvl v) \<notin> {34, 123, 91}"
  shows "reads_back fl ascii v"
  unfolding reads_back_def using assms value_text_opens [OF assms(1)] by (simp add: parse_atom)

lemma reads_back_list:
  assumes "floats_ok fl" "\<forall>v \<in> set vs. reads_back fl ascii v"
  shows "reads_back fl ascii (PList vs)"
proof (cases "vs = []")
  case False
  have "parse fl GValue (value_text fl ascii lvl (PList vs) @ s) = Some (PList vs, s)" for lvl s
  proof -
    let ?body = "sep_concat (44 # newline (Suc lvl)) (map (value_text fl ascii (Suc lvl)) vs) @ newline lvl @ 93 # s"
    have b: "skip_ws ?body = ?body" by (rule skip_ws_elements [OF assms(1) False])
    obtain c t where c: "?body = c # t" "c \<noteq> 93"
    proof -
      obtain v ws where vs: "vs = v # ws" using False by (cases vs) auto
      have "hd ?body = hd (value_text fl ascii (Suc lvl) v)" "?body \<noteq> []"
        using value_text_opens [OF assms(1), of ascii "Suc lvl" v] vs by (cases ws; simp)+
      then show ?thesis using that value_text_opens [OF assms(1), of ascii "Suc lvl" v]
        by (cases ?body) (auto simp: opens_value_def)
    qed
    have "value_text fl ascii lvl (PList vs) @ s = 91 # newline (Suc lvl) @ ?body" using False by simp
    then show ?thesis
      using b c parse_elements [OF assms False, of "[]" "Suc lvl" "Suc lvl" lvl s]
      by (simp add: parse.simps(1) del: value_text.simps)
  qed
  then show ?thesis by (simp add: reads_back_def del: value_text.simps)
qed (simp add: reads_back_def parse.simps(1) u_def)

lemma reads_back_dict:
  assumes "floats_ok fl" "\<forall>(k, v) \<in> set kvs. (ascii \<longrightarrow> list_all scalar_value k) \<and> reads_back fl ascii v"
    and "distinct (map fst kvs)"
  shows "reads_back fl ascii (PDict kvs)"
proof (cases "kvs = []")
  case False
  have "parse fl GValue (value_text fl ascii lvl (PDict kvs) @ s) = Some (PDict kvs, s)" for lvl s
  proof -
    let ?body = "sep_concat (44 # newline (Suc lvl)) (map (member_text fl ascii (Suc lvl)) kvs) @ newline lvl @ 125 # s"
    have b: "skip_ws ?body = ?body" by (rule skip_ws_members [OF False])
    obtain t where c: "?body = 34 # t"
    proof -
      obtain kv ws where vs: "kvs = kv # ws" using False by (cases kvs) auto
      then have "hd ?body = 34 \<and> ?body \<noteq> []"
        using member_text_opens [of fl ascii "Suc lvl" kv] by (cases "member_text fl ascii (Suc lvl) kv"; cases ws) auto
      then show ?thesis using that by (cases ?body) auto
    qed
    have "value_text fl ascii lvl (PDict kvs) @ s = 123 # newline (Suc lvl) @ ?body"
      using False by (simp add: value_text_dict del: value_text.simps)
    then show ?thesis
      using b c parse_members [OF assms(1,2) False, of "[]" "Suc lvl" "Suc lvl" lvl s] assms(3)
      by (simp add: parse.simps(1) del: value_text.simps)
  qed
  then show ?thesis by (simp add: reads_back_def del: value_text.simps)
qed (simp add: reads_back_def parse.simps(1) u_def)

lemma reads_back_printed:
  assumes "floats_ok fl"
  shows "doc_ok ascii v \<Longrightarrow> reads_back fl ascii v"
proof (induction v)
  case (PInt k)
  show ?case by (rule reads_back_atom [OF assms]) (use int_text_head read_atom_int in auto)
next
  case (PFloat x)
  show ?case by (rule reads_back_atom [OF assms]) (use float_text_head [OF assms] read_atom_float [OF assms] in auto)
next
  case (PStr w)
  then show ?case by (auto simp: reads_back_def parse.simps(1) string_text_def scan_string_text)
next
  case (PList vs)
  then show ?case by (intro reads_back_list [OF assms]) (auto simp: list_all_iff)
next
  case (PDict kvs)
  then show ?case by (intro reads_back_dict [OF assms]) (fastforce simp: list_all_iff)+
qed (auto simp: reads_back_def parse.simps(1) read_atom_def starts_def u_def)

lemma loads_dumps:
  assumes "floats_ok fl" "doc_ok ascii v"
  shows "loads fl (dumps fl ascii v @ [10]) = Some v"
proof -
  have "parse fl GValue (value_text fl ascii 0 v @ [10]) = Some (v, [10])"
    using reads_back_printed [OF assms] by (simp add: reads_back_def closed_def)
  moreover have "take 1 (value_text fl ascii 0 v @ [10]) \<noteq> [65279]"
    using value_text_opens [OF assms(1), of ascii 0 v] by (cases "value_text fl ascii 0 v") (auto simp: opens_value_def)
  ultimately show ?thesis
    using assms(1) skip_ws_value [OF assms(1), of ascii 0 v "[10]"]
    by (simp add: loads_def dumps_def) (simp add: skip_ws_def json_space_def)
qed

subsection \<open>What reading yields\<close>

lemma doc_ok_list [simp]: "doc_ok ascii (PList vs) = list_all (doc_ok ascii) vs"
  by (auto simp: list_all_iff)

lemma doc_ok_dict:
  "doc_ok False (PDict kvs) \<longleftrightarrow> distinct (map fst kvs) \<and> (\<forall>(k, v) \<in> set kvs. doc_ok False v)"
  by (fastforce simp: list_all_iff)

declare doc_ok.simps(6,7) [simp del]

fun goal_ok :: "'f json_goal \<Rightarrow> bool" where
  "goal_ok GValue = True"
| "goal_ok (GElements vs) = list_all (doc_ok False) vs"
| "goal_ok (GMembers kvs) = list_all (\<lambda>(k, v). doc_ok False v) kvs"

lemma set_update_subset: "set (AList.update k v acc) \<subseteq> insert (k, v) (set acc)"
  by (induction acc) auto

lemma doc_ok_update: "doc_ok False (PDict acc) \<Longrightarrow> doc_ok False v \<Longrightarrow> doc_ok False (PDict (AList.update k v acc))"
  using set_update_subset [of k v acc] by (auto simp: doc_ok_dict distinct_update)

lemma dict_of_ok:
  "list_all (\<lambda>(k, v). doc_ok False v) kvs \<Longrightarrow> doc_ok False (PDict acc) \<Longrightarrow> doc_ok False (PDict (dict_of acc kvs))"
  by (induction acc kvs rule: dict_of.induct) (simp_all add: doc_ok_update)

lemma read_atom_ok: "read_atom fl s = Some (v, r) \<Longrightarrow> doc_ok False v"
  by (auto simp: read_atom_def read_number_def Let_def split: if_splits option.splits prod.splits)

lemma doc_ok_empty [simp]: "doc_ok False (PDict [])"
  by (simp add: doc_ok_dict)

lemma parse_ok: "parse fl g s = Some (v, r) \<Longrightarrow> goal_ok g \<Longrightarrow> doc_ok False v"
proof (induction fl g s arbitrary: v r rule: parse.induct)
  case (1 fl s)
  then show ?case
    by (auto simp: parse.simps(1) dest: read_atom_ok split: list.splits if_splits)
next
  case (2 fl vs s)
  from 2(3) obtain x t where x: "parse fl GValue s = Some (x, t)" by (auto simp: parse.simps(2) split: option.splits)
  then have xok: "doc_ok False x" using 2(1) by simp
  from 2(3) x obtain d q where q: "skip_ws t = d # q" by (auto simp: parse.simps(2) split: list.splits)
  show ?case
  proof (cases "d = 93")
    case True
    then show ?thesis using 2(3,4) x q xok by (auto simp: parse.simps(2))
  next
    case False
    with 2(3) x q have "d = 44" "parse fl (GElements (vs @ [x])) (skip_ws q) = Some (v, r)"
      by (auto simp: parse.simps(2) split: if_splits)
    with 2(2) [OF x refl q False] 2(4) xok show ?thesis by simp
  qed
next
  case (3 fl kvs s)
  from 3(3) have a: "take 1 s = [34]" by (auto simp: parse.simps(3) split: if_splits)
  with 3(3) obtain k t where k: "scan_string (tl s) = Some (k, t)" by (auto simp: parse.simps(3) split: option.splits)
  with 3(3) a have c: "take 1 (skip_ws t) = [58]" by (auto simp: parse.simps(3) split: if_splits)
  with 3(3) a k obtain x t2 where x: "parse fl GValue (skip_ws (tl (skip_ws t))) = Some (x, t2)"
    by (auto simp: parse.simps(3) split: option.splits)
  then have xok: "doc_ok False x" using 3(1) a k c by simp
  from 3(3) a k c x obtain d q where q: "skip_ws t2 = d # q" by (auto simp: parse.simps(3) split: list.splits)
  show ?case
  proof (cases "d = 125")
    case True
    then have "v = PDict (dict_of [] (kvs @ [(k, x)]))" using 3(3) a k c x q by (auto simp: parse.simps(3))
    then show ?thesis using 3(4) xok by (simp add: dict_of_ok)
  next
    case False
    with 3(3) a k c x q have "d = 44" "parse fl (GMembers (kvs @ [(k, x)])) (skip_ws q) = Some (v, r)"
      by (auto simp: parse.simps(3) split: if_splits)
    with 3(2) [of "(k, t)" k t "(x, t2)" x t2 d q] False 3(4) a k c x q xok show ?thesis by simp
  qed
qed

lemma loads_ok: "loads fl s = Some v \<Longrightarrow> doc_ok False v"
  by (auto simp: loads_def dest: parse_ok split: if_splits option.splits)

subsection \<open>What can be encoded\<close>

lemma scalar_small: "c < 128 \<Longrightarrow> scalar_value c"
  by (simp add: scalar_value_def)

lemma escape_char_scalar: "scalar_value c \<Longrightarrow> list_all scalar_value (escape_char ascii c)"
proof -
  have "d < 16 \<Longrightarrow> hex_code d < 128" for d by (simp add: hex_code_def)
  then have "list_all (\<lambda>c. c < 128) (escape_unit n)" for n by (simp add: escape_unit_def)
  then have unit: "list_all scalar_value (escape_unit n)" for n using scalar_small by (metis (mono_tags, lifting) list.pred_mono_strong)
  assume "scalar_value c"
  with unit show ?thesis by (auto simp: escape_char_def intro: scalar_small)
qed

lemma string_text_scalar: "list_all scalar_value w \<Longrightarrow> list_all scalar_value (string_text ascii w)"
  using escape_char_scalar by (fastforce simp: string_text_def list_all_iff intro: scalar_small)

lemma nat_text_scalar: "list_all scalar_value (nat_text n)"
  using nat_text_digits [of n] by (auto simp: list_all_iff is_digit_def scalar_value_def)

lemma sep_concat_all: "list_all P sep \<Longrightarrow> list_all (list_all P) ws \<Longrightarrow> list_all P (sep_concat sep ws)"
  by (induction sep ws rule: sep_concat.induct) auto

lemma newline_scalar: "list_all scalar_value (newline n)"
  by (auto simp: newline_def list_all_iff scalar_value_def)

lemma value_text_scalar:
  assumes "floats_ok fl"
  shows "doc_ok True v \<Longrightarrow> list_all scalar_value (value_text fl ascii lvl v)"
proof (induction v arbitrary: lvl)
  case (PFloat x)
  then show ?case using assms by (auto simp: floats_ok_def list_all_iff intro: scalar_small)
next
  case (PList vs)
  then have "list_all (list_all scalar_value) (map (value_text fl ascii (Suc lvl)) vs)" by (auto simp: list_all_iff)
  then have "list_all scalar_value (sep_concat (44 # newline (Suc lvl)) (map (value_text fl ascii (Suc lvl)) vs))"
    by (intro sep_concat_all) (simp_all add: newline_scalar scalar_small)
  then show ?case by (simp add: newline_scalar u_def scalar_small)
next
  case (PDict kvs)
  then have "list_all (list_all scalar_value) (map (member_text fl ascii (Suc lvl)) kvs)"
    by (fastforce simp: list_all_iff member_text_def doc_ok.simps(7) intro: scalar_small string_text_scalar [unfolded list_all_iff, rule_format])
  then have "list_all scalar_value (sep_concat (44 # newline (Suc lvl)) (map (member_text fl ascii (Suc lvl)) kvs))"
    by (intro sep_concat_all) (simp_all add: newline_scalar scalar_small)
  then show ?case unfolding value_text_dict by (simp add: newline_scalar u_def scalar_small)
qed (auto simp: u_def int_text_def nat_text_scalar string_text_scalar intro: scalar_small)

end
