(* ===== verification/SF_Release.thy ===== *)
theory SF_Release
  imports SF_Json SF_Settings "HOL-Library.List_Lexorder" "HOL-Library.Sublist"
begin

text \<open>
  \<open>scripts/aws/release_contract.py\<close>: the checks of a deployment. The inputs of the workflow become a
  \<open>release_config\<close>; a reviewed ECS task definition is rendered with one immutable image and compared
  after its registration; the result of the migration task is judged; and an allowlisted evidence
  record is built and written.

  Every text is its list of code points; the names of the inputs are HOL strings. The files are a map
  from paths to contents: a text, or bytes that are not UTF-8. A run of the tool returns what it
  prints, or the exception it ends in: \<open>Contract\<close> for a \<open>ReleaseContractError\<close>, \<open>Crash\<close> for any other.
  Parameters: \<open>ip_literal\<close> as in the settings, \<open>https_origin\<close> for \<open>urlsplit\<close> of a URL that is not ASCII
  (it may raise \<open>ValueError\<close>, \<open>None\<close>), and \<open>repr\<close> for \<open>str\<close> of a float, list or dictionary.
\<close>

subsection \<open>Texts\<close>

definition in_range :: "char \<Rightarrow> char \<Rightarrow> nat \<Rightarrow> bool" where
  "in_range a b c \<longleftrightarrow> of_char a \<le> c \<and> c \<le> of_char b"

definition alphanumeric :: "nat \<Rightarrow> bool" where
  \<comment> \<open>\<open>[A-Za-z0-9]\<close>\<close>
  "alphanumeric c \<longleftrightarrow> in_range (CHR ''A'') (CHR ''Z'') c \<or> in_range (CHR ''a'') (CHR ''z'') c \<or>
     in_range (CHR ''0'') (CHR ''9'') c"

definition lower_hex :: "nat \<Rightarrow> bool" where
  \<comment> \<open>\<open>[0-9a-f]\<close>\<close>
  "lower_hex c \<longleftrightarrow> in_range (CHR ''0'') (CHR ''9'') c \<or> in_range (CHR ''a'') (CHR ''f'') c"

definition after_prefix :: "string \<Rightarrow> ustr \<Rightarrow> ustr option" where
  "after_prefix p w = (if starts p w then Some (drop (length p) w) else None)"

definition SHA256_DIGEST :: "ustr \<Rightarrow> bool" where
  "SHA256_DIGEST w \<longleftrightarrow> (case after_prefix ''sha256:'' w of None \<Rightarrow> False
     | Some h \<Rightarrow> length h = 64 \<and> list_all lower_hex h)"

definition AWS_ROLE_ARN :: "ustr \<Rightarrow> bool" where
  "AWS_ROLE_ARN w \<longleftrightarrow> (case after_prefix ''arn:aws:iam::'' w of None \<Rightarrow> False
     | Some r \<Rightarrow> length (take 12 r) = 12 \<and> list_all (in_range (CHR ''0'') (CHR ''9'')) (take 12 r) \<and>
         (case after_prefix '':role/'' (drop 12 r) of None \<Rightarrow> False
          | Some n \<Rightarrow> n \<noteq> [] \<and> list_all (\<lambda>c. alphanumeric c \<or> c \<in> set (u ''+=,.@_-'')) n))"

definition prefixed_hex :: "string \<Rightarrow> ustr \<Rightarrow> bool" where
  "prefixed_hex p w \<longleftrightarrow> (case after_prefix p w of None \<Rightarrow> False | Some h \<Rightarrow> h \<noteq> [] \<and> list_all lower_hex h)"

definition AWS_SUBNET_ID :: "ustr \<Rightarrow> bool" where
  "AWS_SUBNET_ID = prefixed_hex ''subnet-''"

definition AWS_SECURITY_GROUP_ID :: "ustr \<Rightarrow> bool" where
  "AWS_SECURITY_GROUP_ID = prefixed_hex ''sg-''"

definition SAFE_REFERENCE :: "ustr \<Rightarrow> bool" where
  "SAFE_REFERENCE w \<longleftrightarrow> w \<noteq> [] \<and> alphanumeric (hd w) \<and> length (tl w) \<le> 199 \<and>
     list_all (\<lambda>c. alphanumeric c \<or> c \<in> set (u ''._:/-'')) (tl w)"

definition ISO_UTC :: "ustr \<Rightarrow> bool" where
  \<comment> \<open>\<open>\d\<close> is any decimal digit of Unicode\<close>
  "ISO_UTC w \<longleftrightarrow> list_all2 (\<lambda>t c. if t = CHR ''d'' then digit_value c \<noteq> None else c = of_char t)
     ''dddd-dd-ddTdd:dd:ddZ'' w"

definition COMMIT_SHA :: "ustr \<Rightarrow> bool" where
  "COMMIT_SHA w \<longleftrightarrow> length w = 40 \<and> list_all lower_hex w"

definition ulower :: "ustr \<Rightarrow> ustr" where
  \<comment> \<open>\<open>str.lower\<close> as far as ASCII shows: of the other letters only the Kelvin sign and the dotted capital
      I have ASCII letters in their lower case, and the rest stay outside ASCII\<close>
  "ulower w = concat (map (\<lambda>c. if in_range (CHR ''A'') (CHR ''Z'') c then [c + 32]
     else if c = 8490 then [107] else if c = 304 then [105, 775] else [c]) w)"

definition rstrip_slash :: "ustr \<Rightarrow> ustr" where
  "rstrip_slash w = rev (dropWhile (\<lambda>c. c = 47) (rev w))"

definition strip_slash :: "ustr \<Rightarrow> ustr" where
  "strip_slash = strip_by (\<lambda>c. c = 47)"

subsection \<open>Errors\<close>

datatype contract_error =
    MissingInput string
  | EnvironmentNotAllowed | RoleArnInvalid | RefNotAllowed | AudienceInvalid | SubjectInvalid
  | ReviewNotRequired | SelfReviewAllowed | InvalidIdList string | MissingList string | OriginNotHttps
  | BackupNotConfirmed | UnsafeReference string | OperationInvalid | ModeInvalid | RollbackNeedsUpgrade
  | ImageNotImmutable | ImageDigestInvalid
  | CannotRead | NotAnObject | NoContainerDefinitions | InvalidPayload | ContainerNotUnique ustr | DigestMismatch ustr
  | RunTaskFailure | RunTaskNotSingle | RunTaskWithoutArn
  | NotStopped | StopCodeNotSuccess | StopReasonNotSuccess | NoContainerResults | ContainerFailed
  | CommitShaInvalid | EvidenceEnvironment | EvidenceMode | EvidenceOperation | BootstrapNotDeploy | SmokeNotPassed
  | RollbackEvidence | StartNotIso | BootstrapPreviousRelease | PreviousDigestInvalid | SmokeStatusInvalid
  | FieldNotAllowed

datatype release_exn = Contract contract_error | Crash

definition reject :: "contract_error \<Rightarrow> release_exn + 'a" where
  "reject e = Inl (Contract e)"

definition check :: "bool \<Rightarrow> contract_error \<Rightarrow> release_exn + unit" where
  "check b e = guardE b (Contract e)"

subsection \<open>Images and references\<close>

definition validate_image_uri :: "ustr \<Rightarrow> release_exn + ustr \<times> ustr" where
  "validate_image_uri image_uri =
     (let value = ustrip image_uri in
      if 64 \<notin> set value then reject ImageNotImmutable
      else
        let digest = after_last 64 value; repository = take (length value - Suc (length digest)) value in
        if repository = [] \<or> \<not> SHA256_DIGEST digest then reject ImageDigestInvalid
        else Inr (repository, digest))"

definition csv_items :: "ustr \<Rightarrow> ustr list" where
  "csv_items value = filter (\<lambda>item. item \<noteq> []) (map ustrip (split_on 44 value))"

definition csv_ids :: "ustr \<Rightarrow> (ustr \<Rightarrow> bool) \<Rightarrow> string \<Rightarrow> release_exn + ustr list" where
  "csv_ids value pattern label =
     (let items = csv_items value in
      if items = [] \<or> \<not> list_all pattern items then reject (InvalidIdList label) else Inr items)"

definition csv_values :: "ustr \<Rightarrow> string \<Rightarrow> release_exn + ustr list" where
  "csv_values value label =
     (let items = csv_items value in if items = [] then reject (MissingList label) else Inr items)"

definition safe_reference :: "ustr \<Rightarrow> string \<Rightarrow> release_exn + ustr" where
  "safe_reference value name = (if SAFE_REFERENCE value then Inr value else reject (UnsafeReference name))"

subsection \<open>The configuration of a deployment\<close>

type_synonym inputs = "string \<Rightarrow> ustr option"

record release_config =
  rc_environment :: ustr
  rc_deployment_mode :: ustr
  rc_aws_region :: ustr
  rc_oidc_role_arn :: ustr
  rc_ecr_repository :: ustr
  rc_ecs_cluster :: ustr
  rc_api_service :: ustr
  rc_worker_service :: ustr
  rc_api_task_family :: ustr
  rc_worker_task_family :: ustr
  rc_migration_task_family :: ustr
  rc_api_container_name :: ustr
  rc_worker_container_name :: ustr
  rc_migration_container_name :: ustr
  rc_subnet_ids :: "ustr list"
  rc_security_group_ids :: "ustr list"
  rc_alb_base_url :: ustr
  rc_cloudwatch_log_groups :: "ustr list"
  rc_github_repository :: ustr
  rc_allowed_deploy_ref :: ustr
  rc_oidc_audience :: ustr
  rc_oidc_subject :: ustr
  rc_environment_review_required :: bool
  rc_environment_no_self_review :: bool
  rc_backup_reference :: ustr
  rc_schema_compatibility_reference :: ustr

definition ALLOWED_ENVIRONMENTS :: "ustr list" where
  "ALLOWED_ENVIRONMENTS = [u ''staging'', u ''production-demo'']"

definition required :: "inputs \<Rightarrow> string \<Rightarrow> release_exn + ustr" where
  "required values name =
     (let value = ustrip (case values name of None \<Rightarrow> [] | Some w \<Rightarrow> w) in
      if value = [] then reject (MissingInput name) else Inr value)"

definition is_true :: "inputs \<Rightarrow> string \<Rightarrow> bool" where
  \<comment> \<open>\<open>values.get(name, "").lower() == "true"\<close>\<close>
  "is_true values name \<longleftrightarrow> ulower (case values name of None \<Rightarrow> [] | Some w \<Rightarrow> w) = u ''true''"

definition get_strip :: "inputs \<Rightarrow> string \<Rightarrow> ustr \<Rightarrow> ustr" where
  \<comment> \<open>\<open>values.get(name, fallback).strip()\<close>\<close>
  "get_strip values name fallback = ustrip (case values name of None \<Rightarrow> fallback | Some w \<Rightarrow> w)"

definition origin_https :: "(string \<Rightarrow> bool) \<Rightarrow> (ustr \<Rightarrow> bool option) \<Rightarrow> ustr \<Rightarrow> bool option" where
  \<comment> \<open>whether \<open>urlsplit\<close> finds the scheme \<open>https\<close> and a host part; \<open>None\<close> when it raises\<close>
  "origin_https ip_literal https_origin url =
     (if list_all (\<lambda>c. c < 128) url
      then map_option (\<lambda>p. url_scheme p = ''https'' \<and> url_netloc p \<noteq> []) (urlsplit ip_literal (map char_of url))
      else https_origin url)"

fun require_all :: "inputs \<Rightarrow> string list \<Rightarrow> release_exn + unit" where
  "require_all values [] = Inr ()"
| "require_all values (name # names) = bindE (required values name) (\<lambda>_. require_all values names)"

definition expected_subject :: "ustr \<Rightarrow> ustr \<Rightarrow> ustr" where
  "expected_subject repository env_name = u ''repo:'' @ repository @ u '':environment:'' @ env_name"

definition check_identity :: "inputs \<Rightarrow> ustr \<Rightarrow> release_exn + ustr \<times> ustr \<times> ustr \<times> ustr \<times> ustr" where
  \<comment> \<open>the role, the repository, the deployment ref, and the audience and subject of the identity token\<close>
  "check_identity values env_name =
     bindE (required values ''SUPPORTFLOW_AWS_ROLE_ARN'') (\<lambda>role_arn.
     bindE (check (AWS_ROLE_ARN role_arn) RoleArnInvalid) (\<lambda>_.
     bindE (required values ''GITHUB_REPOSITORY'') (\<lambda>repository.
     bindE (required values ''GITHUB_REF'') (\<lambda>github_ref.
     bindE (required values ''SUPPORTFLOW_ALLOWED_DEPLOY_REF'') (\<lambda>allowed_ref.
     bindE (check (allowed_ref = u ''refs/heads/main'' \<and> github_ref = allowed_ref) RefNotAllowed) (\<lambda>_.
     bindE (required values ''SUPPORTFLOW_OIDC_AUDIENCE'') (\<lambda>audience.
     bindE (check (audience = u ''sts.amazonaws.com'') AudienceInvalid) (\<lambda>_.
     bindE (required values ''SUPPORTFLOW_OIDC_SUBJECT'') (\<lambda>subject.
     bindE (check (subject = expected_subject repository env_name) SubjectInvalid) (\<lambda>_.
     bindE (check (is_true values ''SUPPORTFLOW_ENVIRONMENT_REVIEW_REQUIRED'') ReviewNotRequired) (\<lambda>_.
     bindE (check (is_true values ''SUPPORTFLOW_ENVIRONMENT_NO_SELF_REVIEW'') SelfReviewAllowed) (\<lambda>_.
     Inr (role_arn, repository, allowed_ref, audience, subject)))))))))))))"

definition check_network :: "(string \<Rightarrow> bool) \<Rightarrow> (ustr \<Rightarrow> bool option) \<Rightarrow> inputs \<Rightarrow> release_exn + ustr list \<times> ustr list \<times> ustr" where
  "check_network ip_literal https_origin values =
     bindE (bindE (required values ''SUPPORTFLOW_ECS_SUBNET_IDS'') (\<lambda>w. csv_ids w AWS_SUBNET_ID ''subnet'')) (\<lambda>subnets.
     bindE (bindE (required values ''SUPPORTFLOW_ECS_SECURITY_GROUP_IDS'')
              (\<lambda>w. csv_ids w AWS_SECURITY_GROUP_ID ''security-group'')) (\<lambda>groups.
     bindE (required values ''SUPPORTFLOW_ALB_BASE_URL'') (\<lambda>raw_url.
       let alb_base_url = rstrip_slash raw_url in
       case origin_https ip_literal https_origin alb_base_url of
         None \<Rightarrow> Inl Crash
       | Some https \<Rightarrow> bindE (check https OriginNotHttps) (\<lambda>_. Inr (subnets, groups, alb_base_url)))))"

definition check_release :: "inputs \<Rightarrow> release_exn + ustr \<times> ustr \<times> ustr \<times> ustr list" where
  \<comment> \<open>the backup and the references, the smoke inputs, the operation and its mode, and the log groups\<close>
  "check_release values =
     bindE (check (is_true values ''SUPPORTFLOW_MIGRATION_BACKUP_CONFIRMED'') BackupNotConfirmed) (\<lambda>_.
     bindE (bindE (required values ''SUPPORTFLOW_BACKUP_REFERENCE'')
              (\<lambda>w. safe_reference w ''SUPPORTFLOW_BACKUP_REFERENCE'')) (\<lambda>backup.
     bindE (bindE (required values ''SUPPORTFLOW_SCHEMA_COMPATIBILITY_REFERENCE'')
              (\<lambda>w. safe_reference w ''SUPPORTFLOW_SCHEMA_COMPATIBILITY_REFERENCE'')) (\<lambda>schema.
     bindE (require_all values [''SUPPORTFLOW_SMOKE_ORGANIZATION_ID'', ''SUPPORTFLOW_SMOKE_EMAIL'',
              ''SUPPORTFLOW_SMOKE_PASSWORD'', ''SUPPORTFLOW_SMOKE_INITIAL_BODY'', ''SUPPORTFLOW_SMOKE_FOLLOWUP_BODY'']) (\<lambda>_.
       let operation = get_strip values ''SUPPORTFLOW_RELEASE_OPERATION'' (u ''deploy'') in
     bindE (check (operation = u ''deploy'' \<or> operation = u ''rollback'') OperationInvalid) (\<lambda>_.
       let mode = get_strip values ''SUPPORTFLOW_DEPLOYMENT_MODE'' [] in
     bindE (check (mode = u ''bootstrap'' \<or> mode = u ''upgrade'') ModeInvalid) (\<lambda>_.
     bindE (check (\<not> (operation = u ''rollback'' \<and> mode \<noteq> u ''upgrade'')) RollbackNeedsUpgrade) (\<lambda>_.
     bindE (if operation = u ''rollback''
            then bindE (bindE (required values ''SUPPORTFLOW_PREVIOUS_RELEASE_IMAGE'') validate_image_uri) (\<lambda>_. Inr ())
            else Inr ()) (\<lambda>_.
     bindE (bindE (required values ''SUPPORTFLOW_CLOUDWATCH_LOG_GROUPS'') (\<lambda>w. csv_values w ''CloudWatch log group''))
       (\<lambda>log_groups. Inr (mode, backup, schema, log_groups))))))))))"

definition from_env :: "(string \<Rightarrow> bool) \<Rightarrow> (ustr \<Rightarrow> bool option) \<Rightarrow> inputs \<Rightarrow> release_exn + release_config" where
  "from_env ip_literal https_origin values =
     bindE (required values ''SUPPORTFLOW_DEPLOY_ENVIRONMENT'') (\<lambda>env_name.
     bindE (check (env_name \<in> set ALLOWED_ENVIRONMENTS) EnvironmentNotAllowed) (\<lambda>_.
     bindE (check_identity values env_name) (\<lambda>(role_arn, repository, allowed_ref, audience, subject).
     bindE (check_network ip_literal https_origin values) (\<lambda>(subnets, groups, alb_base_url).
     bindE (check_release values) (\<lambda>(mode, backup, schema, log_groups).
     bindE (required values ''AWS_REGION'') (\<lambda>region.
     bindE (required values ''SUPPORTFLOW_ECR_REPOSITORY'') (\<lambda>ecr.
     bindE (required values ''SUPPORTFLOW_ECS_CLUSTER'') (\<lambda>cluster.
     bindE (required values ''SUPPORTFLOW_ECS_API_SERVICE'') (\<lambda>api_service.
     bindE (required values ''SUPPORTFLOW_ECS_WORKER_SERVICE'') (\<lambda>worker_service.
     bindE (required values ''SUPPORTFLOW_ECS_API_TASK_FAMILY'') (\<lambda>api_family.
     bindE (required values ''SUPPORTFLOW_ECS_WORKER_TASK_FAMILY'') (\<lambda>worker_family.
     bindE (required values ''SUPPORTFLOW_ECS_MIGRATION_TASK_FAMILY'') (\<lambda>migration_family.
     bindE (required values ''SUPPORTFLOW_ECS_API_CONTAINER_NAME'') (\<lambda>api_container.
     bindE (required values ''SUPPORTFLOW_ECS_WORKER_CONTAINER_NAME'') (\<lambda>worker_container.
     bindE (required values ''SUPPORTFLOW_ECS_MIGRATION_CONTAINER_NAME'') (\<lambda>migration_container.
     Inr \<lparr>rc_environment = env_name, rc_deployment_mode = mode, rc_aws_region = region,
          rc_oidc_role_arn = role_arn, rc_ecr_repository = strip_slash ecr, rc_ecs_cluster = cluster,
          rc_api_service = api_service, rc_worker_service = worker_service, rc_api_task_family = api_family,
          rc_worker_task_family = worker_family, rc_migration_task_family = migration_family,
          rc_api_container_name = api_container, rc_worker_container_name = worker_container,
          rc_migration_container_name = migration_container, rc_subnet_ids = subnets,
          rc_security_group_ids = groups, rc_alb_base_url = alb_base_url, rc_cloudwatch_log_groups = log_groups,
          rc_github_repository = repository, rc_allowed_deploy_ref = allowed_ref, rc_oidc_audience = audience,
          rc_oidc_subject = subject, rc_environment_review_required = True,
          rc_environment_no_self_review = True, rc_backup_reference = backup,
          rc_schema_compatibility_reference = schema\<rparr>))))))))))))))))"

subsection \<open>Task definitions\<close>

datatype file_content = FileText ustr | FileUndecodable

type_synonym files = "ustr \<Rightarrow> file_content option"

type_synonym 'f doc = "(ustr \<times> 'f pyjson) list"

definition loads_file :: "'f floats \<Rightarrow> files \<Rightarrow> ustr \<Rightarrow> release_exn + 'f pyjson" where
  \<comment> \<open>\<open>json.loads(path.read_text(encoding="utf-8"))\<close> in its \<open>try\<close>: \<open>UnicodeDecodeError\<close> is not caught\<close>
  "loads_file fl fs path = (case fs path of
     None \<Rightarrow> reject CannotRead
   | Some FileUndecodable \<Rightarrow> Inl Crash
   | Some (FileText w) \<Rightarrow> (case loads fl w of None \<Rightarrow> reject CannotRead | Some v \<Rightarrow> Inr v))"

definition write_file :: "bool \<Rightarrow> files \<Rightarrow> ustr \<Rightarrow> ustr \<Rightarrow> (release_exn + unit) \<times> files" where
  \<comment> \<open>\<open>path.write_text\<close>: \<open>OSError\<close> when not writable; a surrogate cannot be encoded, after the file was truncated\<close>
  "write_file writable fs path w =
     (if \<not> writable then (Inl Crash, fs)
      else if \<not> list_all scalar_value w then (Inl Crash, fs(path \<mapsto> FileText []))
      else (Inr (), fs(path \<mapsto> FileText w)))"

definition load_json :: "'f floats \<Rightarrow> files \<Rightarrow> ustr \<Rightarrow> release_exn + 'f doc" where
  "load_json fl fs path = bindE (loads_file fl fs path) (\<lambda>v. case v of PDict kvs \<Rightarrow> Inr kvs | _ \<Rightarrow> reject NotAnObject)"

definition READ_ONLY_FIELDS :: "ustr list" where
  "READ_ONLY_FIELDS = map u [''taskDefinitionArn'', ''revision'', ''status'', ''requiresAttributes'', ''compatibilities'',
     ''registeredAt'', ''registeredBy'']"

definition task_definition_payload :: "'f doc \<Rightarrow> 'f doc" where
  "task_definition_payload source = filter (\<lambda>(k, v). k \<notin> set READ_ONLY_FIELDS) source"

definition unwrap :: "'f doc \<Rightarrow> 'f doc" where
  \<comment> \<open>the inner object of \<open>{"taskDefinition": {...}}\<close>\<close>
  "unwrap source = (case map_of source (u ''taskDefinition'') of Some (PDict inner) \<Rightarrow> inner | _ \<Rightarrow> source)"

definition get_list :: "'f doc \<Rightarrow> string \<Rightarrow> 'f pyjson list option" where
  "get_list d key = (case map_of d (u key) of Some (PList vs) \<Rightarrow> Some vs | _ \<Rightarrow> None)"

definition is_named :: "ustr \<Rightarrow> 'f pyjson \<Rightarrow> bool" where
  "is_named name item = (case item of
     PDict kvs \<Rightarrow> (case map_of kvs (u ''name'') of Some (PStr w) \<Rightarrow> w = name | _ \<Rightarrow> False)
   | _ \<Rightarrow> False)"

definition set_image :: "ustr \<Rightarrow> 'f pyjson \<Rightarrow> 'f pyjson" where
  "set_image uri item = (case item of PDict kvs \<Rightarrow> PDict (AList.update (u ''image'') (PStr uri) kvs) | _ \<Rightarrow> item)"

definition rendered :: "ustr \<Rightarrow> ustr \<Rightarrow> 'f doc \<Rightarrow> release_exn + 'f doc" where
  \<comment> \<open>the payload with the image of the one container of that name, which the payload shares\<close>
  "rendered image_uri container_name source =
     (let payload = task_definition_payload (unwrap source) in
      case get_list payload ''containerDefinitions'' of
        None \<Rightarrow> reject NoContainerDefinitions
      | Some containers \<Rightarrow>
          if length (filter (is_named container_name) containers) \<noteq> 1 then reject (ContainerNotUnique container_name)
          else Inr (AList.update (u ''containerDefinitions'')
                 (PList (map (\<lambda>c. if is_named container_name c then set_image image_uri c else c) containers)) payload))"

definition render_task_definition ::
  "'f floats \<Rightarrow> bool \<Rightarrow> files \<Rightarrow> ustr \<Rightarrow> ustr \<Rightarrow> ustr \<Rightarrow> ustr \<Rightarrow> (release_exn + unit) \<times> files" where
  "render_task_definition fl writable fs source_path destination_path image_uri container_name =
     (case bindE (validate_image_uri image_uri) (\<lambda>_. bindE (load_json fl fs source_path) (rendered image_uri container_name)) of
        Inl e \<Rightarrow> (Inl e, fs)
      | Inr payload \<Rightarrow> write_file writable fs destination_path (dumps fl False (PDict payload) @ [10]))"

definition task_definition_image_from_payload :: "'f doc \<Rightarrow> ustr \<Rightarrow> release_exn + ustr" where
  "task_definition_image_from_payload payload container_name =
     (case get_list (unwrap payload) ''containerDefinitions'' of
        None \<Rightarrow> reject InvalidPayload
      | Some containers \<Rightarrow>
          (case filter (is_named container_name) containers of
             [PDict kvs] \<Rightarrow> (case map_of kvs (u ''image'') of
                 Some (PStr uri) \<Rightarrow> Inr uri | _ \<Rightarrow> reject (ContainerNotUnique container_name))
           | _ \<Rightarrow> reject (ContainerNotUnique container_name)))"

definition assert_task_definition_digest :: "'f floats \<Rightarrow> files \<Rightarrow> ustr \<Rightarrow> ustr \<Rightarrow> ustr \<Rightarrow> release_exn + unit" where
  \<comment> \<open>a JSON value that is no object has no \<open>get\<close>\<close>
  "assert_task_definition_digest fl fs path image_uri container_name =
     bindE (validate_image_uri image_uri) (\<lambda>expected.
     bindE (loads_file fl fs path) (\<lambda>v.
     case v of
       PDict payload \<Rightarrow>
         bindE (task_definition_image_from_payload payload container_name) (\<lambda>actual.
         bindE (validate_image_uri actual) (\<lambda>found.
         check (found = expected) (DigestMismatch container_name)))
     | _ \<Rightarrow> Inl Crash))"

subsection \<open>The migration task\<close>

definition run_task_arn :: "'f doc \<Rightarrow> release_exn + ustr" where
  "run_task_arn payload =
     (if get_list payload ''failures'' \<notin> {None, Some []} then reject RunTaskFailure
      else case get_list payload ''tasks'' of
        Some [PDict task] \<Rightarrow> (case map_of task (u ''taskArn'') of
            Some (PStr arn) \<Rightarrow> if arn = [] then reject RunTaskWithoutArn else Inr arn
          | _ \<Rightarrow> reject RunTaskWithoutArn)
      | _ \<Rightarrow> reject RunTaskNotSingle)"

definition has_text :: "'f doc \<Rightarrow> string \<Rightarrow> string \<Rightarrow> bool" where
  \<comment> \<open>\<open>d.get(key) == text\<close>\<close>
  "has_text d key text = (case map_of d (u key) of Some (PStr w) \<Rightarrow> w = u text | _ \<Rightarrow> False)"

definition is_zero :: "'f floats \<Rightarrow> 'f pyjson option \<Rightarrow> bool" where
  \<comment> \<open>\<open>v == 0\<close>, which \<open>False\<close> and the float zeros satisfy\<close>
  "is_zero fl v = (case v of Some (PInt k) \<Rightarrow> k = 0 | Some (PBool b) \<Rightarrow> \<not> b | Some (PFloat x) \<Rightarrow> fl_is_zero fl x | _ \<Rightarrow> False)"

definition py_str :: "('f pyjson \<Rightarrow> ustr) \<Rightarrow> 'f pyjson \<Rightarrow> ustr" where
  "py_str repr v = (case v of PStr w \<Rightarrow> w | PNull \<Rightarrow> u ''None'' | PBool b \<Rightarrow> (if b then u ''True'' else u ''False'')
     | PInt k \<Rightarrow> int_text k | _ \<Rightarrow> repr v)"

definition FAILURE_MARKERS :: "ustr list" where
  "FAILURE_MARKERS = [u ''failed'', u ''unable'', u ''timeout'', u ''error'']"

definition stopped_reason :: "('f pyjson \<Rightarrow> ustr) \<Rightarrow> 'f doc \<Rightarrow> ustr" where
  "stopped_reason repr task =
     ulower (case map_of task (u ''stoppedReason'') of None \<Rightarrow> [] | Some v \<Rightarrow> py_str repr v)"

definition single_task :: "'f doc \<Rightarrow> 'f doc" where
  \<comment> \<open>\<open>payload["tasks"][0]\<close>, after \<open>run_task_arn\<close>\<close>
  "single_task payload = (case get_list payload ''tasks'' of Some (PDict task # _) \<Rightarrow> task | _ \<Rightarrow> [])"

definition validate_migration_task_result ::
  "'f floats \<Rightarrow> ('f pyjson \<Rightarrow> ustr) \<Rightarrow> 'f doc \<Rightarrow> ustr \<Rightarrow> release_exn + unit" where
  "validate_migration_task_result fl repr payload container_name =
     bindE (run_task_arn payload) (\<lambda>_.
       let task = single_task payload; reason = stopped_reason repr task in
     bindE (check (has_text task ''lastStatus'' ''STOPPED'') NotStopped) (\<lambda>_.
     bindE (check (has_text task ''stopCode'' ''EssentialContainerExited'') StopCodeNotSuccess) (\<lambda>_.
     bindE (check (\<not> (reason = [] \<or> list_ex (\<lambda>marker. sublist marker reason) FAILURE_MARKERS)) StopReasonNotSuccess) (\<lambda>_.
       case get_list task ''containers'' of
         None \<Rightarrow> reject NoContainerResults
       | Some containers \<Rightarrow>
           (case filter (is_named container_name) containers of
              [PDict c] \<Rightarrow> check (has_text c ''lastStatus'' ''STOPPED'' \<and> is_zero fl (map_of c (u ''exitCode''))) ContainerFailed
            | _ \<Rightarrow> reject (ContainerNotUnique container_name))))))"

subsection \<open>Evidence\<close>

record evidence_input =
  ei_commit_sha :: ustr
  ei_image_uri :: ustr
  ei_environment :: ustr
  ei_deployment_mode :: ustr
  ei_operation :: ustr
  ei_release_started_at :: ustr
  ei_backup_reference :: ustr
  ei_schema_compatibility_reference :: ustr
  ei_migration_revision :: ustr
  ei_api_task_definition :: ustr
  ei_worker_task_definition :: ustr
  ei_previous_api_task_definition :: ustr
  ei_previous_worker_task_definition :: ustr
  ei_previous_image_digest :: ustr
  ei_smoke_status :: ustr

type_synonym evidence = "(ustr \<times> ustr) list"

fun safe_references :: "(string \<times> ustr) list \<Rightarrow> release_exn + unit" where
  "safe_references [] = Inr ()"
| "safe_references ((name, value) # rest) = bindE (safe_reference value name) (\<lambda>_. safe_references rest)"

definition check_operation :: "evidence_input \<Rightarrow> release_exn + unit" where
  "check_operation a =
     (let mode = ei_deployment_mode a; operation = ei_operation a; smoke = ei_smoke_status a in
     bindE (check (ei_environment a \<in> set ALLOWED_ENVIRONMENTS) EvidenceEnvironment) (\<lambda>_.
     bindE (check (mode \<in> {u ''bootstrap'', u ''upgrade''}) EvidenceMode) (\<lambda>_.
     bindE (check (operation \<in> {u ''deploy'', u ''rollback''}) EvidenceOperation) (\<lambda>_.
     bindE (check (\<not> (mode = u ''bootstrap'' \<and> operation \<noteq> u ''deploy'')) BootstrapNotDeploy) (\<lambda>_.
     bindE (check (\<not> (operation = u ''deploy'' \<and> smoke \<noteq> u ''passed'')) SmokeNotPassed) (\<lambda>_.
     check (\<not> (operation = u ''rollback'' \<and> (mode \<noteq> u ''upgrade'' \<or> smoke \<noteq> u ''rolled_back''))) RollbackEvidence))))))"

definition check_previous_release :: "evidence_input \<Rightarrow> release_exn + unit" where
  "check_previous_release a =
     (if ei_deployment_mode a = u ''bootstrap'' then
        check (ei_previous_image_digest a = u ''none'' \<and> ei_previous_api_task_definition a = u ''none'' \<and>
          ei_previous_worker_task_definition a = u ''none'') BootstrapPreviousRelease
      else check (SHA256_DIGEST (ei_previous_image_digest a)) PreviousDigestInvalid)"

definition evidence_fields :: "evidence_input \<Rightarrow> ustr \<Rightarrow> evidence" where
  "evidence_fields a sha =
     [(u ''schema_version'', u ''1''), (u ''commit_sha'', ei_commit_sha a), (u ''image_digest'', sha),
      (u ''environment'', ei_environment a), (u ''deployment_mode'', ei_deployment_mode a),
      (u ''operation'', ei_operation a), (u ''release_started_at'', ei_release_started_at a),
      (u ''backup_reference'', ei_backup_reference a),
      (u ''schema_compatibility_reference'', ei_schema_compatibility_reference a),
      (u ''migration_revision'', ei_migration_revision a), (u ''api_task_definition'', ei_api_task_definition a),
      (u ''worker_task_definition'', ei_worker_task_definition a),
      (u ''previous_api_task_definition'', ei_previous_api_task_definition a),
      (u ''previous_worker_task_definition'', ei_previous_worker_task_definition a),
      (u ''previous_image_digest'', ei_previous_image_digest a), (u ''smoke_status'', ei_smoke_status a)]"

definition build_release_evidence :: "evidence_input \<Rightarrow> release_exn + evidence" where
  "build_release_evidence a =
     bindE (check (COMMIT_SHA (ei_commit_sha a)) CommitShaInvalid) (\<lambda>_.
     bindE (validate_image_uri (ei_image_uri a)) (\<lambda>(_, digest).
     bindE (check_operation a) (\<lambda>_.
     bindE (check (ISO_UTC (ei_release_started_at a)) StartNotIso) (\<lambda>_.
     bindE (safe_references
       [(''backup_reference'', ei_backup_reference a),
        (''schema_compatibility_reference'', ei_schema_compatibility_reference a),
        (''migration_revision'', ei_migration_revision a), (''api_task_definition'', ei_api_task_definition a),
        (''worker_task_definition'', ei_worker_task_definition a),
        (''previous_api_task_definition'', ei_previous_api_task_definition a),
        (''previous_worker_task_definition'', ei_previous_worker_task_definition a)]) (\<lambda>_.
     bindE (check_previous_release a) (\<lambda>_.
     bindE (check (ei_smoke_status a \<in> {u ''passed'', u ''rolled_back''}) SmokeStatusInvalid) (\<lambda>_.
     Inr (evidence_fields a digest))))))))"

definition ALLOWED_FIELDS :: "ustr set" where
  "ALLOWED_FIELDS = {u ''schema_version'', u ''commit_sha'', u ''image_digest'', u ''environment'', u ''deployment_mode'',
     u ''operation'', u ''release_started_at'', u ''backup_reference'', u ''schema_compatibility_reference'',
     u ''migration_revision'', u ''api_task_definition'', u ''worker_task_definition'',
     u ''previous_api_task_definition'', u ''previous_worker_task_definition'', u ''previous_image_digest'',
     u ''smoke_status''}"

definition evidence_document :: "evidence \<Rightarrow> 'f doc" where
  \<comment> \<open>\<open>dict(evidence)\<close> as it is printed with \<open>sort_keys=True\<close>\<close>
  "evidence_document ev = map (\<lambda>(k, v). (k, PStr v)) (sort_key fst ev)"

definition write_release_evidence :: "'f floats \<Rightarrow> bool \<Rightarrow> files \<Rightarrow> ustr \<Rightarrow> evidence \<Rightarrow> (release_exn + unit) \<times> files" where
  "write_release_evidence fl writable fs path ev =
     (if fst ` set ev \<noteq> ALLOWED_FIELDS then (reject FieldNotAllowed, fs)
      else write_file writable fs path (dumps fl True (PDict (evidence_document ev)) @ [10]))"

subsection \<open>The command line\<close>

datatype release_command =
    ValidateConfig
  | RenderTaskDefinition ustr ustr ustr ustr
  | AssertTaskDefinitionDigest ustr ustr ustr
  | ValidateRunTaskResult ustr
  | ValidateMigrationResult ustr ustr
  | ExtractTaskDefinitionDigest ustr ustr
  | WriteEvidence ustr evidence_input

record 'f release_world =
  rw_floats :: "'f floats"
  rw_repr :: "'f pyjson \<Rightarrow> ustr"
  rw_ip_literal :: "string \<Rightarrow> bool"
  rw_https_origin :: "ustr \<Rightarrow> bool option"
  rw_environ :: inputs
  rw_writable :: bool

definition config_message :: "release_config \<Rightarrow> ustr" where
  "config_message c = u ''validated deployment contract environment='' @ rc_environment c @ u '' region='' @
     rc_aws_region c @ u '' subnet_count='' @ nat_text (length (rc_subnet_ids c)) @ [10]"

definition silent :: "release_exn + 'a \<Rightarrow> release_exn + ustr" where
  \<comment> \<open>nothing is printed\<close>
  "silent r = bindE r (\<lambda>_. Inr [])"

definition release_main :: "'f release_world \<Rightarrow> files \<Rightarrow> release_command \<Rightarrow> (release_exn + ustr) \<times> files" where
  "release_main w fs command = (case command of
     ValidateConfig \<Rightarrow>
       (bindE (from_env (rw_ip_literal w) (rw_https_origin w) (rw_environ w)) (\<lambda>c. Inr (config_message c)), fs)
   | RenderTaskDefinition source destination image_uri container_name \<Rightarrow>
       apfst silent (render_task_definition (rw_floats w) (rw_writable w) fs source destination image_uri container_name)
   | AssertTaskDefinitionDigest path image_uri container_name \<Rightarrow>
       (silent (assert_task_definition_digest (rw_floats w) fs path image_uri container_name), fs)
   | ValidateRunTaskResult result \<Rightarrow> (silent (bindE (load_json (rw_floats w) fs result) run_task_arn), fs)
   | ValidateMigrationResult result container_name \<Rightarrow>
       (silent (bindE (load_json (rw_floats w) fs result)
          (\<lambda>payload. validate_migration_task_result (rw_floats w) (rw_repr w) payload container_name)), fs)
   | ExtractTaskDefinitionDigest path container_name \<Rightarrow>
       (bindE (load_json (rw_floats w) fs path) (\<lambda>payload.
        bindE (task_definition_image_from_payload payload container_name) (\<lambda>uri.
        bindE (validate_image_uri uri) (\<lambda>(_, digest). Inr (digest @ [10])))), fs)
   | WriteEvidence output a \<Rightarrow>
       (case build_release_evidence a of
          Inl e \<Rightarrow> (Inl e, fs)
        | Inr ev \<Rightarrow> apfst silent (write_release_evidence (rw_floats w) (rw_writable w) fs output ev)))"

subsection \<open>Rendering and asserting\<close>

lemma map_of_filter_key: "map_of (filter (\<lambda>(k, v). P k) kvs) k = (if P k then map_of kvs k else None)"
  by (induction kvs) auto

lemma doc_ok_payload: "doc_ok False (PDict kvs) \<Longrightarrow> doc_ok False (PDict (task_definition_payload (unwrap kvs)))"
proof -
  assume ok: "doc_ok False (PDict kvs)"
  have "doc_ok False x" if "map_of kvs k = Some x" for k x
    using ok map_of_SomeD [OF that] by (auto simp: doc_ok_dict)
  then have "doc_ok False (PDict (unwrap kvs))"
    using ok by (auto simp: unwrap_def split: option.splits pyjson.splits)
  then show ?thesis
    by (auto simp: task_definition_payload_def doc_ok_dict distinct_map_filter)
qed

lemma is_named_set_image [simp]: "is_named name (set_image uri c) = is_named name c"
  by (cases c) (auto simp: is_named_def set_image_def update_conv' u_def)

lemma doc_ok_set_image: "doc_ok False c \<Longrightarrow> doc_ok False (set_image uri c)"
  by (cases c) (auto simp: set_image_def intro: doc_ok_update)

lemma filter_named_rendered:
  "filter (is_named name) (map (\<lambda>c. if is_named name c then set_image uri c else c) cs) =
    map (set_image uri) (filter (is_named name) cs)"
  by (induction cs) auto

lemma rendered_Inr:
  assumes "rendered uri name source = Inr out"
  obtains cs c where "get_list (task_definition_payload (unwrap source)) ''containerDefinitions'' = Some cs"
    and "filter (is_named name) cs = [PDict c]"
    and "out = AList.update (u ''containerDefinitions'')
      (PList (map (\<lambda>c. if is_named name c then set_image uri c else c) cs)) (task_definition_payload (unwrap source))"
proof -
  from assms obtain cs where cs: "get_list (task_definition_payload (unwrap source)) ''containerDefinitions'' = Some cs"
      "length (filter (is_named name) cs) = 1"
      "out = AList.update (u ''containerDefinitions'')
        (PList (map (\<lambda>c. if is_named name c then set_image uri c else c) cs)) (task_definition_payload (unwrap source))"
    by (auto simp: rendered_def reject_def Let_def split: option.splits if_splits)
  then obtain x where x: "filter (is_named name) cs = [x]" by (auto simp: length_Suc_conv)
  then have "x \<in> set (filter (is_named name) cs)" by simp
  then have "is_named name x" by simp
  then obtain c where "x = PDict c" by (cases x) (auto simp: is_named_def)
  with cs x that show ?thesis by blast
qed

definition singly_nested :: "'f doc \<Rightarrow> bool" where
  \<comment> \<open>what a \<open>taskDefinition\<close> object nests is no such object again\<close>
  "singly_nested source \<longleftrightarrow> (case map_of (unwrap source) (u ''taskDefinition'') of Some (PDict inner) \<Rightarrow> False | _ \<Rightarrow> True)"

lemma rendered_lookup:
  assumes "rendered uri name source = Inr out" "k \<noteq> u ''containerDefinitions''"
  shows "map_of out k = (if k \<in> set READ_ONLY_FIELDS then None else map_of (unwrap source) k)"
  using assms(1)
  by (rule rendered_Inr) (simp add: update_conv' assms(2) task_definition_payload_def map_of_filter_key)

lemma rendered_unwrap:
  assumes "rendered uri name source = Inr out" "singly_nested source"
  shows "unwrap out = out"
proof -
  have "u ''taskDefinition'' \<noteq> u ''containerDefinitions''" by (simp add: u_def)
  from rendered_lookup [OF assms(1) this] have "map_of out (u ''taskDefinition'') =
      (if u ''taskDefinition'' \<in> set READ_ONLY_FIELDS then None else map_of (unwrap source) (u ''taskDefinition''))" .
  moreover have "u ''taskDefinition'' \<notin> set READ_ONLY_FIELDS" by (simp add: READ_ONLY_FIELDS_def u_def)
  ultimately show ?thesis using assms(2) by (auto simp: singly_nested_def unwrap_def split: option.splits pyjson.splits)
qed

lemma rendered_image:
  assumes "rendered uri name source = Inr out" "singly_nested source"
  shows "task_definition_image_from_payload out name = Inr uri"
  using assms(1)
proof (rule rendered_Inr)
  fix cs c
  assume cs: "filter (is_named name) cs = [PDict c]"
    and out: "out = AList.update (u ''containerDefinitions'')
      (PList (map (\<lambda>c. if is_named name c then set_image uri c else c) cs)) (task_definition_payload (unwrap source))"
  have "get_list (unwrap out) ''containerDefinitions'' =
      Some (map (\<lambda>c. if is_named name c then set_image uri c else c) cs)"
    unfolding rendered_unwrap [OF assms] by (simp add: out get_list_def update_conv')
  moreover have "filter (is_named name) (map (\<lambda>c. if is_named name c then set_image uri c else c) cs) =
      [PDict (AList.update (u ''image'') (PStr uri) c)]"
    unfolding filter_named_rendered cs by (simp add: set_image_def)
  ultimately show ?thesis
    by (simp add: task_definition_image_from_payload_def update_conv')
qed

lemma rendered_ok:
  assumes "rendered uri name source = Inr out" "doc_ok False (PDict source)"
  shows "doc_ok False (PDict out)"
  using assms(1)
proof (rule rendered_Inr)
  fix cs c
  assume cs: "get_list (task_definition_payload (unwrap source)) ''containerDefinitions'' = Some cs"
    and out: "out = AList.update (u ''containerDefinitions'')
      (PList (map (\<lambda>c. if is_named name c then set_image uri c else c) cs)) (task_definition_payload (unwrap source))"
  have ok: "doc_ok False (PDict (task_definition_payload (unwrap source)))" using assms(2) by (rule doc_ok_payload)
  have "list_all (doc_ok False) cs"
    using cs ok by (auto simp: get_list_def doc_ok_dict dest!: map_of_SomeD split: option.splits pyjson.splits)
  then have "doc_ok False (PList (map (\<lambda>c. if is_named name c then set_image uri c else c) cs))"
    by (auto simp: list_all_iff doc_ok_set_image)
  with ok show ?thesis unfolding out by (rule doc_ok_update)
qed

lemma loads_file_written: "list_all scalar_value w \<Longrightarrow> loads fl w = Some v \<Longrightarrow>
    loads_file fl (snd (write_file True fs path w)) path = Inr v"
  by (simp add: loads_file_def write_file_def)

lemma write_file_Inr: "write_file writable fs path w = (Inr (), fs') \<Longrightarrow> fs' = fs(path \<mapsto> FileText w)"
  by (auto simp: write_file_def split: if_splits)

lemma load_json_Inr: "load_json fl fs path = Inr kvs \<longleftrightarrow> loads_file fl fs path = Inr (PDict kvs)"
proof (cases "loads_file fl fs path")
  case (Inr v)
  then show ?thesis by (cases v) (auto simp: load_json_def reject_def)
qed (simp add: load_json_def)

lemma load_json_ok: "load_json fl fs path = Inr kvs \<Longrightarrow> doc_ok False (PDict kvs)"
  by (auto simp: load_json_Inr loads_file_def reject_def dest: loads_ok split: option.splits file_content.splits)

definition other_fields :: "ustr set \<Rightarrow> 'f doc \<Rightarrow> 'f doc" where
  \<comment> \<open>the fields of an object with other names, in their order\<close>
  "other_fields names d = filter (\<lambda>(k, _). k \<notin> names) d"

definition same_but_image :: "ustr \<Rightarrow> 'f pyjson \<Rightarrow> 'f pyjson \<Rightarrow> bool" where
  "same_but_image uri c c' \<longleftrightarrow> (\<exists>kvs kvs'. c = PDict kvs \<and> c' = PDict kvs' \<and>
     other_fields {u ''image''} kvs' = other_fields {u ''image''} kvs \<and> map_of kvs' (u ''image'') = Some (PStr uri))"

definition only_image_differs :: "ustr \<Rightarrow> ustr \<Rightarrow> 'f doc \<Rightarrow> 'f doc \<Rightarrow> bool" where
  \<comment> \<open>the same fields but those AWS adds, and container by container the same, but for one image\<close>
  "only_image_differs uri name source out \<longleftrightarrow>
     other_fields {u ''containerDefinitions''} out =
       other_fields (insert (u ''containerDefinitions'') (set READ_ONLY_FIELDS)) source \<and>
     (\<exists>cs cs'. get_list source ''containerDefinitions'' = Some cs \<and> get_list out ''containerDefinitions'' = Some cs' \<and>
        list_all2 (\<lambda>c c'. if is_named name c then same_but_image uri c c' else c' = c) cs cs')"

lemma other_fields_update: "k \<in> names \<Longrightarrow> other_fields names (AList.update k x d) = other_fields names d"
  by (induction d) (auto simp: other_fields_def)

lemma set_image_same: "is_named name c \<Longrightarrow> same_but_image uri c (set_image uri c)"
  by (cases c) (auto simp: is_named_def same_but_image_def set_image_def other_fields_update update_conv')

lemma rendered_difference:
  assumes "rendered uri name source = Inr out"
  shows "only_image_differs uri name (unwrap source) out"
  using assms
proof (rule rendered_Inr)
  fix cs c
  assume cs: "get_list (task_definition_payload (unwrap source)) ''containerDefinitions'' = Some cs"
    and out: "out = AList.update (u ''containerDefinitions'')
      (PList (map (\<lambda>c. if is_named name c then set_image uri c else c) cs)) (task_definition_payload (unwrap source))"
  have "u ''containerDefinitions'' \<notin> set READ_ONLY_FIELDS" by (simp add: READ_ONLY_FIELDS_def u_def)
  then have "get_list (unwrap source) ''containerDefinitions'' = Some cs"
    using cs by (simp add: get_list_def task_definition_payload_def map_of_filter_key)
  moreover have "get_list out ''containerDefinitions'' = Some (map (\<lambda>c. if is_named name c then set_image uri c else c) cs)"
    by (simp add: out get_list_def update_conv')
  moreover have "list_all2 (\<lambda>c c'. if is_named name c then same_but_image uri c c' else c' = c) cs
      (map (\<lambda>c. if is_named name c then set_image uri c else c) cs)"
    by (induction cs) (simp_all add: set_image_same)
  moreover have "other_fields {u ''containerDefinitions''} out =
      other_fields (insert (u ''containerDefinitions'') (set READ_ONLY_FIELDS)) (unwrap source)"
    by (simp add: out other_fields_update) (auto simp: other_fields_def task_definition_payload_def intro!: filter_cong)
  ultimately show ?thesis by (auto simp: only_image_differs_def)
qed

lemma registered_image:
  assumes "task_definition_image_from_payload out name = Inr uri" "unwrap out = out"
    and "map_of response (u ''taskDefinition'') = Some (PDict reg)"
    and "get_list reg ''containerDefinitions'' = get_list out ''containerDefinitions''"
  shows "task_definition_image_from_payload response name = Inr uri"
  using assms by (simp add: task_definition_image_from_payload_def unwrap_def)

text \<open>
  C25. What the tool renders is what it later accepts, and it changes one image and nothing else. When a
  reviewed task definition, nested in at most one \<open>taskDefinition\<close> object, is rendered with an image, the
  written file parses again; the check of the digest accepts it, and any response of AWS whose
  registered definition has the same containers. The containers are those of the source, one by one and in
  their order: all but the named one are identical, and the named one has the new image and otherwise the
  same entries in the same order. The other fields are those of the source in their order, without the
  fields AWS adds, and no other file changes.
\<close>

theorem rendered_definition_accepted:
  assumes fl: "floats_ok fl" and source: "load_json fl fs source_path = Inr source" "singly_nested source"
    and run: "render_task_definition fl writable fs source_path path uri name = (Inr (), fs')"
  shows "\<exists>out. load_json fl fs' path = Inr out \<and>
    assert_task_definition_digest fl fs' path uri name = Inr () \<and>
    (\<forall>response reg. map_of response (u ''taskDefinition'') = Some (PDict reg) \<and>
       get_list reg ''containerDefinitions'' = get_list out ''containerDefinitions'' \<longrightarrow>
       task_definition_image_from_payload response name = Inr uri) \<and>
    only_image_differs uri name (unwrap source) out \<and>
    (\<forall>k. k \<noteq> u ''containerDefinitions'' \<longrightarrow>
       map_of out k = (if k \<in> set READ_ONLY_FIELDS then None else map_of (unwrap source) k)) \<and>
    (\<forall>p. p \<noteq> path \<longrightarrow> fs' p = fs p)"
proof -
  from run source(1) obtain img out where img: "validate_image_uri uri = Inr img" and out: "rendered uri name source = Inr out"
    and w: "write_file writable fs path (dumps fl False (PDict out) @ [10]) = (Inr (), fs')"
    by (auto simp: render_task_definition_def bindE_Inr_iff split: sum.splits)
  have ok: "doc_ok False (PDict out)" using rendered_ok [OF out load_json_ok [OF source(1)]] .
  have fs': "fs' = fs(path \<mapsto> FileText (dumps fl False (PDict out) @ [10]))" using w by (rule write_file_Inr)
  then have read: "loads_file fl fs' path = Inr (PDict out)" by (simp add: loads_file_def loads_dumps [OF fl ok])
  have image: "task_definition_image_from_payload out name = Inr uri" by (rule rendered_image [OF out source(2)])
  have "assert_task_definition_digest fl fs' path uri name = Inr ()"
    by (simp add: assert_task_definition_digest_def img read image check_def guardE_def)
  moreover have "load_json fl fs' path = Inr out" using read by (simp add: load_json_Inr)
  ultimately show ?thesis
    using registered_image [OF image rendered_unwrap [OF out source(2)]] rendered_difference [OF out]
      rendered_lookup [OF out] fs' by auto
qed

subsection \<open>Accepted deployments\<close>

lemma check_Inr [simp]: "check b e = Inr x \<longleftrightarrow> b"
  by (simp add: check_def)

lemma reject_Inr [simp]: "reject e \<noteq> Inr x"
  by (simp add: reject_def)

lemma inj_u: "u v = u w \<longleftrightarrow> v = w"
  by (auto simp: u_def intro: map_injective [OF _ inj_onI] dest: injD)

lemma required_Inr: "required values name = Inr w \<Longrightarrow> w \<noteq> []"
  by (auto simp: required_def Let_def split: if_splits)

lemma csv_ids_Inr: "csv_ids w p label = Inr items \<Longrightarrow> items \<noteq> [] \<and> list_all p items"
  by (auto simp: csv_ids_def Let_def split: if_splits)

lemma safe_reference_Inr: "safe_reference w name = Inr v \<longleftrightarrow> v = w \<and> SAFE_REFERENCE w"
  by (auto simp: safe_reference_def)

lemma check_identity_Inr:
  assumes "check_identity values env_name = Inr (role, repository, ref, audience, subject)"
  shows "AWS_ROLE_ARN role" "ref = u ''refs/heads/main''" "required values ''GITHUB_REF'' = Inr (u ''refs/heads/main'')"
    "audience = u ''sts.amazonaws.com''" "subject = expected_subject repository env_name" "repository \<noteq> []"
  using assms by (auto simp: check_identity_def bindE_Inr_iff dest: required_Inr)

lemma check_network_Inr:
  assumes "check_network ip o' values = Inr (subnets, groups, url)"
  shows "subnets \<noteq> []" "list_all AWS_SUBNET_ID subnets" "groups \<noteq> []" "list_all AWS_SECURITY_GROUP_ID groups"
    "origin_https ip o' url = Some True"
proof -
  from assms obtain w1 w2 where "csv_ids w1 AWS_SUBNET_ID ''subnet'' = Inr subnets"
      "csv_ids w2 AWS_SECURITY_GROUP_ID ''security-group'' = Inr groups" and o: "origin_https ip o' url = Some True"
    by (auto simp: check_network_def bindE_Inr_iff Let_def split: option.splits)
  then show "subnets \<noteq> []" "list_all AWS_SUBNET_ID subnets" "groups \<noteq> []" "list_all AWS_SECURITY_GROUP_ID groups"
    by (blast dest: csv_ids_Inr)+
  show "origin_https ip o' url = Some True" by (rule o)
qed

definition rollback_prepared :: "inputs \<Rightarrow> ustr \<Rightarrow> bool" where
  \<comment> \<open>a rollback is an upgrade and names the digest it goes back to\<close>
  "rollback_prepared values mode \<longleftrightarrow>
     (get_strip values ''SUPPORTFLOW_RELEASE_OPERATION'' (u ''deploy'') = u ''rollback'' \<longrightarrow>
       mode = u ''upgrade'' \<and>
       (\<exists>uri repository sha. required values ''SUPPORTFLOW_PREVIOUS_RELEASE_IMAGE'' = Inr uri \<and>
          validate_image_uri uri = Inr (repository, sha)))"

lemma check_release_Inr:
  assumes "check_release values = Inr (mode, backup, schema, logs)"
  shows "is_true values ''SUPPORTFLOW_MIGRATION_BACKUP_CONFIRMED''" "SAFE_REFERENCE backup" "SAFE_REFERENCE schema"
    "mode \<in> {u ''bootstrap'', u ''upgrade''}" "rollback_prepared values mode"
  using assms
  by (auto simp: check_release_def bindE_Inr_iff Let_def safe_reference_Inr rollback_prepared_def split: if_splits)

lemma from_env_parts:
  assumes "from_env ip o' values = Inr c"
  shows "rc_environment c \<in> set ALLOWED_ENVIRONMENTS"
    and "check_identity values (rc_environment c) =
      Inr (rc_oidc_role_arn c, rc_github_repository c, rc_allowed_deploy_ref c, rc_oidc_audience c, rc_oidc_subject c)"
    and "check_network ip o' values = Inr (rc_subnet_ids c, rc_security_group_ids c, rc_alb_base_url c)"
    and "check_release values = Inr (rc_deployment_mode c, rc_backup_reference c, rc_schema_compatibility_reference c,
      rc_cloudwatch_log_groups c)"
  using assms by (auto simp: from_env_def bindE_Inr_iff)

lemma expected_subject_inj:
  assumes "expected_subject r e = expected_subject r' e'" "e \<in> set ALLOWED_ENVIRONMENTS" "e' \<in> set ALLOWED_ENVIRONMENTS"
  shows "e = e' \<and> r = r'"
proof -
  have l: "last (expected_subject r e) = last e" if "e \<in> set ALLOWED_ENVIRONMENTS" for r e
    using that by (auto simp: expected_subject_def ALLOWED_ENVIRONMENTS_def u_def)
  have "e = e'" using l [OF assms(2), of r] l [OF assms(3), of r'] assms
    by (auto simp: ALLOWED_ENVIRONMENTS_def u_def)
  with assms(1) show ?thesis by (simp add: expected_subject_def)
qed

text \<open>
  A configuration the tool accepts deploys from the main branch only, with a reviewed environment, a
  confirmed backup, networks and references of the reviewed form and an HTTPS origin, and a rollback names
  the digest it returns to. Its identity subject determines the repository and the environment:
  two accepted configurations with the same subject agree on both.
\<close>

lemma deployment_bound:
  assumes c: "from_env ip other values = Inr c" and c': "from_env ip' other' values' = Inr c'"
  shows "required values ''GITHUB_REF'' = Inr (u ''refs/heads/main'') \<and> rc_allowed_deploy_ref c = u ''refs/heads/main'' \<and>
    rc_environment c \<in> {u ''staging'', u ''production-demo''} \<and>
    is_true values ''SUPPORTFLOW_MIGRATION_BACKUP_CONFIRMED'' \<and>
    rc_subnet_ids c \<noteq> [] \<and> list_all AWS_SUBNET_ID (rc_subnet_ids c) \<and>
    rc_security_group_ids c \<noteq> [] \<and> list_all AWS_SECURITY_GROUP_ID (rc_security_group_ids c) \<and>
    SAFE_REFERENCE (rc_backup_reference c) \<and> SAFE_REFERENCE (rc_schema_compatibility_reference c) \<and>
    origin_https ip other (rc_alb_base_url c) = Some True \<and> rollback_prepared values (rc_deployment_mode c) \<and>
    (rc_oidc_subject c = rc_oidc_subject c' \<longrightarrow>
       rc_environment c = rc_environment c' \<and> rc_github_repository c = rc_github_repository c')"
proof -
  note p = from_env_parts [OF c] and p' = from_env_parts [OF c']
  note i = check_identity_Inr [OF p(2)] and i' = check_identity_Inr [OF p'(2)]
  have "rc_environment c \<in> {u ''staging'', u ''production-demo''}" using p(1) by (simp add: ALLOWED_ENVIRONMENTS_def)
  moreover have "rc_environment c = rc_environment c' \<and> rc_github_repository c = rc_github_repository c'"
    if "rc_oidc_subject c = rc_oidc_subject c'"
    using that expected_subject_inj p(1) p'(1) unfolding i(5) i'(5) by blast
  ultimately show ?thesis
    using i(2,3) check_network_Inr [OF p(3)] check_release_Inr [OF p(4)] by simp
qed

subsection \<open>Evidence that was built\<close>

lemma digit_scalar: "digit_value c \<noteq> None \<Longrightarrow> scalar_value c"
proof -
  assume "digit_value c \<noteq> None"
  then obtain z where z: "find (\<lambda>z. z \<le> c \<and> c < z + 10) digit_zeros = Some z" by (auto simp: digit_value_def)
  have "list_all (\<lambda>z. z + 10 \<le> 55296 \<or> 57344 \<le> z \<and> z + 10 \<le> 1114112) digit_zeros"
    by (simp add: digit_zeros_def)
  with find_SomeD [OF z] show ?thesis by (auto simp: list_all_iff scalar_value_def)
qed

lemma iso_scalar: "ISO_UTC w \<Longrightarrow> list_all scalar_value w"
proof -
  have "list_all2 (\<lambda>t c. if t = CHR ''d'' then digit_value c \<noteq> None else c = of_char t) ts w \<Longrightarrow>
      list_all (\<lambda>t. (of_char t :: nat) < 128) ts \<Longrightarrow> list_all scalar_value w" for ts
    by (induction ts w rule: list_all2_induct) (auto simp: digit_scalar scalar_small split: if_splits)
  then show "ISO_UTC w \<Longrightarrow> list_all scalar_value w" by (simp add: ISO_UTC_def)
qed

lemma safe_small: "SAFE_REFERENCE w \<Longrightarrow> list_all (\<lambda>c. c < 128) w"
  by (cases w) (auto simp: SAFE_REFERENCE_def alphanumeric_def in_range_def u_def list_all_iff)

lemma lower_hex_alphanumeric: "lower_hex c \<Longrightarrow> alphanumeric c"
  by (auto simp: lower_hex_def alphanumeric_def in_range_def)

lemma hex_safe: "w \<noteq> [] \<Longrightarrow> length w \<le> 200 \<Longrightarrow> list_all lower_hex w \<Longrightarrow> SAFE_REFERENCE w"
  by (cases w) (auto simp: SAFE_REFERENCE_def list_all_iff dest: lower_hex_alphanumeric)

lemma sha_safe: "SHA256_DIGEST w \<Longrightarrow> SAFE_REFERENCE w"
proof -
  assume a: "SHA256_DIGEST w"
  define h where "h = drop (length ''sha256:'') w"
  from a have h: "starts ''sha256:'' w" "length h = 64" "list_all lower_hex h"
    by (simp_all only: SHA256_DIGEST_def after_prefix_def h_def split: if_split_asm option.split_asm) auto
  then have "w = u ''sha256:'' @ h"
    unfolding starts_def h_def by (metis append_take_drop_id)
  then show ?thesis using h(2,3)
    by (auto simp: SAFE_REFERENCE_def u_def alphanumeric_def in_range_def list_all_iff lower_hex_def)
qed

lemma safe_references_Inr: "safe_references xs = Inr x \<Longrightarrow> list_all (\<lambda>(_, v). SAFE_REFERENCE v) xs"
  by (induction xs rule: safe_references.induct) (auto simp: bindE_Inr_iff safe_reference_Inr)

lemma validate_image_uri_Inr: "validate_image_uri uri = Inr (repository, sha) \<Longrightarrow> SHA256_DIGEST sha \<and> repository \<noteq> []"
  by (auto simp: validate_image_uri_def Let_def split: if_splits)

lemma commit_safe: "COMMIT_SHA w \<Longrightarrow> SAFE_REFERENCE w"
  by (rule hex_safe) (auto simp: COMMIT_SHA_def)

lemma literal_safe:
  "SAFE_REFERENCE (u ''1'')" "SAFE_REFERENCE (u ''staging'')" "SAFE_REFERENCE (u ''production-demo'')"
  "SAFE_REFERENCE (u ''bootstrap'')" "SAFE_REFERENCE (u ''upgrade'')" "SAFE_REFERENCE (u ''deploy'')"
  "SAFE_REFERENCE (u ''rollback'')" "SAFE_REFERENCE (u ''none'')" "SAFE_REFERENCE (u ''passed'')"
  "SAFE_REFERENCE (u ''rolled_back'')"
  by code_simp+

lemma literal_choices:
  "w \<in> {u ''staging'', u ''production-demo''} \<Longrightarrow> SAFE_REFERENCE w"
  "w \<in> {u ''bootstrap'', u ''upgrade''} \<Longrightarrow> SAFE_REFERENCE w"
  "w \<in> {u ''deploy'', u ''rollback''} \<Longrightarrow> SAFE_REFERENCE w"
  "w \<in> {u ''passed'', u ''rolled_back''} \<Longrightarrow> SAFE_REFERENCE w"
  "w = u ''none'' \<or> SHA256_DIGEST w \<Longrightarrow> SAFE_REFERENCE w"
  using literal_safe sha_safe by blast+

lemma check_operation_Inr:
  assumes "check_operation a = Inr ()"
  shows "ei_environment a \<in> {u ''staging'', u ''production-demo''}" "ei_deployment_mode a \<in> {u ''bootstrap'', u ''upgrade''}"
    "ei_operation a \<in> {u ''deploy'', u ''rollback''}" "ei_operation a = u ''deploy'' \<Longrightarrow> ei_smoke_status a = u ''passed''"
  using assms unfolding check_operation_def Let_def bindE_Inr_iff check_Inr ALLOWED_ENVIRONMENTS_def by simp_all

lemma check_previous_release_Inr:
  assumes "check_previous_release a = Inr ()"
  shows "ei_previous_image_digest a = u ''none'' \<or> SHA256_DIGEST (ei_previous_image_digest a)"
  using assms unfolding check_previous_release_def by (cases "ei_deployment_mode a = u ''bootstrap''") simp_all

lemma build_release_evidence_Inr:
  assumes "build_release_evidence a = Inr ev"
  obtains sha where "ev = evidence_fields a sha" "SHA256_DIGEST sha" "COMMIT_SHA (ei_commit_sha a)"
    "ISO_UTC (ei_release_started_at a)" "check_operation a = Inr ()" "check_previous_release a = Inr ()"
    "SAFE_REFERENCE (ei_backup_reference a)" "SAFE_REFERENCE (ei_schema_compatibility_reference a)"
    "SAFE_REFERENCE (ei_migration_revision a)" "SAFE_REFERENCE (ei_api_task_definition a)"
    "SAFE_REFERENCE (ei_worker_task_definition a)" "SAFE_REFERENCE (ei_previous_api_task_definition a)"
    "SAFE_REFERENCE (ei_previous_worker_task_definition a)" "ei_smoke_status a \<in> {u ''passed'', u ''rolled_back''}"
proof -
  from assms obtain r sha x where "validate_image_uri (ei_image_uri a) = Inr (r, sha)" "ev = evidence_fields a sha"
    "COMMIT_SHA (ei_commit_sha a)" "ISO_UTC (ei_release_started_at a)" "check_operation a = Inr ()"
    "check_previous_release a = Inr ()" "ei_smoke_status a \<in> {u ''passed'', u ''rolled_back''}"
    and refs: "safe_references
       [(''backup_reference'', ei_backup_reference a),
        (''schema_compatibility_reference'', ei_schema_compatibility_reference a),
        (''migration_revision'', ei_migration_revision a), (''api_task_definition'', ei_api_task_definition a),
        (''worker_task_definition'', ei_worker_task_definition a),
        (''previous_api_task_definition'', ei_previous_api_task_definition a),
        (''previous_worker_task_definition'', ei_previous_worker_task_definition a)] = Inr x"
    by (fastforce simp: build_release_evidence_def bindE_Inr_iff simp del: safe_references.simps)
  with safe_references_Inr [OF refs] validate_image_uri_Inr that show ?thesis by simp
qed

lemma evidence_values:
  assumes "build_release_evidence a = Inr ev" "(k, v) \<in> set ev"
  shows "if k = u ''release_started_at'' then ISO_UTC v else SAFE_REFERENCE v"
  using assms(1)
proof (rule build_release_evidence_Inr)
  fix sha
  assume a: "ev = evidence_fields a sha" "SHA256_DIGEST sha" "COMMIT_SHA (ei_commit_sha a)"
    "ISO_UTC (ei_release_started_at a)" "check_operation a = Inr ()" "check_previous_release a = Inr ()"
    "SAFE_REFERENCE (ei_backup_reference a)" "SAFE_REFERENCE (ei_schema_compatibility_reference a)"
    "SAFE_REFERENCE (ei_migration_revision a)" "SAFE_REFERENCE (ei_api_task_definition a)"
    "SAFE_REFERENCE (ei_worker_task_definition a)" "SAFE_REFERENCE (ei_previous_api_task_definition a)"
    "SAFE_REFERENCE (ei_previous_worker_task_definition a)" "ei_smoke_status a \<in> {u ''passed'', u ''rolled_back''}"
  have "SAFE_REFERENCE (ei_environment a)" "SAFE_REFERENCE (ei_deployment_mode a)" "SAFE_REFERENCE (ei_operation a)"
      "SAFE_REFERENCE (ei_smoke_status a)" "SAFE_REFERENCE (ei_previous_image_digest a)"
    using a(5,6,14) literal_safe
    using check_operation_Inr(1-3) [OF a(5)] check_previous_release_Inr [OF a(6)] a(14)
    by (blast intro: literal_choices)+
  then have "list_all (\<lambda>(k, v). if k = u ''release_started_at'' then ISO_UTC v else SAFE_REFERENCE v) (evidence_fields a sha)"
    using a(4,7-13) sha_safe [OF a(2)] commit_safe [OF a(3)] literal_safe(1) by (simp add: evidence_fields_def inj_u)
  then show ?thesis using assms(2) unfolding a(1) list_all_iff by blast
qed

lemma evidence_keys:
  "map fst (evidence_fields a sha) = map u [''schema_version'', ''commit_sha'', ''image_digest'', ''environment'',
     ''deployment_mode'', ''operation'', ''release_started_at'', ''backup_reference'', ''schema_compatibility_reference'',
     ''migration_revision'', ''api_task_definition'', ''worker_task_definition'', ''previous_api_task_definition'',
     ''previous_worker_task_definition'', ''previous_image_digest'', ''smoke_status'']"
  by (simp add: evidence_fields_def)

lemma distinct_evidence_keys: "distinct (map fst (evidence_fields a sha))"
  unfolding evidence_keys by (subst distinct_map) (auto intro: inj_onI simp: inj_u)

lemma evidence_allowed: "fst ` set (evidence_fields a sha) = ALLOWED_FIELDS"
  by (simp add: evidence_fields_def ALLOWED_FIELDS_def)

lemma evidence_document_ok:
  assumes "build_release_evidence a = Inr ev"
  shows "doc_ok True (PDict (evidence_document ev :: 'f doc))"
  using assms
proof (rule build_release_evidence_Inr)
  fix sha
  assume ev: "ev = evidence_fields a sha"
  have "map fst (evidence_document ev :: 'f doc) = map fst (sort_key fst ev)" by (simp add: evidence_document_def comp_def case_prod_beta)
  moreover have "distinct (map fst (sort_key fst ev))"
    using distinct_evidence_keys [of a sha] unfolding ev distinct_map by simp
  ultimately have "distinct (map fst (evidence_document ev :: 'f doc))" by (simp only:)
  moreover have "list_all scalar_value k \<and> list_all scalar_value v" if "(k, v) \<in> set ev" for k v
  proof
    have "k \<in> set (map fst (evidence_fields a sha))" using that ev by force
    then show "list_all scalar_value k" unfolding evidence_keys by (auto simp: u_def scalar_value_def)
    show "list_all scalar_value v"
      using evidence_values [OF assms that] iso_scalar safe_small [of v] scalar_small
      by (auto simp: list_all_iff split: if_splits)
  qed
  ultimately show ?thesis
    by (auto simp: doc_ok.simps(7) list_all_iff evidence_document_def simp del: map_map)
qed

text \<open>
  C26. Evidence that was built is written and reads back, and holds nothing but references. The
  allowlist of the writer accepts every record the builder returns; the written file parses to exactly
  the fields of the record; every value is a short reference of the reviewed alphabet, and the start
  of the release has the form of a UTC time stamp; and a record of a deployment has passed its smoke test.
\<close>

theorem evidence_written:
  assumes fl: "floats_ok fl" and ev: "build_release_evidence a = Inr ev"
  shows "\<exists>fs' doc. write_release_evidence fl True fs path ev = (Inr (), fs') \<and> load_json fl fs' path = Inr doc \<and>
    map_of doc = map_option PStr \<circ> map_of ev \<and> dom (map_of doc) = ALLOWED_FIELDS \<and>
    (\<forall>k v. (k, v) \<in> set ev \<longrightarrow> (if k = u ''release_started_at'' then ISO_UTC v else SAFE_REFERENCE v)) \<and>
    (ei_operation a = u ''deploy'' \<longrightarrow> map_of doc (u ''smoke_status'') = Some (PStr (u ''passed'')))"
  using ev
proof (rule build_release_evidence_Inr)
  fix sha
  assume a: "ev = evidence_fields a sha" "check_operation a = Inr ()"
  let ?doc = "evidence_document ev :: 'a doc" and ?w = "dumps fl True (PDict (evidence_document ev)) @ [10]"
  have ok: "doc_ok True (PDict ?doc)" by (rule evidence_document_ok [OF ev])
  have "list_all scalar_value ?w"
    using value_text_scalar [OF fl ok, of True 0] by (simp add: dumps_def scalar_value_def)
  then have w: "write_release_evidence fl True fs path ev = (Inr (), fs(path \<mapsto> FileText ?w))"
    using evidence_allowed [of a sha] a(1) by (simp add: write_release_evidence_def write_file_def)
  have r: "load_json fl (fs(path \<mapsto> FileText ?w)) path = Inr ?doc"
    by (simp add: load_json_Inr loads_file_def loads_dumps [OF fl ok])
  have d: "distinct (map fst ev)" using distinct_evidence_keys a(1) by simp
  have "map_of (sort_key fst ev) = map_of ev"
    using d by (subst map_of_inject_set) (simp_all add: distinct_map)
  then have m: "map_of ?doc = map_option PStr \<circ> map_of ev"
    by (auto simp: evidence_document_def map_of_map)
  have "dom (map_option PStr \<circ> map_of ev) = ALLOWED_FIELDS"
    using evidence_allowed [of a sha] a(1) by (simp add: dom_map_option_comp dom_map_of_conv_image_fst)
  then have "dom (map_of ?doc) = ALLOWED_FIELDS" by (simp only: m)
  moreover have "map_of ?doc (u ''smoke_status'') = Some (PStr (u ''passed''))" if "ei_operation a = u ''deploy''"
  proof -
    have "ei_smoke_status a = u ''passed''"
      using check_operation_Inr(4) [OF a(2) that] .
    then have "(u ''smoke_status'', u ''passed'') \<in> set ev" by (simp add: a(1) evidence_fields_def)
    then show ?thesis using d by (simp add: m)
  qed
  ultimately show ?thesis using w r m evidence_values [OF ev] by blast
qed

subsection \<open>The migration gate\<close>

lemma run_task_arn_Inr:
  "run_task_arn payload = Inr arn \<longleftrightarrow> get_list payload ''failures'' \<in> {None, Some []} \<and> arn \<noteq> [] \<and>
    (\<exists>task. get_list payload ''tasks'' = Some [PDict task] \<and> map_of task (u ''taskArn'') = Some (PStr arn))"
  by (auto simp: run_task_arn_def split: option.splits list.splits pyjson.splits)

lemma single_container:
  "length (filter (is_named name) cs) = 1 \<longleftrightarrow> (\<exists>c. filter (is_named name) cs = [PDict c])"
proof
  assume "length (filter (is_named name) cs) = 1"
  then obtain x where x: "filter (is_named name) cs = [x]" by (auto simp: length_Suc_conv)
  then have "x \<in> set (filter (is_named name) cs)" by simp
  then have "is_named name x" by simp
  then show "\<exists>c. filter (is_named name) cs = [PDict c]" using x by (cases x) (auto simp: is_named_def)
qed auto

lemma migration_gate:
  assumes "validate_migration_task_result fl repr payload name = Inr ()"
  shows "\<exists>task cs c arn. get_list payload ''tasks'' = Some [PDict task] \<and> map_of task (u ''taskArn'') = Some (PStr arn) \<and>
    has_text task ''lastStatus'' ''STOPPED'' \<and> has_text task ''stopCode'' ''EssentialContainerExited'' \<and>
    get_list task ''containers'' = Some cs \<and> filter (is_named name) cs = [PDict c] \<and>
    has_text c ''lastStatus'' ''STOPPED'' \<and> is_zero fl (map_of c (u ''exitCode''))"
proof -
  from assms obtain arn where arn: "run_task_arn payload = Inr arn"
    by (auto simp: validate_migration_task_result_def bindE_Inr_iff)
  then obtain task where task: "get_list payload ''tasks'' = Some [PDict task]" "map_of task (u ''taskArn'') = Some (PStr arn)"
    by (auto simp: run_task_arn_Inr)
  then have s: "single_task payload = task" by (simp add: single_task_def)
  with assms arn have t: "has_text task ''lastStatus'' ''STOPPED''" "has_text task ''stopCode'' ''EssentialContainerExited''"
    and c: "(case get_list task ''containers'' of None \<Rightarrow> reject NoContainerResults
       | Some containers \<Rightarrow>
           (case filter (is_named name) containers of
              [PDict c] \<Rightarrow> check (has_text c ''lastStatus'' ''STOPPED'' \<and> is_zero fl (map_of c (u ''exitCode''))) ContainerFailed
            | _ \<Rightarrow> reject (ContainerNotUnique name))) = Inr ()"
    by (auto simp: validate_migration_task_result_def bindE_Inr_iff Let_def)
  from c obtain cs where cs: "get_list task ''containers'' = Some cs" by (cases "get_list task ''containers''") auto
  with c obtain d where d: "filter (is_named name) cs = [PDict d]"
    by (auto split: list.split_asm pyjson.split_asm)
  with c cs have "has_text d ''lastStatus'' ''STOPPED''" "is_zero fl (map_of d (u ''exitCode''))" by auto
  then show ?thesis using task t cs d by blast
qed

subsection \<open>What the checks let through\<close>

definition printable :: "ustr \<Rightarrow> bool" where
  "printable w \<longleftrightarrow> list_all (\<lambda>c. 32 < c \<and> c < 127) w"

lemma printable_strip: "printable w \<Longrightarrow> ustrip w = w"
  unfolding ustrip_def by (rule strip_by_absent) (auto simp: printable_def list_all_iff is_space_def)

lemma sha_no_at: "SHA256_DIGEST d \<Longrightarrow> 64 \<notin> set d"
  using sha_safe [of d] by (cases d) (auto simp: SAFE_REFERENCE_def alphanumeric_def in_range_def u_def list_all_iff)

lemma image_uri_accepted:
  assumes "repository \<noteq> []" "SHA256_DIGEST d" "printable (repository @ 64 # d)"
  shows "validate_image_uri (repository @ 64 # d) = Inr (repository, d)"
proof -
  have "takeWhile (\<lambda>x. x \<noteq> 64) (rev d @ 64 # rev repository) = rev d"
    using sha_no_at [OF assms(2)] by (subst takeWhile_append2) auto
  then have "after_last 64 (repository @ 64 # d) = d" by (simp add: after_last_def)
  then show ?thesis using assms by (simp add: validate_image_uri_def printable_strip)
qed

lemma sample_sha: "SHA256_DIGEST (u ''sha256:'' @ replicate 64 97)" "printable (u ''sha256:'' @ replicate 64 97)"
  by (simp_all add: SHA256_DIGEST_def after_prefix_def starts_def u_def lower_hex_def in_range_def list_all_iff printable_def)

lemma any_registry_accepted:
  "validate_image_uri (u ''registry.example/app'' @ 64 # u ''sha256:'' @ replicate 64 97) =
    Inr (u ''registry.example/app'', u ''sha256:'' @ replicate 64 97)"
  by (rule image_uri_accepted) (use sample_sha in \<open>simp_all add: printable_def u_def\<close>)

lemma ascii_digit: "48 \<le> c \<Longrightarrow> c < 58 \<Longrightarrow> digit_value c \<noteq> None"
  by (simp add: digit_value_def digit_zeros_def)

lemma impossible_start_accepted: "ISO_UTC (u ''2026-99-99T99:99:99Z'')"
  by (simp add: ISO_UTC_def u_def ascii_digit del: not_None_eq)

subsection \<open>Witnesses\<close>

definition sample_floats :: "int floats" where
  "sample_floats = \<lparr>fl_of_text = (\<lambda>w. int_of_text (takeWhile (\<lambda>c. c \<noteq> 46) w)), fl_text = (\<lambda>k. int_text k @ [46, 48]),
     fl_is_zero = (\<lambda>k. k = 0)\<rparr>"

lemma sample_floats_ok: "floats_ok sample_floats"
proof -
  have c: "list_all (\<lambda>c. c \<noteq> 46 \<and> c < 128) (int_text k)" for k
    using nat_text_digits [of "nat k"] nat_text_digits [of "nat (- k)"]
    by (fastforce simp: int_text_def list_all_iff is_digit_def)
  have "takeWhile (\<lambda>c. c \<noteq> 46) (int_text k @ [46, 48]) = int_text k" for k
    using c [of k] by (simp add: takeWhile_append list_all_iff takeWhile_eq_all_conv)
  moreover have "float_token (int_text k @ [46, 48])" for k
  proof -
    have "read_integer (int_text k @ [46, 48]) = Some (int_text k, [46, 48])"
      using read_integer_nat [of "[46, 48]"] by (simp add: int_text_def is_digit_def)
    moreover have "read_fraction [46, 48] = ([46, 48], [])" "read_exponent [] = ([], [])"
      by (simp_all add: read_fraction_def read_exponent_def span_digits_def is_digit_def)
    ultimately show ?thesis by (simp add: float_token_def)
  qed
  ultimately show ?thesis using c by (auto simp: floats_ok_def sample_floats_def int_of_int_text list_all_iff)
qed

definition sample_source :: "int doc" where
  "sample_source = [(u ''taskDefinition'', PDict
     [(u ''taskDefinitionArn'', PStr (u ''arn:4'')), (u ''revision'', PInt 4), (u ''family'', PStr (u ''supportflow-api'')),
      (u ''containerDefinitions'', PList
         [PDict [(u ''name'', PStr (u ''api'')), (u ''image'', PStr (u ''old.example/supportflow:old''))],
          PDict [(u ''name'', PStr (u ''clamd'')), (u ''image'', PStr (u ''clamav:approved''))]])])]"

definition sample_uri :: ustr where
  "sample_uri = u ''1.dkr.ecr/supportflow'' @ 64 # u ''sha256:'' @ replicate 64 97"

lemma sample_uri_accepted:
  "validate_image_uri sample_uri = Inr (u ''1.dkr.ecr/supportflow'', u ''sha256:'' @ replicate 64 97)"
  unfolding sample_uri_def by (rule image_uri_accepted) (use sample_sha in \<open>simp_all add: printable_def u_def\<close>)

definition sample_files :: files where
  "sample_files = [u ''source'' \<mapsto> FileText (dumps sample_floats False (PDict sample_source) @ [10])]"

lemma sample_source_ok: "doc_ok False (PDict sample_source)" "singly_nested sample_source"
  by (simp_all add: sample_source_def doc_ok.simps(7) singly_nested_def unwrap_def inj_u)

lemma sample_rendered: "\<exists>out. rendered sample_uri (u ''api'') sample_source = Inr out \<and> doc_ok True (PDict out)"
proof -
  have uri: "list_all scalar_value sample_uri" by (simp add: sample_uri_def u_def scalar_value_def list_all_iff)
  show ?thesis
    by (simp add: rendered_def sample_source_def unwrap_def task_definition_payload_def READ_ONLY_FIELDS_def inj_u get_list_def
        is_named_def set_image_def doc_ok.simps(7) uri) (simp add: u_def scalar_value_def)
qed

theorem rendered_definition_accepted_witness:
  "\<exists>fs'. render_task_definition sample_floats True sample_files (u ''source'') (u ''rendered'') sample_uri (u ''api'') = (Inr (), fs') \<and>
    assert_task_definition_digest sample_floats fs' (u ''rendered'') sample_uri (u ''api'') = Inr ()"
proof -
  obtain out where out: "rendered sample_uri (u ''api'') sample_source = Inr out" "doc_ok True (PDict out)"
    using sample_rendered by blast
  have load: "load_json sample_floats sample_files (u ''source'') = Inr sample_source"
    by (simp add: load_json_Inr loads_file_def sample_files_def loads_dumps sample_floats_ok sample_source_ok)
  have "list_all scalar_value (dumps sample_floats False (PDict out) @ [10])"
    using value_text_scalar [OF sample_floats_ok out(2)] by (simp add: dumps_def scalar_value_def)
  then have run: "render_task_definition sample_floats True sample_files (u ''source'') (u ''rendered'') sample_uri (u ''api'') =
      (Inr (), sample_files(u ''rendered'' \<mapsto> FileText (dumps sample_floats False (PDict out) @ [10])))"
    using sample_uri_accepted load out(1) by (auto simp: render_task_definition_def write_file_def)
  from rendered_definition_accepted [OF sample_floats_ok load sample_source_ok(2) run] run show ?thesis by blast
qed

definition sample_inputs :: inputs where
  "sample_inputs name = Some (
     if name = ''SUPPORTFLOW_DEPLOY_ENVIRONMENT'' then u ''staging''
     else if name = ''SUPPORTFLOW_AWS_ROLE_ARN'' then u ''arn:aws:iam::123456789012:role/supportflow-deploy''
     else if name = ''GITHUB_REPOSITORY'' then u ''kanfan/supportflow-ai''
     else if name \<in> {''GITHUB_REF'', ''SUPPORTFLOW_ALLOWED_DEPLOY_REF''} then u ''refs/heads/main''
     else if name = ''SUPPORTFLOW_OIDC_AUDIENCE'' then u ''sts.amazonaws.com''
     else if name = ''SUPPORTFLOW_OIDC_SUBJECT'' then u ''repo:kanfan/supportflow-ai:environment:staging''
     else if name \<in> {''SUPPORTFLOW_ENVIRONMENT_REVIEW_REQUIRED'', ''SUPPORTFLOW_ENVIRONMENT_NO_SELF_REVIEW'',
       ''SUPPORTFLOW_MIGRATION_BACKUP_CONFIRMED''} then u ''true''
     else if name = ''SUPPORTFLOW_ECS_SUBNET_IDS'' then u ''subnet-abc123,subnet-def456''
     else if name = ''SUPPORTFLOW_ECS_SECURITY_GROUP_IDS'' then u ''sg-abc123''
     else if name = ''SUPPORTFLOW_ALB_BASE_URL'' then u ''https://s.test''
     else if name = ''SUPPORTFLOW_RELEASE_OPERATION'' then u ''deploy''
     else if name = ''SUPPORTFLOW_DEPLOYMENT_MODE'' then u ''upgrade''
     else u ''supportflow'')"

lemma required_printable: "values name = Some w \<Longrightarrow> w \<noteq> [] \<Longrightarrow> printable w \<Longrightarrow> required values name = Inr w"
  by (simp add: required_def printable_strip)

lemma sample_texts:
  "printable (u ''staging'')" "printable (u ''arn:aws:iam::123456789012:role/supportflow-deploy'')"
  "printable (u ''kanfan/supportflow-ai'')" "printable (u ''refs/heads/main'')" "printable (u ''sts.amazonaws.com'')"
  "printable (u ''repo:kanfan/supportflow-ai:environment:staging'')" "printable (u ''subnet-abc123,subnet-def456'')"
  "printable (u ''subnet-abc123'')" "printable (u ''subnet-def456'')"
  "printable (u ''sg-abc123'')" "printable (u ''https://s.test'')" "printable (u ''deploy'')"
  "printable (u ''upgrade'')" "printable (u ''supportflow'')"
  by (simp_all add: printable_def u_def)

lemma u_nonempty: "u w \<noteq> [] \<longleftrightarrow> w \<noteq> []"
  by (simp add: u_def)

lemma sample_required:
  "required sample_inputs ''SUPPORTFLOW_DEPLOY_ENVIRONMENT'' = Inr (u ''staging'')"
  "required sample_inputs ''SUPPORTFLOW_AWS_ROLE_ARN'' = Inr (u ''arn:aws:iam::123456789012:role/supportflow-deploy'')"
  "required sample_inputs ''GITHUB_REPOSITORY'' = Inr (u ''kanfan/supportflow-ai'')"
  "required sample_inputs ''GITHUB_REF'' = Inr (u ''refs/heads/main'')"
  "required sample_inputs ''SUPPORTFLOW_ALLOWED_DEPLOY_REF'' = Inr (u ''refs/heads/main'')"
  "required sample_inputs ''SUPPORTFLOW_OIDC_AUDIENCE'' = Inr (u ''sts.amazonaws.com'')"
  "required sample_inputs ''SUPPORTFLOW_OIDC_SUBJECT'' = Inr (u ''repo:kanfan/supportflow-ai:environment:staging'')"
  "required sample_inputs ''SUPPORTFLOW_ECS_SUBNET_IDS'' = Inr (u ''subnet-abc123,subnet-def456'')"
  "required sample_inputs ''SUPPORTFLOW_ECS_SECURITY_GROUP_IDS'' = Inr (u ''sg-abc123'')"
  "required sample_inputs ''SUPPORTFLOW_ALB_BASE_URL'' = Inr (u ''https://s.test'')"
  by (rule required_printable; simp add: sample_inputs_def sample_texts u_nonempty)+

lemma sample_default:
  "required sample_inputs ''SUPPORTFLOW_BACKUP_REFERENCE'' = Inr (u ''supportflow'')"
  "required sample_inputs ''SUPPORTFLOW_SCHEMA_COMPATIBILITY_REFERENCE'' = Inr (u ''supportflow'')"
  "required sample_inputs ''SUPPORTFLOW_SMOKE_ORGANIZATION_ID'' = Inr (u ''supportflow'')"
  "required sample_inputs ''SUPPORTFLOW_SMOKE_EMAIL'' = Inr (u ''supportflow'')"
  "required sample_inputs ''SUPPORTFLOW_SMOKE_PASSWORD'' = Inr (u ''supportflow'')"
  "required sample_inputs ''SUPPORTFLOW_SMOKE_INITIAL_BODY'' = Inr (u ''supportflow'')"
  "required sample_inputs ''SUPPORTFLOW_SMOKE_FOLLOWUP_BODY'' = Inr (u ''supportflow'')"
  "required sample_inputs ''SUPPORTFLOW_CLOUDWATCH_LOG_GROUPS'' = Inr (u ''supportflow'')"
  "required sample_inputs ''AWS_REGION'' = Inr (u ''supportflow'')"
  "required sample_inputs ''SUPPORTFLOW_ECR_REPOSITORY'' = Inr (u ''supportflow'')"
  "required sample_inputs ''SUPPORTFLOW_ECS_CLUSTER'' = Inr (u ''supportflow'')"
  "required sample_inputs ''SUPPORTFLOW_ECS_API_SERVICE'' = Inr (u ''supportflow'')"
  "required sample_inputs ''SUPPORTFLOW_ECS_WORKER_SERVICE'' = Inr (u ''supportflow'')"
  "required sample_inputs ''SUPPORTFLOW_ECS_API_TASK_FAMILY'' = Inr (u ''supportflow'')"
  "required sample_inputs ''SUPPORTFLOW_ECS_WORKER_TASK_FAMILY'' = Inr (u ''supportflow'')"
  "required sample_inputs ''SUPPORTFLOW_ECS_MIGRATION_TASK_FAMILY'' = Inr (u ''supportflow'')"
  "required sample_inputs ''SUPPORTFLOW_ECS_API_CONTAINER_NAME'' = Inr (u ''supportflow'')"
  "required sample_inputs ''SUPPORTFLOW_ECS_WORKER_CONTAINER_NAME'' = Inr (u ''supportflow'')"
  "required sample_inputs ''SUPPORTFLOW_ECS_MIGRATION_CONTAINER_NAME'' = Inr (u ''supportflow'')"
  by (rule required_printable; simp add: sample_inputs_def sample_texts u_nonempty)+

lemma sample_flags:
  "is_true sample_inputs ''SUPPORTFLOW_ENVIRONMENT_REVIEW_REQUIRED''"
  "is_true sample_inputs ''SUPPORTFLOW_ENVIRONMENT_NO_SELF_REVIEW''"
  "is_true sample_inputs ''SUPPORTFLOW_MIGRATION_BACKUP_CONFIRMED''"
  "get_strip sample_inputs ''SUPPORTFLOW_RELEASE_OPERATION'' w = u ''deploy''"
  "get_strip sample_inputs ''SUPPORTFLOW_DEPLOYMENT_MODE'' w = u ''upgrade''"
  by (simp_all add: is_true_def get_strip_def sample_inputs_def printable_strip sample_texts)
    (simp_all add: ulower_def u_def in_range_def)

lemma sample_identity: "\<exists>x. check_identity sample_inputs (u ''staging'') = Inr x"
proof -
  have "AWS_ROLE_ARN (u ''arn:aws:iam::123456789012:role/supportflow-deploy'')"
    by (simp add: AWS_ROLE_ARN_def after_prefix_def starts_def u_def in_range_def alphanumeric_def)
  moreover have "u ''repo:kanfan/supportflow-ai:environment:staging'' = expected_subject (u ''kanfan/supportflow-ai'') (u ''staging'')"
    by (simp add: expected_subject_def u_def)
  ultimately show ?thesis by (simp add: check_identity_def sample_required sample_flags check_def guardE_def)
qed

lemma sample_items:
  "csv_items (u ''subnet-abc123,subnet-def456'') = [u ''subnet-abc123'', u ''subnet-def456'']"
  "csv_items (u ''sg-abc123'') = [u ''sg-abc123'']" "csv_items (u ''supportflow'') = [u ''supportflow'']"
  using sample_texts(8-10,14) [THEN printable_strip] by (simp_all add: csv_items_def u_def)

lemma sample_ids:
  "AWS_SUBNET_ID (u ''subnet-abc123'')" "AWS_SUBNET_ID (u ''subnet-def456'')" "AWS_SECURITY_GROUP_ID (u ''sg-abc123'')"
  by (simp_all add: AWS_SUBNET_ID_def AWS_SECURITY_GROUP_ID_def prefixed_hex_def after_prefix_def starts_def u_def
      lower_hex_def in_range_def)

lemma map_char_u: "map char_of (u w) = w"
  by (simp add: u_def comp_def)

lemma sample_network: "\<exists>x. check_network (\<lambda>_. False) (\<lambda>_. None) sample_inputs = Inr x"
proof -
  have url: "rstrip_slash (u ''https://s.test'') = u ''https://s.test''"
    by (simp add: rstrip_slash_def u_def)
  have "list_all (\<lambda>c. c < 128) (u ''https://s.test'')" by (simp add: u_def)
  moreover have "(case urlsplit (\<lambda>_. False) ''https://s.test'' of None \<Rightarrow> False
      | Some p \<Rightarrow> url_scheme p = ''https'' \<and> url_netloc p \<noteq> [])" by code_simp
  ultimately have "origin_https (\<lambda>_. False) (\<lambda>_. None) (u ''https://s.test'') = Some True"
    by (auto simp: origin_https_def map_char_u split: option.splits)
  then show ?thesis
    by (simp add: check_network_def sample_required csv_ids_def sample_items sample_ids url check_def guardE_def)
qed

lemma sample_release: "\<exists>x. check_release sample_inputs = Inr x"
proof -
  have "SAFE_REFERENCE (u ''supportflow'')" by code_simp
  then show ?thesis
    by (simp add: check_release_def sample_default sample_flags safe_reference_def csv_values_def sample_items check_def
        guardE_def inj_u Let_def)
qed

lemma sample_config: "\<exists>c. from_env (\<lambda>_. False) (\<lambda>_. None) sample_inputs = Inr c"
proof -
  obtain x y z where "check_identity sample_inputs (u ''staging'') = Inr x"
      "check_network (\<lambda>_. False) (\<lambda>_. None) sample_inputs = Inr y" "check_release sample_inputs = Inr z"
    using sample_identity sample_network sample_release by blast
  then show ?thesis
    by (cases x; cases y; cases z)
      (simp add: from_env_def sample_required sample_default ALLOWED_ENVIRONMENTS_def check_def guardE_def)
qed

lemma deployment_bound_example:
  "\<exists>c. from_env (\<lambda>_. False) (\<lambda>_. None) sample_inputs = Inr c \<and> rc_allowed_deploy_ref c = u ''refs/heads/main'' \<and>
    rollback_prepared sample_inputs (rc_deployment_mode c)"
proof -
  obtain c where c: "from_env (\<lambda>_. False) (\<lambda>_. None) sample_inputs = Inr c" using sample_config by blast
  from deployment_bound [OF c c] c show ?thesis by blast
qed

definition sample_evidence :: evidence_input where
  "sample_evidence = \<lparr>ei_commit_sha = replicate 40 98, ei_image_uri = sample_uri, ei_environment = u ''staging'',
     ei_deployment_mode = u ''upgrade'', ei_operation = u ''deploy'', ei_release_started_at = u ''2026-08-24T12:00:00Z'',
     ei_backup_reference = u ''backup:1'', ei_schema_compatibility_reference = u ''schema:0004'',
     ei_migration_revision = u ''0004'', ei_api_task_definition = u ''api:5'', ei_worker_task_definition = u ''worker:5'',
     ei_previous_api_task_definition = u ''api:4'', ei_previous_worker_task_definition = u ''worker:4'',
     ei_previous_image_digest = u ''sha256:'' @ replicate 64 97, ei_smoke_status = u ''passed''\<rparr>"

lemma sample_evidence_built: "\<exists>ev. build_release_evidence sample_evidence = Inr ev"
proof -
  have refs: "SAFE_REFERENCE (u ''backup:1'')" "SAFE_REFERENCE (u ''schema:0004'')" "SAFE_REFERENCE (u ''0004'')"
      "SAFE_REFERENCE (u ''api:5'')" "SAFE_REFERENCE (u ''worker:5'')" "SAFE_REFERENCE (u ''api:4'')"
      "SAFE_REFERENCE (u ''worker:4'')" by code_simp+
  have "ISO_UTC (u ''2026-08-24T12:00:00Z'')" by (simp add: ISO_UTC_def u_def ascii_digit del: not_None_eq)
  moreover have "COMMIT_SHA (replicate 40 98)" by (simp add: COMMIT_SHA_def list_all_iff lower_hex_def in_range_def)
  ultimately show ?thesis
    by (simp add: build_release_evidence_def sample_evidence_def sample_uri_accepted sample_sha check_def guardE_def
        check_operation_def check_previous_release_def ALLOWED_ENVIRONMENTS_def inj_u Let_def safe_reference_def refs)
qed

theorem evidence_written_witness:
  "\<exists>ev fs' doc. build_release_evidence sample_evidence = Inr ev \<and>
    write_release_evidence sample_floats True Map.empty (u ''evidence.json'') ev = (Inr (), fs') \<and>
    load_json sample_floats fs' (u ''evidence.json'') = Inr doc \<and> dom (map_of doc) = ALLOWED_FIELDS"
proof -
  obtain ev where ev: "build_release_evidence sample_evidence = Inr ev" using sample_evidence_built by blast
  from evidence_written [OF sample_floats_ok ev, of Map.empty "u ''evidence.json''"] ev show ?thesis by blast
qed

end
