(* ===== verification/SF_S3.thy ===== *)
theory SF_S3
  imports SF_Upload
begin

text \<open>
  \<open>app/documents/s3_storage.py\<close>: the storage adapter over the S3 client of the AWS library.

  The client is the record of the three calls the adapter makes, over the state of the service; a
  call returns its response, or the error of the library: \<open>ClientError\<close> with the error code of the service,
  or \<open>BotoCoreError\<close> for everything else, time-outs included. The locale \<open>s3_service\<close> states what
  the adapter relies on: objects are read after they were written, and keys do not interfere. The adapter
  is then a storage in the sense of \<open>document_storage\<close>, whichever of its calls fail. A body is its bytes; \<open>NoBody\<close> is a response
  without a readable body. Building the client (\<open>build_s3_client\<close>) is part of the settings.
\<close>

subsection \<open>The client\<close>

datatype 'r s3_outcome = S3Response 'r | ClientError string | BotoCoreError

datatype s3_body = Body "byte list" | NoBody

record 's s3_client =
  put_object :: "string \<Rightarrow> string \<Rightarrow> byte list \<Rightarrow> 's \<Rightarrow> unit s3_outcome \<times> 's"
  get_object :: "string \<Rightarrow> string \<Rightarrow> 's \<Rightarrow> s3_body s3_outcome"
  delete_object :: "string \<Rightarrow> string \<Rightarrow> 's \<Rightarrow> unit s3_outcome \<times> 's"

subsection \<open>The adapter\<close>

datatype s3_error = S3InvalidKey | S3ObjectNotFoundError | S3StorageUnavailableError

definition s3_bucket :: "string \<Rightarrow> string option" where
  \<comment> \<open>the bucket of \<open>S3DocumentStorage(client, bucket)\<close>; \<open>None\<close>: \<open>ValueError\<close>\<close>
  "s3_bucket bucket = (let normalized = sstrip bucket in if normalized = [] then None else Some normalized)"

definition validated_key :: "string \<Rightarrow> s3_error + string" where
  "validated_key key = (case validate_storage_key key of Inl _ \<Rightarrow> Inl S3InvalidKey
     | Inr parts \<Rightarrow> Inr (join_with (CHR ''/'') parts))"

definition s3_put :: "'s s3_client \<Rightarrow> string \<Rightarrow> string \<Rightarrow> byte list \<Rightarrow> 's \<Rightarrow> (s3_error + unit) \<times> 's" where
  "s3_put client bucket key source st =
     (case validated_key key of
        Inl e \<Rightarrow> (Inl e, st)
      | Inr k \<Rightarrow>
          (case put_object client bucket k source st of
             (S3Response _, st') \<Rightarrow> (Inr (), st')
           | (ClientError _, st') \<Rightarrow> (Inl S3StorageUnavailableError, st')
           | (BotoCoreError, st') \<Rightarrow> (Inl S3StorageUnavailableError, st')))"

definition s3_open :: "'s s3_client \<Rightarrow> string \<Rightarrow> string \<Rightarrow> 's \<Rightarrow> s3_error + byte list" where
  "s3_open client bucket key st =
     bindE (validated_key key) (\<lambda>k.
     case get_object client bucket k st of
       ClientError code \<Rightarrow>
         if code \<in> {''404'', ''NoSuchKey'', ''NotFound''} then Inl S3ObjectNotFoundError
         else Inl S3StorageUnavailableError
     | BotoCoreError \<Rightarrow> Inl S3StorageUnavailableError
     | S3Response NoBody \<Rightarrow> Inl S3StorageUnavailableError
     | S3Response (Body b) \<Rightarrow> Inr b)"

definition s3_delete :: "'s s3_client \<Rightarrow> string \<Rightarrow> string \<Rightarrow> 's \<Rightarrow> (s3_error + unit) \<times> 's" where
  "s3_delete client bucket key st =
     (case validated_key key of
        Inl e \<Rightarrow> (Inl e, st)
      | Inr k \<Rightarrow>
          (case delete_object client bucket k st of
             (S3Response _, st') \<Rightarrow> (Inr (), st')
           | (ClientError _, st') \<Rightarrow> (Inl S3StorageUnavailableError, st')
           | (BotoCoreError, st') \<Rightarrow> (Inl S3StorageUnavailableError, st')))"

subsection \<open>The adapter as a storage\<close>

fun as_storage_error :: "s3_error \<Rightarrow> storage_error" where
  "as_storage_error S3InvalidKey = InvalidStorageKeyError"
| "as_storage_error S3ObjectNotFoundError = StorageMissing"
| "as_storage_error S3StorageUnavailableError = StorageOSError"

definition port_state :: "(s3_error + unit) \<times> 's \<Rightarrow> storage_error + 's" where
  "port_state r = (case r of (Inl e, _) \<Rightarrow> Inl (as_storage_error e) | (Inr _, st') \<Rightarrow> Inr st')"

definition port_put :: "'s s3_client \<Rightarrow> string \<Rightarrow> string \<Rightarrow> byte list \<Rightarrow> 's \<Rightarrow> storage_error + 's" where
  "port_put client bucket key source st = port_state (s3_put client bucket key source st)"

definition port_open :: "'s s3_client \<Rightarrow> string \<Rightarrow> string \<Rightarrow> 's \<Rightarrow> storage_error + byte list" where
  "port_open client bucket key st = map_sum as_storage_error id (s3_open client bucket key st)"

definition port_delete :: "'s s3_client \<Rightarrow> string \<Rightarrow> string \<Rightarrow> 's \<Rightarrow> storage_error + 's" where
  "port_delete client bucket key st = port_state (s3_delete client bucket key st)"

lemma port_state_Inr [simp]: "port_state r = Inr st' \<longleftrightarrow> r = (Inr (), st')"
  by (auto simp: port_state_def split: prod.splits sum.splits)

lemma port_open_Inr [simp]: "port_open client bucket key st = Inr b \<longleftrightarrow> s3_open client bucket key st = Inr b"
  by (cases "s3_open client bucket key st") (simp_all add: port_open_def)

lemma s3_put_Inr: "s3_put client bucket key b st = (Inr (), st') \<longleftrightarrow>
    (\<exists>k. validated_key key = Inr k \<and> put_object client bucket k b st = (S3Response (), st'))"
  by (auto simp: s3_put_def split: sum.splits prod.splits s3_outcome.splits)

lemma s3_delete_Inr: "s3_delete client bucket key st = (Inr (), st') \<longleftrightarrow>
    (\<exists>k. validated_key key = Inr k \<and> delete_object client bucket k st = (S3Response (), st'))"
  by (auto simp: s3_delete_def split: sum.splits prod.splits s3_outcome.splits)

lemma s3_open_Inr: "s3_open client bucket key st = Inr b \<longleftrightarrow>
    (\<exists>k. validated_key key = Inr k \<and> get_object client bucket k st = S3Response (Body b))"
proof (cases "validated_key key")
  case (Inr k)
  then show ?thesis
    by (cases "get_object client bucket k st") (auto simp: s3_open_def split: s3_body.split)
qed (simp add: s3_open_def)

lemma validated_built_key: "validated_key (build_storage_key org d v) = Inr (build_storage_key org d v)"
  unfolding validated_key_def validate_built_key by (simp add: build_storage_key_join)

text \<open>
  What the adapter relies on: a successful write is read back, a successful deletion is seen, and no call,
  not even a failing one, touches the objects of other keys.
\<close>

locale s3_service =
  fixes client :: "'s s3_client" and bucket :: string
  assumes put_get: "put_object client bucket k b st = (S3Response (), st') \<Longrightarrow>
      get_object client bucket k st' = S3Response (Body b)"
    and put_other: "put_object client bucket k b st = (r, st') \<Longrightarrow> k' \<noteq> k \<Longrightarrow>
      get_object client bucket k' st' = get_object client bucket k' st"
    and delete_get: "delete_object client bucket k st = (S3Response (), st') \<Longrightarrow>
      get_object client bucket k st' \<noteq> S3Response (Body b)"
    and delete_other: "delete_object client bucket k st = (r, st') \<Longrightarrow> k' \<noteq> k \<Longrightarrow>
      get_object client bucket k' st' = get_object client bucket k' st"

sublocale s3_service \<subseteq> document_storage "port_put client bucket" "port_open client bucket" "port_delete client bucket"
  validated_key
proof
  fix k b st st' assume "port_put client bucket k b st = Inr st'"
  then show "port_open client bucket k st' = Inr b"
    by (auto simp: port_put_def s3_put_Inr s3_open_Inr put_get)
next
  fix k b st st' k' c
  assume "port_put client bucket k b st = Inr st'" "port_open client bucket k' st = Inr c"
    "validated_key k' \<noteq> validated_key k"
  then show "port_open client bucket k' st' = Inr c"
    by (auto simp: port_put_def s3_put_Inr s3_open_Inr put_other)
next
  fix k st st' c assume "port_delete client bucket k st = Inr st'"
  then show "port_open client bucket k st' \<noteq> Inr c"
    by (auto simp: port_delete_def s3_delete_Inr s3_open_Inr delete_get)
next
  fix k st st' k' c
  assume "port_delete client bucket k st = Inr st'" "port_open client bucket k' st = Inr c"
    "validated_key k' \<noteq> validated_key k"
  then show "port_open client bucket k' st' = Inr c"
    by (auto simp: port_delete_def s3_delete_Inr s3_open_Inr delete_other)
next
  fix org d v org' d' v'
  assume "validated_key (build_storage_key org d v) = validated_key (build_storage_key org' d' v')"
  then show "key_parts org d v = key_parts org' d' v'"
    by (metis validated_built_key sum.inject(2) split_storage_key)
qed

subsection \<open>Traffic\<close>

datatype s3_call = PutCall string "byte list" | DeleteCall string

fun s3_traffic :: "'s s3_client \<Rightarrow> string \<Rightarrow> s3_call list \<Rightarrow> 's \<Rightarrow> 's" where
  \<comment> \<open>further calls of the adapter, whatever they return\<close>
  "s3_traffic client bucket [] st = st"
| "s3_traffic client bucket (PutCall key b # calls) st = s3_traffic client bucket calls (snd (s3_put client bucket key b st))"
| "s3_traffic client bucket (DeleteCall key # calls) st = s3_traffic client bucket calls (snd (s3_delete client bucket key st))"

fun call_key :: "s3_call \<Rightarrow> string" where
  "call_key (PutCall key b) = key"
| "call_key (DeleteCall key) = key"

context s3_service begin

lemma put_keeps_object:
  assumes "get_object client bucket k st = S3Response (Body c)" "validated_key key \<noteq> Inr k"
  shows "get_object client bucket k (snd (s3_put client bucket key b st)) = S3Response (Body c)"
proof (cases "validated_key key")
  case (Inr k')
  obtain r st' where "put_object client bucket k' b st = (r, st')" by fastforce
  with Inr assms put_other [OF this, of k] show ?thesis by (cases r) (auto simp: s3_put_def)
qed (use assms in \<open>simp add: s3_put_def\<close>)

lemma delete_keeps_object:
  assumes "get_object client bucket k st = S3Response (Body c)" "validated_key key \<noteq> Inr k"
  shows "get_object client bucket k (snd (s3_delete client bucket key st)) = S3Response (Body c)"
proof (cases "validated_key key")
  case (Inr k')
  obtain r st' where "delete_object client bucket k' st = (r, st')" by fastforce
  with Inr assms delete_other [OF this, of k] show ?thesis by (cases r) (auto simp: s3_delete_def)
qed (use assms in \<open>simp add: s3_delete_def\<close>)

lemma traffic_keeps_object:
  assumes "get_object client bucket k st = S3Response (Body c)"
    and "list_all (\<lambda>call. validated_key (call_key call) \<noteq> Inr k) calls"
  shows "get_object client bucket k (s3_traffic client bucket calls st) = S3Response (Body c)"
  using assms
proof (induction calls arbitrary: st)
  case (Cons call calls)
  then show ?case by (cases call) (simp_all add: put_keeps_object delete_keeps_object)
qed simp

lemma uploaded_object:
  assumes "create_upload ucd sha256 (port_put client bucket) (port_delete client bucket) max_bytes fault now ids org actor
      filename source st s = (Inr (d, v), st1, s')"
    and "list_all (\<lambda>call. validated_key (call_key call) \<noteq> validated_key (v_storage_key v)) calls"
  shows "\<exists>b. s3_open client bucket (v_storage_key v) (s3_traffic client bucket calls st1) = Inr b \<and>
    v_size_bytes v = int (length b) \<and> v_content_sha256 v = sha256 b"
proof -
  from stored_after_upload [OF assms(1)] obtain b where b: "s3_open client bucket (v_storage_key v) st1 = Inr b"
      "v_size_bytes v = int (length b)" "v_content_sha256 v = sha256 b" by auto
  then obtain k where k: "validated_key (v_storage_key v) = Inr k" "get_object client bucket k st1 = S3Response (Body b)"
    by (auto simp: s3_open_Inr)
  with traffic_keeps_object [OF k(2), of calls] assms(2) b show ?thesis by (auto simp: s3_open_Inr)
qed

end

subsection \<open>A service\<close>

type_synonym s3_objects = "string \<times> string \<rightharpoonup> byte list"

definition reference_s3 :: "(string \<Rightarrow> bool) \<Rightarrow> (string \<Rightarrow> bool) \<Rightarrow> s3_objects s3_client" where
  \<comment> \<open>objects by bucket and key; writes and deletions of the keys \<open>denied\<close> are refused, and those of the keys
      \<open>lost\<close> take effect without their response arriving in time\<close>
  "reference_s3 denied lost =
     \<lparr>put_object = (\<lambda>bucket k b st.
        if denied k then (ClientError ''AccessDenied'', st)
        else if lost k then (BotoCoreError, st((bucket, k) \<mapsto> b))
        else (S3Response (), st((bucket, k) \<mapsto> b))),
      get_object = (\<lambda>bucket k st. case st (bucket, k) of None \<Rightarrow> ClientError ''NoSuchKey'' | Some b \<Rightarrow> S3Response (Body b)),
      delete_object = (\<lambda>bucket k st.
        if denied k then (ClientError ''AccessDenied'', st)
        else if lost k then (BotoCoreError, st((bucket, k) := None))
        else (S3Response (), st((bucket, k) := None)))\<rparr>"

interpretation reference: s3_service "reference_s3 denied lost" bucket for denied lost bucket
  by unfold_locales (auto simp: reference_s3_def split: if_splits option.splits)

lemma lost_write_left_behind:
  assumes "validated_key key = Inr k" "lost k" "\<not> denied k"
  shows "\<exists>st'. s3_put (reference_s3 denied lost) bucket key b st = (Inl S3StorageUnavailableError, st') \<and>
    s3_open (reference_s3 denied lost) bucket key st' = Inr b"
  using assms by (simp add: s3_put_def s3_open_def reference_s3_def)

text \<open>
  C30. What was uploaded to S3 stays as accepted. After an upload that succeeded over the S3 adapter, and
  after any further calls of the adapter on other keys, whether S3 answers, refuses or loses them, the
  object of the version is unchanged: a read that S3 answers returns bytes of the recorded size and digest.
  Of S3 only the laws of \<open>s3_service\<close> are assumed; no call, not even a deletion, is assumed to succeed.
\<close>

theorem s3_upload_survives:
  assumes "s3_service client bucket"
    and "create_upload ucd sha256 (port_put client bucket) (port_delete client bucket) max_bytes fault now ids org actor
      filename source st s = (Inr (d, v), st1, s')"
    and "list_all (\<lambda>call. validated_key (call_key call) \<noteq> validated_key (v_storage_key v)) calls"
  shows "\<exists>b. s3_open client bucket (v_storage_key v) (s3_traffic client bucket calls st1) = Inr b \<and>
    v_size_bytes v = int (length b) \<and> v_content_sha256 v = sha256 b"
  by (rule s3_service.uploaded_object [OF assms])

text \<open>
  The witness: after the sample upload, another version is stored and its removal attempted; S3 refuses
  every call on the keys of organization 2 and loses the responses for those of organization 3.
\<close>

definition sample_calls :: "s3_call list" where
  "sample_calls = [PutCall (build_storage_key 1 200 201) [1], DeleteCall (build_storage_key 1 200 201),
     PutCall (build_storage_key 2 200 201) [2], DeleteCall (build_storage_key 2 200 201),
     PutCall (build_storage_key 3 200 201) [3], DeleteCall (build_storage_key 3 200 201)]"

definition sample_s3 :: "s3_objects s3_client" where
  "sample_s3 = reference_s3 (\<lambda>k. k = build_storage_key 2 200 201) (\<lambda>k. k = build_storage_key 3 200 201)"

lemma sample_keys_differ: "(org, d, v) \<noteq> (org', d', v') \<Longrightarrow> list_all uuid_range [org, d, v, org', d', v'] \<Longrightarrow>
    build_storage_key org d v \<noteq> build_storage_key org' d' v'"
  using storage_keys_separate_versions [of org d v org' d' v'] by simp

theorem s3_upload_survives_witness:
  "\<exists>d v st s'. create_upload sample_ucd sample_sha (port_put sample_s3 ''documents'') (port_delete sample_s3 ''documents'')
      100 NoFault 7 sample_ids 1 10 (Some (u ''a.md'')) [Some [104, 105]] Map.empty sample_db = (Inr (d, v), st, s') \<and>
    (\<exists>b. s3_open sample_s3 ''documents'' (v_storage_key v) (s3_traffic sample_s3 ''documents'' sample_calls st) = Inr b)"
proof -
  have diff: "build_storage_key 1 100 101 \<noteq> build_storage_key o' 200 201" if "o' \<in> {1, 2, 3}" for o'
    by (rule sample_keys_differ) (use that in \<open>auto simp: uuid_range_def\<close>)
  obtain st where put: "port_put sample_s3 ''documents'' (build_storage_key 1 (f_document sample_ids) (f_version sample_ids))
      (vu_stream sample_staged) Map.empty = Inr st"
    using diff [of 2] diff [of 3]
    by (simp add: port_put_def s3_put_Inr validated_built_key sample_s3_def reference_s3_def sample_ids_def)
  have "stage_upload_with_intent 7 sample_ids 1 (new_document 7 (f_document sample_ids) 1 (vu_display_filename sample_staged) 10)
      (new_version 7 (f_version sample_ids) 1 (f_document sample_ids)
        (build_storage_key 1 (f_document sample_ids) (f_version sample_ids)) sample_staged) sample_db =
      Inr (upload_rows 7 sample_ids 1 (new_document 7 (f_document sample_ids) 1 (vu_display_filename sample_staged) 10)
        (new_version 7 (f_version sample_ids) 1 (f_document sample_ids)
          (build_storage_key 1 (f_document sample_ids) (f_version sample_ids)) sample_staged) sample_db)"
    using stage_upload_ok [OF sample_db_ok sample_members(1) sample_laws(3,1) _ _ sample_stage refl refl]
    by (simp add: sample_laws MAX_DOCUMENT_BYTES_def)
  then obtain d v s' where run: "create_upload sample_ucd sample_sha (port_put sample_s3 ''documents'')
      (port_delete sample_s3 ''documents'') 100 NoFault 7 sample_ids 1 10 (Some (u ''a.md'')) [Some [104, 105]] Map.empty
      sample_db = (Inr (d, v), st, s')"
    by (simp add: create_upload_def sample_stage put Let_def del: One_nat_def)
  have key: "v_storage_key v = build_storage_key 1 100 101"
    using reference.rows_after_upload [OF run [unfolded sample_s3_def]] by (simp add: sample_ids_def)
  have t: "list_all (\<lambda>call. validated_key (call_key call) \<noteq> validated_key (v_storage_key v)) sample_calls"
    using diff [of 1] diff [of 2] diff [of 3]
    by (simp add: sample_calls_def key validated_built_key eq_commute [of _ "build_storage_key 1 100 101"] del: One_nat_def)
  have "s3_service sample_s3 ''documents''" unfolding sample_s3_def by (rule reference.s3_service_axioms)
  from s3_upload_survives [OF this run t] run show ?thesis by blast
qed

end
