(* ===== verification/SF_Schema.thy ===== *)
theory SF_Schema
  imports SF_Models
begin

text \<open>
  The schema language: what the \<open>models.py\<close> files declare and what the scripts under \<open>alembic/versions\<close>
  execute, with the naming convention of \<open>app/infrastructure/database.py\<close>.

  A declared class is a \<open>model_class\<close>; \<open>declared_table\<close> is the table it describes. A migration is a list of
  operations \<open>migration_op\<close>, and \<open>ddl\<close> is their documented effect on a schema: \<open>None\<close> where PostgreSQL
  refuses the statement. Texts of \<open>CHECK\<close> constraints are kept as texts. Widths are integers. Dropping a
  column that a key or an index still names is not represented and counts as refused; no script does it.
\<close>

subsection \<open>Columns, constraints and indexes\<close>

datatype sql_type = UuidType | StringType int | TextType | IntegerType | DateTimeType | JsonbType
  | NumericType int int | EnumType "string list" string

datatype sa_column = Column (c_name: string) (c_type: sql_type) (c_nullable: bool) (c_default: "string option")

datatype constraint_name = Fixed string | Named string | Unnamed
  \<comment> \<open>\<open>op.f(name)\<close>, a name the convention applies to, and no name\<close>

datatype table_item =
    PrimaryKeyConstraint constraint_name "string list"
  | UniqueConstraint constraint_name "string list"
  | ForeignKeyConstraint constraint_name "string list" "(string \<times> string) list"
  | CheckConstraint constraint_name string

datatype index_key = IndexColumn string | IndexText string | IndexDesc string

datatype sql_constraint = PrimaryKey "string list" | Unique "string list"
  | ForeignKey "string list" string "string list" | Check string

datatype sql_index = SqlIndex (x_keys: "string list") (x_where: "string option")

definition quoted :: "string \<Rightarrow> string" where
  "quoted s = CHR 0x27 # s @ [CHR 0x27]"

fun separated :: "string \<Rightarrow> string list \<Rightarrow> string" where
  "separated sep [] = []"
| "separated sep [s] = s"
| "separated sep (s # t # ss) = s @ sep @ separated sep (t # ss)"

fun constraint_name_of :: "string \<Rightarrow> table_item \<Rightarrow> string" where
  \<comment> \<open>\<open>NAMING_CONVENTION\<close>; only the pattern of checks contains the given name\<close>
  "constraint_name_of t (CheckConstraint (Named n) sql) = ''ck_'' @ t @ ''_'' @ n"
| "constraint_name_of t (CheckConstraint (Fixed n) sql) = n"
| "constraint_name_of t (CheckConstraint Unnamed sql) = []"
| "constraint_name_of t (PrimaryKeyConstraint Unnamed cols) = ''pk_'' @ t"
| "constraint_name_of t (PrimaryKeyConstraint (Fixed n) cols) = n"
| "constraint_name_of t (PrimaryKeyConstraint (Named n) cols) = n"
| "constraint_name_of t (UniqueConstraint Unnamed cols) = ''uq_'' @ t @ ''_'' @ hd cols"
| "constraint_name_of t (UniqueConstraint (Fixed n) cols) = n"
| "constraint_name_of t (UniqueConstraint (Named n) cols) = n"
| "constraint_name_of t (ForeignKeyConstraint Unnamed cols refs) =
    ''fk_'' @ t @ ''_'' @ hd cols @ ''_'' @ fst (hd refs)"
| "constraint_name_of t (ForeignKeyConstraint (Fixed n) cols refs) = n"
| "constraint_name_of t (ForeignKeyConstraint (Named n) cols refs) = n"

fun constraint_of :: "table_item \<Rightarrow> sql_constraint" where
  "constraint_of (PrimaryKeyConstraint n cols) = PrimaryKey cols"
| "constraint_of (UniqueConstraint n cols) = Unique cols"
| "constraint_of (ForeignKeyConstraint n cols refs) = ForeignKey cols (fst (hd refs)) (map snd refs)"
| "constraint_of (CheckConstraint n sql) = Check sql"

fun enum_items :: "sa_column \<Rightarrow> table_item list" where
  \<comment> \<open>\<open>Enum(..., native_enum=False, create_constraint=True)\<close> adds a check named after the enumeration\<close>
  "enum_items (Column c (EnumType values n) _ _) =
     [CheckConstraint (Named n) (c @ '' IN ('' @ separated '', '' (map quoted values) @ '')'')]"
| "enum_items _ = []"

definition table_constraints :: "string \<Rightarrow> sa_column list \<Rightarrow> table_item list \<Rightarrow> (string \<times> sql_constraint) list" where
  "table_constraints t cols items =
     map (\<lambda>i. (constraint_name_of t i, constraint_of i)) (items @ concat (map enum_items cols))"

fun physical :: "sa_column \<Rightarrow> sa_column" where
  \<comment> \<open>an enumeration is stored as text as wide as its longest value\<close>
  "physical (Column c (EnumType values n) null d) =
     Column c (StringType (foldr max (map (\<lambda>v. int (length v)) values) 0)) null d"
| "physical c = c"

fun index_key_sql :: "index_key \<Rightarrow> string" where
  "index_key_sql (IndexColumn c) = c"
| "index_key_sql (IndexText sql) = sql"
| "index_key_sql (IndexDesc c) = c @ '' DESC''"

subsection \<open>Declared classes\<close>

datatype sql_default = FuncNow | SqlText string

fun default_sql :: "sql_default \<Rightarrow> string" where
  "default_sql FuncNow = ''now()''"
| "default_sql (SqlText t) = t"

datatype column_option = PrimaryKeyOption | UniqueOption | References string string

datatype mapped_column = Mapped string sql_type bool "sql_default option" "column_option list"

datatype model_index = Index string "index_key list" "string option"

datatype model_class = Model (m_table: string) "mapped_column list" "table_item list" "model_index list"

definition UUIDPrimaryKeyMixin :: "mapped_column list" where
  "UUIDPrimaryKeyMixin = [Mapped ''id'' UuidType False None [PrimaryKeyOption]]"

definition TimestampMixin :: "mapped_column list" where
  "TimestampMixin = [Mapped ''created_at'' DateTimeType False (Some FuncNow) [],
     Mapped ''updated_at'' DateTimeType False (Some FuncNow) []]"

fun decimal :: "nat \<Rightarrow> string" where
  "decimal n = (if n < 10 then [char_of (48 + n)] else decimal (n div 10) @ [char_of (48 + n mod 10)])"

declare decimal.simps [simp del]

definition size_bytes_check :: string where
  "size_bytes_check = ''size_bytes > 0 AND size_bytes <= '' @ decimal (nat MAX_DOCUMENT_BYTES)"

definition organization_status_type :: sql_type where
  "organization_status_type = EnumType [''active'', ''suspended''] ''organization_status''"

definition user_status_type :: sql_type where
  "user_status_type = EnumType [''active'', ''disabled''] ''user_status''"

definition membership_role_type :: sql_type where
  "membership_role_type = EnumType [''admin'', ''agent''] ''membership_role''"

definition membership_status_type :: sql_type where
  "membership_status_type = EnumType [''active'', ''inactive''] ''membership_status''"

definition organizations_model :: model_class where
  "organizations_model = Model ''organizations''
     ([Mapped ''name'' (StringType 200) False None [],
      Mapped ''slug'' (StringType 100) False None [UniqueOption],
      Mapped ''status'' organization_status_type False None []] @ UUIDPrimaryKeyMixin @ TimestampMixin)
     [CheckConstraint (Named ''slug_lowercase'') (''slug = lower(slug)'')]
     []"

definition users_model :: model_class where
  "users_model = Model ''users''
     ([Mapped ''email'' (StringType 320) False None [UniqueOption],
      Mapped ''password_hash'' (StringType 512) False None [],
      Mapped ''status'' user_status_type False None []] @ UUIDPrimaryKeyMixin @ TimestampMixin)
     [CheckConstraint (Named ''email_lowercase'') (''email = lower(email)'')]
     []"

definition organization_members_model :: model_class where
  "organization_members_model = Model ''organization_members''
     ([Mapped ''organization_id'' UuidType False None [References ''organizations'' ''id'', PrimaryKeyOption],
      Mapped ''user_id'' UuidType False None [References ''users'' ''id'', PrimaryKeyOption],
      Mapped ''role'' membership_role_type False None [],
      Mapped ''status'' membership_status_type False None []] @ TimestampMixin)
     []
     []"

definition ticket_status_type :: sql_type where
  "ticket_status_type = EnumType [''open'', ''processing'', ''waiting_for_agent'', ''resolved'', ''closed''] ''ticket_status''"

definition ticket_source_type_enum :: sql_type where
  "ticket_source_type_enum = EnumType [''manual'', ''api''] ''ticket_source_type''"

definition message_author_type_enum :: sql_type where
  "message_author_type_enum = EnumType [''customer'', ''agent'', ''system''] ''message_author_type''"

definition customers_model :: model_class where
  "customers_model = Model ''customers''
     ([Mapped ''organization_id'' UuidType False None [References ''organizations'' ''id''],
      Mapped ''name'' (StringType 200) False None [],
      Mapped ''email'' (StringType 320) True None [],
      Mapped ''external_id'' (StringType 255) True None []] @ UUIDPrimaryKeyMixin @ TimestampMixin)
     [CheckConstraint (Named ''name_nonempty'') (''name = trim(name) AND name <> '' @ quoted []),
      CheckConstraint (Named ''email_lowercase'') (''email IS NULL OR email = lower(email)''),
      UniqueConstraint (Named ''uq_customers_organization_id_id'') [''organization_id'', ''id''],
      UniqueConstraint (Named ''uq_customers_organization_id_external_id'')
          [''organization_id'', ''external_id'']]
     []"

definition tickets_model :: model_class where
  "tickets_model = Model ''tickets''
     ([Mapped ''organization_id'' UuidType False None [References ''organizations'' ''id''],
      Mapped ''customer_id'' UuidType True None [],
      Mapped ''source_type'' ticket_source_type_enum False None [],
      Mapped ''external_id'' (StringType 255) True None [],
      Mapped ''subject'' (StringType 300) False None [],
      Mapped ''status'' ticket_status_type False None []] @ UUIDPrimaryKeyMixin @ TimestampMixin)
     [CheckConstraint (Named ''subject_nonempty'') (''subject = trim(subject) AND subject <> '' @ quoted []),
      UniqueConstraint (Named ''uq_tickets_organization_id_id'') [''organization_id'', ''id''],
      UniqueConstraint (Named ''uq_tickets_organization_id_id_customer_id'')
          [''organization_id'', ''id'', ''customer_id''],
      UniqueConstraint (Named ''uq_tickets_organization_id_source_type_external_id'')
          [''organization_id'', ''source_type'', ''external_id''],
      ForeignKeyConstraint (Named ''fk_tickets_organization_id_customers'')
          [''organization_id'', ''customer_id'']
          [(''customers'', ''organization_id''), (''customers'', ''id'')]]
     [Index ''ix_tickets_organization_created_id''
         [IndexColumn ''organization_id'', IndexColumn ''created_at'', IndexColumn ''id''] None]"

definition ticket_messages_model :: model_class where
  "ticket_messages_model = Model ''ticket_messages''
     ([Mapped ''organization_id'' UuidType False None [References ''organizations'' ''id''],
      Mapped ''ticket_id'' UuidType False None [],
      Mapped ''author_type'' message_author_type_enum False None [],
      Mapped ''author_user_id'' UuidType True None [],
      Mapped ''author_customer_id'' UuidType True None [],
      Mapped ''body'' TextType False None [],
      Mapped ''created_at'' DateTimeType False (Some FuncNow) []] @ UUIDPrimaryKeyMixin)
     [CheckConstraint (Named ''body_nonempty'') (''body = trim(body) AND body <> '' @ quoted []),
      CheckConstraint (Named ''valid_author_identity'') (''(author_type = '' @ quoted ''customer''
          @ '' AND author_user_id IS NULL AND author_customer_id IS NOT NULL) OR (author_type = ''
          @ quoted ''agent''
          @ '' AND author_user_id IS NOT NULL AND author_customer_id IS NULL) OR (author_type = ''
          @ quoted ''system'' @ '' AND author_user_id IS NULL AND author_customer_id IS NULL)''),
      ForeignKeyConstraint (Named ''fk_ticket_messages_organization_id_tickets'')
          [''organization_id'', ''ticket_id''] [(''tickets'', ''organization_id''), (''tickets'', ''id'')],
      ForeignKeyConstraint (Named ''fk_ticket_messages_organization_id_customers'')
          [''organization_id'', ''author_customer_id'']
          [(''customers'', ''organization_id''), (''customers'', ''id'')],
      ForeignKeyConstraint (Named ''fk_ticket_messages_organization_id_organization_members'')
          [''organization_id'', ''author_user_id'']
          [(''organization_members'', ''organization_id''), (''organization_members'', ''user_id'')],
      ForeignKeyConstraint (Named ''fk_ticket_messages_ticket_customer_matches_author_tickets'')
          [''organization_id'', ''ticket_id'', ''author_customer_id'']
          [(''tickets'', ''organization_id''), (''tickets'', ''id''), (''tickets'', ''customer_id'')]]
     [Index ''ix_ticket_messages_organization_ticket_created''
         [IndexColumn ''organization_id'', IndexColumn ''ticket_id'', IndexColumn ''created_at''] None]"

definition audit_events_model :: model_class where
  "audit_events_model = Model ''audit_events''
     ([Mapped ''organization_id'' UuidType False None [References ''organizations'' ''id''],
      Mapped ''actor_user_id'' UuidType True None [],
      Mapped ''action'' (StringType 100) False None [],
      Mapped ''resource_type'' (StringType 100) False None [],
      Mapped ''resource_id'' UuidType True None [],
      Mapped ''metadata'' JsonbType False (Some (SqlText (quoted ''{}'' @ ''::jsonb''))) [],
      Mapped ''created_at'' DateTimeType False (Some FuncNow) []] @ UUIDPrimaryKeyMixin)
     [CheckConstraint (Named ''action_lowercase_dotted'') (''action = lower(action) AND action ~ '' @ quoted
         (''^[a-z][a-z0-9_]*('' @ [CHR 0x5C] @ ''.[a-z][a-z0-9_]*)+$'')),
      CheckConstraint (Named ''resource_type_lowercase'')
          (''resource_type = lower(resource_type) AND resource_type ~ '' @ quoted ''^[a-z][a-z0-9_]*$''),
      CheckConstraint (Named ''metadata_object'') (''jsonb_typeof(metadata) = '' @ quoted ''object''),
      ForeignKeyConstraint (Named ''fk_audit_events_organization_id_organization_members'')
          [''organization_id'', ''actor_user_id'']
          [(''organization_members'', ''organization_id''), (''organization_members'', ''user_id'')]]
     [Index ''ix_audit_events_organization_created_id''
         [IndexColumn ''organization_id'', IndexColumn ''created_at'', IndexColumn ''id''] None]"

definition document_source_type_enum :: sql_type where
  "document_source_type_enum = EnumType [''upload''] ''document_source_type''"

definition document_media_type_enum :: sql_type where
  "document_media_type_enum = EnumType [''application/pdf'', ''text/plain'', ''text/markdown''] ''document_media_type''"

definition document_processing_status_enum :: sql_type where
  "document_processing_status_enum = EnumType [''queued'', ''extracting'', ''ready'', ''failed''] ''document_processing_status''"

definition documents_model :: model_class where
  "documents_model = Model ''documents''
     ([Mapped ''organization_id'' UuidType False None [References ''organizations'' ''id''],
      Mapped ''source_type'' document_source_type_enum False None [],
      Mapped ''external_id'' (StringType 255) True None [],
      Mapped ''display_filename'' (StringType 200) False None [],
      Mapped ''created_by_user_id'' UuidType False None []] @ UUIDPrimaryKeyMixin @ TimestampMixin)
     [CheckConstraint (Named ''display_filename_nonempty'')
         (''display_filename = trim(display_filename) AND display_filename <> '' @ quoted []),
      UniqueConstraint (Named ''uq_documents_organization_id_id'') [''organization_id'', ''id''],
      UniqueConstraint (Named ''uq_documents_organization_id_source_type_external_id'')
          [''organization_id'', ''source_type'', ''external_id''],
      ForeignKeyConstraint (Named ''fk_documents_organization_id_organization_members'')
          [''organization_id'', ''created_by_user_id'']
          [(''organization_members'', ''organization_id''), (''organization_members'', ''user_id'')]]
     []"

definition document_versions_model :: model_class where
  "document_versions_model = Model ''document_versions''
     ([Mapped ''organization_id'' UuidType False None [References ''organizations'' ''id''],
      Mapped ''document_id'' UuidType False None [],
      Mapped ''version_number'' IntegerType False None [],
      Mapped ''media_type'' document_media_type_enum False None [],
      Mapped ''size_bytes'' IntegerType False None [],
      Mapped ''content_sha256'' (StringType 64) False None [],
      Mapped ''storage_key'' (StringType 500) False None [],
      Mapped ''status'' document_processing_status_enum False None [],
      Mapped ''extracted_text'' TextType True None [],
      Mapped ''attempt_count'' IntegerType False None [],
      Mapped ''processing_task_id'' (StringType 255) True None [],
      Mapped ''processing_started_at'' DateTimeType True None [],
      Mapped ''error_code'' (StringType 100) True None []] @ UUIDPrimaryKeyMixin @ TimestampMixin)
     [CheckConstraint (Named ''version_number_positive'') (''version_number > 0''),
      CheckConstraint (Named ''size_bytes_valid'') size_bytes_check,
      CheckConstraint (Named ''content_sha256_lowercase_hex'') (''content_sha256 ~ ''
          @ quoted ''^[0-9a-f]{64}$''),
      CheckConstraint (Named ''storage_key_nonempty'')
          (''storage_key = trim(storage_key) AND storage_key <> '' @ quoted []),
      CheckConstraint (Named ''attempt_count_nonnegative'') (''attempt_count >= 0''),
      ForeignKeyConstraint (Named ''fk_document_versions_organization_id_documents'')
          [''organization_id'', ''document_id'']
          [(''documents'', ''organization_id''), (''documents'', ''id'')],
      UniqueConstraint (Named ''uq_document_versions_organization_id_id'') [''organization_id'', ''id''],
      UniqueConstraint (Named ''uq_document_versions_organization_document_version'')
          [''organization_id'', ''document_id'', ''version_number''],
      UniqueConstraint (Named ''uq_document_versions_storage_key'') [''storage_key'']]
     [Index ''ix_document_versions_organization_document_version''
         [IndexColumn ''organization_id'', IndexColumn ''document_id'', IndexDesc ''version_number''] None,
      Index ''ix_document_versions_organization_status_updated_id''
          [IndexColumn ''organization_id'', IndexColumn ''status'', IndexDesc ''updated_at'', IndexDesc
          ''id''] None]"

definition document_ingestion_outbox_model :: model_class where
  "document_ingestion_outbox_model = Model ''document_ingestion_outbox''
     ([Mapped ''organization_id'' UuidType False None [],
      Mapped ''document_version_id'' UuidType False None [],
      Mapped ''task_id'' (StringType 255) False None [],
      Mapped ''available_at'' DateTimeType False (Some FuncNow) [],
      Mapped ''published_at'' DateTimeType True None [],
      Mapped ''settled_at'' DateTimeType True None [],
      Mapped ''unresolved_at'' DateTimeType True None [],
      Mapped ''lease_token'' UuidType True None [],
      Mapped ''lease_expires_at'' DateTimeType True None [],
      Mapped ''publish_attempts'' IntegerType False (Some (SqlText ''0'')) [],
      Mapped ''recovery_attempts'' IntegerType False (Some (SqlText ''0'')) [],
      Mapped ''recovery_grants'' IntegerType False (Some (SqlText ''0'')) [],
      Mapped ''last_error'' (StringType 32) True None [],
      Mapped ''created_at'' DateTimeType False (Some FuncNow) []] @ UUIDPrimaryKeyMixin)
     [ForeignKeyConstraint (Named ''fk_ingestion_outbox_tenant_version'')
         [''organization_id'', ''document_version_id'']
         [(''document_versions'', ''organization_id''), (''document_versions'', ''id'')],
      UniqueConstraint (Named ''uq_ingestion_outbox_version'') [''organization_id'', ''document_version_id''],
      UniqueConstraint (Named ''uq_ingestion_outbox_task_id'') [''task_id''],
      CheckConstraint (Named ''task_id_nonempty'') (''task_id = trim(task_id) AND task_id <> '' @ quoted []),
      CheckConstraint (Named ''attempts_nonnegative'')
          (''publish_attempts >= 0 AND recovery_attempts >= 0 AND recovery_grants BETWEEN 0 AND 3''),
      CheckConstraint (Named ''lease_pair'') (''(lease_token IS NULL) = (lease_expires_at IS NULL)''),
      CheckConstraint (Named ''safe_error'') (''last_error IS NULL OR last_error IN (''
          @ quoted ''publish_unavailable'' @ '', '' @ quoted ''attempts_exhausted'' @ '', ''
          @ quoted ''ownership_ambiguous'' @ '')'')]
     [Index ''ix_ingestion_outbox_due''
         [IndexColumn ''available_at'', IndexColumn ''id''] (Some
         ''settled_at IS NULL AND unresolved_at IS NULL''),
      Index ''ix_ingestion_outbox_retention''
          [IndexColumn ''settled_at'', IndexColumn ''id''] (Some
          ''settled_at IS NOT NULL AND unresolved_at IS NULL'')]"

definition classification_operations_model :: model_class where
  "classification_operations_model = Model ''classification_operations''
     ([Mapped ''organization_id'' UuidType False None [],
      Mapped ''ticket_id'' UuidType False None [],
      Mapped ''requesting_actor_user_id'' UuidType False None [],
      Mapped ''opening_message_id'' UuidType True None [],
      Mapped ''input_fingerprint'' (StringType 64) False None [],
      Mapped ''config_digest'' (StringType 64) False None [],
      Mapped ''configuration_version'' (StringType 100) False None [],
      Mapped ''input_policy_version'' (StringType 100) False None [],
      Mapped ''taxonomy_version'' (StringType 100) False None [],
      Mapped ''schema_version'' (StringType 100) False None [],
      Mapped ''prompt_version'' (StringType 100) False None [],
      Mapped ''adapter_version'' (StringType 100) False None [],
      Mapped ''provider'' (StringType 100) False None [],
      Mapped ''model'' (StringType 100) False None [],
      Mapped ''mode'' (StringType 10) False None [],
      Mapped ''state'' (StringType 20) False None [],
      Mapped ''outcome'' (StringType 30) True None [],
      Mapped ''category'' (StringType 30) True None [],
      Mapped ''error_code'' (StringType 60) True None [],
      Mapped ''attempt_count'' IntegerType False None [],
      Mapped ''elapsed_ms'' IntegerType True None [],
      Mapped ''input_tokens'' IntegerType True None [],
      Mapped ''output_tokens'' IntegerType True None [],
      Mapped ''cost'' (NumericType 18 8) True None [],
      Mapped ''created_at'' DateTimeType False None [],
      Mapped ''expires_at'' DateTimeType False None [],
      Mapped ''completed_at'' DateTimeType True None []] @ UUIDPrimaryKeyMixin)
     [ForeignKeyConstraint (Named ''fk_classification_ticket'') [''organization_id'',
         ''ticket_id''] [(''tickets'', ''organization_id''), (''tickets'', ''id'')],
      ForeignKeyConstraint (Named ''fk_classification_actor_membership'')
          [''organization_id'', ''requesting_actor_user_id'']
          [(''organization_members'', ''organization_id''), (''organization_members'', ''user_id'')],
      UniqueConstraint (Named ''uq_classification_identity'')
          [''organization_id'', ''ticket_id'', ''input_fingerprint'', ''config_digest''],
      CheckConstraint (Named ''state'') (''state IN ('' @ quoted ''in_progress'' @ '',''
          @ quoted ''succeeded'' @ '','' @ quoted ''stale'' @ '','' @ quoted ''failed'' @ '',''
          @ quoted ''unknown'' @ '')''),
      CheckConstraint (Named ''fake_only'') (''mode = '' @ quoted ''fake''),
      CheckConstraint (Named ''attempt_count'') (''attempt_count IN (0,1)''),
      CheckConstraint (Named ''elapsed_ms'') (''elapsed_ms IS NULL OR elapsed_ms >= 0''),
      CheckConstraint (Named ''fake_usage_unmeasured'')
          (''input_tokens IS NULL AND output_tokens IS NULL AND cost IS NULL''),
      CheckConstraint (Named ''result_pair'') (''(state = '' @ quoted ''succeeded''
          @ '' AND error_code IS NULL AND completed_at IS NOT NULL AND ((outcome = '' @ quoted ''classified''
          @ '' AND category IS NOT NULL AND category IN ('' @ quoted ''account_access'' @ '',''
          @ quoted ''billing'' @ '','' @ quoted ''technical_issue'' @ '','' @ quoted ''how_to'' @ '',''
          @ quoted ''feature_request'' @ '','' @ quoted ''other'' @ '')) OR (outcome = ''
          @ quoted ''insufficient_context'' @ '' AND category IS NULL))) OR (state <> ''
          @ quoted ''succeeded'' @ '' AND outcome IS NULL AND category IS NULL)''),
      CheckConstraint (Named ''success_outcome'') (''state <> '' @ quoted ''succeeded''
          @ '' OR outcome IS NOT NULL'')]
     [Index ''ix_classification_ticket_created''
         [IndexColumn ''organization_id'', IndexColumn ''ticket_id'', IndexColumn ''created_at'', IndexColumn
         ''id''] None]"


subsection \<open>Tables and schemas\<close>

datatype trigger_body = RaiseException | RaiseIfDistinct "string list"
  \<comment> \<open>what a trigger function does: always raise, or raise when one of the columns is changed\<close>

record pg_table =
  t_columns :: "sa_column list"
  t_constraints :: "(string \<times> sql_constraint) list"
  t_indexes :: "(string \<times> sql_index) list"
  t_triggers :: "(string \<times> string \<times> string) list" \<comment> \<open>name, events, function\<close>

record pg_schema =
  sch_tables :: "(string \<times> pg_table) list"
  sch_functions :: "(string \<times> trigger_body) list"

definition column_options :: "mapped_column \<Rightarrow> table_item list" where
  "column_options m = (case m of Mapped c ty null d opts \<Rightarrow>
     concat (map (\<lambda>opt. case opt of UniqueOption \<Rightarrow> [UniqueConstraint Unnamed [c]]
        | References t rc \<Rightarrow> [ForeignKeyConstraint Unnamed [c] [(t, rc)]] | PrimaryKeyOption \<Rightarrow> []) opts))"

definition primary_columns :: "mapped_column list \<Rightarrow> string list" where
  "primary_columns ms = concat (map (\<lambda>m. case m of Mapped c ty null d opts \<Rightarrow>
     if PrimaryKeyOption \<in> set opts then [c] else []) ms)"

definition declared_column :: "mapped_column \<Rightarrow> sa_column" where
  "declared_column m = (case m of Mapped c ty null d opts \<Rightarrow> Column c ty null (map_option default_sql d))"

definition declared_table :: "model_class \<Rightarrow> string \<times> pg_table" where
  "declared_table m = (case m of Model t ms items idx \<Rightarrow>
     let cols = map declared_column ms;
         all_items = items @ concat (map column_options ms) @ [PrimaryKeyConstraint Unnamed (primary_columns ms)]
     in (t, \<lparr>t_columns = map physical cols, t_constraints = table_constraints t cols all_items,
          t_indexes = map (\<lambda>i. case i of Index n keys wh \<Rightarrow> (n, SqlIndex (map index_key_sql keys) wh)) idx,
          t_triggers = []\<rparr>))"

definition declared_models :: "model_class list" where
  \<comment> \<open>\<open>Base.metadata\<close>, the target of \<open>alembic/env.py\<close>\<close>
  "declared_models = [organizations_model, users_model, organization_members_model, customers_model,
     tickets_model, ticket_messages_model, audit_events_model, documents_model, document_versions_model,
     document_ingestion_outbox_model, classification_operations_model]"

subsection \<open>Schema operations\<close>

datatype migration_op =
    CreateTable string "sa_column list" "table_item list"
  | DropTable string
  | AddColumn string sa_column
  | DropColumn string string
  | CreateIndex string string "index_key list" "string option"
  | DropIndex string string
  | CreateCheck string string string \<comment> \<open>\<open>create_check_constraint\<close>: name, table, text\<close>
  | DropConstraint string string
  | LockTable string \<comment> \<open>\<open>LOCK TABLE ... IN ACCESS EXCLUSIVE MODE\<close>\<close>
  | RefuseRows string \<comment> \<open>\<open>IF EXISTS (SELECT 1 FROM ...) THEN RAISE EXCEPTION\<close>\<close>
  | CreateFunction string trigger_body
  | CreateTrigger string string string string \<comment> \<open>name, events, table, function\<close>
  | DropFunction string

fun key_columns :: "sql_constraint \<Rightarrow> string list" where
  "key_columns (PrimaryKey cs) = cs"
| "key_columns (Unique cs) = cs"
| "key_columns (ForeignKey cs t rcs) = cs"
| "key_columns (Check sql) = []"

fun references :: "string \<Rightarrow> sql_constraint \<Rightarrow> bool" where
  "references t (ForeignKey cs t' rcs) = (t' = t)"
| "references t c = False"

fun key_of_columns :: "string list \<Rightarrow> sql_constraint \<Rightarrow> bool" where
  "key_of_columns cols (PrimaryKey cs) = (cs = cols)"
| "key_of_columns cols (Unique cs) = (cs = cols)"
| "key_of_columns cols c = False"

fun constraint_accepted :: "(string \<times> pg_table) list \<Rightarrow> sql_constraint \<Rightarrow> bool" where
  \<comment> \<open>a foreign key needs a key over the referenced columns\<close>
  "constraint_accepted ts (ForeignKey cs t rcs) =
     (case map_of ts t of None \<Rightarrow> False | Some tb \<Rightarrow> list_ex (\<lambda>(n, c). key_of_columns rcs c) (t_constraints tb))"
| "constraint_accepted ts c = True"

definition alter :: "string \<Rightarrow> (pg_table \<Rightarrow> pg_table option) \<Rightarrow> pg_schema \<Rightarrow> pg_schema option" where
  "alter t f s = (case map_of (sch_tables s) t of None \<Rightarrow> None
     | Some tb \<Rightarrow> (case f tb of None \<Rightarrow> None
        | Some tb' \<Rightarrow> Some (s\<lparr>sch_tables := map (\<lambda>(n, x). if n = t then (n, tb') else (n, x)) (sch_tables s)\<rparr>)))"

definition new_table :: "string \<Rightarrow> sa_column list \<Rightarrow> table_item list \<Rightarrow> pg_table" where
  "new_table t cols items = \<lparr>t_columns = map physical cols, t_constraints = table_constraints t cols items,
     t_indexes = [], t_triggers = []\<rparr>"

definition table_valid :: "pg_table \<Rightarrow> bool" where
  "table_valid tb = (distinct (map c_name (t_columns tb)) \<and> distinct (map fst (t_constraints tb)) \<and>
     list_all (\<lambda>(n, c). list_all (\<lambda>k. k \<in> set (map c_name (t_columns tb))) (key_columns c)) (t_constraints tb))"

fun ddl :: "migration_op \<Rightarrow> pg_schema \<Rightarrow> pg_schema option" where
  "ddl (CreateTable t cols items) s =
     (if t \<notin> set (map fst (sch_tables s)) \<and> table_valid (new_table t cols items) \<and>
         list_all (\<lambda>(n, c). constraint_accepted (sch_tables s) c) (t_constraints (new_table t cols items))
      then Some (s\<lparr>sch_tables := sch_tables s @ [(t, new_table t cols items)]\<rparr>) else None)"
| "ddl (DropTable t) s =
     (if t \<in> set (map fst (sch_tables s)) \<and>
         list_all (\<lambda>(t', tb). t' = t \<or> list_all (\<lambda>(n, c). \<not> references t c) (t_constraints tb)) (sch_tables s)
      then Some (s\<lparr>sch_tables := filter (\<lambda>(t', tb). t' \<noteq> t) (sch_tables s)\<rparr>) else None)"
| "ddl (AddColumn t col) s = alter t (\<lambda>tb.
     if c_name col \<in> set (map c_name (t_columns tb)) then None
     else Some (tb\<lparr>t_columns := t_columns tb @ [physical col]\<rparr>)) s"
| "ddl (DropColumn t c) s = alter t (\<lambda>tb.
     if c \<in> set (map c_name (t_columns tb)) \<and> list_all (\<lambda>(n, k). c \<notin> set (key_columns k)) (t_constraints tb) \<and>
        list_all (\<lambda>(n, x). c \<notin> set (x_keys x)) (t_indexes tb)
     then Some (tb\<lparr>t_columns := filter (\<lambda>col. c_name col \<noteq> c) (t_columns tb)\<rparr>) else None) s"
| "ddl (CreateIndex n t keys wh) s =
     (if list_ex (\<lambda>(t', tb). n \<in> set (map fst (t_indexes tb))) (sch_tables s) then None
      else alter t (\<lambda>tb. Some (tb\<lparr>t_indexes := t_indexes tb @ [(n, SqlIndex (map index_key_sql keys) wh)]\<rparr>)) s)"
| "ddl (DropIndex n t) s = alter t (\<lambda>tb.
     if n \<in> set (map fst (t_indexes tb))
     then Some (tb\<lparr>t_indexes := filter (\<lambda>(m, x). m \<noteq> n) (t_indexes tb)\<rparr>) else None) s"
| "ddl (CreateCheck n t sql) s =
     (let name = constraint_name_of t (CheckConstraint (Named n) sql)
      in alter t (\<lambda>tb. if name \<in> set (map fst (t_constraints tb)) then None
           else Some (tb\<lparr>t_constraints := t_constraints tb @ [(name, Check sql)]\<rparr>)) s)"
| "ddl (DropConstraint n t) s = alter t (\<lambda>tb.
     if n \<in> set (map fst (t_constraints tb))
     then Some (tb\<lparr>t_constraints := filter (\<lambda>(m, x). m \<noteq> n) (t_constraints tb)\<rparr>) else None) s"
| "ddl (LockTable t) s = (if t \<in> set (map fst (sch_tables s)) then Some s else None)"
| "ddl (RefuseRows t) s = (if t \<in> set (map fst (sch_tables s)) then Some s else None)"
| "ddl (CreateFunction f body) s =
     (if f \<in> set (map fst (sch_functions s)) then None
      else Some (s\<lparr>sch_functions := sch_functions s @ [(f, body)]\<rparr>))"
| "ddl (CreateTrigger n events t f) s =
     (if f \<in> set (map fst (sch_functions s)) then alter t (\<lambda>tb. if n \<in> set (map fst (t_triggers tb)) then None
         else Some (tb\<lparr>t_triggers := t_triggers tb @ [(n, events, f)]\<rparr>)) s else None)"
| "ddl (DropFunction f) s =
     (if f \<in> set (map fst (sch_functions s)) \<and> list_all (\<lambda>(t, tb). list_all (\<lambda>(n, e, g). g \<noteq> f) (t_triggers tb)) (sch_tables s)
      then Some (s\<lparr>sch_functions := filter (\<lambda>(g, b). g \<noteq> f) (sch_functions s)\<rparr>) else None)"

fun run_ddl :: "migration_op list \<Rightarrow> pg_schema \<Rightarrow> pg_schema option" where
  "run_ddl [] s = Some s"
| "run_ddl (m # ms) s = (case ddl m s of None \<Rightarrow> None | Some s' \<Rightarrow> run_ddl ms s')"

lemma run_ddl_append [simp]:
  "run_ddl (xs @ ys) s = (case run_ddl xs s of None \<Rightarrow> None | Some s' \<Rightarrow> run_ddl ys s')"
  by (induction xs arbitrary: s) (simp_all split: option.split)

definition empty_schema :: pg_schema where
  "empty_schema = \<lparr>sch_tables = [], sch_functions = []\<rparr>"

subsection \<open>Conformance\<close>

definition same_elements :: "'a list \<Rightarrow> 'a list \<Rightarrow> bool" where
  "same_elements xs ys = (list_all (\<lambda>x. x \<in> set ys) xs \<and> list_all (\<lambda>y. y \<in> set xs) ys)"

lemma same_elements_iff: "same_elements xs ys \<longleftrightarrow> set xs = set ys"
  by (auto simp: same_elements_def list_all_iff)

definition same_table :: "pg_table \<Rightarrow> pg_table \<Rightarrow> bool" where
  \<comment> \<open>the same columns, constraints and indexes, in any order; triggers are not declared by classes\<close>
  "same_table a b = (same_elements (t_columns a) (t_columns b) \<and>
     same_elements (t_constraints a) (t_constraints b) \<and> same_elements (t_indexes a) (t_indexes b))"

definition conforms :: "pg_schema \<Rightarrow> model_class list \<Rightarrow> bool" where
  "conforms s models = (map fst (sch_tables s) = map m_table models \<and>
     list_all2 (\<lambda>(t, tb) m. same_table tb (snd (declared_table m))) (sch_tables s) models)"

end
