(* ===== verification/SF_Migrations.thy ===== *)
theory SF_Migrations
  imports SF_Schema
begin

text \<open>
  \<open>alembic/versions\<close>: the seven migrations, upgrade and downgrade, as lists of schema operations, and
  \<open>alembic/env.py\<close>, which runs them in one transaction.

  The first half shows what the scripts build: at every revision the exact schema, and at the last one the
  schema the classes declare. The second half runs them on a database in use, where other sessions write to
  unlocked tables between two statements.
\<close>

subsection \<open>The scripts\<close>

definition create_organizations :: migration_op where
  "create_organizations = CreateTable ''organizations''
     [Column ''name'' (StringType 200) False None,
      Column ''slug'' (StringType 100) False None,
      Column ''status'' (EnumType [''active'', ''suspended''] ''organization_status'') False None,
      Column ''id'' UuidType False None,
      Column ''created_at'' DateTimeType False (Some ''now()''),
      Column ''updated_at'' DateTimeType False (Some ''now()'')]
     [CheckConstraint (Fixed ''ck_organizations_slug_lowercase'') (''slug = lower(slug)''),
      PrimaryKeyConstraint (Fixed ''pk_organizations'') [''id''],
      UniqueConstraint (Fixed ''uq_organizations_slug'') [''slug'']]"

definition create_users :: migration_op where
  "create_users = CreateTable ''users''
     [Column ''email'' (StringType 320) False None,
      Column ''password_hash'' (StringType 512) False None,
      Column ''status'' (EnumType [''active'', ''disabled''] ''user_status'') False None,
      Column ''id'' UuidType False None,
      Column ''created_at'' DateTimeType False (Some ''now()''),
      Column ''updated_at'' DateTimeType False (Some ''now()'')]
     [CheckConstraint (Fixed ''ck_users_email_lowercase'') (''email = lower(email)''),
      PrimaryKeyConstraint (Fixed ''pk_users'') [''id''],
      UniqueConstraint (Fixed ''uq_users_email'') [''email'']]"

definition create_organization_members :: migration_op where
  "create_organization_members = CreateTable ''organization_members''
     [Column ''organization_id'' UuidType False None,
      Column ''user_id'' UuidType False None,
      Column ''role'' (EnumType [''admin'', ''agent''] ''membership_role'') False None,
      Column ''status'' (EnumType [''active'', ''inactive''] ''membership_status'') False None,
      Column ''created_at'' DateTimeType False (Some ''now()''),
      Column ''updated_at'' DateTimeType False (Some ''now()'')]
     [ForeignKeyConstraint (Fixed ''fk_organization_members_organization_id_organizations'')
         [''organization_id''] [(''organizations'', ''id'')],
      ForeignKeyConstraint (Fixed ''fk_organization_members_user_id_users'') [''user_id'']
          [(''users'', ''id'')],
      PrimaryKeyConstraint (Fixed ''pk_organization_members'') [''organization_id'', ''user_id'']]"

definition upgrade_0001 :: "migration_op list" where
  "upgrade_0001 =
     [create_organizations,
      create_users,
      create_organization_members]"

definition downgrade_0001 :: "migration_op list" where
  "downgrade_0001 =
     [DropTable ''organization_members'',
      DropTable ''users'',
      DropTable ''organizations'']"

definition create_customers :: migration_op where
  "create_customers = CreateTable ''customers''
     [Column ''organization_id'' UuidType False None,
      Column ''name'' (StringType 200) False None,
      Column ''email'' (StringType 320) True None,
      Column ''external_id'' (StringType 255) True None,
      Column ''id'' UuidType False None,
      Column ''created_at'' DateTimeType False (Some ''now()''),
      Column ''updated_at'' DateTimeType False (Some ''now()'')]
     [CheckConstraint (Fixed ''ck_customers_email_lowercase'') (''email IS NULL OR email = lower(email)''),
      CheckConstraint (Fixed ''ck_customers_name_nonempty'') (''name = trim(name) AND name <> '' @ quoted []),
      ForeignKeyConstraint (Fixed ''fk_customers_organization_id_organizations'') [''organization_id'']
          [(''organizations'', ''id'')],
      PrimaryKeyConstraint (Fixed ''pk_customers'') [''id''],
      UniqueConstraint (Fixed ''uq_customers_organization_id_external_id'')
          [''organization_id'', ''external_id''],
      UniqueConstraint (Fixed ''uq_customers_organization_id_id'') [''organization_id'', ''id'']]"

definition create_tickets :: migration_op where
  "create_tickets = CreateTable ''tickets''
     [Column ''organization_id'' UuidType False None,
      Column ''customer_id'' UuidType True None,
      Column ''source_type'' (EnumType [''manual'', ''api''] ''ticket_source_type'') False None,
      Column ''external_id'' (StringType 255) True None,
      Column ''subject'' (StringType 300) False None,
      Column ''status'' (EnumType
          [''open'', ''processing'', ''waiting_for_agent'', ''resolved'', ''closed'']
          ''ticket_status'') False None,
      Column ''id'' UuidType False None,
      Column ''created_at'' DateTimeType False (Some ''now()''),
      Column ''updated_at'' DateTimeType False (Some ''now()'')]
     [CheckConstraint (Fixed ''ck_tickets_subject_nonempty'')
         (''subject = trim(subject) AND subject <> '' @ quoted []),
      ForeignKeyConstraint (Fixed ''fk_tickets_organization_id_customers'')
          [''organization_id'', ''customer_id'']
          [(''customers'', ''organization_id''), (''customers'', ''id'')],
      ForeignKeyConstraint (Fixed ''fk_tickets_organization_id_organizations'') [''organization_id'']
          [(''organizations'', ''id'')],
      PrimaryKeyConstraint (Fixed ''pk_tickets'') [''id''],
      UniqueConstraint (Fixed ''uq_tickets_organization_id_id_customer_id'')
          [''organization_id'', ''id'', ''customer_id''],
      UniqueConstraint (Fixed ''uq_tickets_organization_id_id'') [''organization_id'', ''id''],
      UniqueConstraint (Fixed ''uq_tickets_organization_id_source_type_external_id'')
          [''organization_id'', ''source_type'', ''external_id'']]"

definition create_ticket_messages :: migration_op where
  "create_ticket_messages = CreateTable ''ticket_messages''
     [Column ''organization_id'' UuidType False None,
      Column ''ticket_id'' UuidType False None,
      Column ''author_type'' (EnumType
          [''customer'', ''agent'', ''system''] ''message_author_type'') False None,
      Column ''author_user_id'' UuidType True None,
      Column ''author_customer_id'' UuidType True None,
      Column ''body'' TextType False None,
      Column ''id'' UuidType False None,
      Column ''created_at'' DateTimeType False (Some ''now()'')]
     [CheckConstraint (Fixed ''ck_ticket_messages_body_nonempty'')
         (''body = trim(body) AND body <> '' @ quoted []),
      CheckConstraint (Fixed ''ck_ticket_messages_valid_author_identity'') (''(author_type = ''
          @ quoted ''customer''
          @ '' AND author_user_id IS NULL AND author_customer_id IS NOT NULL) OR (author_type = ''
          @ quoted ''agent''
          @ '' AND author_user_id IS NOT NULL AND author_customer_id IS NULL) OR (author_type = ''
          @ quoted ''system'' @ '' AND author_user_id IS NULL AND author_customer_id IS NULL)''),
      ForeignKeyConstraint (Fixed ''fk_ticket_messages_organization_id_customers'')
          [''organization_id'', ''author_customer_id'']
          [(''customers'', ''organization_id''), (''customers'', ''id'')],
      ForeignKeyConstraint (Fixed ''fk_ticket_messages_organization_id_organization_members'')
          [''organization_id'', ''author_user_id'']
          [(''organization_members'', ''organization_id''), (''organization_members'', ''user_id'')],
      ForeignKeyConstraint (Fixed ''fk_ticket_messages_organization_id_tickets'')
          [''organization_id'', ''ticket_id''] [(''tickets'', ''organization_id''), (''tickets'', ''id'')],
      ForeignKeyConstraint (Fixed ''fk_ticket_messages_ticket_customer_matches_author_tickets'')
          [''organization_id'', ''ticket_id'', ''author_customer_id'']
          [(''tickets'', ''organization_id''), (''tickets'', ''id''), (''tickets'', ''customer_id'')],
      ForeignKeyConstraint (Fixed ''fk_ticket_messages_organization_id_organizations'') [''organization_id'']
          [(''organizations'', ''id'')],
      PrimaryKeyConstraint (Fixed ''pk_ticket_messages'') [''id'']]"

definition upgrade_0002 :: "migration_op list" where
  "upgrade_0002 =
     [create_customers,
      create_tickets,
      CreateIndex ''ix_tickets_organization_created_id'' ''tickets''
          [IndexColumn ''organization_id'', IndexColumn ''created_at'', IndexColumn ''id''] None,
      create_ticket_messages,
      CreateIndex ''ix_ticket_messages_organization_ticket_created'' ''ticket_messages''
          [IndexColumn ''organization_id'', IndexColumn ''ticket_id'', IndexColumn ''created_at''] None]"

definition downgrade_0002 :: "migration_op list" where
  "downgrade_0002 =
     [DropIndex ''ix_ticket_messages_organization_ticket_created'' ''ticket_messages'',
      DropTable ''ticket_messages'',
      DropIndex ''ix_tickets_organization_created_id'' ''tickets'',
      DropTable ''tickets'',
      DropTable ''customers'']"

definition create_audit_events :: migration_op where
  "create_audit_events = CreateTable ''audit_events''
     [Column ''organization_id'' UuidType False None,
      Column ''actor_user_id'' UuidType True None,
      Column ''action'' (StringType 100) False None,
      Column ''resource_type'' (StringType 100) False None,
      Column ''resource_id'' UuidType True None,
      Column ''metadata'' JsonbType False (Some (quoted ''{}'' @ ''::jsonb'')),
      Column ''id'' UuidType False None,
      Column ''created_at'' DateTimeType False (Some ''now()'')]
     [CheckConstraint (Fixed ''ck_audit_events_action_lowercase_dotted'')
         (''action = lower(action) AND action ~ '' @ quoted (''^[a-z][a-z0-9_]*('' @ [CHR 0x5C]
         @ ''.[a-z][a-z0-9_]*)+$'')),
      CheckConstraint (Fixed ''ck_audit_events_resource_type_lowercase'')
          (''resource_type = lower(resource_type) AND resource_type ~ '' @ quoted ''^[a-z][a-z0-9_]*$''),
      CheckConstraint (Fixed ''ck_audit_events_metadata_object'') (''jsonb_typeof(metadata) = ''
          @ quoted ''object''),
      ForeignKeyConstraint (Fixed ''fk_audit_events_organization_id_organization_members'')
          [''organization_id'', ''actor_user_id'']
          [(''organization_members'', ''organization_id''), (''organization_members'', ''user_id'')],
      ForeignKeyConstraint (Fixed ''fk_audit_events_organization_id_organizations'') [''organization_id'']
          [(''organizations'', ''id'')],
      PrimaryKeyConstraint (Fixed ''pk_audit_events'') [''id'']]"

definition upgrade_0003 :: "migration_op list" where
  "upgrade_0003 =
     [create_audit_events,
      CreateIndex ''ix_audit_events_organization_created_id'' ''audit_events''
          [IndexColumn ''organization_id'', IndexColumn ''created_at'', IndexColumn ''id''] None,
      CreateFunction ''prevent_audit_event_mutation'' RaiseException,
      CreateTrigger ''audit_events_append_only'' ''BEFORE UPDATE OR DELETE'' ''audit_events''
       ''prevent_audit_event_mutation'',
      CreateTrigger ''audit_events_append_only_truncate'' ''BEFORE TRUNCATE'' ''audit_events''
       ''prevent_audit_event_mutation'']"

definition downgrade_0003 :: "migration_op list" where
  "downgrade_0003 =
     [DropIndex ''ix_audit_events_organization_created_id'' ''audit_events'',
      DropTable ''audit_events'',
      DropFunction ''prevent_audit_event_mutation'']"

definition create_documents :: migration_op where
  "create_documents = CreateTable ''documents''
     [Column ''organization_id'' UuidType False None,
      Column ''source_type'' (EnumType [''upload''] ''document_source_type'') False None,
      Column ''external_id'' (StringType 255) True None,
      Column ''display_filename'' (StringType 200) False None,
      Column ''created_by_user_id'' UuidType False None,
      Column ''id'' UuidType False None,
      Column ''created_at'' DateTimeType False (Some ''now()''),
      Column ''updated_at'' DateTimeType False (Some ''now()'')]
     [CheckConstraint (Fixed ''ck_documents_display_filename_nonempty'')
         (''display_filename = trim(display_filename) AND display_filename <> '' @ quoted []),
      ForeignKeyConstraint (Fixed ''fk_documents_organization_id_organization_members'')
          [''organization_id'', ''created_by_user_id'']
          [(''organization_members'', ''organization_id''), (''organization_members'', ''user_id'')],
      ForeignKeyConstraint (Fixed ''fk_documents_organization_id_organizations'') [''organization_id'']
          [(''organizations'', ''id'')],
      PrimaryKeyConstraint (Fixed ''pk_documents'') [''id''],
      UniqueConstraint (Fixed ''uq_documents_organization_id_id'') [''organization_id'', ''id''],
      UniqueConstraint (Fixed ''uq_documents_organization_id_source_type_external_id'')
          [''organization_id'', ''source_type'', ''external_id'']]"

definition create_document_versions :: migration_op where
  "create_document_versions = CreateTable ''document_versions''
     [Column ''organization_id'' UuidType False None,
      Column ''document_id'' UuidType False None,
      Column ''version_number'' IntegerType False None,
      Column ''media_type'' (EnumType
          [''application/pdf'', ''text/plain'', ''text/markdown''] ''document_media_type'') False None,
      Column ''size_bytes'' IntegerType False None,
      Column ''content_sha256'' (StringType 64) False None,
      Column ''storage_key'' (StringType 500) False None,
      Column ''status'' (EnumType
          [''queued'', ''extracting'', ''ready'', ''failed''] ''document_processing_status'') False None,
      Column ''extracted_text'' TextType True None,
      Column ''attempt_count'' IntegerType False None,
      Column ''processing_task_id'' (StringType 255) True None,
      Column ''processing_started_at'' DateTimeType True None,
      Column ''error_code'' (StringType 100) True None,
      Column ''id'' UuidType False None,
      Column ''created_at'' DateTimeType False (Some ''now()''),
      Column ''updated_at'' DateTimeType False (Some ''now()'')]
     [CheckConstraint (Fixed ''ck_document_versions_attempt_count_nonnegative'') (''attempt_count >= 0''),
      CheckConstraint (Fixed ''ck_document_versions_content_sha256_lowercase_hex'') (''content_sha256 ~ ''
          @ quoted ''^[0-9a-f]{64}$''),
      CheckConstraint (Fixed ''ck_document_versions_size_bytes_valid'')
          (''size_bytes > 0 AND size_bytes <= 10485760''),
      CheckConstraint (Fixed ''ck_document_versions_storage_key_nonempty'')
          (''storage_key = trim(storage_key) AND storage_key <> '' @ quoted []),
      CheckConstraint (Fixed ''ck_document_versions_version_number_positive'') (''version_number > 0''),
      ForeignKeyConstraint (Fixed ''fk_document_versions_organization_id_documents'')
          [''organization_id'', ''document_id'']
          [(''documents'', ''organization_id''), (''documents'', ''id'')],
      ForeignKeyConstraint (Fixed ''fk_document_versions_organization_id_organizations'')
          [''organization_id''] [(''organizations'', ''id'')],
      PrimaryKeyConstraint (Fixed ''pk_document_versions'') [''id''],
      UniqueConstraint (Fixed ''uq_document_versions_organization_document_version'')
          [''organization_id'', ''document_id'', ''version_number''],
      UniqueConstraint (Fixed ''uq_document_versions_organization_id_id'') [''organization_id'', ''id''],
      UniqueConstraint (Fixed ''uq_document_versions_storage_key'') [''storage_key'']]"

definition upgrade_0004 :: "migration_op list" where
  "upgrade_0004 =
     [create_documents,
      create_document_versions,
      CreateIndex ''ix_document_versions_organization_document_version'' ''document_versions''
          [IndexColumn ''organization_id'', IndexColumn ''document_id'', IndexText
          ''version_number DESC''] None,
      CreateIndex ''ix_document_versions_organization_status_updated_id'' ''document_versions''
          [IndexColumn ''organization_id'', IndexColumn ''status'', IndexText ''updated_at DESC'', IndexText
          ''id DESC''] None]"

definition downgrade_0004 :: "migration_op list" where
  "downgrade_0004 =
     [DropIndex ''ix_document_versions_organization_status_updated_id'' ''document_versions'',
      DropIndex ''ix_document_versions_organization_document_version'' ''document_versions'',
      DropTable ''document_versions'',
      DropTable ''documents'']"

definition create_document_ingestion_outbox :: migration_op where
  "create_document_ingestion_outbox = CreateTable ''document_ingestion_outbox''
     [Column ''id'' UuidType False None,
      Column ''organization_id'' UuidType False None,
      Column ''document_version_id'' UuidType False None,
      Column ''task_id'' (StringType 255) False None,
      Column ''created_at'' DateTimeType False (Some ''now()'')]
     [PrimaryKeyConstraint (Named ''pk_document_ingestion_outbox'') [''id''],
      ForeignKeyConstraint (Named ''fk_ingestion_outbox_tenant_version'')
          [''organization_id'', ''document_version_id'']
          [(''document_versions'', ''organization_id''), (''document_versions'', ''id'')],
      UniqueConstraint (Named ''uq_ingestion_outbox_version'') [''organization_id'', ''document_version_id''],
      UniqueConstraint (Named ''uq_ingestion_outbox_task_id'') [''task_id''],
      CheckConstraint (Fixed ''ck_document_ingestion_outbox_task_id_nonempty'')
          (''task_id = trim(task_id) AND task_id <> '' @ quoted [])]"

definition upgrade_0005 :: "migration_op list" where
  "upgrade_0005 =
     [create_document_ingestion_outbox,
      CreateFunction ''ingestion_outbox_identity_guard''
       (RaiseIfDistinct [''id'', ''organization_id'', ''document_version_id'', ''task_id'', ''created_at'']),
      CreateTrigger ''ingestion_outbox_identity_immutable'' ''BEFORE UPDATE'' ''document_ingestion_outbox''
       ''ingestion_outbox_identity_guard'']"

definition downgrade_0005 :: "migration_op list" where
  "downgrade_0005 =
     [LockTable ''document_ingestion_outbox'',
      RefuseRows ''document_ingestion_outbox'',
      DropTable ''document_ingestion_outbox'',
      DropFunction ''ingestion_outbox_identity_guard'']"

definition upgrade_0006 :: "migration_op list" where
  "upgrade_0006 =
     [AddColumn ''document_ingestion_outbox'' (Column ''available_at'' DateTimeType False (Some ''now()''))] @
     map (\<lambda>name. AddColumn ''document_ingestion_outbox'' (Column name DateTimeType True None))
       [''published_at'', ''settled_at'', ''unresolved_at'', ''lease_expires_at''] @
     [AddColumn ''document_ingestion_outbox'' (Column ''lease_token'' UuidType True None)] @
     map (\<lambda>name. AddColumn ''document_ingestion_outbox'' (Column name IntegerType False (Some ''0'')))
       [''publish_attempts'', ''recovery_attempts'', ''recovery_grants''] @
     [AddColumn ''document_ingestion_outbox'' (Column ''last_error'' (StringType 32) True None),
      CreateCheck ''attempts_nonnegative'' ''document_ingestion_outbox''
          ''publish_attempts >= 0 AND recovery_attempts >= 0 AND recovery_grants BETWEEN 0 AND 3'',
      CreateCheck ''lease_pair'' ''document_ingestion_outbox''
          ''(lease_token IS NULL) = (lease_expires_at IS NULL)'',
      CreateCheck ''safe_error'' ''document_ingestion_outbox'' (''last_error IS NULL OR last_error IN (''
          @ quoted ''publish_unavailable'' @ '', '' @ quoted ''attempts_exhausted'' @ '', ''
          @ quoted ''ownership_ambiguous'' @ '')''),
      CreateIndex ''ix_ingestion_outbox_due'' ''document_ingestion_outbox''
          [IndexColumn ''available_at'', IndexColumn ''id''] (Some
          ''settled_at IS NULL AND unresolved_at IS NULL''),
      CreateIndex ''ix_ingestion_outbox_retention'' ''document_ingestion_outbox''
          [IndexColumn ''settled_at'', IndexColumn ''id''] (Some
          ''settled_at IS NOT NULL AND unresolved_at IS NULL'')]"

definition downgrade_0006 :: "migration_op list" where
  "downgrade_0006 =
     [LockTable ''document_ingestion_outbox'',
      RefuseRows ''document_ingestion_outbox'',
      DropIndex ''ix_ingestion_outbox_retention'' ''document_ingestion_outbox'',
      DropIndex ''ix_ingestion_outbox_due'' ''document_ingestion_outbox''] @
     map (\<lambda>name. DropConstraint (''ck_document_ingestion_outbox_''
         @ name) ''document_ingestion_outbox'')
       [''safe_error'', ''lease_pair'', ''attempts_nonnegative''] @
     map (DropColumn ''document_ingestion_outbox'')
       [''last_error'', ''publish_attempts'', ''recovery_attempts'', ''recovery_grants'', ''lease_token'',
        ''lease_expires_at'', ''published_at'', ''settled_at'', ''unresolved_at'', ''available_at'']"

definition create_classification_operations :: migration_op where
  "create_classification_operations = CreateTable ''classification_operations''
     [Column ''id'' UuidType False None,
      Column ''organization_id'' UuidType False None,
      Column ''ticket_id'' UuidType False None,
      Column ''requesting_actor_user_id'' UuidType False None,
      Column ''opening_message_id'' UuidType True None,
      Column ''input_fingerprint'' (StringType 64) False None,
      Column ''config_digest'' (StringType 64) False None,
      Column ''configuration_version'' (StringType 100) False None,
      Column ''input_policy_version'' (StringType 100) False None,
      Column ''taxonomy_version'' (StringType 100) False None,
      Column ''schema_version'' (StringType 100) False None,
      Column ''prompt_version'' (StringType 100) False None,
      Column ''adapter_version'' (StringType 100) False None,
      Column ''provider'' (StringType 100) False None,
      Column ''model'' (StringType 100) False None,
      Column ''mode'' (StringType 10) False None,
      Column ''state'' (StringType 20) False None,
      Column ''outcome'' (StringType 30) True None,
      Column ''category'' (StringType 30) True None,
      Column ''error_code'' (StringType 60) True None,
      Column ''attempt_count'' IntegerType False None,
      Column ''elapsed_ms'' IntegerType True None,
      Column ''input_tokens'' IntegerType True None,
      Column ''output_tokens'' IntegerType True None,
      Column ''cost'' (NumericType 18 8) True None,
      Column ''created_at'' DateTimeType False None,
      Column ''expires_at'' DateTimeType False None,
      Column ''completed_at'' DateTimeType True None]
     [PrimaryKeyConstraint Unnamed [''id''],
      ForeignKeyConstraint (Named ''fk_classification_ticket'') [''organization_id'',
          ''ticket_id''] [(''tickets'', ''organization_id''), (''tickets'', ''id'')],
      ForeignKeyConstraint (Named ''fk_classification_actor_membership'')
          [''organization_id'', ''requesting_actor_user_id'']
          [(''organization_members'', ''organization_id''), (''organization_members'', ''user_id'')],
      UniqueConstraint (Named ''uq_classification_identity'')
          [''organization_id'', ''ticket_id'', ''input_fingerprint'', ''config_digest''],
      CheckConstraint (Named ''state'') (''state IN ('' @ quoted ''in_progress'' @ '',''
          @ quoted ''succeeded'' @ '','' @ quoted ''stale'' @ '','' @ quoted ''failed'' @ '',''
          @ quoted ''unknown'' @ '')''),
      CheckConstraint (Named ''fake_only'') (''mode = '' @ quoted ''fake''),
      CheckConstraint (Named ''attempt_count'') (''attempt_count IN (0,1)''),
      CheckConstraint (Named ''elapsed_ms'') (''elapsed_ms IS NULL OR elapsed_ms >= 0''),
      CheckConstraint (Named ''fake_usage_unmeasured'')
          (''input_tokens IS NULL AND output_tokens IS NULL AND cost IS NULL''),
      CheckConstraint (Named ''result_pair'') (''(state = '' @ quoted ''succeeded''
          @ '' AND error_code IS NULL AND completed_at IS NOT NULL AND ((outcome = '' @ quoted ''classified''
          @ '' AND category IS NOT NULL AND category IN ('' @ quoted ''account_access'' @ '',''
          @ quoted ''billing'' @ '','' @ quoted ''technical_issue'' @ '','' @ quoted ''how_to'' @ '',''
          @ quoted ''feature_request'' @ '','' @ quoted ''other'' @ '')) OR (outcome = ''
          @ quoted ''insufficient_context'' @ '' AND category IS NULL))) OR (state <> ''
          @ quoted ''succeeded'' @ '' AND outcome IS NULL AND category IS NULL)''),
      CheckConstraint (Named ''success_outcome'') (''state <> '' @ quoted ''succeeded''
          @ '' OR outcome IS NOT NULL'')]"

definition upgrade_0007 :: "migration_op list" where
  "upgrade_0007 =
     [create_classification_operations,
      CreateIndex ''ix_classification_ticket_created'' ''classification_operations''
          [IndexColumn ''organization_id'', IndexColumn ''ticket_id'', IndexColumn
          ''created_at'', IndexColumn ''id''] None]"

definition downgrade_0007 :: "migration_op list" where
  "downgrade_0007 =
     [RefuseRows ''classification_operations'',
      DropIndex ''ix_classification_ticket_created'' ''classification_operations'',
      DropTable ''classification_operations'']"


subsection \<open>Tables the scripts create\<close>

fun created :: "migration_op \<Rightarrow> bool" where
  "created (CreateTable t cols items) = True"
| "created _ = False"

fun name_of :: "migration_op \<Rightarrow> string" where
  "name_of (CreateTable t cols items) = t"
| "name_of _ = []"

fun table_of :: "migration_op \<Rightarrow> pg_table" where
  "table_of (CreateTable t cols items) = new_table t cols items"
| "table_of _ = \<lparr>t_columns = [], t_constraints = [], t_indexes = [], t_triggers = []\<rparr>"

fun keys_in :: "(string \<times> sql_constraint) list \<Rightarrow> string list list" where
  "keys_in [] = []"
| "keys_in ((n, PrimaryKey cs) # cons) = cs # keys_in cons"
| "keys_in ((n, Unique cs) # cons) = cs # keys_in cons"
| "keys_in (c # cons) = keys_in cons"

fun foreign_in :: "(string \<times> sql_constraint) list \<Rightarrow> (string \<times> string list) list" where
  "foreign_in [] = []"
| "foreign_in ((n, ForeignKey cs t rcs) # cons) = (t, rcs) # foreign_in cons"
| "foreign_in (c # cons) = foreign_in cons"

abbreviation keys_of :: "pg_table \<Rightarrow> string list list" where
  "keys_of tb \<equiv> keys_in (t_constraints tb)"

abbreviation foreign :: "pg_table \<Rightarrow> (string \<times> string list) list" where
  "foreign tb \<equiv> foreign_in (t_constraints tb)"

lemma keys_in_append [simp]: "keys_in (xs @ ys) = keys_in xs @ keys_in ys"
  by (induction xs rule: keys_in.induct) simp_all

lemma foreign_in_append [simp]: "foreign_in (xs @ ys) = foreign_in xs @ foreign_in ys"
  by (induction xs rule: foreign_in.induct) simp_all

lemma key_of_columns_keys: "list_ex (\<lambda>(n, c). key_of_columns rcs c) cons \<longleftrightarrow> rcs \<in> set (keys_in cons)"
  by (induction cons rule: keys_in.induct) auto

lemma no_reference: "list_all (\<lambda>(n, c). \<not> references t c) cons \<longleftrightarrow> t \<notin> fst ` set (foreign_in cons)"
  by (induction cons rule: foreign_in.induct) auto

lemma constraints_accepted:
  "list_all (\<lambda>(n, c). constraint_accepted ts c) cons \<longleftrightarrow>
     list_all (\<lambda>(t, rcs). case map_of ts t of None \<Rightarrow> False | Some tb \<Rightarrow> rcs \<in> set (keys_of tb)) (foreign_in cons)"
  by (induction cons rule: foreign_in.induct) (auto simp: key_of_columns_keys split: option.split)

lemma ddl_create:
  assumes "created m \<and> name_of m = t \<and> table_valid (table_of m)" "foreign (table_of m) = fks"
  shows "ddl m s = (if t \<notin> set (map fst (sch_tables s)) \<and>
      list_all (\<lambda>(t, rcs). case map_of (sch_tables s) t of None \<Rightarrow> False | Some tb \<Rightarrow> rcs \<in> set (keys_of tb)) fks
      then Some (s\<lparr>sch_tables := sch_tables s @ [(t, table_of m)]\<rparr>) else None)"
  using assms by (cases m) (simp_all add: constraints_accepted)

definition organizations_table :: pg_table where
  "organizations_table = table_of create_organizations"

lemma organizations_facts:
  "created create_organizations \<and> name_of create_organizations = ''organizations'' \<and> table_valid organizations_table"
  "keys_of organizations_table =
     [[''id''],
      [''slug'']]"
  "foreign organizations_table =
     []"
  by code_simp+

lemmas ddl_organizations = ddl_create [OF organizations_facts(1)[unfolded organizations_table_def] organizations_facts(3)[unfolded organizations_table_def], folded organizations_table_def]

definition users_table :: pg_table where
  "users_table = table_of create_users"

lemma users_facts:
  "created create_users \<and> name_of create_users = ''users'' \<and> table_valid users_table"
  "keys_of users_table =
     [[''id''],
      [''email'']]"
  "foreign users_table =
     []"
  by code_simp+

lemmas ddl_users = ddl_create [OF users_facts(1)[unfolded users_table_def] users_facts(3)[unfolded users_table_def], folded users_table_def]

definition organization_members_table :: pg_table where
  "organization_members_table = table_of create_organization_members"

lemma organization_members_facts:
  "created create_organization_members \<and> name_of create_organization_members = ''organization_members'' \<and> table_valid organization_members_table"
  "keys_of organization_members_table =
     [[''organization_id'', ''user_id'']]"
  "foreign organization_members_table =
     [(''organizations'', [''id'']),
      (''users'', [''id''])]"
  by code_simp+

lemmas ddl_organization_members = ddl_create [OF organization_members_facts(1)[unfolded organization_members_table_def] organization_members_facts(3)[unfolded organization_members_table_def], folded organization_members_table_def]

definition customers_table :: pg_table where
  "customers_table = table_of create_customers"

lemma customers_facts:
  "created create_customers \<and> name_of create_customers = ''customers'' \<and> table_valid customers_table"
  "keys_of customers_table =
     [[''id''],
      [''organization_id'', ''external_id''],
      [''organization_id'', ''id'']]"
  "foreign customers_table =
     [(''organizations'', [''id''])]"
  by code_simp+

lemmas ddl_customers = ddl_create [OF customers_facts(1)[unfolded customers_table_def] customers_facts(3)[unfolded customers_table_def], folded customers_table_def]

definition tickets_table :: pg_table where
  "tickets_table = table_of create_tickets"

lemma tickets_facts:
  "created create_tickets \<and> name_of create_tickets = ''tickets'' \<and> table_valid tickets_table"
  "keys_of tickets_table =
     [[''id''],
      [''organization_id'', ''id'', ''customer_id''],
      [''organization_id'', ''id''],
      [''organization_id'', ''source_type'', ''external_id'']]"
  "foreign tickets_table =
     [(''customers'', [''organization_id'', ''id'']),
      (''organizations'', [''id''])]"
  by code_simp+

lemmas ddl_tickets = ddl_create [OF tickets_facts(1)[unfolded tickets_table_def] tickets_facts(3)[unfolded tickets_table_def], folded tickets_table_def]

definition ticket_messages_table :: pg_table where
  "ticket_messages_table = table_of create_ticket_messages"

lemma ticket_messages_facts:
  "created create_ticket_messages \<and> name_of create_ticket_messages = ''ticket_messages'' \<and> table_valid ticket_messages_table"
  "keys_of ticket_messages_table =
     [[''id'']]"
  "foreign ticket_messages_table =
     [(''customers'', [''organization_id'', ''id'']),
      (''organization_members'', [''organization_id'', ''user_id'']),
      (''tickets'', [''organization_id'', ''id'']),
      (''tickets'', [''organization_id'', ''id'', ''customer_id'']),
      (''organizations'', [''id''])]"
  by code_simp+

lemmas ddl_ticket_messages = ddl_create [OF ticket_messages_facts(1)[unfolded ticket_messages_table_def] ticket_messages_facts(3)[unfolded ticket_messages_table_def], folded ticket_messages_table_def]

definition audit_events_table :: pg_table where
  "audit_events_table = table_of create_audit_events"

lemma audit_events_facts:
  "created create_audit_events \<and> name_of create_audit_events = ''audit_events'' \<and> table_valid audit_events_table"
  "keys_of audit_events_table =
     [[''id'']]"
  "foreign audit_events_table =
     [(''organization_members'', [''organization_id'', ''user_id'']),
      (''organizations'', [''id''])]"
  by code_simp+

lemmas ddl_audit_events = ddl_create [OF audit_events_facts(1)[unfolded audit_events_table_def] audit_events_facts(3)[unfolded audit_events_table_def], folded audit_events_table_def]

definition documents_table :: pg_table where
  "documents_table = table_of create_documents"

lemma documents_facts:
  "created create_documents \<and> name_of create_documents = ''documents'' \<and> table_valid documents_table"
  "keys_of documents_table =
     [[''id''],
      [''organization_id'', ''id''],
      [''organization_id'', ''source_type'', ''external_id'']]"
  "foreign documents_table =
     [(''organization_members'', [''organization_id'', ''user_id'']),
      (''organizations'', [''id''])]"
  by code_simp+

lemmas ddl_documents = ddl_create [OF documents_facts(1)[unfolded documents_table_def] documents_facts(3)[unfolded documents_table_def], folded documents_table_def]

definition document_versions_table :: pg_table where
  "document_versions_table = table_of create_document_versions"

lemma document_versions_facts:
  "created create_document_versions \<and> name_of create_document_versions = ''document_versions'' \<and> table_valid document_versions_table"
  "keys_of document_versions_table =
     [[''id''],
      [''organization_id'', ''document_id'', ''version_number''],
      [''organization_id'', ''id''],
      [''storage_key'']]"
  "foreign document_versions_table =
     [(''documents'', [''organization_id'', ''id'']),
      (''organizations'', [''id''])]"
  by code_simp+

lemmas ddl_document_versions = ddl_create [OF document_versions_facts(1)[unfolded document_versions_table_def] document_versions_facts(3)[unfolded document_versions_table_def], folded document_versions_table_def]

definition document_ingestion_outbox_table :: pg_table where
  "document_ingestion_outbox_table = table_of create_document_ingestion_outbox"

lemma document_ingestion_outbox_facts:
  "created create_document_ingestion_outbox \<and> name_of create_document_ingestion_outbox = ''document_ingestion_outbox'' \<and> table_valid document_ingestion_outbox_table"
  "keys_of document_ingestion_outbox_table =
     [[''id''],
      [''organization_id'', ''document_version_id''],
      [''task_id'']]"
  "foreign document_ingestion_outbox_table =
     [(''document_versions'', [''organization_id'', ''id''])]"
  by code_simp+

lemmas ddl_document_ingestion_outbox = ddl_create [OF document_ingestion_outbox_facts(1)[unfolded document_ingestion_outbox_table_def] document_ingestion_outbox_facts(3)[unfolded document_ingestion_outbox_table_def], folded document_ingestion_outbox_table_def]

definition classification_operations_table :: pg_table where
  "classification_operations_table = table_of create_classification_operations"

lemma classification_operations_facts:
  "created create_classification_operations \<and> name_of create_classification_operations = ''classification_operations'' \<and> table_valid classification_operations_table"
  "keys_of classification_operations_table =
     [[''id''],
      [''organization_id'', ''ticket_id'', ''input_fingerprint'', ''config_digest'']]"
  "foreign classification_operations_table =
     [(''tickets'', [''organization_id'', ''id'']),
      (''organization_members'', [''organization_id'', ''user_id''])]"
  by code_simp+

lemmas ddl_classification_operations = ddl_create [OF classification_operations_facts(1)[unfolded classification_operations_table_def] classification_operations_facts(3)[unfolded classification_operations_table_def], folded classification_operations_table_def]
subsection \<open>The schema at every revision\<close>

definition stage_1 :: pg_schema where
  "stage_1 = \<lparr>sch_tables = [(''organizations'', organizations_table), (''users'', users_table),
     (''organization_members'', organization_members_table)], sch_functions = []\<rparr>"

definition stage_2 :: pg_schema where
  "stage_2 = \<lparr>sch_tables = sch_tables stage_1 @
     [(''customers'', customers_table),
      (''tickets'', tickets_table\<lparr>t_indexes := [(''ix_tickets_organization_created_id'',
         SqlIndex [''organization_id'', ''created_at'', ''id''] None)]\<rparr>),
      (''ticket_messages'', ticket_messages_table\<lparr>t_indexes := [(''ix_ticket_messages_organization_ticket_created'',
         SqlIndex [''organization_id'', ''ticket_id'', ''created_at''] None)]\<rparr>)], sch_functions = []\<rparr>"

definition stage_3 :: pg_schema where
  "stage_3 = \<lparr>sch_tables = sch_tables stage_2 @
     [(''audit_events'', audit_events_table
        \<lparr>t_indexes := [(''ix_audit_events_organization_created_id'',
           SqlIndex [''organization_id'', ''created_at'', ''id''] None)],
         t_triggers := [(''audit_events_append_only'', ''BEFORE UPDATE OR DELETE'', ''prevent_audit_event_mutation''),
           (''audit_events_append_only_truncate'', ''BEFORE TRUNCATE'', ''prevent_audit_event_mutation'')]\<rparr>)],
     sch_functions = [(''prevent_audit_event_mutation'', RaiseException)]\<rparr>"

definition stage_4 :: pg_schema where
  "stage_4 = \<lparr>sch_tables = sch_tables stage_3 @
     [(''documents'', documents_table),
      (''document_versions'', document_versions_table\<lparr>t_indexes :=
        [(''ix_document_versions_organization_document_version'',
           SqlIndex [''organization_id'', ''document_id'', ''version_number DESC''] None),
         (''ix_document_versions_organization_status_updated_id'',
           SqlIndex [''organization_id'', ''status'', ''updated_at DESC'', ''id DESC''] None)]\<rparr>)],
     sch_functions = sch_functions stage_3\<rparr>"

definition outbox_table :: pg_table where
  "outbox_table = document_ingestion_outbox_table\<lparr>t_triggers :=
     [(''ingestion_outbox_identity_immutable'', ''BEFORE UPDATE'', ''ingestion_outbox_identity_guard'')]\<rparr>"

definition stage_5 :: pg_schema where
  "stage_5 = \<lparr>sch_tables = sch_tables stage_4 @ [(''document_ingestion_outbox'', outbox_table)],
     sch_functions = sch_functions stage_4 @ [(''ingestion_outbox_identity_guard'',
       RaiseIfDistinct [''id'', ''organization_id'', ''document_version_id'', ''task_id'', ''created_at''])]\<rparr>"

definition lifecycle_columns :: "sa_column list" where
  "lifecycle_columns = [Column ''available_at'' DateTimeType False (Some ''now()''),
     Column ''published_at'' DateTimeType True None, Column ''settled_at'' DateTimeType True None,
     Column ''unresolved_at'' DateTimeType True None, Column ''lease_expires_at'' DateTimeType True None,
     Column ''lease_token'' UuidType True None, Column ''publish_attempts'' IntegerType False (Some ''0''),
     Column ''recovery_attempts'' IntegerType False (Some ''0''),
     Column ''recovery_grants'' IntegerType False (Some ''0''), Column ''last_error'' (StringType 32) True None]"

definition lifecycle_checks :: "(string \<times> sql_constraint) list" where
  "lifecycle_checks =
     [(''ck_document_ingestion_outbox_attempts_nonnegative'', Check
         ''publish_attempts >= 0 AND recovery_attempts >= 0 AND recovery_grants BETWEEN 0 AND 3''),
      (''ck_document_ingestion_outbox_lease_pair'', Check ''(lease_token IS NULL) = (lease_expires_at IS NULL)''),
      (''ck_document_ingestion_outbox_safe_error'', Check (''last_error IS NULL OR last_error IN (''
         @ quoted ''publish_unavailable'' @ '', '' @ quoted ''attempts_exhausted'' @ '', ''
         @ quoted ''ownership_ambiguous'' @ '')''))]"

definition lifecycle_table :: pg_table where
  "lifecycle_table = outbox_table
     \<lparr>t_columns := t_columns document_ingestion_outbox_table @ lifecycle_columns,
      t_constraints := t_constraints document_ingestion_outbox_table @ lifecycle_checks,
      t_indexes := [(''ix_ingestion_outbox_due'', SqlIndex [''available_at'', ''id'']
          (Some ''settled_at IS NULL AND unresolved_at IS NULL'')),
        (''ix_ingestion_outbox_retention'', SqlIndex [''settled_at'', ''id'']
          (Some ''settled_at IS NOT NULL AND unresolved_at IS NULL''))]\<rparr>"

definition stage_6 :: pg_schema where
  "stage_6 = \<lparr>sch_tables = sch_tables stage_4 @ [(''document_ingestion_outbox'', lifecycle_table)],
     sch_functions = sch_functions stage_5\<rparr>"

definition stage_7 :: pg_schema where
  "stage_7 = \<lparr>sch_tables = sch_tables stage_6 @
     [(''classification_operations'', classification_operations_table\<lparr>t_indexes :=
        [(''ix_classification_ticket_created'',
           SqlIndex [''organization_id'', ''ticket_id'', ''created_at'', ''id''] None)]\<rparr>)],
     sch_functions = sch_functions stage_6\<rparr>"

lemmas ddl_created = ddl_organizations ddl_users ddl_organization_members ddl_customers ddl_tickets
  ddl_ticket_messages ddl_audit_events ddl_documents ddl_document_versions ddl_document_ingestion_outbox
  ddl_classification_operations

lemmas created_keys = organizations_facts(2) users_facts(2) organization_members_facts(2) customers_facts(2)
  tickets_facts(2) documents_facts(2) document_versions_facts(2)

lemmas created_foreign = organizations_facts(3) users_facts(3) organization_members_facts(3) customers_facts(3)
  tickets_facts(3) ticket_messages_facts(3) audit_events_facts(3) documents_facts(3) document_versions_facts(3)
  document_ingestion_outbox_facts(3) classification_operations_facts(3)

lemma no_indexes [simp]: "t_indexes (table_of m) = []" "t_triggers (table_of m) = []"
  by (cases m; simp add: new_table_def)+

lemma created_plain [simp]:
  "t_indexes organizations_table = []" "t_triggers organizations_table = []"
  "t_indexes users_table = []" "t_triggers users_table = []"
  "t_indexes organization_members_table = []" "t_triggers organization_members_table = []"
  "t_indexes customers_table = []" "t_triggers customers_table = []"
  "t_indexes tickets_table = []" "t_triggers tickets_table = []"
  "t_indexes ticket_messages_table = []" "t_triggers ticket_messages_table = []"
  "t_indexes audit_events_table = []" "t_triggers audit_events_table = []"
  "t_indexes documents_table = []" "t_triggers documents_table = []"
  "t_indexes document_versions_table = []" "t_triggers document_versions_table = []"
  "t_indexes document_ingestion_outbox_table = []" "t_triggers document_ingestion_outbox_table = []"
  "t_indexes classification_operations_table = []" "t_triggers classification_operations_table = []"
  by (simp_all add: organizations_table_def users_table_def organization_members_table_def customers_table_def
    tickets_table_def ticket_messages_table_def audit_events_table_def documents_table_def
    document_versions_table_def document_ingestion_outbox_table_def classification_operations_table_def)

lemma plain_update [simp]: "t_indexes tb = [] \<Longrightarrow> tb\<lparr>t_indexes := []\<rparr> = tb"
  by (cases tb) simp

lemma outbox_columns: "map c_name (t_columns document_ingestion_outbox_table) =
    [''id'', ''organization_id'', ''document_version_id'', ''task_id'', ''created_at'']"
  "map fst (t_constraints document_ingestion_outbox_table) =
    [''pk_document_ingestion_outbox'', ''fk_ingestion_outbox_tenant_version'', ''uq_ingestion_outbox_version'',
     ''uq_ingestion_outbox_task_id'', ''ck_document_ingestion_outbox_task_id_nonempty'']"
  by code_simp+

lemmas stage_run = ddl_created created_keys created_foreign alter_def no_reference option.case

lemma upgrade_1: "run_ddl upgrade_0001 empty_schema = Some stage_1"
  by (simp add: upgrade_0001_def stage_1_def empty_schema_def stage_run)

lemma upgrade_2: "run_ddl upgrade_0002 stage_1 = Some stage_2"
  by (simp add: upgrade_0002_def stage_1_def stage_2_def stage_run)

lemma upgrade_3: "run_ddl upgrade_0003 stage_2 = Some stage_3"
  by (simp add: upgrade_0003_def stage_1_def stage_2_def stage_3_def stage_run)

lemma upgrade_4: "run_ddl upgrade_0004 stage_3 = Some stage_4"
  by (simp add: upgrade_0004_def stage_1_def stage_2_def stage_3_def stage_4_def stage_run)

lemma upgrade_5: "run_ddl upgrade_0005 stage_4 = Some stage_5"
  by (simp add: upgrade_0005_def stage_1_def stage_2_def stage_3_def stage_4_def stage_5_def stage_run
    outbox_table_def)

lemma upgrade_7: "run_ddl upgrade_0007 stage_6 = Some stage_7"
  by (simp add: upgrade_0007_def stage_1_def stage_2_def stage_3_def stage_4_def stage_5_def stage_6_def stage_7_def
    stage_run lifecycle_table_def outbox_table_def)

lemma downgrade_1: "run_ddl downgrade_0001 stage_1 = Some empty_schema"
  by (simp add: downgrade_0001_def stage_1_def empty_schema_def stage_run)

lemma downgrade_2: "run_ddl downgrade_0002 stage_2 = Some stage_1"
  by (simp add: downgrade_0002_def stage_1_def stage_2_def stage_run)

lemma downgrade_3: "run_ddl downgrade_0003 stage_3 = Some stage_2"
  by (simp add: downgrade_0003_def stage_1_def stage_2_def stage_3_def stage_run)

lemma downgrade_4: "run_ddl downgrade_0004 stage_4 = Some stage_3"
  by (simp add: downgrade_0004_def stage_1_def stage_2_def stage_3_def stage_4_def stage_run)

lemma keep_columns: "c \<notin> set (map c_name cols) \<Longrightarrow> filter (\<lambda>col. c_name col \<noteq> c) cols = cols"
  by (induction cols) auto

lemma keep_names: "n \<notin> set (map fst cons) \<Longrightarrow> filter (\<lambda>(m, x). m \<noteq> n) cons = cons"
  by (induction cons) auto

definition no_keys :: "(string \<times> sql_constraint) list \<Rightarrow> string \<Rightarrow> bool" where
  "no_keys cons c = list_all (\<lambda>(n, k). c \<notin> set (key_columns k)) cons"

lemma outbox_no_keys: "list_all (no_keys (t_constraints document_ingestion_outbox_table)) (map c_name lifecycle_columns)"
  by code_simp

lemma outbox_free:
  "c \<in> set (map c_name lifecycle_columns) \<Longrightarrow>
     list_all (\<lambda>(n, k). c \<notin> set (key_columns k)) (t_constraints document_ingestion_outbox_table)"
  using outbox_no_keys by (auto simp: list_all_iff no_keys_def)

lemma outbox_names:
  "c_name ` set (t_columns document_ingestion_outbox_table) =
     {''id'', ''organization_id'', ''document_version_id'', ''task_id'', ''created_at''}"
  "fst ` set (t_constraints document_ingestion_outbox_table) =
     {''pk_document_ingestion_outbox'', ''fk_ingestion_outbox_tenant_version'', ''uq_ingestion_outbox_version'',
      ''uq_ingestion_outbox_task_id'', ''ck_document_ingestion_outbox_task_id_nonempty''}"
  unfolding set_map [symmetric] outbox_columns by simp_all

lemma upgrade_6: "run_ddl upgrade_0006 stage_5 = Some stage_6"
  by (simp add: upgrade_0006_def stage_1_def stage_2_def stage_3_def stage_4_def stage_5_def stage_6_def stage_run
    outbox_table_def lifecycle_table_def outbox_names lifecycle_columns_def lifecycle_checks_def)

lemma downgrade_5: "run_ddl downgrade_0005 stage_5 = Some stage_4"
  by (simp add: downgrade_0005_def stage_1_def stage_2_def stage_3_def stage_4_def stage_5_def stage_run
    outbox_table_def)

lemma downgrade_6: "run_ddl downgrade_0006 stage_6 = Some stage_5"
  by (simp add: downgrade_0006_def stage_1_def stage_2_def stage_3_def stage_4_def stage_5_def stage_6_def stage_run
    outbox_table_def lifecycle_table_def outbox_names lifecycle_columns_def lifecycle_checks_def
    keep_columns keep_names outbox_free)

lemma downgrade_7: "run_ddl downgrade_0007 stage_7 = Some stage_6"
  by (simp add: downgrade_0007_def stage_1_def stage_2_def stage_3_def stage_4_def stage_5_def stage_6_def stage_7_def
    stage_run lifecycle_table_def outbox_table_def lifecycle_checks_def)

subsection \<open>Conformance\<close>

lemma size_bytes_text [code]: "size_bytes_check = ''size_bytes > 0 AND size_bytes <= 10485760''"
proof -
  have "decimal (nat MAX_DOCUMENT_BYTES) = ''10485760''"
    by (simp add: MAX_DOCUMENT_BYTES_def decimal.simps) code_simp
  then show ?thesis by (simp add: size_bytes_check_def)
qed

lemma tables_conform:
  "same_table organizations_table
     (snd (declared_table organizations_model))"
  "same_table users_table
     (snd (declared_table users_model))"
  "same_table organization_members_table
     (snd (declared_table organization_members_model))"
  "same_table customers_table
     (snd (declared_table customers_model))"
  "same_table (tickets_table\<lparr>t_indexes := [(''ix_tickets_organization_created_id'', SqlIndex [''organization_id'', ''created_at'', ''id''] None)]\<rparr>)
     (snd (declared_table tickets_model))"
  "same_table (ticket_messages_table\<lparr>t_indexes := [(''ix_ticket_messages_organization_ticket_created'', SqlIndex [''organization_id'', ''ticket_id'', ''created_at''] None)]\<rparr>)
     (snd (declared_table ticket_messages_model))"
  "same_table (audit_events_table \<lparr>t_indexes := [(''ix_audit_events_organization_created_id'', SqlIndex [''organization_id'', ''created_at'', ''id''] None)], t_triggers := [(''audit_events_append_only'', ''BEFORE UPDATE OR DELETE'', ''prevent_audit_event_mutation''), (''audit_events_append_only_truncate'', ''BEFORE TRUNCATE'', ''prevent_audit_event_mutation'')]\<rparr>)
     (snd (declared_table audit_events_model))"
  "same_table documents_table
     (snd (declared_table documents_model))"
  "same_table (document_versions_table\<lparr>t_indexes := [(''ix_document_versions_organization_document_version'', SqlIndex [''organization_id'', ''document_id'', ''version_number DESC''] None), (''ix_document_versions_organization_status_updated_id'', SqlIndex [''organization_id'', ''status'', ''updated_at DESC'', ''id DESC''] None)]\<rparr>)
     (snd (declared_table document_versions_model))"
  "same_table lifecycle_table
     (snd (declared_table document_ingestion_outbox_model))"
  "same_table (classification_operations_table\<lparr>t_indexes := [(''ix_classification_ticket_created'', SqlIndex [''organization_id'', ''ticket_id'', ''created_at'', ''id''] None)]\<rparr>)
     (snd (declared_table classification_operations_model))"
  by code_simp+

lemma declared_names: "map m_table declared_models = [''organizations'', ''users'', ''organization_members'', ''customers'',
    ''tickets'', ''ticket_messages'', ''audit_events'', ''documents'', ''document_versions'',
    ''document_ingestion_outbox'', ''classification_operations'']"
  by (simp add: declared_models_def organizations_model_def users_model_def organization_members_model_def
    customers_model_def tickets_model_def ticket_messages_model_def audit_events_model_def documents_model_def
    document_versions_model_def document_ingestion_outbox_model_def classification_operations_model_def)

lemmas stage_defs = stage_1_def stage_2_def stage_3_def stage_4_def stage_5_def stage_6_def stage_7_def

lemma stage_conforms: "conforms stage_7 declared_models"
  unfolding conforms_def declared_names by (simp add: stage_defs declared_models_def tables_conform)

subsection \<open>Revisions\<close>

record revision =
  revision_id :: string
  down_revision :: "string option"
  upgrade_ops :: "migration_op list"
  downgrade_ops :: "migration_op list"

definition revision_0001 :: revision where
  "revision_0001 = \<lparr>revision_id = ''0001_identity'', down_revision = None,
     upgrade_ops = upgrade_0001, downgrade_ops = downgrade_0001\<rparr>"

definition revision_0002 :: revision where
  "revision_0002 = \<lparr>revision_id = ''0002_ticket'', down_revision = Some ''0001_identity'',
     upgrade_ops = upgrade_0002, downgrade_ops = downgrade_0002\<rparr>"

definition revision_0003 :: revision where
  "revision_0003 = \<lparr>revision_id = ''0003_audit_events'', down_revision = Some ''0002_ticket'',
     upgrade_ops = upgrade_0003, downgrade_ops = downgrade_0003\<rparr>"

definition revision_0004 :: revision where
  "revision_0004 = \<lparr>revision_id = ''0004_documents'', down_revision = Some ''0003_audit_events'',
     upgrade_ops = upgrade_0004, downgrade_ops = downgrade_0004\<rparr>"

definition revision_0005 :: revision where
  "revision_0005 = \<lparr>revision_id = ''0005_ingestion_outbox'', down_revision = Some ''0004_documents'',
     upgrade_ops = upgrade_0005, downgrade_ops = downgrade_0005\<rparr>"

definition revision_0006 :: revision where
  "revision_0006 = \<lparr>revision_id = ''0006_outbox_lifecycle'', down_revision = Some ''0005_ingestion_outbox'',
     upgrade_ops = upgrade_0006, downgrade_ops = downgrade_0006\<rparr>"

definition revision_0007 :: revision where
  "revision_0007 = \<lparr>revision_id = ''0007_classification'', down_revision = Some ''0006_outbox_lifecycle'',
     upgrade_ops = upgrade_0007, downgrade_ops = downgrade_0007\<rparr>"

definition revisions :: "revision list" where
  "revisions = [revision_0001, revision_0002, revision_0003, revision_0004, revision_0005, revision_0006, revision_0007]"

lemmas revision_defs = revisions_def revision_0001_def revision_0002_def revision_0003_def revision_0004_def
  revision_0005_def revision_0006_def revision_0007_def

lemma revision_chain: "map down_revision revisions = None # map (Some \<circ> revision_id) (butlast revisions)"
  by (simp add: revision_defs)

lemma revisions_count [simp]: "length revisions = 7"
  by (simp add: revisions_def)

definition upgrade_path :: "nat \<Rightarrow> nat \<Rightarrow> migration_op list" where
  "upgrade_path k j = concat (map upgrade_ops (take (j - k) (drop k revisions)))"

definition downgrade_path :: "nat \<Rightarrow> nat \<Rightarrow> migration_op list" where
  "downgrade_path k j = concat (map downgrade_ops (rev (take (k - j) (drop j revisions))))"

definition schema_at :: "nat \<Rightarrow> pg_schema" where
  "schema_at k = [empty_schema, stage_1, stage_2, stage_3, stage_4, stage_5, stage_6, stage_7] ! k"

lemma below_seven: "k < (7::nat) \<Longrightarrow> k = 0 \<or> k = 1 \<or> k = 2 \<or> k = 3 \<or> k = 4 \<or> k = 5 \<or> k = 6"
  by auto

lemma step_up: "k < 7 \<Longrightarrow> run_ddl (upgrade_ops (revisions ! k)) (schema_at k) = Some (schema_at (Suc k))"
  by (drule below_seven) (elim disjE; simp add: revision_defs schema_at_def numeral_nat upgrade_1 upgrade_2 upgrade_3
    upgrade_4 upgrade_5 upgrade_6 upgrade_7)

lemma step_down: "k < 7 \<Longrightarrow> run_ddl (downgrade_ops (revisions ! k)) (schema_at (Suc k)) = Some (schema_at k)"
  by (drule below_seven) (elim disjE; simp add: revision_defs schema_at_def numeral_nat downgrade_1 downgrade_2
    downgrade_3 downgrade_4 downgrade_5 downgrade_6 downgrade_7)

lemma upgrade_path_Suc: "k \<le> j \<Longrightarrow> j < 7 \<Longrightarrow> upgrade_path k (Suc j) = upgrade_path k j @ upgrade_ops (revisions ! j)"
  by (simp add: upgrade_path_def Suc_diff_le take_Suc_conv_app_nth)

lemma downgrade_path_Suc: "j \<le> k \<Longrightarrow> k < 7 \<Longrightarrow>
    downgrade_path (Suc k) j = downgrade_ops (revisions ! k) @ downgrade_path k j"
  by (simp add: downgrade_path_def Suc_diff_le take_Suc_conv_app_nth)

lemma run_upgrade_path: "k \<le> j \<Longrightarrow> j \<le> 7 \<Longrightarrow> run_ddl (upgrade_path k j) (schema_at k) = Some (schema_at j)"
proof (induction j)
  case (Suc j)
  show ?case
  proof (cases "k = Suc j")
    case False
    with Suc show ?thesis by (simp add: upgrade_path_Suc step_up)
  qed (simp add: upgrade_path_def)
qed (simp add: upgrade_path_def)

lemma run_downgrade_path: "j \<le> k \<Longrightarrow> k \<le> 7 \<Longrightarrow> run_ddl (downgrade_path k j) (schema_at k) = Some (schema_at j)"
proof (induction k)
  case (Suc k)
  show ?case
  proof (cases "j = Suc k")
    case False
    with Suc show ?thesis by (simp add: downgrade_path_Suc step_down)
  qed (simp add: downgrade_path_def)
qed (simp add: downgrade_path_def)

subsection \<open>Migrations of a database in use\<close>

text \<open>
  \<open>alembic/env.py\<close> runs the whole path in one transaction. A row gives a cell for each of its columns: a new
  column is \<open>NULL\<close> in the rows there are, or what the server computes from its default, and is refused when
  it may be neither; a new check is refused when a row violates it (\<open>holds\<close> evaluates the expression).
  \<open>pg_erased\<close> counts the rows that dropped tables took with them. Between two statements other
  sessions may write to every table the transaction has not locked.
\<close>

datatype cell = Null | Stored string | Computed string

type_synonym pg_row = "string \<rightharpoonup> cell"

record pg =
  pg_schema :: pg_schema
  pg_rows :: "string \<Rightarrow> pg_row list"
  pg_locked :: "string list"
  pg_erased :: "string \<Rightarrow> nat"

type_synonym sessions = "nat \<Rightarrow> (string \<Rightarrow> pg_row list) \<Rightarrow> string \<Rightarrow> pg_row list"

abbreviation table_names :: "pg_schema \<Rightarrow> string list" where
  "table_names s \<equiv> map fst (sch_tables s)"

definition interfere :: "((string \<Rightarrow> pg_row list) \<Rightarrow> string \<Rightarrow> pg_row list) \<Rightarrow> pg \<Rightarrow> pg" where
  "interfere f p = p\<lparr>pg_rows := \<lambda>t. if t \<in> set (pg_locked p) \<or> t \<notin> set (table_names (pg_schema p))
     then pg_rows p t else f (pg_rows p) t\<rparr>"

fun locks :: "migration_op \<Rightarrow> string list" where
  "locks (CreateTable t cols items) = [t]"
| "locks (DropTable t) = [t]"
| "locks (AddColumn t col) = [t]"
| "locks (DropColumn t c) = [t]"
| "locks (CreateIndex n t ks wh) = [t]"
| "locks (DropIndex n t) = [t]"
| "locks (CreateCheck n t sql) = [t]"
| "locks (DropConstraint n t) = [t]"
| "locks (LockTable t) = [t]"
| "locks (RefuseRows t) = []"
| "locks (CreateFunction f b) = []"
| "locks (CreateTrigger n e t f) = [t]"
| "locks (DropFunction f) = []"

fun new_cell :: "string option \<Rightarrow> cell" where
  "new_cell None = Null"
| "new_cell (Some sql) = Computed sql"

type_synonym checker = "string \<Rightarrow> pg_row \<Rightarrow> bool"

definition effect :: "checker \<Rightarrow> migration_op \<Rightarrow> pg \<Rightarrow> pg option" where
  "effect holds m p = (case m of
       RefuseRows t \<Rightarrow> if pg_rows p t = [] then Some p else None
     | DropTable t \<Rightarrow> Some (p\<lparr>pg_rows := (pg_rows p)(t := []),
         pg_erased := (pg_erased p)(t := pg_erased p t + length (pg_rows p t))\<rparr>)
     | AddColumn t (Column c ty nullable dflt) \<Rightarrow>
         if \<not> nullable \<and> dflt = None \<and> pg_rows p t \<noteq> [] then None
         else Some (p\<lparr>pg_rows := (pg_rows p)(t := map (\<lambda>r. r(c \<mapsto> new_cell dflt)) (pg_rows p t))\<rparr>)
     | DropColumn t c \<Rightarrow> Some (p\<lparr>pg_rows := (pg_rows p)(t := map (\<lambda>r. r(c := None)) (pg_rows p t))\<rparr>)
     | CreateCheck n t sql \<Rightarrow> if list_all (holds sql) (pg_rows p t) then Some p else None
     | _ \<Rightarrow> Some p)"

definition execute :: "checker \<Rightarrow> migration_op \<Rightarrow> pg \<Rightarrow> pg option" where
  "execute holds m p = (case ddl m (pg_schema p) of None \<Rightarrow> None
     | Some s' \<Rightarrow> effect holds m (p\<lparr>pg_schema := s', pg_locked := locks m @ pg_locked p\<rparr>))"

fun migrate_tx :: "checker \<Rightarrow> sessions \<Rightarrow> migration_op list \<Rightarrow> pg \<Rightarrow> pg option" where
  "migrate_tx holds others [] p = Some p"
| "migrate_tx holds others (m # ms) p =
     (case execute holds m (interfere (others (length ms)) p) of None \<Rightarrow> None | Some p' \<Rightarrow> migrate_tx holds others ms p')"

definition run_migrations_online :: "checker \<Rightarrow> sessions \<Rightarrow> migration_op list \<Rightarrow> pg \<Rightarrow> pg option" where
  "run_migrations_online holds others ms p = map_option (\<lambda>p'. p'\<lparr>pg_locked := []\<rparr>) (migrate_tx holds others ms p)"

definition empty_database :: pg where
  "empty_database = \<lparr>pg_schema = empty_schema, pg_rows = (\<lambda>_. []), pg_locked = [], pg_erased = (\<lambda>_. 0)\<rparr>"

lemma empty_database_simps [simp]: "pg_locked empty_database = []" "pg_rows empty_database t = []"
  by (simp_all add: empty_database_def)

lemma interfere_simps [simp]: "pg_schema (interfere f p) = pg_schema p" "pg_locked (interfere f p) = pg_locked p"
  "pg_erased (interfere f p) = pg_erased p"
  by (simp_all add: interfere_def)

lemma interfere_quiet [simp]: "interfere (\<lambda>r. r) p = p"
  by (simp add: interfere_def)

lemma effect_Some: "effect holds m p = Some p' \<Longrightarrow> pg_schema p' = pg_schema p \<and> pg_locked p' = pg_locked p"
  by (auto simp: effect_def split: migration_op.splits sa_column.splits if_splits)

lemma execute_schema: "execute holds m p = Some p' \<Longrightarrow>
    ddl m (pg_schema p) = Some (pg_schema p') \<and> pg_locked p' = locks m @ pg_locked p"
  by (auto simp: execute_def split: option.splits dest!: effect_Some)

lemma migrate_tx_schema: "migrate_tx holds others ms p = Some p' \<Longrightarrow> run_ddl ms (pg_schema p) = Some (pg_schema p')"
  by (induction ms arbitrary: p) (fastforce split: option.splits dest!: execute_schema)+

subsection \<open>Guarded removal\<close>

fun guarded :: "string \<Rightarrow> bool \<Rightarrow> bool \<Rightarrow> migration_op list \<Rightarrow> bool" where
  \<comment> \<open>the table \<open>t\<close> is dropped only after it was locked and then found empty\<close>
  "guarded t l e [] = True"
| "guarded t l e (m # ms) = ((m = DropTable t \<longrightarrow> e) \<and>
     guarded t (l \<or> t \<in> set (locks m)) (e \<or> l \<and> m = RefuseRows t) ms)"

lemma guarded_mono: "guarded t l e ms \<Longrightarrow> l \<longrightarrow> l' \<Longrightarrow> e \<longrightarrow> e' \<Longrightarrow> guarded t l' e' ms"
proof (induction ms arbitrary: l e l' e')
  case (Cons m ms)
  from Cons.prems have "guarded t (l \<or> t \<in> set (locks m)) (e \<or> l \<and> m = RefuseRows t) ms" by simp
  then have "guarded t (l' \<or> t \<in> set (locks m)) (e' \<or> l' \<and> m = RefuseRows t) ms"
    by (rule Cons.IH) (use Cons.prems in blast)+
  with Cons.prems show ?case by simp
qed simp

lemma guarded_append: "guarded t l e xs \<Longrightarrow> guarded t False False ys \<Longrightarrow> guarded t l e (xs @ ys)"
proof (induction xs arbitrary: l e)
  case Nil
  then show ?case using guarded_mono [of t False False ys l e] by simp
qed simp

lemma guarded_concat: "list_all (guarded t False False) mss \<Longrightarrow> guarded t False False (concat mss)"
  by (induction mss) (simp_all add: guarded_append)

lemma execute_rows:
  assumes "execute holds m p = Some q"
  shows "m = RefuseRows t \<Longrightarrow> pg_rows p t = []"
    and "m \<noteq> DropTable t \<Longrightarrow> pg_erased q t = pg_erased p t"
    and "pg_rows p t = [] \<Longrightarrow> pg_rows q t = [] \<and> pg_erased q t = pg_erased p t"
proof -
  from assms obtain s' where "effect holds m (p\<lparr>pg_schema := s', pg_locked := locks m @ pg_locked p\<rparr>) = Some q"
    by (auto simp: execute_def split: option.splits)
  then show "m = RefuseRows t \<Longrightarrow> pg_rows p t = []"
    and "m \<noteq> DropTable t \<Longrightarrow> pg_erased q t = pg_erased p t"
    and "pg_rows p t = [] \<Longrightarrow> pg_rows q t = [] \<and> pg_erased q t = pg_erased p t"
    by (auto simp: effect_def split: migration_op.splits sa_column.splits if_splits)
qed

lemma guarded_keeps:
  assumes "migrate_tx holds others ms p = Some p'" "guarded t l e ms"
    and "l \<longrightarrow> t \<in> set (pg_locked p)" "e \<longrightarrow> t \<in> set (pg_locked p) \<and> pg_rows p t = []"
  shows "pg_erased p' t = pg_erased p t"
  using assms
proof (induction ms arbitrary: p l e)
  case (Cons m ms)
  let ?p = "interfere (others (length ms)) p"
  obtain q where q: "execute holds m ?p = Some q" "migrate_tx holds others ms q = Some p'"
    using Cons.prems(1) by (auto split: option.splits)
  have empty: "e \<longrightarrow> pg_rows ?p t = []" using Cons.prems(4) by (simp add: interfere_def)
  have same: "pg_erased q t = pg_erased p t"
    using execute_rows(2,3) [OF q(1), of t] empty Cons.prems(2) by (cases "m = DropTable t") auto
  have locked: "pg_locked q = locks m @ pg_locked p" using execute_schema [OF q(1)] by simp
  have "pg_erased p' t = pg_erased q t"
  proof (rule Cons.IH [OF q(2)])
    show "guarded t (l \<or> t \<in> set (locks m)) (e \<or> l \<and> m = RefuseRows t) ms" using Cons.prems(2) by simp
    show "l \<or> t \<in> set (locks m) \<longrightarrow> t \<in> set (pg_locked q)" using locked Cons.prems(3) by auto
    show "e \<or> l \<and> m = RefuseRows t \<longrightarrow> t \<in> set (pg_locked q) \<and> pg_rows q t = []"
      using execute_rows(1,3) [OF q(1), of t] empty locked Cons.prems(3,4) by auto
  qed
  with same show ?case by simp
qed simp

subsection \<open>What migrations do to a database in use\<close>

abbreviation outbox :: string where
  "outbox \<equiv> ''document_ingestion_outbox''"

abbreviation operations :: string where
  "operations \<equiv> ''classification_operations''"

fun dropped :: "migration_op \<Rightarrow> string list" where
  "dropped (DropTable t) = [t]"
| "dropped _ = []"

fun refused :: "migration_op \<Rightarrow> string list" where
  "refused (RefuseRows t) = [t]"
| "refused _ = []"

fun altered :: "migration_op \<Rightarrow> string list" where
  \<comment> \<open>the table whose rows the statement rewrites or checks\<close>
  "altered (AddColumn t col) = [t]"
| "altered (DropColumn t c) = [t]"
| "altered (CreateCheck n t sql) = [t]"
| "altered _ = []"

definition touched :: "migration_op \<Rightarrow> string list" where
  "touched m = dropped m @ refused m @ altered m"

lemma scripts_guarded: "list_all (guarded outbox False False) (map upgrade_ops revisions)"
  "list_all (guarded outbox False False) (map downgrade_ops revisions)"
  by code_simp+

lemma dropped_tables: "map (\<lambda>r. concat (map dropped (upgrade_ops r))) revisions = replicate 7 []"
  "map (\<lambda>r. concat (map dropped (downgrade_ops r))) revisions =
    [[''organization_members'', ''users'', ''organizations''], [''ticket_messages'', ''tickets'', ''customers''],
     [''audit_events''], [''document_versions'', ''documents''], [outbox], [], [operations]]"
  "map (\<lambda>r. concat (map refused (upgrade_ops r))) revisions = replicate 7 []"
  "map (\<lambda>r. concat (map refused (downgrade_ops r))) revisions = [[], [], [], [], [outbox], [outbox], [operations]]"
  by code_simp+

lemma altered_tables: "map (\<lambda>r. concat (map altered (upgrade_ops r))) revisions = [[], [], [], [], [], replicate 13 outbox, []]"
  "map (\<lambda>r. concat (map altered (downgrade_ops r))) revisions = [[], [], [], [], [], replicate 10 outbox, []]"
  by code_simp+

lemma path_guarded: "guarded outbox False False (upgrade_path k j)" "guarded outbox False False (downgrade_path k j)"
  using scripts_guarded unfolding upgrade_path_def downgrade_path_def
  by (auto intro!: guarded_concat simp: list_all_iff dest!: in_set_takeD in_set_dropD)

lemma migrate_quiet:
  assumes "run_ddl ms (pg_schema p) = Some s'"
    and "\<And>t. t \<in> set (concat (map touched ms)) \<Longrightarrow> pg_rows p t = []"
  shows "\<exists>lk. migrate_tx holds (\<lambda>_ r. r) ms p = Some (p\<lparr>pg_schema := s', pg_locked := lk\<rparr>)"
  using assms
proof (induction ms arbitrary: p)
  case Nil
  then show ?case by (intro exI [of _ "pg_locked p"]) simp
next
  case (Cons m ms)
  obtain s where s: "ddl m (pg_schema p) = Some s" "run_ddl ms s = Some s'"
    using Cons.prems(1) by (auto split: option.splits)
  let ?q = "p\<lparr>pg_schema := s, pg_locked := locks m @ pg_locked p\<rparr>"
  have "effect holds m ?q = Some ?q"
    using Cons.prems(2) by (cases m) (simp_all add: effect_def touched_def fun_upd_idem split: sa_column.split)
  then have ex: "execute holds m p = Some ?q" using s by (simp add: execute_def)
  have "\<exists>lk. migrate_tx holds (\<lambda>_ r. r) ms ?q = Some (?q\<lparr>pg_schema := s', pg_locked := lk\<rparr>)"
    by (rule Cons.IH) (use s Cons.prems(2) in auto)
  then show ?case using ex by simp
qed

lemma quiet_run:
  assumes "run_ddl ms (pg_schema p) = Some s'" "pg_locked p = []"
    and "\<And>t. t \<in> set (concat (map touched ms)) \<Longrightarrow> pg_rows p t = []"
  shows "run_migrations_online holds (\<lambda>_ r. r) ms p = Some (p\<lparr>pg_schema := s'\<rparr>)"
proof -
  from migrate_quiet [OF assms(1,3)] obtain lk
    where "migrate_tx holds (\<lambda>_ r. r) ms p = Some (p\<lparr>pg_schema := s', pg_locked := lk\<rparr>)" by blast
  then show ?thesis using assms(2) by (cases p) (simp add: run_migrations_online_def)
qed

lemma run_online: "run_migrations_online holds others ms p = Some p' \<Longrightarrow>
    run_ddl ms (pg_schema p) = Some (pg_schema p') \<and> pg_locked p' = []"
  by (auto simp: run_migrations_online_def dest!: migrate_tx_schema)

lemma run_online_keeps: "run_migrations_online holds others ms p = Some p' \<Longrightarrow> guarded t False False ms \<Longrightarrow>
    pg_erased p' t = pg_erased p t"
  by (auto simp: run_migrations_online_def dest!: guarded_keeps)

lemma names_at:
  "table_names (schema_at 0) = []"
  "table_names stage_1 = [''organizations'', ''users'', ''organization_members'']"
  "table_names stage_2 = table_names stage_1 @ [''customers'', ''tickets'', ''ticket_messages'']"
  "table_names stage_3 = table_names stage_2 @ [''audit_events'']"
  "table_names stage_4 = table_names stage_3 @ [''documents'', ''document_versions'']"
  "table_names stage_5 = table_names stage_4 @ [outbox]"
  "table_names stage_6 = table_names stage_5"
  "table_names stage_7 = table_names stage_6 @ [operations]"
  by (simp_all add: schema_at_def stage_defs empty_schema_def)

lemma dropped_at: "i < 7 \<Longrightarrow> concat (map dropped (downgrade_ops (revisions ! i))) =
    [[''organization_members'', ''users'', ''organizations''], [''ticket_messages'', ''tickets'', ''customers''],
     [''audit_events''], [''document_versions'', ''documents''], [outbox], [], [operations]] ! i"
  unfolding dropped_tables(2) [symmetric] by simp

lemma dropped_absent:
  assumes "i < 7" "j \<le> i" "t \<in> set (concat (map dropped (downgrade_ops (revisions ! i))))"
  shows "t \<notin> set (table_names (schema_at j))"
proof -
  have "j < 7" using assms by simp
  show ?thesis using assms(2,3) below_seven [OF assms(1)] below_seven [OF \<open>j < 7\<close>] unfolding dropped_at [OF assms(1)]
    by (elim disjE) (auto simp: schema_at_def names_at empty_schema_def numeral_nat)
qed

lemma set_path: "set (downgrade_path k j) = (\<Union>i \<in> {j..<min k 7}. set (downgrade_ops (revisions ! i)))"
proof -
  have "set (take (k - j) (drop j revisions)) = (!) revisions ` {j..<min k 7}"
  proof (intro equalityI subsetI)
    fix r assume "r \<in> set (take (k - j) (drop j revisions))"
    then obtain n where "n < k - j" "n < 7 - j" "r = revisions ! (j + n)"
      by (auto simp: in_set_conv_nth)
    then show "r \<in> (!) revisions ` {j..<min k 7}" by (intro image_eqI [of _ _ "j + n"]) auto
  next
    fix r assume "r \<in> (!) revisions ` {j..<min k 7}"
    then obtain i where "j \<le> i" "i < k" "i < 7" "r = revisions ! i" by auto
    then have "i - j < length (take (k - j) (drop j revisions)) \<and> take (k - j) (drop j revisions) ! (i - j) = r"
      by (simp add: diff_less_mono)
    then show "r \<in> set (take (k - j) (drop j revisions))" by (auto simp: in_set_conv_nth)
  qed
  then show ?thesis by (auto simp: downgrade_path_def)
qed

lemma path_members:
  "m \<in> set (downgrade_path k j) \<Longrightarrow> \<exists>i. j \<le> i \<and> i < 7 \<and> m \<in> set (downgrade_ops (revisions ! i))"
  "m \<in> set (upgrade_path j k) \<Longrightarrow> \<exists>i. j \<le> i \<and> i < 7 \<and> m \<in> set (upgrade_ops (revisions ! i))"
proof -
  show "m \<in> set (downgrade_path k j) \<Longrightarrow> \<exists>i. j \<le> i \<and> i < 7 \<and> m \<in> set (downgrade_ops (revisions ! i))"
    unfolding set_path by auto
  assume "m \<in> set (upgrade_path j k)"
  then obtain r where r: "r \<in> set (take (k - j) (drop j revisions))" "m \<in> set (upgrade_ops r)" by (auto simp: upgrade_path_def)
  then have "r \<in> set (drop j revisions)" by (blast dest: in_set_takeD)
  then obtain n where "n < 7 - j" "r = revisions ! (j + n)" by (auto simp: in_set_conv_nth)
  with r(2) show "\<exists>i. j \<le> i \<and> i < 7 \<and> m \<in> set (upgrade_ops (revisions ! i))" by (intro exI [of _ "j + n"]) auto
qed

lemma script_tables:
  assumes "i < 7"
  shows "concat (map dropped (upgrade_ops (revisions ! i))) = []" "concat (map refused (upgrade_ops (revisions ! i))) = []"
    "set (concat (map altered (upgrade_ops (revisions ! i)))) \<subseteq> (if i = 5 then {outbox} else {})"
    "set (concat (map altered (downgrade_ops (revisions ! i)))) \<subseteq> (if i = 5 then {outbox} else {})"
    "set (concat (map refused (downgrade_ops (revisions ! i)))) \<subseteq> (if i \<in> {4, 5} then {outbox} else if i = 6 then {operations} else {})"
proof -
  have nth: "map f revisions = ys \<Longrightarrow> f (revisions ! i) = ys ! i" for f :: "revision \<Rightarrow> 'b" and ys
    using assms nth_map [of i revisions f] by auto
  show "concat (map dropped (upgrade_ops (revisions ! i))) = []" "concat (map refused (upgrade_ops (revisions ! i))) = []"
    using nth [OF dropped_tables(1)] nth [OF dropped_tables(3)] assms by simp_all
  show "set (concat (map altered (upgrade_ops (revisions ! i)))) \<subseteq> (if i = 5 then {outbox} else {})"
    unfolding nth [OF altered_tables(1)] using below_seven [OF assms] by (elim disjE) (simp_all add: numeral_nat)
  show "set (concat (map altered (downgrade_ops (revisions ! i)))) \<subseteq> (if i = 5 then {outbox} else {})"
    unfolding nth [OF altered_tables(2)] using below_seven [OF assms] by (elim disjE) (simp_all add: numeral_nat)
  show "set (concat (map refused (downgrade_ops (revisions ! i)))) \<subseteq> (if i \<in> {4, 5} then {outbox} else if i = 6 then {operations} else {})"
    unfolding nth [OF dropped_tables(4)] using below_seven [OF assms] by (elim disjE) (simp_all add: numeral_nat)
qed

lemma upgrade_path_touches: "t \<in> set (concat (map touched (upgrade_path j k))) \<Longrightarrow> t = outbox \<and> j < 6"
proof -
  assume "t \<in> set (concat (map touched (upgrade_path j k)))"
  then obtain m where "m \<in> set (upgrade_path j k)" "t \<in> set (touched m)" by auto
  then obtain i where i: "j \<le> i" "i < 7" "m \<in> set (upgrade_ops (revisions ! i))" using path_members(2) by blast
  have "t \<in> set (altered m)"
    using \<open>t \<in> set (touched m)\<close> script_tables(1,2) [OF i(2)] i(3) by (auto simp: touched_def)
  with i(3) have "t \<in> set (concat (map altered (upgrade_ops (revisions ! i))))" by auto
  with script_tables(3) [OF i(2)] i(1) show ?thesis by (auto split: if_splits)
qed

lemma downgrade_path_touches:
  assumes "t \<in> set (concat (map touched (downgrade_path k j)))"
  shows "t \<notin> set (table_names (schema_at j)) \<or> t = outbox \<and> j < 6 \<or> t = operations \<and> j < 7"
proof -
  from assms obtain m where m: "m \<in> set (downgrade_path k j)" "t \<in> set (touched m)" by auto
  then obtain i where i: "j \<le> i" "i < 7" "m \<in> set (downgrade_ops (revisions ! i))" using path_members(1) by blast
  from m(2) consider "t \<in> set (dropped m)" | "t \<in> set (refused m)" | "t \<in> set (altered m)" by (auto simp: touched_def)
  then show ?thesis
  proof cases
    case 1
    with i(3) have "t \<in> set (concat (map dropped (downgrade_ops (revisions ! i))))" by auto
    with i dropped_absent show ?thesis by blast
  next
    case 2
    with i(3) have "t \<in> set (concat (map refused (downgrade_ops (revisions ! i))))" by auto
    with script_tables(5) [OF i(2)] i(1) show ?thesis by (auto split: if_splits)
  next
    case 3
    with i(3) have "t \<in> set (concat (map altered (downgrade_ops (revisions ! i))))" by auto
    with script_tables(4) [OF i(2)] i(1) show ?thesis by (auto split: if_splits)
  qed
qed

inductive deployment :: "checker \<Rightarrow> nat \<Rightarrow> pg \<Rightarrow> bool" for holds where
  start: "deployment holds 0 empty_database"
| upgrade: "deployment holds k p \<Longrightarrow> k \<le> j \<Longrightarrow> j \<le> 7 \<Longrightarrow>
    run_migrations_online holds others (upgrade_path k j) p = Some p' \<Longrightarrow> deployment holds j p'"
| downgrade: "deployment holds k p \<Longrightarrow> j \<le> k \<Longrightarrow>
    run_migrations_online holds others (downgrade_path k j) p = Some p' \<Longrightarrow> deployment holds j p'"
| work: "deployment holds k p \<Longrightarrow>
    deployment holds k (p\<lparr>pg_rows := \<lambda>t. if t \<in> set (table_names (pg_schema p)) then f t else []\<rparr>)"

lemma deployment_inv: "deployment holds k p \<Longrightarrow> k \<le> 7 \<and> pg_schema p = schema_at k \<and> pg_erased p outbox = 0"
proof (induction rule: deployment.induct)
  case start
  then show ?case by (simp add: empty_database_def schema_at_def)
next
  case (upgrade k p j others p')
  from run_online [OF upgrade.hyps(4)] run_upgrade_path [OF upgrade.hyps(2,3)] upgrade.IH
  show ?case using run_online_keeps [OF upgrade.hyps(4) path_guarded(1)] upgrade.hyps(3) by simp
next
  case (downgrade k p j others p')
  from run_online [OF downgrade.hyps(3)] run_downgrade_path [OF downgrade.hyps(2)] downgrade.IH
  show ?case using run_online_keeps [OF downgrade.hyps(3) path_guarded(2)] downgrade.hyps(2) by simp
qed simp

text \<open>
  C27. The migrations build the schema the classes declare. Upgrading an empty database to the last revision
  succeeds and yields, table by table, exactly the declared columns, constraints and indexes.
\<close>

theorem upgraded_schema_declared:
  "\<exists>s. run_ddl (upgrade_path 0 7) empty_schema = Some s \<and> conforms s declared_models"
  using run_upgrade_path [of 0 7] stage_conforms by (simp add: schema_at_def numeral_nat)

text \<open>
  C28. No migration destroys an ingestion intent. In a database that is upgraded and downgraded between any
  revisions and used in between, with other sessions writing at any time, the schema is always exactly that
  of its revision, and dropping the outbox never takes a row with it.
\<close>

theorem intents_survive_migrations:
  assumes "deployment holds k p"
  shows "pg_schema p = schema_at k \<and> pg_erased p outbox = 0"
  using deployment_inv [OF assms] by simp

text \<open>
  C29. Upgrades can be taken back. While no other session writes, an upgrade from a database at any revision
  to any later revision succeeds, and the downgrade that follows restores the schema and every row with the
  value of each of its columns exactly. The outbox has to be empty when the path crosses revision 5 or
  6, whose downgrades refuse to go on otherwise.
\<close>

theorem upgrade_downgrade_roundtrip:
  assumes "j \<le> k" "k \<le> 7" "pg_schema p = schema_at j" "pg_locked p = []"
    and "\<And>t. t \<notin> set (table_names (schema_at j)) \<Longrightarrow> pg_rows p t = []" "j < 6 \<Longrightarrow> pg_rows p outbox = []"
  shows "\<exists>q. run_migrations_online holds (\<lambda>_ r. r) (upgrade_path j k) p = Some q \<and> pg_schema q = schema_at k \<and>
    run_migrations_online holds (\<lambda>_ r. r) (downgrade_path k j) q = Some p"
proof -
  let ?q = "p\<lparr>pg_schema := schema_at k\<rparr>"
  have up: "run_migrations_online holds (\<lambda>_ r. r) (upgrade_path j k) p = Some ?q"
    by (rule quiet_run) (use run_upgrade_path [OF assms(1,2)] assms(3,4,6) upgrade_path_touches in auto)
  have "run_migrations_online holds (\<lambda>_ r. r) (downgrade_path k j) ?q = Some (?q\<lparr>pg_schema := schema_at j\<rparr>)"
  proof (rule quiet_run)
    show "run_ddl (downgrade_path k j) (pg_schema ?q) = Some (schema_at j)" using run_downgrade_path [OF assms(1,2)] by simp
    show "pg_locked ?q = []" using assms(4) by simp
    fix t assume "t \<in> set (concat (map touched (downgrade_path k j)))"
    from downgrade_path_touches [OF this] show "pg_rows ?q t = []"
    proof (elim disjE conjE)
      assume "t = operations" "j < 7"
      then have "t \<notin> set (table_names (schema_at j))"
        using below_seven [OF \<open>j < 7\<close>] by (elim disjE) (auto simp: schema_at_def names_at empty_schema_def numeral_nat)
      then show ?thesis using assms(5) by simp
    qed (use assms(5,6) in simp_all)
  qed
  moreover have "?q\<lparr>pg_schema := schema_at j\<rparr> = p" using assms(3) by (cases p) simp
  ultimately show ?thesis using up by (intro exI [of _ ?q]) simp
qed

text \<open>
  The last downgrade can destroy a classification claim: it looks for rows before it locks the table, so a
  claim stored between the two statements is dropped with the table, although the script means to keep it.
\<close>

lemma unlocked_downgrade_erases_claims:
  "\<exists>others q. run_migrations_online holds others (downgrade_path 7 6) (empty_database\<lparr>pg_schema := schema_at 7\<rparr>) = Some q \<and>
    0 < pg_erased q operations"
proof -
  let ?others = "\<lambda>n r t. if n = 1 then [Map.empty(''id'' \<mapsto> Stored ''1'')] else r t"
  have path: "downgrade_path 7 6 = downgrade_0007"
    by (simp add: downgrade_path_def revisions_def revision_0007_def)
  have look: "ddl (RefuseRows operations) stage_7 = Some stage_7" by (simp add: names_at flip: set_map)
  obtain s where s: "ddl (DropIndex ''ix_classification_ticket_created'' operations) stage_7 = Some s"
      "ddl (DropTable operations) s = Some stage_6"
    using downgrade_7 look by (auto simp: downgrade_0007_def simp del: ddl.simps split: option.splits)
  have "\<exists>q. migrate_tx holds ?others downgrade_0007 (empty_database\<lparr>pg_schema := stage_7\<rparr>) = Some q \<and> 0 < pg_erased q operations"
    using s look by (simp add: downgrade_0007_def execute_def effect_def interfere_def empty_database_def names_at
      del: ddl.simps flip: set_map)
  then show ?thesis by (intro exI [of _ ?others]) (auto simp: run_migrations_online_def path schema_at_def)
qed

theorem intents_survive_migrations_witness:
  "\<exists>p. length (pg_rows p outbox) = 5 \<and> deployment (\<lambda>_ _. True) 7 p \<and> pg_schema p = schema_at 7 \<and> pg_erased p outbox = 0"
proof -
  let ?p = "empty_database\<lparr>pg_schema := schema_at 7\<rparr>" and ?holds = "\<lambda>_ _. True"
  have "run_migrations_online ?holds (\<lambda>_ r. r) (upgrade_path 0 7) empty_database = Some ?p"
    by (rule quiet_run) (use run_upgrade_path [of 0 7] in \<open>simp_all add: empty_database_def schema_at_def [of 0]\<close>)
  from deployment.work [OF deployment.upgrade [OF deployment.start _ _ this], of "\<lambda>_. replicate 5 Map.empty"]
  have d: "deployment ?holds 7 (?p\<lparr>pg_rows := \<lambda>t. if t \<in> set (table_names (schema_at 7)) then replicate 5 Map.empty else []\<rparr>)"
    (is "deployment _ 7 ?q") by simp
  have "outbox \<in> set (table_names (schema_at 7))" by (simp add: schema_at_def names_at flip: set_map)
  then have "length (pg_rows ?q outbox) = 5" by simp
  with d intents_survive_migrations [OF d] show ?thesis by blast
qed

theorem upgrade_downgrade_roundtrip_witness:
  "\<exists>p q. pg_rows p ''users'' = [[''id'' \<mapsto> Stored ''1'', ''email'' \<mapsto> Stored ''a@b'']] \<and>
    run_migrations_online (\<lambda>_ _. True) (\<lambda>_ r. r) (upgrade_path 4 7) p = Some q \<and>
    run_migrations_online (\<lambda>_ _. True) (\<lambda>_ r. r) (downgrade_path 7 4) q = Some p"
proof -
  let ?p = "empty_database\<lparr>pg_schema := schema_at 4,
    pg_rows := (\<lambda>_. [])(''users'' := [[''id'' \<mapsto> Stored ''1'', ''email'' \<mapsto> Stored ''a@b'']])\<rparr>"
  have users: "''users'' \<in> set (table_names (schema_at 4))" by (simp add: schema_at_def names_at flip: set_map)
  have rows: "pg_rows ?p t = []" if "t \<notin> set (table_names (schema_at 4))" for t
    using that users by auto
  have "outbox \<noteq> ''users''" by simp
  with upgrade_downgrade_roundtrip [of 4 7 ?p "\<lambda>_ _. True", OF _ _ _ _ rows] obtain q
    where "run_migrations_online (\<lambda>_ _. True) (\<lambda>_ r. r) (upgrade_path 4 7) ?p = Some q"
      "run_migrations_online (\<lambda>_ _. True) (\<lambda>_ r. r) (downgrade_path 7 4) q = Some ?p" by auto
  moreover have "pg_rows ?p ''users'' = [[''id'' \<mapsto> Stored ''1'', ''email'' \<mapsto> Stored ''a@b'']]" by simp
  ultimately show ?thesis by blast
qed

end
