(* ===== verification/SF_Evaluation.thy ===== *)
theory SF_Evaluation
  imports SF_Classification Complex_Main "HOL-Library.Char_ord" "HOL-Library.List_Lexorder"
begin

text \<open>
  \<open>app/classification/evaluation.py\<close>: the offline evaluation of the classifier against scripted answers.

  A fixture file is its parsed rows; what the pydantic models check of them is \<open>corpus_ok\<close> and
  \<open>scripts_ok\<close>. Ratios are exact rationals. \<open>uuid5\<close> and the digests of the report are arguments; the
  constant fields of the report are left out.
\<close>

subsection \<open>Fixtures\<close>

record evaluation_case =
  ec_id :: string
  ec_split :: string
  ec_language :: string
  ec_subject :: ustr
  ec_body :: "ustr option"
  ec_expected :: classification_result
  ec_rationale :: ustr

record corpus =
  cp_version :: string
  cp_label_review :: string
  cp_cases :: "evaluation_case list"

record script_case =
  sc_id :: string
  sc_response :: "string option"
  sc_error :: "string option"

record scripts =
  ss_version :: string
  ss_mode :: string
  ss_cases :: "script_case list"

datatype evaluation_error = InvalidFixture | DuplicateIdentity | ScriptsNotCovering | AllocationChanged
  | UnknownSplit | EmptySplit | DuplicateScript | UnknownScriptedError | UnknownFixture | InvalidMessages

definition ERRORS :: "string \<Rightarrow> classification_error option" where
  "ERRORS category = find (\<lambda>e. error_category e = category)
     [InputTooLargeError, InvalidProviderOutputError, ProviderAuthenticationError, ProviderRateLimitedError,
      ProviderTimeoutError, ProviderUnavailableError]"

definition case_id_ok :: "string \<Rightarrow> bool" where
  "case_id_ok s = (let stem = take (length s - 3) s; rest = drop (length s - 3) s in
     4 \<le> length s \<and> list_all (\<lambda>c. c \<in> set ''abcdefghijklmnopqrstuvwxyz_'') stem \<and>
     hd rest = CHR ''-'' \<and> list_all (\<lambda>c. c \<in> set ''0123456789'') (tl rest))"

definition evaluation_case_ok :: "evaluation_case \<Rightarrow> bool" where
  "evaluation_case_ok c = (case_id_ok (ec_id c) \<and>
     (ec_split c = ''development'' \<or> ec_split c = ''held_out'') \<and> (ec_language c = ''en'' \<or> ec_language c = ''tr'') \<and>
     length (ec_subject c) \<le> 300 \<and> (case ec_body c of None \<Rightarrow> True | Some b \<Rightarrow> length b \<le> 8000) \<and>
     result_ok (ec_expected c) \<and> ec_rationale c \<noteq> [])"

definition corpus_ok :: "corpus \<Rightarrow> bool" where
  "corpus_ok c = (cp_version c = ''classification_corpus.v1'' \<and>
     (cp_label_review c = ''pending_eray_review'' \<or> cp_label_review c = ''jointly_reviewed'') \<and>
     list_all evaluation_case_ok (cp_cases c))"

definition exactly_one_script :: "script_case \<Rightarrow> bool" where
  "exactly_one_script c = ((sc_response c = None) \<noteq> (sc_error c = None) \<and>
     (case sc_error c of None \<Rightarrow> True | Some e \<Rightarrow> ERRORS e \<noteq> None))"

definition scripts_ok :: "scripts \<Rightarrow> bool" where
  "scripts_ok s = (ss_version s = ''classification_fake_scripts.v1'' \<and> ss_mode s = ''fake'' \<and>
     list_all exactly_one_script (ss_cases s))"

definition label :: "classification_result \<Rightarrow> string" where
  "label r = (case cr_category r of None \<Rightarrow> ''insufficient_context''
     | Some c \<Rightarrow> if c = [] then ''insufficient_context'' else c)"

definition evaluation_labels :: "string list" where
  "evaluation_labels = classification_categories @ [''insufficient_context'']"

definition allocation_ok :: "evaluation_case list \<Rightarrow> string \<Rightarrow> bool" where
  "allocation_ok cases category =
     (let subset = filter (\<lambda>c. label (ec_expected c) = category) cases;
          count = (\<lambda>split. length (filter (\<lambda>c. ec_split c = split) subset));
          expected = (if category = ''insufficient_context'' then (8, 4) else (4, 2))
      in (count ''development'', count ''held_out'') = expected \<and> set (map ec_language subset) = {''en'', ''tr''})"

definition load_fixtures :: "corpus \<Rightarrow> scripts \<Rightarrow> evaluation_error + corpus \<times> scripts" where
  "load_fixtures corpus scripts =
     (let ids = map ec_id (cp_cases corpus); script_ids = map sc_id (ss_cases scripts) in
      if \<not> corpus_ok corpus \<or> \<not> scripts_ok scripts then Inl InvalidFixture
      else if \<not> distinct ids \<or> \<not> distinct script_ids then Inl DuplicateIdentity
      else if set ids \<noteq> set script_ids then Inl ScriptsNotCovering
      else if \<not> list_all (allocation_ok (cp_cases corpus)) evaluation_labels then Inl AllocationChanged
      else Inr (corpus, scripts))"

subsection \<open>Running the cases\<close>

record evaluation_row =
  er_id :: string
  er_split :: string
  er_expected :: string
  er_predicted :: string
  er_error :: "string option"
  er_correct :: bool
  er_provider_calls :: nat

fun script_responses :: "script_case list \<Rightarrow> (string \<Rightarrow> (classification_error + string) option) \<Rightarrow>
    evaluation_error + (string \<Rightarrow> (classification_error + string) option)" where
  "script_responses [] responses = Inr responses"
| "script_responses (c # cs) responses =
     (if responses (sc_id c) \<noteq> None then Inl DuplicateScript
      else (case sc_response c of
         Some r \<Rightarrow> script_responses cs (responses(sc_id c \<mapsto> Inr r))
       | None \<Rightarrow> (case ERRORS (case sc_error c of None \<Rightarrow> [] | Some e \<Rightarrow> e) of
            None \<Rightarrow> Inl UnknownScriptedError
          | Some e \<Rightarrow> script_responses cs (responses(sc_id c \<mapsto> Inl e)))))"

definition synthetic_messages :: "(string \<Rightarrow> uuid) \<Rightarrow> evaluation_case \<Rightarrow> opening_message list" where
  "synthetic_messages uuid5 c = (case ec_body c of None \<Rightarrow> []
     | Some b \<Rightarrow> [\<lparr>om_id = uuid5 (''supportflow-synthetic:'' @ ec_id c), om_created_at = seconds 1790726400,
         om_author_type = AUTHOR_AGENT, om_body = b\<rparr>])"

definition evaluate_case :: "digests \<Rightarrow> (string \<Rightarrow> json option) \<Rightarrow> (string \<Rightarrow> uuid) \<Rightarrow>
    (string \<Rightarrow> (classification_error + string) option) \<Rightarrow> evaluation_case \<Rightarrow> evaluation_error + evaluation_row" where
  "evaluate_case dg json_pairs uuid5 responses c =
     (case responses (ec_id c) of
        None \<Rightarrow> Inl UnknownFixture
      | Some response \<Rightarrow>
          let (result, provider) = classify_opening_request dg json_pairs (ec_subject c) (synthetic_messages uuid5 c)
                \<lparr>fp_response = response, fp_calls = 0\<rparr>;
              expected = label (ec_expected c);
              row = (\<lambda>predicted error. \<lparr>er_id = ec_id c, er_split = ec_split c, er_expected = expected,
                er_predicted = predicted, er_error = error, er_correct = (expected = predicted),
                er_provider_calls = fp_calls provider\<rparr>)
          in (case result of
                Inr r \<Rightarrow> Inr (row (label r) None)
              | Inl (Inr e) \<Rightarrow> Inr (row ''error'' (Some (error_category e)))
              | Inl (Inl TooLarge) \<Rightarrow> Inr (row ''error'' (Some (error_category InputTooLargeError)))
              | Inl (Inl InputValueError) \<Rightarrow> Inl InvalidMessages))"

fun evaluate_cases :: "digests \<Rightarrow> (string \<Rightarrow> json option) \<Rightarrow> (string \<Rightarrow> uuid) \<Rightarrow>
    (string \<Rightarrow> (classification_error + string) option) \<Rightarrow> evaluation_case list \<Rightarrow>
    evaluation_error + evaluation_row list" where
  "evaluate_cases dg json_pairs uuid5 responses [] = Inr []"
| "evaluate_cases dg json_pairs uuid5 responses (c # cs) =
     bindE (evaluate_case dg json_pairs uuid5 responses c) (\<lambda>row.
     bindE (evaluate_cases dg json_pairs uuid5 responses cs) (\<lambda>rows. Inr (row # rows)))"

subsection \<open>The report\<close>

type_synonym confusion_matrix = "string \<Rightarrow> string \<Rightarrow> nat"

definition ratio :: "nat \<Rightarrow> nat \<Rightarrow> rat option" where
  "ratio numerator denominator = (if denominator = 0 then None else Some (of_nat numerator / of_nat denominator))"

definition confusion :: "evaluation_row list \<Rightarrow> confusion_matrix" where
  "confusion rows = fold (\<lambda>r m. m(er_expected r := (m (er_expected r))(er_predicted r :=
     m (er_expected r) (er_predicted r) + 1))) rows (\<lambda>_ _. 0)"

record class_metrics =
  cm_true_positive :: nat
  cm_expected_count :: nat
  cm_predicted_count :: nat
  cm_precision :: "rat option"
  cm_recall :: "rat option"
  cm_f1 :: "rat option"

definition class_metrics_of :: "confusion_matrix \<Rightarrow> string \<Rightarrow> class_metrics" where
  "class_metrics_of matrix category =
     (let tp = matrix category category;
          support = sum_list (map (matrix category) (evaluation_labels @ [''error'']));
          predicted_count = sum_list (map (\<lambda>other. matrix other category) evaluation_labels)
      in \<lparr>cm_true_positive = tp, cm_expected_count = support, cm_predicted_count = predicted_count,
          cm_precision = ratio tp predicted_count, cm_recall = ratio tp support,
          cm_f1 = ratio (2 * tp) (support + predicted_count)\<rparr>)"

record evaluation_report =
  rp_label_review :: string
  rp_split :: string
  rp_corpus_sha256 :: string
  rp_scripts_sha256 :: string
  rp_total :: nat
  rp_correct :: nat
  rp_errors :: nat
  rp_accuracy :: "rat option"
  rp_error_rate :: "rat option"
  rp_classification_coverage :: "rat option"
  rp_abstained :: nat
  rp_abstained_correct :: nat
  rp_abstention_coverage :: "rat option"
  rp_abstention_precision :: "rat option"
  rp_abstention_recall :: "rat option"
  rp_category_macro_f1 :: rat
  rp_per_class :: "(string \<times> class_metrics) list"
  rp_confusion_matrix :: confusion_matrix
  rp_cases :: "evaluation_row list"

definition report_of :: "string \<Rightarrow> string \<Rightarrow> string \<Rightarrow> string \<Rightarrow> evaluation_row list \<Rightarrow> evaluation_report" where
  "report_of label_review split corpus_digest scripts_digest rows =
     (let matrix = confusion rows;
          per_class = map (\<lambda>c. (c, class_metrics_of matrix c)) evaluation_labels;
          total = length rows;
          correct = length (filter er_correct rows);
          abstained = length (filter (\<lambda>r. er_predicted r = ''insufficient_context'') rows);
          correct_abstained = matrix ''insufficient_context'' ''insufficient_context'';
          errors = length (filter (\<lambda>r. er_predicted r = ''error'') rows);
          classified = total - errors - abstained
      in \<lparr>rp_label_review = label_review, rp_split = split, rp_corpus_sha256 = corpus_digest,
          rp_scripts_sha256 = scripts_digest, rp_total = total, rp_correct = correct, rp_errors = errors,
          rp_accuracy = ratio correct total, rp_error_rate = ratio errors total,
          rp_classification_coverage = ratio classified total, rp_abstained = abstained,
          rp_abstained_correct = correct_abstained, rp_abstention_coverage = ratio abstained total,
          rp_abstention_precision = ratio correct_abstained abstained,
          rp_abstention_recall = ratio correct_abstained
            (sum_list (map (matrix ''insufficient_context'') (evaluation_labels @ [''error'']))),
          rp_category_macro_f1 = sum_list (map (\<lambda>c. case cm_f1 (class_metrics_of matrix c) of None \<Rightarrow> 0 | Some x \<Rightarrow> x)
            classification_categories) / of_nat (length classification_categories),
          rp_per_class = per_class, rp_confusion_matrix = matrix, rp_cases = rows\<rparr>)"

definition evaluate :: "digests \<Rightarrow> (string \<Rightarrow> json option) \<Rightarrow> (string \<Rightarrow> uuid) \<Rightarrow> (corpus \<Rightarrow> string) \<Rightarrow> (scripts \<Rightarrow> string) \<Rightarrow>
    corpus \<Rightarrow> scripts \<Rightarrow> string \<Rightarrow> evaluation_error + evaluation_report" where
  "evaluate dg json_pairs uuid5 corpus_digest scripts_digest corpus scripts split =
     (if split \<notin> {''development'', ''held_out'', ''all''} then Inl UnknownSplit
      else
        let selected = filter (\<lambda>c. split = ''all'' \<or> ec_split c = split) (cp_cases corpus) in
        if selected = [] then Inl EmptySplit
        else bindE (script_responses (ss_cases scripts) Map.empty) (\<lambda>responses.
          bindE (evaluate_cases dg json_pairs uuid5 responses (order_by ec_id selected)) (\<lambda>rows.
          Inr (report_of (cp_label_review corpus) split (corpus_digest corpus) (scripts_digest scripts) rows))))"

subsection \<open>The command\<close>

datatype command_end = Printed string | Written | Exit2 | Crashed

definition evaluation_main :: "digests \<Rightarrow> (string \<Rightarrow> json option) \<Rightarrow> (string \<Rightarrow> uuid) \<Rightarrow> (corpus \<Rightarrow> string) \<Rightarrow> (scripts \<Rightarrow> string) \<Rightarrow>
    (evaluation_report \<Rightarrow> string) \<Rightarrow> (corpus \<times> scripts) option \<Rightarrow> string \<Rightarrow> string option \<Rightarrow> (string \<rightharpoonup> string) \<Rightarrow>
    command_end \<times> (string \<rightharpoonup> string)" where
  \<comment> \<open>\<open>scripts/evaluate_classification.py\<close>; no fixtures: they cannot be read; the output is created exclusively\<close>
  "evaluation_main dg json_pairs uuid5 corpus_digest scripts_digest dumps fixtures split output files =
     (case fixtures of None \<Rightarrow> (Exit2, files)
      | Some (c, s) \<Rightarrow>
          (case bindE (load_fixtures c s) (\<lambda>(corpus, scripts).
                evaluate dg json_pairs uuid5 corpus_digest scripts_digest corpus scripts split) of
             Inl UnknownScriptedError \<Rightarrow> (Crashed, files)
           | Inl _ \<Rightarrow> (Exit2, files)
           | Inr report \<Rightarrow>
               let serialized = dumps report @ [CHR 0x0A] in
               (case output of None \<Rightarrow> (Printed serialized, files)
                | Some path \<Rightarrow> if files path \<noteq> None then (Exit2, files) else (Written, files(path \<mapsto> serialized)))))"

lemma evidence_not_replaced:
  assumes "evaluation_main dg json_pairs uuid5 cd sd dumps fixtures split output files = (r, files')" "files path = Some x"
  shows "files' path = Some x"
  using assms by (auto simp: evaluation_main_def Let_def split: option.splits sum.splits evaluation_error.splits if_splits)

subsection \<open>Every case is accounted for\<close>

lemma label_result: "result_ok r \<Longrightarrow> label r \<in> set evaluation_labels"
  by (auto simp: result_ok_def label_def evaluation_labels_def split: option.splits)

lemma labels_facts: "distinct (evaluation_labels @ [''error''])" "length classification_categories = 6"
  "''insufficient_context'' \<notin> set classification_categories"
  by code_simp+

lemma provider_output_ok: "parse_provider_output json_pairs raw = Inr r \<Longrightarrow> result_ok r"
  by (auto simp: parse_provider_output_def split: if_splits option.splits intro: ClassificationResult_ok)

lemma insufficient_ok: "result_ok \<lparr>cr_outcome = ''insufficient_context'', cr_category = None\<rparr>"
  by (simp add: result_ok_def category_matches_outcome_def)

lemma classify_opening_ok: "classify_opening_request dg json_pairs subject messages provider = (Inr r, p) \<Longrightarrow> result_ok r"
  by (auto simp: classify_opening_request_def insufficient_ok split: sum.splits if_splits prod.splits dest: provider_output_ok)

lemma one_message: "prepare_input dg subject (synthetic_messages uuid5 c) \<noteq> Inl InputValueError"
  by (auto simp: prepare_input_def synthetic_messages_def Let_def split: option.split)

lemma classify_one_message:
  "classify_opening_request dg json_pairs subject (synthetic_messages uuid5 c) provider \<noteq> (Inl (Inl InputValueError), p)"
  using one_message [of dg subject uuid5 c]
  by (auto simp: classify_opening_request_def split: sum.splits prod.splits if_splits)

definition row_of :: "evaluation_case \<Rightarrow> evaluation_row \<Rightarrow> bool" where
  "row_of c r \<longleftrightarrow> er_id r = ec_id c \<and> er_split r = ec_split c \<and> er_expected r = label (ec_expected c) \<and>
     er_predicted r \<in> set (evaluation_labels @ [''error'']) \<and> er_correct r = (er_expected r = er_predicted r)"

lemma evaluate_case_row:
  assumes "responses (ec_id c) \<noteq> None"
  shows "\<exists>r. evaluate_case dg json_pairs uuid5 responses c = Inr r \<and> row_of c r"
proof -
  from assms obtain response where resp: "responses (ec_id c) = Some response" by blast
  obtain result p where run: "classify_opening_request dg json_pairs (ec_subject c) (synthetic_messages uuid5 c)
      \<lparr>fp_response = response, fp_calls = 0\<rparr> = (result, p)" by fastforce
  consider r where "result = Inr r" | e where "result = Inl (Inr e)" | "result = Inl (Inl TooLarge)"
  proof (cases result)
    case (Inl x)
    then show ?thesis using that(2,3) run classify_one_message by (cases x) (metis input_exn.exhaust | simp)+
  qed (use that(1) in blast)
  then show ?thesis
  proof cases
    case 1
    with run classify_opening_ok label_result have "label r \<in> set evaluation_labels" by blast
    with 1 run resp show ?thesis by (simp add: evaluate_case_def row_of_def Let_def)
  qed (use run resp in \<open>simp_all add: evaluate_case_def row_of_def Let_def\<close>)
qed

lemma evaluate_cases_rows:
  assumes "list_all (\<lambda>c. responses (ec_id c) \<noteq> None) cs"
  shows "\<exists>rows. evaluate_cases dg json_pairs uuid5 responses cs = Inr rows \<and> list_all2 row_of cs rows"
  using assms
proof (induction cs)
  case (Cons c cs)
  then obtain rows where "evaluate_cases dg json_pairs uuid5 responses cs = Inr rows" "list_all2 row_of cs rows" by auto
  moreover have "responses (ec_id c) \<noteq> None" using Cons.prems by simp
  then obtain r where "evaluate_case dg json_pairs uuid5 responses c = Inr r" "row_of c r"
    using evaluate_case_row [of responses c] by blast
  ultimately show ?case by (auto simp: bindE_def)
qed simp

lemma scripted: "exactly_one_script c \<Longrightarrow> sc_response c = None \<Longrightarrow>
    \<exists>e. ERRORS (case sc_error c of None \<Rightarrow> [] | Some e \<Rightarrow> e) = Some e"
  by (auto simp: exactly_one_script_def split: option.splits)

lemma script_responses_total:
  assumes "list_all exactly_one_script cs" "distinct (map sc_id cs)" "dom m \<inter> set (map sc_id cs) = {}"
  shows "\<exists>m'. script_responses cs m = Inr m' \<and> dom m' = dom m \<union> set (map sc_id cs)"
  using assms
proof (induction cs arbitrary: m)
  case (Cons c cs)
  have fresh: "m (sc_id c) = None" using Cons.prems(3) by auto
  have step: "\<exists>m'. script_responses cs (m(sc_id c \<mapsto> x)) = Inr m' \<and> dom m' = dom (m(sc_id c \<mapsto> x)) \<union> set (map sc_id cs)" for x
  proof (rule Cons.IH)
    show "dom (m(sc_id c \<mapsto> x)) \<inter> set (map sc_id cs) = {}" using Cons.prems(2,3) by simp
  qed (use Cons.prems in simp_all)
  show ?case
  proof (cases "sc_response c")
    case None
    then obtain e where "ERRORS (case sc_error c of None \<Rightarrow> [] | Some e \<Rightarrow> e) = Some e" using scripted Cons.prems(1) by fastforce
    with None fresh step [of "Inl e"] show ?thesis by auto
  next
    case (Some r)
    with fresh step [of "Inr r"] show ?thesis by auto
  qed
qed simp

lemma confusion_count: "confusion rows e p = length (filter (\<lambda>r. er_expected r = e \<and> er_predicted r = p) rows)"
proof -
  have "fold (\<lambda>r m. m(er_expected r := (m (er_expected r))(er_predicted r := m (er_expected r) (er_predicted r) + 1))) rows m e p
      = m e p + length (filter (\<lambda>r. er_expected r = e \<and> er_predicted r = p) rows)" for m :: confusion_matrix
    by (induction rows arbitrary: m) auto
  then show ?thesis by (simp add: confusion_def)
qed

lemma partition_count:
  "distinct ls \<Longrightarrow> (\<forall>x \<in> set xs. f x \<in> set ls) \<Longrightarrow> sum_list (map (\<lambda>l. length (filter (\<lambda>x. f x = l) xs)) ls) = length xs"
proof (induction xs)
  case (Cons x xs)
  have one: "sum_list (map (\<lambda>l. if f x = l then 1 else 0) ls) = (1::nat)"
    using Cons.prems by (simp add: sum_list_distinct_conv_sum_set)
  have "sum_list (map (\<lambda>l. length (filter (\<lambda>y. f y = l) (x # xs))) ls) =
      sum_list (map (\<lambda>l. (if f x = l then 1 else 0) + length (filter (\<lambda>y. f y = l) xs)) ls)"
    by (intro arg_cong [of _ _ sum_list] map_cong) auto
  then show ?case using Cons one by (simp add: sum_list_addf)
qed simp

lemma row_count:
  assumes "\<forall>r \<in> set rows. er_predicted r \<in> set (evaluation_labels @ [''error''])"
  shows "sum_list (map (confusion rows e) (evaluation_labels @ [''error''])) = length (filter (\<lambda>r. er_expected r = e) rows)"
proof -
  have "length (filter (\<lambda>r. er_expected r = e) rows) =
      sum_list (map (\<lambda>l. length (filter (\<lambda>r. er_predicted r = l) (filter (\<lambda>r. er_expected r = e) rows))) (evaluation_labels @ [''error'']))"
    by (rule partition_count [symmetric, OF labels_facts(1)]) (use assms in auto)
  also have "\<dots> = sum_list (map (confusion rows e) (evaluation_labels @ [''error'']))"
    by (intro arg_cong [of _ _ sum_list] map_cong refl)
      (simp only: confusion_count filter_filter)
  finally show ?thesis by simp
qed

lemma column_count:
  assumes "\<forall>r \<in> set rows. er_expected r \<in> set evaluation_labels"
  shows "sum_list (map (\<lambda>e. confusion rows e p) evaluation_labels) = length (filter (\<lambda>r. er_predicted r = p) rows)"
proof -
  have "length (filter (\<lambda>r. er_predicted r = p) rows) =
      sum_list (map (\<lambda>l. length (filter (\<lambda>r. er_expected r = l) (filter (\<lambda>r. er_predicted r = p) rows))) evaluation_labels)"
    by (rule partition_count [symmetric]) (use assms labels_facts(1) in auto)
  also have "\<dots> = sum_list (map (\<lambda>e. confusion rows e p) evaluation_labels)"
    by (intro arg_cong [of _ _ sum_list] map_cong refl) (simp only: confusion_count filter_filter conj_commute)
  finally show ?thesis by simp
qed

lemma correct_count:
  assumes "\<forall>r \<in> set rows. er_expected r \<in> set evaluation_labels \<and> er_correct r = (er_expected r = er_predicted r)"
  shows "length (filter er_correct rows) = sum_list (map (\<lambda>c. confusion rows c c) evaluation_labels)"
proof -
  have "length (filter er_correct rows) =
      sum_list (map (\<lambda>l. length (filter (\<lambda>r. er_expected r = l) (filter er_correct rows))) evaluation_labels)"
    by (rule partition_count [symmetric]) (use assms labels_facts(1) in auto)
  also have "\<dots> = sum_list (map (\<lambda>c. confusion rows c c) evaluation_labels)"
  proof -
    have "filter (\<lambda>r. er_correct r \<and> er_expected r = l) rows = filter (\<lambda>r. er_expected r = l \<and> er_predicted r = l) rows" for l
    proof (intro filter_cong refl)
      fix r assume "r \<in> set rows"
      with assms have "er_correct r = (er_expected r = er_predicted r)" by blast
      then show "(er_correct r \<and> er_expected r = l) = (er_expected r = l \<and> er_predicted r = l)" by metis
    qed
    then show ?thesis
      by (intro arg_cong [of _ _ sum_list] map_cong refl) (simp only: confusion_count filter_filter)
  qed
  finally show ?thesis .
qed

lemma metrics_bounds:
  fixes rows :: "evaluation_row list" and c :: string
  defines "m \<equiv> class_metrics_of (confusion rows) c"
  assumes "c \<in> set evaluation_labels"
  shows "cm_true_positive m \<le> cm_expected_count m" "cm_true_positive m \<le> cm_predicted_count m"
    "0 \<le> (case cm_f1 m of None \<Rightarrow> 0 | Some x \<Rightarrow> x)" "(case cm_f1 m of None \<Rightarrow> 0 | Some x \<Rightarrow> x) \<le> 1"
proof -
  have "confusion rows c c \<in> set (map (confusion rows c) (evaluation_labels @ [''error'']))" using assms(2) by simp
  from member_le_sum_list [OF this] show a: "cm_true_positive m \<le> cm_expected_count m"
    by (simp only: m_def class_metrics_of_def Let_def class_metrics.simps)
  have "confusion rows c c \<in> set (map (\<lambda>e. confusion rows e c) evaluation_labels)" using assms(2) by simp
  from member_le_sum_list [OF this] show b: "cm_true_positive m \<le> cm_predicted_count m"
    by (simp only: m_def class_metrics_of_def Let_def class_metrics.simps)
  have f1: "cm_f1 m = ratio (2 * cm_true_positive m) (cm_expected_count m + cm_predicted_count m)"
    by (simp only: m_def class_metrics_of_def Let_def class_metrics.simps)
  show "0 \<le> (case cm_f1 m of None \<Rightarrow> 0 | Some x \<Rightarrow> x)" by (simp add: f1 ratio_def)
  have "2 * cm_true_positive m \<le> cm_expected_count m + cm_predicted_count m" using a b by simp
  then have "(of_nat (2 * cm_true_positive m) :: rat) \<le> of_nat (cm_expected_count m + cm_predicted_count m)"
    by (simp only: of_nat_le_iff)
  then show "(case cm_f1 m of None \<Rightarrow> 0 | Some x \<Rightarrow> x) \<le> 1" by (simp add: f1 ratio_def divide_le_eq)
qed

lemma harmonic:
  fixes t a b :: rat
  assumes "0 < t" "0 < a" "0 < b"
  shows "2 * t / (a + b) = 2 * (t / b) * (t / a) / (t / b + t / a)"
proof -
  have "t / b + t / a = t * (a + b) / (a * b)" "a + b \<noteq> 0" using assms by (simp_all add: field_simps)
  then show ?thesis using assms by simp
qed

lemma f1_harmonic:
  assumes "cm_precision m = Some p" "cm_recall m = Some r" "m = class_metrics_of matrix c" "0 < cm_true_positive m"
  shows "cm_f1 m = Some (2 * p * r / (p + r))"
proof -
  have eqs: "cm_precision m = ratio (cm_true_positive m) (cm_predicted_count m)"
      "cm_recall m = ratio (cm_true_positive m) (cm_expected_count m)"
      "cm_f1 m = ratio (2 * cm_true_positive m) (cm_expected_count m + cm_predicted_count m)"
    by (simp_all only: assms(3) class_metrics_of_def Let_def class_metrics.simps)
  then have "0 < cm_predicted_count m" "0 < cm_expected_count m"
      "p = of_nat (cm_true_positive m) / of_nat (cm_predicted_count m)"
      "r = of_nat (cm_true_positive m) / of_nat (cm_expected_count m)"
    using assms(1,2) by (auto simp: ratio_def split: if_splits)
  then show ?thesis
    using harmonic [of "of_nat (cm_true_positive m)" "of_nat (cm_expected_count m)" "of_nat (cm_predicted_count m)"] assms(4)
    by (simp add: eqs(3) ratio_def)
qed

lemma average_bounds:
  fixes f :: "'a \<Rightarrow> rat"
  assumes "\<And>x. x \<in> set xs \<Longrightarrow> 0 \<le> f x \<and> f x \<le> 1"
  shows "0 \<le> sum_list (map f xs) \<and> sum_list (map f xs) \<le> of_nat (length xs)"
  using assms
proof (induction xs)
  case (Cons x xs)
  have "0 \<le> f x \<and> f x \<le> 1" using Cons.prems by simp
  moreover have "0 \<le> sum_list (map f xs) \<and> sum_list (map f xs) \<le> of_nat (length xs)"
    by (rule Cons.IH) (use Cons.prems in simp)
  ultimately show ?case by simp
qed simp

lemma filter_swap: "filter P (filter Q xs) = filter Q (filter P xs)"
  by (induction xs) auto

lemma list_all2_right: "list_all2 P xs ys \<Longrightarrow> y \<in> set ys \<Longrightarrow> \<exists>x \<in> set xs. P x y"
  by (induction xs ys rule: list_all2_induct) auto

definition planned_total :: "string \<Rightarrow> nat" where
  "planned_total split = (if split = ''development'' then 32 else if split = ''held_out'' then 16 else 48)"

lemma split_total:
  assumes "corpus_ok corpus" "list_all (allocation_ok (cp_cases corpus)) evaluation_labels"
  shows "length (filter (\<lambda>c. ec_split c = ''development'') (cp_cases corpus)) = 32"
    "length (filter (\<lambda>c. ec_split c = ''held_out'') (cp_cases corpus)) = 16"
    "length (cp_cases corpus) = 48"
proof -
  have labels: "\<forall>c \<in> set (cp_cases corpus). label (ec_expected c) \<in> set evaluation_labels"
    using assms(1) label_result by (auto simp: corpus_ok_def list_all_iff evaluation_case_ok_def)
  have per: "length (filter (\<lambda>c. label (ec_expected c) = l) (filter (\<lambda>c. ec_split c = split) (cp_cases corpus))) =
      (if split = ''development'' then if l = ''insufficient_context'' then 8 else 4
       else if l = ''insufficient_context'' then 4 else 2)"
    if "l \<in> set evaluation_labels" "split = ''development'' \<or> split = ''held_out''" for l split
  proof -
    have "allocation_ok (cp_cases corpus) l" using assms(2) that(1) by (simp add: list_all_iff)
    then show ?thesis using that(2) unfolding filter_swap [of "\<lambda>c. label (ec_expected c) = l"]
      by (auto simp: allocation_ok_def Let_def split: if_splits)
  qed
  have count: "length (filter (\<lambda>c. ec_split c = split) (cp_cases corpus)) =
      sum_list (map (\<lambda>l. length (filter (\<lambda>c. label (ec_expected c) = l) (filter (\<lambda>c. ec_split c = split) (cp_cases corpus))))
        evaluation_labels)" for split
    by (rule partition_count [symmetric]) (use labels labels_facts(1) in auto)
  have sum: "length (filter (\<lambda>c. ec_split c = split) (cp_cases corpus)) =
      sum_list (map (\<lambda>l. if split = ''development'' then if l = ''insufficient_context'' then 8 else 4
       else if l = ''insufficient_context'' then 4 else 2) evaluation_labels)"
    if "split = ''development'' \<or> split = ''held_out''" for split
    unfolding count by (intro arg_cong [of _ _ sum_list] map_cong refl per that)
  show dev: "length (filter (\<lambda>c. ec_split c = ''development'') (cp_cases corpus)) = 32"
    using sum [of "''development''"] by (simp add: evaluation_labels_def classification_categories_def)
  show held: "length (filter (\<lambda>c. ec_split c = ''held_out'') (cp_cases corpus)) = 16"
    using sum [of "''held_out''"] by (simp add: evaluation_labels_def classification_categories_def)
  have "filter (\<lambda>c. ec_split c = ''held_out'') (cp_cases corpus) = filter (\<lambda>c. ec_split c \<noteq> ''development'') (cp_cases corpus)"
    using assms(1) by (intro filter_cong refl) (auto simp: corpus_ok_def list_all_iff evaluation_case_ok_def)
  then show "length (cp_cases corpus) = 48"
    using dev held sum_length_filter_compl [of "\<lambda>c. ec_split c = ''development''" "cp_cases corpus"] by simp
qed

text \<open>
  C36. Accepted fixtures always evaluate, and the report accounts for every case. For every split, whatever the
  scripted answers are, the evaluation returns a report over exactly the planned number of cases; every case is
  in one cell of the confusion matrix, is counted once as error, abstention or classification, and the correct
  ones are the diagonal; accuracy is their exact share and the macro average lies between 0 and 1.
\<close>

theorem evaluation_accounts_for_every_case:
  assumes "load_fixtures corpus scripts = Inr fixtures"
    and "split = ''development'' \<or> split = ''held_out'' \<or> split = ''all''"
  shows "\<exists>rep. evaluate dg json_pairs uuid5 corpus_digest scripts_digest corpus scripts split = Inr rep \<and>
    rp_total rep = planned_total split \<and>
    sum_list (map (\<lambda>e. sum_list (map (rp_confusion_matrix rep e) (evaluation_labels @ [''error'']))) evaluation_labels) =
      rp_total rep \<and>
    rp_errors rep + rp_abstained rep + sum_list (map (\<lambda>p. sum_list (map (\<lambda>e. rp_confusion_matrix rep e p) evaluation_labels))
      classification_categories) = rp_total rep \<and>
    rp_correct rep = sum_list (map (\<lambda>c. rp_confusion_matrix rep c c) evaluation_labels) \<and>
    rp_accuracy rep = Some (of_nat (rp_correct rep) / of_nat (planned_total split)) \<and>
    0 \<le> rp_category_macro_f1 rep \<and> rp_category_macro_f1 rep \<le> 1"
proof -
  let ?cases = "cp_cases corpus"
  let ?selected = "filter (\<lambda>c. split = ''all'' \<or> ec_split c = split) ?cases"
  from assms(1) have ok: "corpus_ok corpus" "scripts_ok scripts" "distinct (map sc_id (ss_cases scripts))"
      "set (map ec_id ?cases) = set (map sc_id (ss_cases scripts))" "list_all (allocation_ok ?cases) evaluation_labels"
    by (auto simp: load_fixtures_def Let_def split: if_splits)
  have len: "length ?selected = planned_total split"
    using assms(2) split_total [OF ok(1,5)] by (auto simp: planned_total_def)
  then have nonempty: "?selected \<noteq> []" by (auto simp: planned_total_def split: if_splits)
  obtain responses where responses: "script_responses (ss_cases scripts) Map.empty = Inr responses"
      "dom responses = set (map sc_id (ss_cases scripts))"
    using script_responses_total [of "ss_cases scripts" Map.empty] ok(2,3) by (auto simp: scripts_ok_def)
  have "list_all (\<lambda>c. responses (ec_id c) \<noteq> None) (order_by ec_id ?selected)"
  proof -
    have "ec_id c \<in> dom responses" if "c \<in> set ?cases" for c
      using that ok(4) responses(2) by auto
    then show ?thesis by (auto simp: list_all_iff)
  qed
  from evaluate_cases_rows [OF this, of dg json_pairs uuid5] obtain rows where
      rows: "evaluate_cases dg json_pairs uuid5 responses (order_by ec_id ?selected) = Inr rows"
      "list_all2 row_of (order_by ec_id ?selected) rows" by blast
  have n: "length rows = planned_total split" using list_all2_lengthD [OF rows(2)] len by simp
  have row: "er_expected r \<in> set evaluation_labels \<and> er_predicted r \<in> set (evaluation_labels @ [''error'']) \<and>
      er_correct r = (er_expected r = er_predicted r)" if r: "r \<in> set rows" for r
  proof -
    obtain c where "c \<in> set ?selected" "row_of c r"
      using list_all2_right [OF rows(2) r] by auto
    then show ?thesis using ok(1) label_result
      by (auto simp: row_of_def corpus_ok_def list_all_iff evaluation_case_ok_def)
  qed
  have preds: "\<forall>r \<in> set rows. er_predicted r \<in> set (evaluation_labels @ [''error''])"
    and exps: "\<forall>r \<in> set rows. er_expected r \<in> set evaluation_labels" using row by blast+
  let ?rep = "report_of (cp_label_review corpus) split (corpus_digest corpus) (scripts_digest scripts) rows"
  have fields: "rp_total ?rep = length rows" "rp_confusion_matrix ?rep = confusion rows"
    "rp_correct ?rep = length (filter er_correct rows)"
    "rp_errors ?rep = length (filter (\<lambda>r. er_predicted r = ''error'') rows)"
    "rp_abstained ?rep = length (filter (\<lambda>r. er_predicted r = ''insufficient_context'') rows)"
    "rp_accuracy ?rep = ratio (length (filter er_correct rows)) (length rows)"
    "rp_category_macro_f1 ?rep = sum_list (map (\<lambda>c. case cm_f1 (class_metrics_of (confusion rows) c) of None \<Rightarrow> 0 | Some x \<Rightarrow> x)
       classification_categories) / of_nat (length classification_categories)"
    by (simp_all add: report_of_def Let_def)
  have cells: "sum_list (map (\<lambda>e. sum_list (map (confusion rows e) (evaluation_labels @ [''error'']))) evaluation_labels) = length rows"
    unfolding row_count [OF preds] by (rule partition_count) (use exps labels_facts(1) in auto)
  have columns: "length rows = sum_list (map (\<lambda>p. length (filter (\<lambda>r. er_predicted r = p) rows)) (evaluation_labels @ [''error'']))"
    by (rule partition_count [symmetric, OF labels_facts(1) preds])
  have parts: "rp_errors ?rep + rp_abstained ?rep + sum_list (map (\<lambda>p. sum_list (map (\<lambda>e. confusion rows e p) evaluation_labels))
      classification_categories) = length rows"
    unfolding column_count [OF exps] fields columns by (simp add: evaluation_labels_def)
  have diagonal: "rp_correct ?rep = sum_list (map (\<lambda>c. confusion rows c c) evaluation_labels)"
    unfolding fields by (rule correct_count) (use row in blast)
  have accuracy: "rp_accuracy ?rep = Some (of_nat (rp_correct ?rep) / of_nat (planned_total split))"
    unfolding fields n using assms(2) by (auto simp: ratio_def planned_total_def)
  have "0 \<le> sum_list (map (\<lambda>c. case cm_f1 (class_metrics_of (confusion rows) c) of None \<Rightarrow> 0 | Some x \<Rightarrow> x) classification_categories) \<and>
      sum_list (map (\<lambda>c. case cm_f1 (class_metrics_of (confusion rows) c) of None \<Rightarrow> 0 | Some x \<Rightarrow> x) classification_categories)
        \<le> of_nat (length classification_categories)"
    by (rule average_bounds) (use metrics_bounds(3,4) [of _ rows] in \<open>simp add: evaluation_labels_def\<close>)
  then have macro: "0 \<le> rp_category_macro_f1 ?rep \<and> rp_category_macro_f1 ?rep \<le> 1"
    unfolding fields labels_facts(2) by (simp add: divide_le_eq)
  have run: "evaluate dg json_pairs uuid5 corpus_digest scripts_digest corpus scripts split = Inr ?rep"
    using assms(2) nonempty responses(1) rows(1) by (auto simp: evaluate_def Let_def bindE_def)
  show ?thesis
    by (rule exI [of _ ?rep], intro conjI)
      (use run fields(1,2) n cells parts diagonal accuracy macro in simp_all)
qed

subsection \<open>Sample fixtures\<close>

definition sample_case :: "char \<Rightarrow> string option \<Rightarrow> string \<Rightarrow> string \<Rightarrow> evaluation_case" where
  "sample_case c category split number = \<lparr>ec_id = c # CHR ''-'' # number, ec_split = split,
     ec_language = (if last number \<in> set ''13579'' then ''en'' else ''tr''), ec_subject = [65], ec_body = Some [66],
     ec_expected = (case category of None \<Rightarrow> \<lparr>cr_outcome = ''insufficient_context'', cr_category = None\<rparr>
       | Some k \<Rightarrow> \<lparr>cr_outcome = ''classified'', cr_category = Some k\<rparr>), ec_rationale = [82]\<rparr>"

definition sample_cases :: "evaluation_case list" where
  "sample_cases =
     concat (map (\<lambda>(c, k). map (sample_case c (Some k) ''development'') [''01'', ''02'', ''03'', ''04''] @
         map (sample_case c (Some k) ''held_out'') [''05'', ''06'']) (zip ''abcdef'' classification_categories)) @
     map (sample_case (CHR ''g'') None ''development'') [''01'', ''02'', ''03'', ''04'', ''05'', ''06'', ''07'', ''08''] @
     map (sample_case (CHR ''g'') None ''held_out'') [''11'', ''12'', ''13'', ''14'']"

definition sample_corpus :: corpus where
  "sample_corpus = \<lparr>cp_version = ''classification_corpus.v1'', cp_label_review = ''jointly_reviewed'', cp_cases = sample_cases\<rparr>"

definition sample_scripts :: scripts where
  "sample_scripts = \<lparr>ss_version = ''classification_fake_scripts.v1'', ss_mode = ''fake'',
     ss_cases = map (\<lambda>c. \<lparr>sc_id = ec_id c, sc_response = Some ''answer'', sc_error = None\<rparr>) sample_cases\<rparr>"

lemma sample_case_ok: "evaluation_case_ok (sample_case c k split number) \<longleftrightarrow> case_id_ok (c # CHR ''-'' # number) \<and>
    (split = ''development'' \<or> split = ''held_out'') \<and>
    (case k of None \<Rightarrow> True | Some x \<Rightarrow> x \<in> set classification_categories)"
  by (auto simp: evaluation_case_ok_def sample_case_def result_ok_def category_matches_outcome_def split: option.split)

lemma sample_cases_ok: "list_all evaluation_case_ok sample_cases"
  by (simp add: sample_cases_def sample_case_ok classification_categories_def case_id_ok_def Let_def)

lemma sample_case_ids: "distinct (map ec_id sample_cases)"
  by (simp add: sample_cases_def sample_case_def classification_categories_def)

lemma sample_allocation: "list_all (allocation_ok sample_cases) evaluation_labels"
  by code_simp

lemma sample_fixtures: "load_fixtures sample_corpus sample_scripts = Inr (sample_corpus, sample_scripts)"
proof -
  have "corpus_ok sample_corpus" using sample_cases_ok by (simp add: corpus_ok_def sample_corpus_def)
  moreover have "scripts_ok sample_scripts"
    by (simp add: scripts_ok_def sample_scripts_def list_all_iff exactly_one_script_def)
  moreover have "map sc_id (ss_cases sample_scripts) = map ec_id (cp_cases sample_corpus)"
    by (simp add: sample_scripts_def sample_corpus_def)
  ultimately show ?thesis using sample_case_ids sample_allocation
    by (simp add: load_fixtures_def Let_def del: list.map_comp) (simp add: sample_corpus_def)
qed

theorem evaluation_accounts_for_every_case_witness:
  "\<exists>rep. evaluate \<lparr>dg_input = (\<lambda>_. ''input''), dg_script = (\<lambda>_. ''script''), dg_list = concat\<rparr> (\<lambda>_. None) length
      (\<lambda>_. ''corpus'') (\<lambda>_. ''scripts'') sample_corpus sample_scripts ''held_out'' = Inr rep \<and> rp_total rep = 16"
  using evaluation_accounts_for_every_case [OF sample_fixtures, of "''held_out''"
    "\<lparr>dg_input = (\<lambda>_. ''input''), dg_script = (\<lambda>_. ''script''), dg_list = concat\<rparr>" "\<lambda>_. None" length
    "\<lambda>_. ''corpus''" "\<lambda>_. ''scripts''"]
  by (auto simp: planned_total_def)

end
