(* ===== verification/SF_Runtime.thy ===== *)
theory SF_Runtime
  imports SF_Settings SF_Http
begin

text \<open>
  Process wiring: \<open>documents/worker_runtime.py\<close>, which owns the resources of a worker process, the fake
  scanner of \<open>documents/ports.py\<close>, \<open>infrastructure/readiness.py\<close> with \<open>api/health.py\<close>, \<open>observability.py\<close>,
  and what \<open>main.py\<close>, \<open>worker.py\<close>, \<open>infrastructure/database.py\<close> and \<open>infrastructure/redis.py\<close> choose from
  the settings.

  An engine and an S3 client are handles; a process lists the handles it holds open. A fork copies
  them. Which library calls raise is the record \<open>child_faults\<close>.
\<close>

subsection \<open>Resources of a worker process\<close>

record live_storage =
  ls_adapter :: "nat storage_adapter"
  ls_client :: nat \<comment> \<open>the handle of its S3 client\<close>

record worker_service =
  ws_engine :: "nat option" \<comment> \<open>\<open>None\<close>: the configured session factory\<close>
  ws_max_attempts :: int
  ws_storage :: live_storage
  ws_scanner :: scanner_adapter
  ws_max_pdf_pages :: int
  ws_max_characters :: int

record worker_runtime =
  wr_settings :: settings
  wr_configured_scanner :: "scanner_adapter option"
  wr_configured_storage :: "nat option"
  wr_configured_sessions :: bool
  wr_owner_pid :: "nat option"
  wr_owned_engine :: "nat option"
  wr_resolved_storage :: "live_storage option"
  wr_service :: "worker_service option"

record os_process =
  ps_pid :: nat
  ps_engines :: "nat list"
  ps_clients :: "nat list"
  ps_next :: nat

record child_faults =
  cf_client :: bool \<comment> \<open>\<open>build_s3_client\<close> raises\<close>
  cf_engine :: bool
  cf_service :: bool
  cf_close :: bool
  cf_dispose :: bool

datatype runtime_exn = CompositionError composition_error | LibraryError | RuntimeNotInitialized

definition document_worker_runtime :: "settings \<Rightarrow> scanner_adapter option \<Rightarrow> nat option \<Rightarrow> bool \<Rightarrow> worker_runtime" where
  "document_worker_runtime s given_scanner given_storage sessions =
     \<lparr>wr_settings = s, wr_configured_scanner = given_scanner, wr_configured_storage = given_storage,
      wr_configured_sessions = sessions, wr_owner_pid = None, wr_owned_engine = None,
      wr_resolved_storage = None, wr_service = None\<rparr>"

fun is_s3 :: "'a storage_adapter \<Rightarrow> bool" where
  "is_s3 (S3DocumentStorage c b) = True"
| "is_s3 _ = False"

definition open_storage :: "child_faults \<Rightarrow> worker_runtime \<Rightarrow> os_process \<Rightarrow> (runtime_exn + live_storage) \<times> os_process" where
  \<comment> \<open>\<open>resolve_document_storage\<close>, with the handle of the client it builds; an empty bucket is noticed when the
     client is already there\<close>
  "open_storage f rt p =
     (let opened = p\<lparr>ps_clients := ps_next p # ps_clients p, ps_next := ps_next p + 1\<rparr> in
      case resolve_document_storage (wr_settings rt) (wr_configured_storage rt) of
        Inl EmptyBucketError \<Rightarrow>
          if cf_client f then (Inl LibraryError, p) else (Inl (CompositionError EmptyBucketError), opened)
      | Inl e \<Rightarrow> (Inl (CompositionError e), p)
      | Inr a \<Rightarrow>
          if is_s3 a
          then (if cf_client f then (Inl LibraryError, p) else (Inr \<lparr>ls_adapter = a, ls_client = ps_next p\<rparr>, opened))
          else (Inr \<lparr>ls_adapter = a, ls_client = 0\<rparr>, p))"

definition close_document_storage :: "child_faults \<Rightarrow> live_storage \<Rightarrow> os_process \<Rightarrow> (runtime_exn + unit) \<times> os_process" where
  "close_document_storage f storage p =
     (if is_s3 (ls_adapter storage)
      then (if cf_close f then (Inl LibraryError, p)
            else (Inr (), p\<lparr>ps_clients := removeAll (ls_client storage) (ps_clients p)\<rparr>))
      else (Inr (), p))"

definition dispose :: "child_faults \<Rightarrow> nat option \<Rightarrow> os_process \<Rightarrow> (runtime_exn + unit) \<times> os_process" where
  "dispose f engine p =
     (case engine of None \<Rightarrow> (Inr (), p)
      | Some e \<Rightarrow> if cf_dispose f then (Inl LibraryError, p) else (Inr (), p\<lparr>ps_engines := removeAll e (ps_engines p)\<rparr>))"

definition shutdown_child :: "child_faults \<Rightarrow> worker_runtime \<Rightarrow> os_process \<Rightarrow>
    (runtime_exn + unit) \<times> worker_runtime \<times> os_process" where
  \<comment> \<open>the engine is disposed of in \<open>finally\<close>\<close>
  "shutdown_child f rt p =
     (let rt' = rt\<lparr>wr_owner_pid := None, wr_owned_engine := None, wr_resolved_storage := None, wr_service := None\<rparr>;
          (closed, p1) = (case wr_resolved_storage rt of
              Some storage \<Rightarrow> if wr_configured_storage rt = None then close_document_storage f storage p else (Inr (), p)
            | None \<Rightarrow> (Inr (), p));
          (disposed, p2) = dispose f (wr_owned_engine rt) p1
      in (case disposed of Inl e \<Rightarrow> Inl e | Inr _ \<Rightarrow> closed, rt', p2))"

definition build_engine_handle :: "child_faults \<Rightarrow> worker_runtime \<Rightarrow> os_process \<Rightarrow>
    (runtime_exn + nat option) \<times> os_process" where
  "build_engine_handle f rt p =
     (if wr_configured_sessions rt then (Inr None, p)
      else if cf_engine f then (Inl LibraryError, p)
      else (Inr (Some (ps_next p)), p\<lparr>ps_engines := ps_next p # ps_engines p, ps_next := ps_next p + 1\<rparr>))"

definition abandon_child :: "child_faults \<Rightarrow> worker_runtime \<Rightarrow> live_storage \<Rightarrow> nat option \<Rightarrow> os_process \<Rightarrow>
    runtime_exn \<Rightarrow> (runtime_exn + unit) \<times> worker_runtime \<times> os_process" where
  \<comment> \<open>\<open>except Exception\<close> of \<open>initialize_child\<close>: an error while closing the storage skips the engine\<close>
  "abandon_child f rt storage engine p e =
     (case (if wr_configured_storage rt = None then close_document_storage f storage p else (Inr (), p)) of
        (Inl e', p1) \<Rightarrow> (Inl e', rt, p1)
      | (Inr _, p1) \<Rightarrow>
          (case dispose f engine p1 of (Inl e', p2) \<Rightarrow> (Inl e', rt, p2) | (Inr _, p2) \<Rightarrow> (Inl e, rt, p2)))"

definition build_child :: "child_faults \<Rightarrow> worker_runtime \<Rightarrow> os_process \<Rightarrow>
    (runtime_exn + unit) \<times> worker_runtime \<times> os_process" where
  \<comment> \<open>the rest of \<open>initialize_child\<close> once nothing is owned\<close>
  "build_child f rt p =
     (case resolve_document_safety_scanner (wr_settings rt) (wr_configured_scanner rt) of
        Inl e \<Rightarrow> (Inl (CompositionError e), rt, p)
      | Inr resolved_scanner \<Rightarrow>
     (case open_storage f rt p of
        (Inl e, p1) \<Rightarrow> (Inl e, rt, p1)
      | (Inr storage, p1) \<Rightarrow>
     (case build_engine_handle f rt p1 of
        (Inl e, p2) \<Rightarrow> abandon_child f rt storage None p2 e
      | (Inr engine, p2) \<Rightarrow>
          if cf_service f then abandon_child f rt storage engine p2 LibraryError
          else (Inr (), rt\<lparr>wr_owner_pid := Some (ps_pid p), wr_owned_engine := engine, wr_resolved_storage := Some storage,
                  wr_service := Some \<lparr>ws_engine = engine,
                    ws_max_attempts = document_ingestion_max_retries (wr_settings rt) + 1,
                    ws_storage = storage, ws_scanner = resolved_scanner,
                    ws_max_pdf_pages = document_max_pdf_pages (wr_settings rt),
                    ws_max_characters = document_max_extracted_characters (wr_settings rt)\<rparr>\<rparr>, p2))))"

definition initialize_child :: "child_faults \<Rightarrow> worker_runtime \<Rightarrow> os_process \<Rightarrow>
    (runtime_exn + unit) \<times> worker_runtime \<times> os_process" where
  "initialize_child f rt p =
     (if wr_service rt \<noteq> None \<and> wr_owner_pid rt = Some (ps_pid p) then (Inr (), rt, p)
      else
        (case (if wr_service rt \<noteq> None then shutdown_child f rt p else (Inr (), rt, p)) of
           (Inl e, rt1, p1) \<Rightarrow> (Inl e, rt1, p1)
         | (Inr _, rt1, p1) \<Rightarrow> build_child f rt1 p1))"

definition get_service :: "child_faults \<Rightarrow> worker_runtime \<Rightarrow> os_process \<Rightarrow>
    (runtime_exn + worker_service) \<times> worker_runtime \<times> os_process" where
  "get_service f rt p =
     (case (if wr_service rt = None \<or> wr_owner_pid rt \<noteq> Some (ps_pid p) then initialize_child f rt p
            else (Inr (), rt, p)) of
        (Inl e, rt1, p1) \<Rightarrow> (Inl e, rt1, p1)
      | (Inr _, rt1, p1) \<Rightarrow>
          (case wr_service rt1 of None \<Rightarrow> (Inl RuntimeNotInitialized, rt1, p1) | Some sv \<Rightarrow> (Inr sv, rt1, p1)))"

subsection \<open>Nothing is held that is not owned\<close>

definition client_of :: "nat option \<Rightarrow> live_storage \<Rightarrow> nat list" where
  "client_of given st = (if given = None \<and> is_s3 (ls_adapter st) then [ls_client st] else [])"

definition owned_clients :: "worker_runtime \<Rightarrow> nat list" where
  "owned_clients rt = (case wr_resolved_storage rt of None \<Rightarrow> [] | Some st \<Rightarrow> client_of (wr_configured_storage rt) st)"

definition engine_of :: "nat option \<Rightarrow> nat list" where
  "engine_of engine = (case engine of None \<Rightarrow> [] | Some e \<Rightarrow> [e])"

definition open_handles :: "nat list \<Rightarrow> nat list \<Rightarrow> os_process \<Rightarrow> bool" where
  "open_handles es cs p \<longleftrightarrow> ps_engines p = es \<and> ps_clients p = cs \<and> distinct es \<and> distinct cs \<and>
     list_all (\<lambda>h. h < ps_next p) es \<and> list_all (\<lambda>h. h < ps_next p) cs"

definition bucket_given :: "settings \<Rightarrow> bool" where
  "bucket_given s \<longleftrightarrow> resolve_document_storage s (None :: nat option) \<noteq> Inl EmptyBucketError"

text \<open>
  The invariant: the open handles are those of the current service, in front of \<open>le\<close> and \<open>lc\<close>, the engines
  and clients that earlier failures to release have left behind.
\<close>

definition runtime_inv :: "nat list \<Rightarrow> nat list \<Rightarrow> worker_runtime \<Rightarrow> os_process \<Rightarrow> bool" where
  "runtime_inv le lc rt p \<longleftrightarrow> bucket_given (wr_settings rt) \<and>
     (case wr_service rt of
        None \<Rightarrow> wr_owner_pid rt = None \<and> wr_owned_engine rt = None \<and> wr_resolved_storage rt = None
      | Some sv \<Rightarrow> wr_owner_pid rt \<noteq> None \<and> wr_owned_engine rt = ws_engine sv \<and>
          wr_resolved_storage rt = Some (ws_storage sv) \<and> (ws_engine sv = None \<longleftrightarrow> wr_configured_sessions rt)) \<and>
     open_handles (engine_of (wr_owned_engine rt) @ le) (owned_clients rt @ lc) p"

definition clean_faults :: "child_faults \<Rightarrow> bool" where
  \<comment> \<open>building may fail, releasing does not\<close>
  "clean_faults f \<longleftrightarrow> \<not> cf_close f \<and> \<not> cf_dispose f"

definition left_open :: "child_faults \<Rightarrow> nat list \<Rightarrow> nat list \<Rightarrow> nat list \<Rightarrow> nat list \<Rightarrow> bool" where
  \<comment> \<open>an operation leaves at most one engine and one client behind, and none when releasing does not raise\<close>
  "left_open f le lc le' lc' \<longleftrightarrow> le' = le \<and> lc' = lc \<or>
     \<not> clean_faults f \<and> length le' \<le> length le + 1 \<and> length lc' \<le> length lc + 1"

lemma resolve_configured: "wr_configured_storage rt = Some a \<Longrightarrow>
    resolve_document_storage (wr_settings rt) (wr_configured_storage rt) = Inr (ConfiguredStorage a)"
  by (simp add: resolve_document_storage_def)

lemma valid_bucket_given:
  assumes "validate_settings ip_literal s = Inr s'"
  shows "bucket_given s"
proof -
  from assms have "document_storage_mode s = STORAGE_S3 \<Longrightarrow> \<not> blank_option (document_s3_bucket s)"
    unfolding validate_settings_def by (auto simp: bindE_Inr_iff)
  moreover have "sstrip (sstrip b) = sstrip b" for b by (simp add: sstrip_def)
  ultimately show ?thesis
    by (cases "document_storage_mode s")
      (auto simp: bucket_given_def resolve_document_storage_def s3_document_storage_def blank_option_def split: option.splits)
qed

lemma dispose_handles:
  assumes "open_handles (engine_of engine @ le) cs p" "dispose f engine p = (r, p')"
  shows "ps_pid p' = ps_pid p \<and> (r = Inr () \<and> open_handles le cs p' \<or> r = Inl LibraryError \<and> cf_dispose f \<and> p' = p)"
  using assms by (cases engine) (auto simp: dispose_def engine_of_def open_handles_def split: if_splits)

lemma release_handles:
  assumes "open_handles es (client_of given st @ lc) p"
    and "(if given = None then close_document_storage f st p else (Inr (), p)) = (r, p')"
  shows "ps_pid p' = ps_pid p \<and> (r = Inr () \<and> open_handles es lc p' \<or> r = Inl LibraryError \<and> cf_close f \<and> p' = p)"
  using assms by (auto simp: close_document_storage_def client_of_def open_handles_def split: if_splits)

lemma length_engine_of [simp]: "length (engine_of engine) \<le> 1"
  by (simp add: engine_of_def split: option.split)

lemma length_client_of [simp]: "length (client_of given st) \<le> 1"
  by (simp add: client_of_def)

lemma shutdown_inv:
  assumes "runtime_inv le lc rt p" "shutdown_child f rt p = (r, rt', p')"
  shows "\<exists>le' lc'. runtime_inv le' lc' rt' p' \<and> left_open f le lc le' lc' \<and> wr_service rt' = None \<and> ps_pid p' = ps_pid p \<and>
    (\<not> cf_dispose f \<longrightarrow> le' = le) \<and> (\<not> cf_close f \<longrightarrow> lc' = lc) \<and> (r = Inr () \<longrightarrow> le' = le \<and> lc' = lc) \<and>
    (clean_faults f \<longrightarrow> r = Inr ())"
proof -
  obtain r1 p1 where close: "(case wr_resolved_storage rt of
      Some st \<Rightarrow> if wr_configured_storage rt = None then close_document_storage f st p else (Inr (), p) | None \<Rightarrow> (Inr (), p)) = (r1, p1)"
    by (metis surj_pair)
  obtain r2 p2 where disp: "dispose f (wr_owned_engine rt) p1 = (r2, p2)" by (metis surj_pair)
  have res: "r = (case r2 of Inl e \<Rightarrow> Inl e | Inr _ \<Rightarrow> r1)" "p' = p2"
      "rt' = rt\<lparr>wr_owner_pid := None, wr_owned_engine := None, wr_resolved_storage := None, wr_service := None\<rparr>"
    using assms(2) close disp by (simp_all add: shutdown_child_def Let_def)
  have inv: "open_handles (engine_of (wr_owned_engine rt) @ le) (owned_clients rt @ lc) p" "bucket_given (wr_settings rt)"
    using assms(1) by (simp_all add: runtime_inv_def)
  have "\<exists>lc'. open_handles (engine_of (wr_owned_engine rt) @ le) lc' p1 \<and> ps_pid p1 = ps_pid p \<and>
      (r1 = Inr () \<and> lc' = lc \<or> r1 = Inl LibraryError \<and> cf_close f \<and> length lc' \<le> length lc + 1)"
  proof (cases "wr_resolved_storage rt")
    case None
    with close inv show ?thesis by (auto simp: owned_clients_def)
  next
    case (Some st)
    then have "owned_clients rt = client_of (wr_configured_storage rt) st" by (simp add: owned_clients_def)
    with inv release_handles [of "engine_of (wr_owned_engine rt) @ le" "wr_configured_storage rt" st lc p f r1 p1] close Some
    show ?thesis using length_client_of [of "wr_configured_storage rt" st] by auto
  qed
  then obtain lc' where c: "open_handles (engine_of (wr_owned_engine rt) @ le) lc' p1" "ps_pid p1 = ps_pid p"
      "r1 = Inr () \<and> lc' = lc \<or> r1 = Inl LibraryError \<and> cf_close f \<and> length lc' \<le> length lc + 1" by blast
  have "\<exists>le'. open_handles le' lc' p2 \<and> ps_pid p2 = ps_pid p1 \<and>
      (r2 = Inr () \<and> le' = le \<or> r2 = Inl LibraryError \<and> cf_dispose f \<and> length le' \<le> length le + 1)"
    using dispose_handles [OF c(1) disp] c(1) length_engine_of [of "wr_owned_engine rt"] by auto
  then obtain le' where e: "open_handles le' lc' p2" "ps_pid p2 = ps_pid p1"
      "r2 = Inr () \<and> le' = le \<or> r2 = Inl LibraryError \<and> cf_dispose f \<and> length le' \<le> length le + 1" by blast
  have "runtime_inv le' lc' rt' p'"
    using e(1) inv(2) by (simp add: res runtime_inv_def owned_clients_def engine_of_def)
  then show ?thesis using c(2,3) e(2,3)
    by (intro exI [of _ le'] exI [of _ lc']) (auto simp: res left_open_def clean_faults_def)
qed

lemma abandon_inv:
  assumes "runtime_inv le lc rt p0" "wr_service rt = None"
    and "open_handles (engine_of engine @ le) (client_of (wr_configured_storage rt) st @ lc) p" "abandon_child f rt st engine p e = (r, rt', p')"
  shows "\<exists>le' lc'. runtime_inv le' lc' rt' p' \<and> left_open f le lc le' lc' \<and> ps_pid p' = ps_pid p \<and> r \<noteq> Inr ()"
proof -
  obtain r1 p1 where close: "(if wr_configured_storage rt = None then close_document_storage f st p else (Inr (), p)) = (r1, p1)"
    by (metis surj_pair)
  obtain r2 p2 where disp: "dispose f engine p1 = (r2, p2)" by (metis surj_pair)
  note c = release_handles [OF assms(3) close]
  have inv: "runtime_inv le' lc' rt q" if "open_handles le' lc' q" for le' lc' q
    using assms(1,2) that by (auto simp: runtime_inv_def owned_clients_def engine_of_def)
  have bounds: "length (engine_of engine @ le) \<le> length le + 1" "length (client_of (wr_configured_storage rt) st @ lc) \<le> length lc + 1"
    using length_engine_of [of engine] length_client_of [of "wr_configured_storage rt" st] by simp_all
  show ?thesis
  proof (cases r1)
    case (Inl e')
    with close c assms(4) have "p' = p" "rt' = rt" "r = Inl e'" "cf_close f" by (simp_all add: abandon_child_def)
    with inv [OF assms(3)] bounds show ?thesis
      by (intro exI [of _ "engine_of engine @ le"] exI [of _ "client_of (wr_configured_storage rt) st @ lc"])
        (simp add: left_open_def clean_faults_def)
  next
    case (Inr u)
    with c have h: "open_handles (engine_of engine @ le) lc p1" "ps_pid p1 = ps_pid p" by auto
    from Inr close disp assms(4) have "p' = p2" "rt' = rt" "r \<noteq> Inr ()" by (auto simp: abandon_child_def split: sum.splits)
    from dispose_handles [OF h(1) disp] show ?thesis
    proof (elim conjE disjE)
      assume "open_handles le lc p2" "ps_pid p2 = ps_pid p1"
      with inv h(2) \<open>p' = p2\<close> \<open>rt' = rt\<close> \<open>r \<noteq> Inr ()\<close> show ?thesis
        by (intro exI [of _ le] exI [of _ lc]) (simp add: left_open_def)
    next
      assume "cf_dispose f" "p2 = p1"
      with inv [OF h(1)] h(2) bounds \<open>p' = p2\<close> \<open>rt' = rt\<close> \<open>r \<noteq> Inr ()\<close> show ?thesis
        by (intro exI [of _ "engine_of engine @ le"] exI [of _ lc]) (simp add: left_open_def clean_faults_def)
    qed
  qed
qed

lemma open_storage_handles:
  assumes "runtime_inv le lc rt p" "wr_service rt = None" "open_storage f rt p = (r, p1)"
  shows "ps_pid p1 = ps_pid p \<and> (case r of Inl e \<Rightarrow> p1 = p | Inr st \<Rightarrow> open_handles le (client_of (wr_configured_storage rt) st @ lc) p1)"
proof -
  have h: "open_handles le lc p" and b: "bucket_given (wr_settings rt)"
    using assms(1,2) by (auto simp: runtime_inv_def owned_clients_def engine_of_def)
  have "resolve_document_storage (wr_settings rt) (wr_configured_storage rt) \<noteq> Inl EmptyBucketError"
    using b resolve_configured [of rt] by (cases "wr_configured_storage rt") (auto simp: bucket_given_def)
  moreover have "\<not> is_s3 a" if "resolve_document_storage (wr_settings rt) (wr_configured_storage rt) = Inr a" "wr_configured_storage rt = Some g" for a g
    using that resolve_configured [OF that(2)] by auto
  moreover have "open_handles le (ps_next p # lc) (p\<lparr>ps_clients := ps_next p # ps_clients p, ps_next := ps_next p + 1\<rparr>)"
    using h by (fastforce simp: open_handles_def list_all_iff)
  ultimately show ?thesis using assms(3) h
    by (cases "wr_configured_storage rt") (auto simp: open_storage_def client_of_def Let_def
      split: sum.splits if_splits composition_error.splits)
qed

lemma build_engine_handles:
  assumes "open_handles le cs p1" "build_engine_handle f rt p1 = (r, p2)"
  shows "ps_pid p2 = ps_pid p1 \<and> (case r of Inl e \<Rightarrow> p2 = p1
    | Inr engine \<Rightarrow> open_handles (engine_of engine @ le) cs p2 \<and> (engine = None \<longleftrightarrow> wr_configured_sessions rt))"
  using assms by (auto simp: build_engine_handle_def open_handles_def engine_of_def list_all_iff split: if_splits; fastforce)

lemma build_inv:
  assumes "runtime_inv le lc rt p" "wr_service rt = None" "build_child f rt p = (r, rt', p')"
  shows "\<exists>le' lc'. runtime_inv le' lc' rt' p' \<and> left_open f le lc le' lc' \<and> ps_pid p' = ps_pid p \<and>
    (r = Inr () \<longrightarrow> le' = le \<and> lc' = lc \<and> wr_owner_pid rt' = Some (ps_pid p) \<and> wr_service rt' \<noteq> None)"
proof (cases "resolve_document_safety_scanner (wr_settings rt) (wr_configured_scanner rt)")
  case (Inl e)
  with assms show ?thesis by (auto simp: build_child_def left_open_def)
next
  case scan: (Inr sc)
  obtain rs p1 where opened: "open_storage f rt p = (rs, p1)" by (metis surj_pair)
  note o1 = open_storage_handles [OF assms(1,2) opened]
  show ?thesis
  proof (cases rs)
    case (Inl e)
    with o1 opened scan assms show ?thesis by (auto simp: build_child_def left_open_def)
  next
    case st: (Inr st)
    then have h1: "open_handles le (client_of (wr_configured_storage rt) st @ lc) p1" using o1 by simp
    obtain re p2 where built: "build_engine_handle f rt p1 = (re, p2)" by (metis surj_pair)
    note o2 = build_engine_handles [OF h1 built]
    show ?thesis
    proof (cases re)
      case (Inl e)
      with built opened scan st assms(3) have "abandon_child f rt st None p2 e = (r, rt', p')" by (simp add: build_child_def)
      from abandon_inv [OF assms(1,2) _ this] o1 o2 h1 Inl show ?thesis by (auto simp: engine_of_def)
    next
      case engine: (Inr engine)
      with o2 have h2: "open_handles (engine_of engine @ le) (client_of (wr_configured_storage rt) st @ lc) p2"
          "engine = None \<longleftrightarrow> wr_configured_sessions rt" by auto
      show ?thesis
      proof (cases "cf_service f")
        case True
        with engine built opened scan st assms(3) have "abandon_child f rt st engine p2 LibraryError = (r, rt', p')"
          by (simp add: build_child_def)
        from abandon_inv [OF assms(1,2) h2(1) this] o1 o2 show ?thesis by auto
      next
        case False
        with engine built opened scan st assms(3) have "p' = p2" "wr_owner_pid rt' = Some (ps_pid p)" "wr_owned_engine rt' = engine"
            "wr_resolved_storage rt' = Some st" "wr_settings rt' = wr_settings rt" "wr_configured_storage rt' = wr_configured_storage rt"
            "wr_configured_sessions rt' = wr_configured_sessions rt" "\<exists>sv. wr_service rt' = Some sv \<and> ws_engine sv = engine \<and> ws_storage sv = st"
          by (auto simp: build_child_def)
        with h2 assms(1) o1 o2 show ?thesis
          by (intro exI [of _ le] exI [of _ lc]) (auto simp: runtime_inv_def owned_clients_def left_open_def)
      qed
    qed
  qed
qed

lemma initialize_inv:
  assumes "runtime_inv le lc rt p" "initialize_child f rt p = (r, rt', p')"
  shows "\<exists>le' lc'. runtime_inv le' lc' rt' p' \<and> left_open f le lc le' lc' \<and> ps_pid p' = ps_pid p \<and>
    (r = Inr () \<longrightarrow> le' = le \<and> lc' = lc \<and> wr_owner_pid rt' = Some (ps_pid p) \<and> wr_service rt' \<noteq> None)"
proof (cases "wr_service rt \<noteq> None \<and> wr_owner_pid rt = Some (ps_pid p)")
  case True
  with assms show ?thesis by (auto simp: initialize_child_def left_open_def)
next
  case False
  show ?thesis
  proof (cases "wr_service rt = None")
    case True
    with False assms have "build_child f rt p = (r, rt', p')" by (simp add: initialize_child_def)
    then show ?thesis by (rule build_inv [OF assms(1) True])
  next
    case serv: False
    obtain r1 rt1 p1 where sh: "shutdown_child f rt p = (r1, rt1, p1)" by (metis prod_cases3)
    from shutdown_inv [OF assms(1) sh] obtain le1 lc1 where s: "runtime_inv le1 lc1 rt1 p1" "left_open f le lc le1 lc1"
        "wr_service rt1 = None" "ps_pid p1 = ps_pid p" "r1 = Inr () \<longrightarrow> le1 = le \<and> lc1 = lc" by blast
    show ?thesis
    proof (cases r1)
      case (Inl e)
      with serv False assms(2) sh have "r = Inl e" "rt' = rt1" "p' = p1" by (simp_all add: initialize_child_def)
      with s show ?thesis by blast
    next
      case (Inr u)
      with serv False assms(2) sh have "build_child f rt1 p1 = (r, rt', p')" by (simp add: initialize_child_def)
      from build_inv [OF s(1,3) this] Inr s(4,5) show ?thesis by simp
    qed
  qed
qed

lemma get_service_inv:
  assumes "runtime_inv le lc rt p" "get_service f rt p = (r, rt', p')"
  shows "\<exists>le' lc'. runtime_inv le' lc' rt' p' \<and> left_open f le lc le' lc' \<and> ps_pid p' = ps_pid p \<and>
    (\<forall>sv. r = Inr sv \<longrightarrow> le' = le \<and> lc' = lc \<and> wr_service rt' = Some sv \<and> wr_owner_pid rt' = Some (ps_pid p))"
proof (cases "wr_service rt = None \<or> wr_owner_pid rt \<noteq> Some (ps_pid p)")
  case True
  obtain r1 rt1 p1 where i: "initialize_child f rt p = (r1, rt1, p1)" by (metis prod_cases3)
  with True assms(2) have "rt' = rt1" "p' = p1" "\<And>sv. r = Inr sv \<Longrightarrow> r1 = Inr () \<and> wr_service rt1 = Some sv"
    by (auto simp: get_service_def split: sum.splits option.splits)
  with initialize_inv [OF assms(1) i] show ?thesis by blast
next
  case False
  with assms show ?thesis by (auto simp: get_service_def left_open_def split: option.splits)
qed

lemma failed_close_leaks_engine:
  assumes "wr_configured_storage rt = None" "\<not> wr_configured_sessions rt"
    and "resolve_document_safety_scanner (wr_settings rt) (wr_configured_scanner rt) = Inr sc"
    and "resolve_document_storage (wr_settings rt) (None :: nat option) = Inr (S3DocumentStorage c b)"
    and "f = \<lparr>cf_client = False, cf_engine = False, cf_service = True, cf_close = True, cf_dispose = False\<rparr>"
  shows "\<exists>p'. build_child f rt p = (Inl LibraryError, rt, p') \<and> ps_engines p' = (ps_next p + 1) # ps_engines p"
  using assms by (simp add: build_child_def open_storage_def build_engine_handle_def abandon_child_def
    close_document_storage_def)

inductive worker_life :: "nat \<Rightarrow> worker_runtime \<Rightarrow> os_process \<Rightarrow> bool" where
  \<comment> \<open>the number counts the operations during which releasing a resource could raise\<close>
  Start: "validate_settings ip_literal s = Inr s' \<Longrightarrow>
    worker_life 0 (document_worker_runtime s sc st ss) \<lparr>ps_pid = pid, ps_engines = [], ps_clients = [], ps_next = n\<rparr>"
| Init: "worker_life k rt p \<Longrightarrow> initialize_child f rt p = (r, rt', p') \<Longrightarrow>
    worker_life (if clean_faults f then k else k + 1) rt' p'"
| Get: "worker_life k rt p \<Longrightarrow> get_service f rt p = (r', rt', p') \<Longrightarrow>
    worker_life (if clean_faults f then k else k + 1) rt' p'"
| Shutdown: "worker_life k rt p \<Longrightarrow> shutdown_child f rt p = (r, rt', p') \<Longrightarrow>
    worker_life (if clean_faults f then k else k + 1) rt' p'"
| Fork: "worker_life k rt p \<Longrightarrow> worker_life k rt (p\<lparr>ps_pid := pid\<rparr>)" \<comment> \<open>in the child\<close>

lemma left_open_bound: "left_open f le lc le' lc' \<Longrightarrow> length le \<le> k \<Longrightarrow> length lc \<le> k \<Longrightarrow>
    length le' \<le> (if clean_faults f then k else k + 1) \<and> length lc' \<le> (if clean_faults f then k else k + 1)"
  by (auto simp: left_open_def)

lemma worker_life_inv: "worker_life k rt p \<Longrightarrow> \<exists>le lc. runtime_inv le lc rt p \<and> length le \<le> k \<and> length lc \<le> k"
proof (induction rule: worker_life.induct)
  case (Start ip_literal s s' sc st ss pid n)
  then show ?case using valid_bucket_given
    by (auto simp: runtime_inv_def document_worker_runtime_def owned_clients_def engine_of_def open_handles_def)
next
  case (Fork k rt p pid)
  then show ?case by (simp add: runtime_inv_def open_handles_def)
next
  case (Init k rt p f r rt' p')
  then obtain le lc where inv: "runtime_inv le lc rt p" and len: "length le \<le> k" "length lc \<le> k" by blast
  from initialize_inv [OF inv Init(2)] obtain le' lc' where "runtime_inv le' lc' rt' p'" "left_open f le lc le' lc'" by blast
  with left_open_bound [OF this(2) len] show ?case by blast
next
  case (Get k rt p f r' rt' p')
  then obtain le lc where inv: "runtime_inv le lc rt p" and len: "length le \<le> k" "length lc \<le> k" by blast
  from get_service_inv [OF inv Get(2)] obtain le' lc' where "runtime_inv le' lc' rt' p'" "left_open f le lc le' lc'" by blast
  with left_open_bound [OF this(2) len] show ?case by blast
next
  case (Shutdown k rt p f r rt' p')
  then obtain le lc where inv: "runtime_inv le lc rt p" and len: "length le \<le> k" "length lc \<le> k" by blast
  from shutdown_inv [OF inv Shutdown(2)] obtain le' lc' where "runtime_inv le' lc' rt' p'" "left_open f le lc le' lc'" by blast
  with left_open_bound [OF this(2) len] show ?case by blast
qed

text \<open>
  C31. A worker process holds exactly the resources it owns, but for those whose release failed. After any
  sequence of starts, forks, service lookups and shutdowns under accepted settings, in which building and releasing
  any resource may raise, the open engines and S3 clients are those of the current service and at most one of each
  for every operation in which releasing could raise (none when there was none); a service that is handed out was
  built by the process that asks, and nothing is left behind by the lookup; a shutdown closes the client of
  the service unless that very call raises, disposes of its engine also when closing the client raised, and
  succeeds when neither raises.
\<close>

theorem worker_resources_owned:
  assumes "worker_life k rt p"
  shows "\<exists>le lc. length le \<le> k \<and> length lc \<le> k \<and>
    ps_engines p = (case wr_owned_engine rt of None \<Rightarrow> [] | Some e \<Rightarrow> [e]) @ le \<and> ps_clients p = owned_clients rt @ lc \<and>
    (\<forall>f sv rt' p'. get_service f rt p = (Inr sv, rt', p') \<longrightarrow> wr_owner_pid rt' = Some (ps_pid p) \<and>
       wr_service rt' = Some sv \<and> ps_engines p' = (case ws_engine sv of None \<Rightarrow> [] | Some e \<Rightarrow> [e]) @ le \<and>
       ps_clients p' = owned_clients rt' @ lc) \<and>
    (\<forall>f. \<exists>r rt' p'. shutdown_child f rt p = (r, rt', p') \<and> wr_service rt' = None \<and>
       (\<not> cf_dispose f \<longrightarrow> ps_engines p' = le) \<and> (\<not> cf_close f \<longrightarrow> ps_clients p' = lc) \<and>
       (clean_faults f \<longrightarrow> r = Inr ()))"
proof -
  from worker_life_inv [OF assms] obtain le lc where inv: "runtime_inv le lc rt p" and len: "length le \<le> k" "length lc \<le> k"
    by blast
  have handed: "wr_owner_pid rt' = Some (ps_pid p) \<and> wr_service rt' = Some sv \<and>
      ps_engines p' = (case ws_engine sv of None \<Rightarrow> [] | Some e \<Rightarrow> [e]) @ le \<and> ps_clients p' = owned_clients rt' @ lc"
    if "get_service f rt p = (Inr sv, rt', p')" for f sv rt' p'
    using get_service_inv [OF inv that] by (auto simp: runtime_inv_def open_handles_def engine_of_def)
  have closed: "\<exists>r rt' p'. shutdown_child f rt p = (r, rt', p') \<and> wr_service rt' = None \<and>
      (\<not> cf_dispose f \<longrightarrow> ps_engines p' = le) \<and> (\<not> cf_close f \<longrightarrow> ps_clients p' = lc) \<and> (clean_faults f \<longrightarrow> r = Inr ())" for f
  proof -
    obtain r rt' p' where sh: "shutdown_child f rt p = (r, rt', p')" by (metis prod_cases3)
    from shutdown_inv [OF inv this] obtain le' lc' where s: "runtime_inv le' lc' rt' p'" "wr_service rt' = None"
        "\<not> cf_dispose f \<longrightarrow> le' = le" "\<not> cf_close f \<longrightarrow> lc' = lc" "clean_faults f \<longrightarrow> r = Inr ()" by blast
    then have "ps_engines p' = le'" "ps_clients p' = lc'"
      by (auto simp: runtime_inv_def open_handles_def engine_of_def owned_clients_def)
    with sh s show ?thesis by blast
  qed
  show ?thesis using inv len handed closed
    by (intro exI [of _ le] exI [of _ lc]) (simp add: runtime_inv_def open_handles_def engine_of_def)
qed

subsection \<open>The fake scanner\<close>

fun gate_wait :: "scan_result \<Rightarrow> instant \<Rightarrow> (bool \<times> instant) list \<Rightarrow> scan_result option" where
  \<comment> \<open>one round per look at the gate file and reading of the clock; \<open>None\<close>: still waiting\<close>
  "gate_wait result deadline [] = None"
| "gate_wait result deadline ((gate_exists, now) # rounds) =
     (if gate_exists then Some result
      else if deadline \<le> now then Some UNAVAILABLE
      else gate_wait result deadline rounds)"

definition fake_scan :: "scan_result \<Rightarrow> string option \<Rightarrow> int \<Rightarrow> instant \<Rightarrow> (bool \<times> instant) list \<Rightarrow> scan_result option" where
  "fake_scan result gate_path gate_timeout_seconds start rounds =
     (case gate_path of None \<Rightarrow> Some result
      | Some _ \<Rightarrow> gate_wait result (start + seconds gate_timeout_seconds) rounds)"

lemma gate_wait_None: "gate_wait result deadline rounds = None \<longleftrightarrow>
    list_all (\<lambda>(gate_exists, now). \<not> gate_exists \<and> now < deadline) rounds"
  by (induction result deadline rounds rule: gate_wait.induct) auto

lemma fake_scan_ends:
  \<comment> \<open>every round sleeps for 50 milliseconds\<close>
  assumes "0 \<le> timeout" "\<forall>i < length rounds. start + 50000 * int i \<le> snd (rounds ! i)" "20 * timeout < int (length rounds)"
  shows "fake_scan result gate_path timeout start rounds \<in> {Some result, Some UNAVAILABLE}"
proof -
  have cases: "gate_wait r d rs \<in> {Some r, Some UNAVAILABLE, None}" for r d rs
    by (induction r d rs rule: gate_wait.induct) auto
  let ?n = "nat (20 * timeout)"
  have n: "?n < length rounds" using assms(1,3) by linarith
  with assms(1,2) have "start + seconds timeout \<le> snd (rounds ! ?n)" by (fastforce simp: seconds_def)
  moreover define waits where "waits = (\<lambda>(gate_exists, now). \<not> gate_exists \<and> now < start + seconds timeout)"
  ultimately have "\<not> waits (rounds ! ?n)" by (cases "rounds ! ?n") (simp add: waits_def)
  then have "\<not> list_all waits rounds" using n by (auto simp only: list_all_length)
  then have "gate_wait result (start + seconds timeout) rounds \<noteq> None"
    by (simp only: gate_wait_None waits_def not_False_eq_True)
  with cases [of result "start + seconds timeout" rounds] show ?thesis by (auto simp: fake_scan_def split: option.split)
qed

subsection \<open>Readiness, health and request identifiers\<close>

datatype 'a dependency_call = Answered 'a | DependencyError \<comment> \<open>\<open>SQLAlchemyError\<close>, \<open>RedisError\<close>\<close>

definition readiness_check :: "int dependency_call \<Rightarrow> bool dependency_call \<Rightarrow> string list" where
  \<comment> \<open>the unavailable dependencies, from \<open>SELECT 1\<close> and from \<open>ping() is True\<close>\<close>
  "readiness_check select_one ping =
     (if select_one = Answered 1 then [] else [''postgresql'']) @ (if ping = Answered True then [] else [''redis''])"

definition always_ready_check :: "string list" where
  "always_ready_check = []"

definition ready_health :: "string list \<Rightarrow> nat \<times> string" where
  "ready_health unavailable = (if unavailable = [] then (200, ''ok'') else (503, ''unavailable''))"

definition live_health :: "nat \<times> string" where
  "live_health = (200, ''ok'')"

lemma ready_iff: "fst (ready_health (readiness_check select_one ping)) = 200 \<longleftrightarrow>
    select_one = Answered 1 \<and> ping = Answered True"
  by (simp add: ready_health_def readiness_check_def)

datatype asgi_message = ResponseStart nat "(string \<times> string) list" | OtherMessage string

record asgi_scope =
  sp_type :: string
  sp_request_id :: "string option"

fun set_header :: "string \<Rightarrow> string \<Rightarrow> (string \<times> string) list \<Rightarrow> (string \<times> string) list" where
  \<comment> \<open>assignment to \<open>MutableHeaders\<close>: the first entry of the name is replaced, further ones are removed\<close>
  "set_header k v [] = [(k, v)]"
| "set_header k v ((k', v') # hs) =
     (if k' = k then (k, v) # filter (\<lambda>h. fst h \<noteq> k) hs else (k', v') # set_header k v hs)"

definition header_name :: "string \<Rightarrow> string" where
  "header_name k = lower_s k"

fun send_with_request_id :: "string \<Rightarrow> asgi_message \<Rightarrow> asgi_message" where
  "send_with_request_id request_id (ResponseStart status headers) =
     ResponseStart status (set_header (header_name REQUEST_ID_HEADER) request_id headers)"
| "send_with_request_id request_id message = message"

definition request_id_middleware :: "string \<Rightarrow> (asgi_scope \<Rightarrow> asgi_message list) \<Rightarrow> asgi_scope \<Rightarrow> asgi_message list" where
  "request_id_middleware request_id app scope =
     (if sp_type scope \<noteq> ''http'' then app scope
      else map (send_with_request_id request_id) (app (scope\<lparr>sp_request_id := Some request_id\<rparr>)))"

lemma set_header_once: "filter (\<lambda>h. fst h = k) (set_header k v hs) = [(k, v)]"
  by (induction k v hs rule: set_header.induct) (simp_all add: filter_filter)

lemma request_id_unique:
  assumes "sp_type scope = ''http''" "ResponseStart status headers \<in> set (request_id_middleware request_id app scope)"
  shows "filter (\<lambda>h. fst h = header_name REQUEST_ID_HEADER) headers = [(header_name REQUEST_ID_HEADER, request_id)]"
proof -
  from assms obtain msg where "send_with_request_id request_id msg = ResponseStart status headers"
    by (auto simp: request_id_middleware_def)
  then show ?thesis by (cases msg) (auto simp: set_header_once)
qed

subsection \<open>Clients and applications\<close>

record engine_options =
  eo_url :: string
  eo_pool_pre_ping :: bool
  eo_connect_timeout :: "int option"
  eo_pool_timeout :: "int option"
  eo_ssl :: "(string \<times> string) option" \<comment> \<open>\<open>sslmode\<close> and \<open>sslrootcert\<close>\<close>

definition build_engine :: "string \<Rightarrow> int option \<Rightarrow> string option \<Rightarrow> engine_options" where
  "build_engine url connect_timeout ssl_root_cert_path =
     \<lparr>eo_url = url, eo_pool_pre_ping = True, eo_connect_timeout = connect_timeout, eo_pool_timeout = connect_timeout,
      eo_ssl = (case ssl_root_cert_path of None \<Rightarrow> None | Some c \<Rightarrow> Some (''verify-full'', path_str c))\<rparr>"

record redis_options =
  ro_url :: string
  ro_timeout :: int
  ro_verify :: bool \<comment> \<open>\<open>CERT_REQUIRED\<close> and host name check\<close>

definition build_redis_client :: "(string \<Rightarrow> bool) \<Rightarrow> string \<Rightarrow> int \<Rightarrow> redis_options option" where
  "build_redis_client ip_literal url timeout =
     (case urlsplit ip_literal url of None \<Rightarrow> None
      | Some p \<Rightarrow> Some \<lparr>ro_url = url, ro_timeout = timeout, ro_verify = (lower_s (url_scheme p) = ''rediss'')\<rparr>)"

record celery_config =
  cc_broker_url :: string
  cc_backend_url :: string
  cc_accept_content :: "string list"
  cc_prefetch_multiplier :: nat
  cc_visibility_timeout :: int
  cc_broker_tls :: bool
  cc_backend_tls :: bool

definition create_celery_client :: "settings \<Rightarrow> celery_config" where
  "create_celery_client s =
     \<lparr>cc_broker_url = celery_broker_url s, cc_backend_url = celery_result_backend_url s, cc_accept_content = [''json''],
      cc_prefetch_multiplier = 1, cc_visibility_timeout = celery_visibility_timeout_seconds s,
      cc_broker_tls = (environment s \<in> {ENV_STAGING, ENV_PRODUCTION}),
      cc_backend_tls = (environment s \<in> {ENV_STAGING, ENV_PRODUCTION})\<rparr>"

definition HEALTH_TASK_NAME :: string where
  "HEALTH_TASK_NAME = ''supportflow.health.ping''"

definition INGEST_DOCUMENT_VERSION_TASK :: string where
  "INGEST_DOCUMENT_VERSION_TASK = ''supportflow.documents.ingest''"

record worker_application =
  wa_config :: celery_config
  wa_runtime :: worker_runtime
  wa_tasks :: "string list"
  wa_max_retries :: int
  wa_soft_time_limit :: int
  wa_hard_time_limit :: int

definition create_celery :: "settings \<Rightarrow> scanner_adapter option \<Rightarrow> nat option \<Rightarrow> bool \<Rightarrow> worker_application" where
  "create_celery s given_scanner given_storage sessions =
     \<lparr>wa_config = create_celery_client s,
      wa_runtime = document_worker_runtime s given_scanner given_storage sessions,
      wa_tasks = [HEALTH_TASK_NAME, INGEST_DOCUMENT_VERSION_TASK],
      wa_max_retries = document_ingestion_max_retries s,
      wa_soft_time_limit = document_ingestion_soft_time_limit_seconds s,
      wa_hard_time_limit = document_ingestion_hard_time_limit_seconds s\<rparr>"

datatype redis_choice = NoRedis | GivenRedis | BuiltRedis redis_options
datatype session_store_choice = GivenSessionStore | RedisSessionStore int | InMemorySessionStore int
datatype readiness_choice = GivenProbe | RuntimeProbe | AlwaysReadyProbe
datatype dispatcher_choice = GivenDispatcher | CeleryDispatcher celery_config

record app_arguments =
  aa_scanner :: "scanner_adapter option"
  aa_storage :: "nat option"
  aa_dispatcher :: bool
  aa_session_store :: bool
  aa_probe :: bool
  aa_redis :: bool
  aa_classification :: bool

record app_state =
  as_classification :: bool
  as_scanner :: scanner_adapter
  as_storage :: "nat storage_adapter"
  as_engine :: engine_options
  as_redis :: redis_choice
  as_dispatcher :: dispatcher_choice
  as_session_store :: session_store_choice
  as_readiness :: readiness_choice
  as_max_upload_bytes :: int

datatype app_error = FakeClassificationForbidden | AppComposition composition_error | RedisUrlError

definition create_app :: "(string \<Rightarrow> bool) \<Rightarrow> settings \<Rightarrow> app_arguments \<Rightarrow> app_error + app_state" where
  "create_app ip_literal s a =
     (if aa_classification a \<and> environment s \<notin> {ENV_LOCAL, ENV_TEST} then Inl FakeClassificationForbidden
      else
        (case resolve_document_safety_scanner s (aa_scanner a) of
           Inl e \<Rightarrow> Inl (AppComposition e)
         | Inr resolved_scanner \<Rightarrow>
        (case resolve_document_storage s (aa_storage a) of
           Inl e \<Rightarrow> Inl (AppComposition e)
         | Inr resolved_storage \<Rightarrow>
        (case (if aa_redis a then Some GivenRedis
               else if environment s \<noteq> ENV_TEST
               then map_option BuiltRedis (build_redis_client ip_literal (redis_url s) (dependency_connect_timeout_seconds s))
               else Some NoRedis) of
           None \<Rightarrow> Inl RedisUrlError
         | Some redis \<Rightarrow>
             let lifetime = seconds (60 * ui_session_ttl_minutes s) in
             Inr \<lparr>as_classification = aa_classification a, as_scanner = resolved_scanner, as_storage = resolved_storage,
               as_engine = build_engine (database_url s) (Some (dependency_connect_timeout_seconds s))
                 (database_ssl_root_cert_path s),
               as_redis = redis,
               as_dispatcher = (if aa_dispatcher a then GivenDispatcher else CeleryDispatcher (create_celery_client s)),
               as_session_store = (if aa_session_store a then GivenSessionStore
                 else if redis \<noteq> NoRedis then RedisSessionStore lifetime else InMemorySessionStore lifetime),
               as_readiness = (if aa_probe a then GivenProbe else if redis \<noteq> NoRedis then RuntimeProbe else AlwaysReadyProbe),
               as_max_upload_bytes = document_max_upload_bytes s\<rparr>))))"

definition no_arguments :: app_arguments where
  "no_arguments = \<lparr>aa_scanner = None, aa_storage = None, aa_dispatcher = False, aa_session_store = False,
     aa_probe = False, aa_redis = False, aa_classification = False\<rparr>"

text \<open>
  A deployed application is wired for production. Settings for staging or production that the validator
  accepts, with the daemon as scanner, compose into an application whose database connection verifies the
  server against the configured CA, whose Redis client and brokers verify TLS, whose sessions live in Redis
  for the configured time, whose readiness depends on the real services and whose documents are in S3;
  no argument makes such an application run the fake classifier or the fake scanner.
\<close>

lemma deployed_app_wiring:
  assumes "validate_settings ip_literal s = Inr s'" "deployed s" "document_scanner_mode s = SCANNER_CLAMD"
  shows "(\<exists>app redis cert client bucket. create_app ip_literal s no_arguments = Inr app \<and>
      database_ssl_root_cert_path s = Some cert \<and> eo_ssl (as_engine app) = Some (''verify-full'', path_str cert) \<and>
      as_redis app = BuiltRedis redis \<and> ro_verify redis \<and>
      as_dispatcher app = CeleryDispatcher (create_celery_client s) \<and>
      cc_broker_tls (create_celery_client s) \<and> cc_backend_tls (create_celery_client s) \<and>
      as_session_store app = RedisSessionStore (seconds (60 * ui_session_ttl_minutes s)) \<and>
      as_readiness app = RuntimeProbe \<and> as_storage app = S3DocumentStorage client bucket) \<and>
    (\<forall>a app r g n. create_app ip_literal s a = Inr app \<longrightarrow>
      \<not> as_classification app \<and> as_scanner app \<noteq> FakeDocumentSafetyScanner r g n)"
proof (intro conjI allI impI)
  note checks = deployed_checks [OF assms(1,2)]
  have env: "environment s = ENV_STAGING \<or> environment s = ENV_PRODUCTION" using assms(2) by (simp add: deployed_def)
  obtain client bucket where storage: "resolve_document_storage s (None :: nat option) = Inr (S3DocumentStorage client bucket)"
    using deployed_storage [OF assms(1,2)] by blast
  obtain cert where cert: "database_ssl_root_cert_path s = Some cert" using checks(9) by (auto simp: database_verified_def)
  obtain p where p: "urlsplit ip_literal (redis_url s) = Some p" "url_scheme p = ''rediss''"
    using checks(10) by (auto simp: redis_verified_def)
  have "lower_s ''rediss'' = ''rediss''" by code_simp
  with p have redis: "build_redis_client ip_literal (redis_url s) t = Some \<lparr>ro_url = redis_url s, ro_timeout = t, ro_verify = True\<rparr>" for t
    by (simp add: build_redis_client_def)
  have scanner: "\<exists>sc. resolve_document_safety_scanner s None = Inr sc"
    using assms(3) by (simp add: resolve_document_safety_scanner_def)
  then obtain sc where sc: "resolve_document_safety_scanner s None = Inr sc" by blast
  have env': "environment s \<noteq> ENV_TEST" using env by auto
  show "\<exists>app redis cert client bucket. create_app ip_literal s no_arguments = Inr app \<and>
      database_ssl_root_cert_path s = Some cert \<and> eo_ssl (as_engine app) = Some (''verify-full'', path_str cert) \<and>
      as_redis app = BuiltRedis redis \<and> ro_verify redis \<and>
      as_dispatcher app = CeleryDispatcher (create_celery_client s) \<and>
      cc_broker_tls (create_celery_client s) \<and> cc_backend_tls (create_celery_client s) \<and>
      as_session_store app = RedisSessionStore (seconds (60 * ui_session_ttl_minutes s)) \<and>
      as_readiness app = RuntimeProbe \<and> as_storage app = S3DocumentStorage client bucket"
    using storage cert redis sc env env'
    by (auto simp: create_app_def no_arguments_def build_engine_def create_celery_client_def Let_def)
next
  fix a app r g n assume run: "create_app ip_literal s a = Inr app"
  have env: "environment s \<notin> {ENV_LOCAL, ENV_TEST}" using assms(2) by (auto simp: deployed_def)
  from run env show "\<not> as_classification app"
    by (auto simp: create_app_def Let_def split: if_splits sum.splits option.splits)
  from run have "resolve_document_safety_scanner s (aa_scanner a) = Inr (as_scanner app)"
    by (auto simp: create_app_def Let_def split: if_splits sum.splits option.splits)
  with deployed_scanner(1) [OF assms(1,2)] show "as_scanner app \<noteq> FakeDocumentSafetyScanner r g n" by metis
qed

lemma deployed_app_wiring_example:
  "\<exists>app. create_app (\<lambda>_. False) sample_settings no_arguments = Inr app \<and> as_readiness app = RuntimeProbe"
proof -
  have "deployed sample_settings" "document_scanner_mode sample_settings = SCANNER_CLAMD"
    by (simp_all add: deployed_def sample_settings_def)
  from deployed_app_wiring [OF sample_settings_ok this] show ?thesis by blast
qed

text \<open>
  The witness: a parent forks a child, which builds its service, and whose shutdown meets a client that
  cannot be closed: the engine is disposed of nevertheless, and exactly one client stays open.
\<close>

theorem worker_resources_owned_witness:
  "\<exists>rt p sv rt' p' le lc. worker_life 0 rt p \<and> ps_pid p = 7 \<and> wr_service rt = Some sv \<and> wr_owner_pid rt = Some 7 \<and>
    length (ps_engines p) = 1 \<and> length (ps_clients p) = 1 \<and>
    shutdown_child \<lparr>cf_client = False, cf_engine = False, cf_service = False, cf_close = True, cf_dispose = False\<rparr> rt p
      = (Inl LibraryError, rt', p') \<and> ps_engines p' = [] \<and> length (ps_clients p') = 1 \<and>
    worker_life 1 rt' p' \<and> length lc \<le> 1 \<and> ps_clients p' = owned_clients rt' @ lc"
proof -
  let ?f = "\<lparr>cf_client = False, cf_engine = False, cf_service = False, cf_close = False, cf_dispose = False\<rparr>"
  let ?g = "\<lparr>cf_client = False, cf_engine = False, cf_service = False, cf_close = True, cf_dispose = False\<rparr>"
  let ?rt = "document_worker_runtime sample_settings None None False"
  let ?p = "\<lparr>ps_pid = 3, ps_engines = [], ps_clients = [], ps_next = 1\<rparr>"
  have clean: "clean_faults ?f" "\<not> clean_faults ?g" by (simp_all add: clean_faults_def)
  obtain sv rt p rt' p' where run: "get_service ?f ?rt (?p\<lparr>ps_pid := 7\<rparr>) = (Inr sv, rt, p)" "length (ps_clients p) = 1"
      "length (ps_engines p) = 1" "ps_pid p = 7" "wr_service rt = Some sv" "wr_owner_pid rt = Some 7"
      "shutdown_child ?g rt p = (Inl LibraryError, rt', p')" "length (ps_clients p') = 1" "ps_engines p' = []"
    by (simp add: get_service_def initialize_child_def build_child_def document_worker_runtime_def open_storage_def
      build_engine_handle_def sample_settings_def resolve_document_safety_scanner_def resolve_document_storage_def
      s3_document_storage_def sstrip_def strip_by_def is_space_def shutdown_child_def close_document_storage_def dispose_def)
  have life: "worker_life 0 ?rt (?p\<lparr>ps_pid := 7\<rparr>)" by (rule worker_life.Fork [OF worker_life.Start [OF sample_settings_ok]])
  have life2: "worker_life 0 rt p" using worker_life.Get [OF life run(1)] clean by simp
  have life3: "worker_life 1 rt' p'" using worker_life.Shutdown [OF life2 run(7)] clean by simp
  from worker_resources_owned [OF life3] obtain lc where "length lc \<le> 1" "ps_clients p' = owned_clients rt' @ lc" by blast
  with life2 life3 run show ?thesis by blast
qed

end
