(* ===== verification/SF_RelayProcess.thy ===== *)
theory SF_RelayProcess
  imports SF_Pipeline SF_Runtime
begin

text \<open>
  The relay process: \<open>documents/relay_runtime.py\<close>, with \<open>documents/dispatch.py\<close>. Its options select a recovery, a
  backfill or the polling loop. One round of the loop is \<open>poll\<close>; what its transactions meet, the answers of
  the broker and the clock are its record \<open>round\<close>. The loop is a list of rounds, which a signal ends.
\<close>

subsection \<open>Messages\<close>

record task_message =
  tk_task :: string
  tk_args :: "string list"
  tk_task_id :: "string option"
  tk_retries :: int

definition dispatch :: "uuid \<Rightarrow> task_message" where
  "dispatch document_version_id =
     \<lparr>tk_task = INGEST_DOCUMENT_VERSION_TASK, tk_args = [uuid_str document_version_id], tk_task_id = None, tk_retries = 0\<rparr>"

definition publish_message :: "publication \<Rightarrow> task_message" where
  "publish_message job =
     \<lparr>tk_task = INGEST_DOCUMENT_VERSION_TASK, tk_args = [uuid_str (pb_version_id job)],
      tk_task_id = Some (pb_task_id job), tk_retries = pb_retries job\<rparr>"

subsection \<open>Options\<close>

record relay_args =
  ra_backfill_cutoff :: "instant option"
  ra_recover_intent :: "uuid option"
  ra_organization_id :: "uuid option"
  ra_actor_user_id :: "uuid option"
  ra_dependencies_repaired :: bool

datatype relay_command = UsageError | Recover uuid uuid uuid \<comment> \<open>intent, organization, actor\<close>
  | Backfill instant | Poll

definition command_of :: "relay_args \<Rightarrow> relay_command" where
  "command_of a =
     (case ra_recover_intent a of
        None \<Rightarrow>
          if ra_organization_id a \<noteq> None \<or> ra_actor_user_id a \<noteq> None \<or> ra_dependencies_repaired a then UsageError
          else (case ra_backfill_cutoff a of Some c \<Rightarrow> Backfill c | None \<Rightarrow> Poll)
      | Some intent \<Rightarrow>
          (case (ra_organization_id a, ra_actor_user_id a) of
             (Some org, Some actor) \<Rightarrow>
               if ra_backfill_cutoff a \<noteq> None \<or> \<not> ra_dependencies_repaired a then UsageError else Recover intent org actor
           | _ \<Rightarrow> UsageError))"

definition relay_extracting_seconds :: "settings \<Rightarrow> int" where
  "relay_extracting_seconds s = document_ingestion_hard_time_limit_seconds s + celery_visibility_timeout_seconds s + 60"

definition relay_policy_of :: "settings \<Rightarrow> relay_policy" where
  "relay_policy_of s = default_policy\<lparr>rp_recovery_seconds := outbox_effective_recovery_seconds s,
     rp_extracting_seconds := relay_extracting_seconds s\<rparr>"

datatype relay_output = Rearmed uuid int | RecoveryRefused rearm_error | RecoveryFailed | Backfilled nat | BackfillFailed

definition run_recovery :: "settings \<Rightarrow> tx \<Rightarrow> bool option \<Rightarrow> bool \<Rightarrow> uuid \<Rightarrow> uuid \<Rightarrow> uuid \<Rightarrow> db \<Rightarrow> relay_output \<times> db" where
  \<comment> \<open>\<open>ping\<close>: the answer of the broker, \<open>None\<close> if it raises; a \<open>ValueError\<close> is reported with its text, the
     failed assertion and errors of the database and the broker without\<close>
  "run_recovery s t ping busy intent org actor st =
     (case ping of None \<Rightarrow> (RecoveryFailed, st)
      | Some answered \<Rightarrow>
     (case rearm_intent t answered busy (relay_extracting_seconds s) (document_ingestion_max_retries s + 1) org intent actor st of
        (Inr grant, st') \<Rightarrow> (Rearmed intent grant, st')
      | (Inl RearmDbError, st') \<Rightarrow> (RecoveryFailed, st')
      | (Inl VersionMissing, st') \<Rightarrow> (RecoveryFailed, st')
      | (Inl e, st') \<Rightarrow> (RecoveryRefused e, st')))"

definition run_backfill :: "rtx \<Rightarrow> instant \<Rightarrow> (uuid \<times> uuid) list \<Rightarrow> db \<Rightarrow> relay_output \<times> db" where
  "run_backfill t cutoff fresh st =
     (case backfill t cutoff 100 fresh st of (Inl e, st') \<Rightarrow> (BackfillFailed, st') | (Inr n, st') \<Rightarrow> (Backfilled n, st'))"

subsection \<open>The polling loop\<close>

record round =
  rd_gauges_ok :: bool \<comment> \<open>the reading of the gauges succeeds\<close>
  rd_settle :: rtx
  rd_claim :: rtx
  rd_finish :: rtx
  rd_cleanup :: rtx
  rd_publish :: "publication \<Rightarrow> bool"
  rd_ping :: "bool option" \<comment> \<open>\<open>None\<close>: it raises\<close>
  rd_clock :: instant \<comment> \<open>\<open>monotonic()\<close> at the end of the round\<close>

record relay_health =
  rh_last_poll :: instant
  rh_ready :: bool
  rh_backlog :: nat
  rh_oldest_created_at :: "instant option"
  rh_unresolved :: nat

definition initial_health :: relay_health where
  "initial_health = \<lparr>rh_last_poll = 0, rh_ready = False, rh_backlog = 0, rh_oldest_created_at = None, rh_unresolved = 0\<rparr>"

definition unsettled :: "db \<Rightarrow> ingestion_intent list" where
  "unsettled s = filter (\<lambda>i. i_settled_at i = None) (ingestion_intents s)"

definition update_gauges :: "db \<Rightarrow> relay_health \<Rightarrow> relay_health" where
  "update_gauges s h = h\<lparr>rh_backlog := length (unsettled s),
     rh_oldest_created_at := (case unsettled s of [] \<Rightarrow> None
       | i # is \<Rightarrow> Some (fold (\<lambda>j. min (i_created_at j)) is (i_created_at i))),
     rh_unresolved := length (filter (\<lambda>i. i_unresolved_at i \<noteq> None) (ingestion_intents s))\<rparr>"

definition poll_work :: "relay_policy \<Rightarrow> round \<Rightarrow> db \<Rightarrow> (relay_exn + unit) \<times> db" where
  \<comment> \<open>\<open>relay.tick()\<close> and \<open>relay.cleanup()\<close>\<close>
  "poll_work pol r s =
     (case tick pol (rd_settle r) (rd_claim r) (rd_finish r) (rd_publish r) s of
        (Inl e, s1) \<Rightarrow> (Inl e, s1)
      | (Inr _, s1) \<Rightarrow>
          (case cleanup (rd_cleanup r) 100 (tx_others (rd_cleanup r) s1) of
             (Inl e, s2) \<Rightarrow> (Inl e, s2) | (Inr _, s2) \<Rightarrow> (Inr (), s2)))"

definition poll :: "relay_policy \<Rightarrow> round \<Rightarrow> relay_health \<times> db \<Rightarrow> relay_health \<times> db" where
  \<comment> \<open>every exception of a round is caught\<close>
  "poll pol r hs =
     (let (h, s) = hs in
      if \<not> rd_gauges_ok r then (h\<lparr>rh_ready := False, rh_last_poll := rd_clock r\<rparr>, s)
      else
        let h1 = update_gauges s h in
        (case poll_work pol r s of
           (Inl _, s') \<Rightarrow> (h1\<lparr>rh_ready := False, rh_last_poll := rd_clock r\<rparr>, s')
         | (Inr _, s') \<Rightarrow>
             (case rd_ping r of
                None \<Rightarrow> (h1\<lparr>rh_ready := False, rh_last_poll := rd_clock r\<rparr>, s')
              | Some b \<Rightarrow> (h1\<lparr>rh_ready := b, rh_last_poll := rd_clock r\<rparr>, s'))))"

definition relay_loop :: "relay_policy \<Rightarrow> round list \<Rightarrow> relay_health \<times> db \<Rightarrow> relay_health \<times> db" where
  "relay_loop pol rounds hs = fold (poll pol) rounds hs"

definition do_GET :: "string \<Rightarrow> instant \<Rightarrow> relay_health \<Rightarrow> nat" where
  "do_GET path now h =
     (if now - rh_last_poll h < seconds 60 \<and> (path = ''/live'' \<or> rh_ready h) then 200 else 503)"

subsection \<open>The process refines the pipeline\<close>

definition round_sessions :: "relay_policy \<Rightarrow> int \<Rightarrow> round \<Rightarrow> bool" where
  \<comment> \<open>what other sessions do between the transactions of a round is itself a run of the pipeline\<close>
  "round_sessions pol m r \<longleftrightarrow> (\<forall>s. db_ok s \<longrightarrow>
     pipeline_run pol m s (tx_others (rd_settle r) s) \<and> pipeline_run pol m s (tx_others (rd_claim r) s) \<and>
     pipeline_run pol m s (tx_others (rd_finish r) s) \<and> pipeline_run pol m s (tx_others (rd_cleanup r) s))"

lemma run_then_step:
  assumes "pipeline_run pol m s s1" "pipeline_step pol m s1 s2"
  shows "pipeline_run pol m s s2"
  using assms unfolding pipeline_run_def by (rule rtranclp.rtrancl_into_rtrancl)

lemma run_trans: "pipeline_run pol m a b \<Longrightarrow> pipeline_run pol m b c \<Longrightarrow> pipeline_run pol m a c"
  unfolding pipeline_run_def by (rule rtranclp_trans)

lemma run_refl: "pipeline_run pol m s s"
  by (simp add: pipeline_run_def)

lemma run_ok: "pipeline_run pol m s s' \<Longrightarrow> db_ok s \<Longrightarrow> db_ok s'"
  using pipeline_run_basic by blast

lemma tick_run:
  assumes "db_ok s" "round_sessions pol m r"
    and "tick pol (rd_settle r) (rd_claim r) (rd_finish r) pub s = (res, s')"
  shows "pipeline_run pol m s s'"
proof -
  let ?t1 = "rd_settle r" and ?t2 = "rd_claim r" and ?t3 = "rd_finish r"
  note others = assms(2) [unfolded round_sessions_def, rule_format]
  obtain n s1 where settle: "settle_terminal ?t1 (tx_others ?t1 s) = (n, s1)" by fastforce
  have s1: "pipeline_run pol m s s1"
    using run_then_step [OF _ pipeline_step.Settle [OF settle]] others [OF assms(1)] by blast
  note ok1 = run_ok [OF s1 assms(1)]
  obtain c s2 where claim: "relay_claim pol ?t2 (tx_others ?t2 s1) = (c, s2)" by fastforce
  have s2: "pipeline_run pol m s s2"
    using run_then_step [OF _ pipeline_step.Claim [OF claim]] others [OF ok1] run_trans [OF s1] by blast
  note ok2 = run_ok [OF s2 assms(1)]
  show ?thesis
  proof (cases n)
    case (Inl e)
    then show ?thesis using assms(3) settle s1 by (simp add: tick_def)
  next
    case (Inr k)
    show ?thesis
    proof (cases "\<exists>p. c = Inr (Some p)")
      case False
      then show ?thesis using assms(3) settle claim Inr s2
        by (auto simp: tick_def split: sum.splits option.splits)
    next
      case True
      then obtain p where p: "c = Inr (Some p)" by blast
      obtain f s3 where fin: "finish pol ?t3 p (pub p) (tx_others ?t3 s2) = (f, s3)" by fastforce
      have "pipeline_run pol m s s3"
        using run_then_step [OF _ pipeline_step.Finish [OF fin]] others [OF ok2] run_trans [OF s2] by blast
      then show ?thesis using assms(3) settle claim Inr p fin by (auto simp: tick_def split: sum.splits)
    qed
  qed
qed

lemma poll_work_run:
  assumes "db_ok s" "round_sessions pol m r" "poll_work pol r s = (res, s')"
  shows "pipeline_run pol m s s'"
proof -
  obtain a s1 where tick: "tick pol (rd_settle r) (rd_claim r) (rd_finish r) (rd_publish r) s = (a, s1)" by fastforce
  note s1 = tick_run [OF assms(1,2) tick]
  obtain b s2 where clean: "cleanup (rd_cleanup r) 100 (tx_others (rd_cleanup r) s1) = (b, s2)" by fastforce
  have "pipeline_run pol m s s2"
    using run_then_step [OF _ pipeline_step.Cleanup [OF clean]] assms(2) run_ok [OF s1 assms(1)] run_trans [OF s1]
    unfolding round_sessions_def by blast
  with s1 assms(3) tick clean show ?thesis by (auto simp: poll_work_def split: sum.splits)
qed

lemma poll_run:
  assumes "db_ok s" "round_sessions pol m r" "poll pol r (h, s) = (h', s')"
  shows "pipeline_run pol m s s' \<and> rh_last_poll h' = rd_clock r \<and>
    (rh_ready h' \<longleftrightarrow> rd_gauges_ok r \<and> fst (poll_work pol r s) = Inr () \<and> rd_ping r = Some True)"
proof -
  obtain a s1 where work: "poll_work pol r s = (a, s1)" by fastforce
  from poll_work_run [OF assms(1,2) work] work assms(3) show ?thesis
    by (cases a; cases "rd_ping r") (auto simp: poll_def run_refl Let_def split: if_splits)
qed

lemma loop_run:
  assumes "db_ok s" "list_all (round_sessions pol m) rounds" "relay_loop pol rounds (h, s) = (h', s')"
  shows "pipeline_run pol m s s'"
  using assms
proof (induction rounds arbitrary: h s)
  case (Cons r rounds)
  obtain h1 s1 where p: "poll pol r (h, s) = (h1, s1)" by fastforce
  have s1: "pipeline_run pol m s s1" using poll_run [OF Cons.prems(1) _ p] Cons.prems(2) by simp
  have "pipeline_run pol m s1 s'"
    by (rule Cons.IH [OF run_ok [OF s1 Cons.prems(1)], of h1]) (use Cons.prems(2,3) p in \<open>simp_all add: relay_loop_def\<close>)
  with s1 show ?case by (rule run_trans)
qed (simp add: relay_loop_def run_refl)

lemma relay_policy_ok: "policy_ok (relay_policy_of s)"
  by (simp add: relay_policy_of_def policy_ok_def default_policy_def)

text \<open>
  C9. The relay process keeps the pipeline correct and tells the truth about itself. Whatever faults its rounds
  meet, no round ends the process, all of them together are a run of the pipeline, and so every invariant of
  the pipeline holds after them. The readiness endpoint answers 200 exactly when the last round ended less
  than a minute ago, read its gauges, worked without error and found the broker alive; the liveness
  endpoint exactly when it ended less than a minute ago.
\<close>

theorem relay_process_truthful:
  assumes "pipeline_inv pol m s" "policy_ok pol" "0 \<le> m" "list_all (round_sessions pol m) (rounds @ [r])"
    and "relay_loop pol (rounds @ [r]) (h, s) = (h', s')" "path \<noteq> ''/live''"
  shows "pipeline_run pol m s s' \<and> pipeline_inv pol m s' \<and>
    (do_GET path now h' = 200 \<longleftrightarrow> now - rd_clock r < seconds 60 \<and> rd_gauges_ok r \<and>
       fst (poll_work pol r (snd (relay_loop pol rounds (h, s)))) = Inr () \<and> rd_ping r = Some True) \<and>
    (do_GET ''/live'' now h' = 200 \<longleftrightarrow> now - rd_clock r < seconds 60)"
proof -
  obtain h1 s1 where l: "relay_loop pol rounds (h, s) = (h1, s1)" by fastforce
  have ok: "db_ok s" using assms(1) by (simp add: pipeline_inv_def)
  have s1: "pipeline_run pol m s s1" by (rule loop_run [OF ok _ l]) (use assms(4) in simp)
  have p: "poll pol r (h1, s1) = (h', s')" using assms(5) l by (simp add: relay_loop_def)
  have r: "pipeline_run pol m s1 s' \<and> rh_last_poll h' = rd_clock r \<and>
      (rh_ready h' \<longleftrightarrow> rd_gauges_ok r \<and> fst (poll_work pol r s1) = Inr () \<and> rd_ping r = Some True)"
    by (rule poll_run [OF run_ok [OF s1 ok] _ p]) (use assms(4) in simp)
  then have run: "pipeline_run pol m s s'" using run_trans [OF s1] by blast
  from pipeline_run_props [OF run assms(1-3)] have "pipeline_inv pol m s'" by blast
  with run r l assms(6) show ?thesis by (auto simp: do_GET_def)
qed

lemma recovery_needs_confirmation:
  "command_of a = Recover intent org actor \<longleftrightarrow> a = \<lparr>ra_backfill_cutoff = None, ra_recover_intent = Some intent,
     ra_organization_id = Some org, ra_actor_user_id = Some actor, ra_dependencies_repaired = True\<rparr>"
  by (cases a) (auto simp: command_of_def split: option.splits)

lemma recovery_run: "run_recovery s t ping busy intent org actor st = (out, st') \<Longrightarrow> pipeline_run pol m st st'"
proof (cases ping)
  case (Some answered)
  assume run: "run_recovery s t ping busy intent org actor st = (out, st')"
  obtain g st1 where re: "rearm_intent t answered busy (relay_extracting_seconds s) (document_ingestion_max_retries s + 1)
      org intent actor st = (g, st1)" by fastforce
  with run Some have "st1 = st'" by (auto simp: run_recovery_def split: sum.splits rearm_error.splits)
  with run_then_step [OF run_refl pipeline_step.Rearm [OF re]] show ?thesis by simp
qed (simp add: run_recovery_def run_refl)

lemma backfill_run: "run_backfill t cutoff fresh st = (out, st') \<Longrightarrow> pipeline_run pol m st st'"
proof -
  assume run: "run_backfill t cutoff fresh st = (out, st')"
  obtain g st1 where b: "backfill t cutoff 100 fresh st = (g, st1)" by fastforce
  with run have "st1 = st'" by (auto simp: run_backfill_def split: sum.splits)
  with run_then_step [OF run_refl pipeline_step.Backfill [OF b]] show ?thesis by simp
qed

definition sample_round :: round where
  "sample_round = \<lparr>rd_gauges_ok = True, rd_settle = sample_rtx 8 900, rd_claim = sample_rtx 8 901,
     rd_finish = sample_rtx 8 902, rd_cleanup = sample_rtx 8 903, rd_publish = (\<lambda>_. True), rd_ping = Some True,
     rd_clock = seconds 5\<rparr>"

theorem relay_process_truthful_witness:
  "\<exists>h s. relay_loop default_policy [sample_round] (initial_health, sample_uploaded) = (h, s) \<and>
    pipeline_inv default_policy 4 s \<and> do_GET ''/live'' (seconds 10) h = 200 \<and> do_GET ''/ready'' (seconds 66) h = 503"
proof -
  obtain h s where run: "relay_loop default_policy ([] @ [sample_round]) (initial_health, sample_uploaded) = (h, s)" by fastforce
  have "list_all (round_sessions default_policy 4) ([] @ [sample_round])"
    by (simp add: round_sessions_def sample_round_def sample_rtx_def run_refl)
  with relay_process_truthful [OF sample_inv sample_policy _ _ run, of "''/ready''"]
  have "pipeline_inv default_policy 4 s"
      "\<And>now. do_GET ''/live'' now h = 200 \<longleftrightarrow> now - seconds 5 < seconds 60"
      "\<And>now. do_GET ''/ready'' now h = 200 \<Longrightarrow> now - seconds 5 < seconds 60"
    by (simp_all add: sample_round_def)
  moreover from this(3) [of "seconds 66"] have "do_GET ''/ready'' (seconds 66) h \<noteq> 200" by (auto simp: seconds_def)
  then have "do_GET ''/ready'' (seconds 66) h = 503" by (simp add: do_GET_def split: if_splits)
  moreover have "seconds 10 - seconds 5 < seconds 60" by (simp add: seconds_def)
  ultimately show ?thesis using run by auto
qed

end
