(* ===== verification/SF_DocumentsApi.thy ===== *)
theory SF_DocumentsApi
  imports SF_Pipeline SF_Identity
begin

text \<open>
  \<open>app/api/documents.py\<close>: the two document endpoints, from the dependency chain to the response.

  A form is the list of its fields as the multipart parser of the framework delivers them. A refusal by
  the dependency chain is its status code, as in \<open>authorize\<close>. What other sessions commit between the
  authorization and the transaction of the upload is \<open>others\<close>.
\<close>

subsection \<open>The form\<close>

datatype form_value = FileField "ustr option" stream | TextField ustr

definition is_upload_file :: "form_value \<Rightarrow> bool" where
  "is_upload_file x = (case x of FileField _ _ \<Rightarrow> True | TextField _ \<Rightarrow> False)"

definition require_single_file_field :: "(string \<times> form_value) list \<Rightarrow> upload_exn api_exn + unit" where
  "require_single_file_field form =
     (let file_values = map snd (filter (\<lambda>(name, _). name = ''file'') form) in
      if set (map fst form) \<noteq> {''file''} \<or> length file_values \<noteq> 1 \<or> \<not> is_upload_file (hd file_values)
      then Inl (Http \<lparr>he_status = 422, he_detail = Coded ''invalid_document_form''
             ''Multipart upload must contain exactly one file field'' None, he_headers = []\<rparr>)
      else Inr ())"

definition form_file :: "(string \<times> form_value) list \<Rightarrow> ustr option \<times> stream" where
  \<comment> \<open>the parameter \<open>file\<close>: the file name and the open file of the field\<close>
  "form_file form = (case map_of form ''file'' of Some (FileField filename source) \<Rightarrow> (filename, source) | _ \<Rightarrow> (None, []))"

subsection \<open>Errors\<close>

fun user_message :: "validation_error \<Rightarrow> string" where
  "user_message DocumentTooLargeError = ''The uploaded document exceeds the 10 MiB limit''"
| "user_message UnsupportedDocumentTypeError = ''Only PDF, TXT, and Markdown documents are supported''"
| "user_message UnsafeDocumentFilenameError = ''The document filename is invalid''"
| "user_message EmptyDocumentError = ''The uploaded document is empty''"

definition document_location :: "uuid \<Rightarrow> string" where
  "document_location document_id = ''/api/v1/documents/'' @ uuid_str document_id"

definition coded_error :: "nat \<Rightarrow> string \<Rightarrow> string \<Rightarrow> upload_exn api_exn" where
  "coded_error status code message = Http \<lparr>he_status = status, he_detail = Coded code message None, he_headers = []\<rparr>"

fun upload_exception :: "upload_exn \<Rightarrow> upload_exn api_exn" where
  \<comment> \<open>the \<open>except\<close> clauses of \<open>upload_document\<close>; a failing read of the file is not caught\<close>
  "upload_exception (Invalid DocumentTooLargeError) =
     coded_error 413 (validation_code DocumentTooLargeError) (user_message DocumentTooLargeError)"
| "upload_exception (Invalid e) = coded_error 422 (validation_code e) (user_message e)"
| "upload_exception DocumentStorageUnavailableError =
     coded_error 503 ''document_storage_unavailable'' ''Document storage is temporarily unavailable''"
| "upload_exception DocumentPersistenceError =
     coded_error 409 ''document_persistence_failed'' ''Document could not be created''"
| "upload_exception (DocumentDispatchError d) =
     Http \<lparr>he_status = 503,
       he_detail = Coded (error_code_value DISPATCH_FAILED) ''Document processing could not be queued''
         (Some (JObj [(''document_id'', JStr (uuid_str d)), (''status_url'', JStr (document_location d))])),
       he_headers = [(''Location'', document_location d)]\<rparr>"
| "upload_exception SourceReadError = Unhandled SourceReadError"

lemma upload_exception_status: "api_status (upload_exception e) = h_status (upload_http_error e)"
  by (cases e rule: upload_exception.cases) (simp_all add: coded_error_def upload_http_error_def)

subsection \<open>The endpoints\<close>

datatype document_failure = Refused nat | Raised "upload_exn api_exn"

definition upload_document :: "'tok jwt_lib \<Rightarrow> token_manager \<Rightarrow> instant \<Rightarrow> (string \<times> 'tok) option \<Rightarrow> uuid \<Rightarrow>
    (string \<times> form_value) list \<Rightarrow> unicode_data \<Rightarrow> (byte list \<Rightarrow> string) \<Rightarrow>
    (string \<Rightarrow> byte list \<Rightarrow> 'st \<Rightarrow> storage_error + 'st) \<Rightarrow> (string \<Rightarrow> 'st \<Rightarrow> storage_error + 'st) \<Rightarrow> int \<Rightarrow>
    db_fault \<Rightarrow> fresh_ids \<Rightarrow> (db \<Rightarrow> db) \<Rightarrow> 'st \<Rightarrow> db \<Rightarrow>
    (document_failure + string \<times> document_status_view) \<times> 'st \<times> db" where
  \<comment> \<open>success: the \<open>Location\<close> header and the body of a 202 response\<close>
  "upload_document lib mg now credentials organization_id form ucd sha256 put delete max_upload_bytes fault ids others st s =
     (case authorize lib mg now [ADMIN] credentials organization_id s of
        Inl n \<Rightarrow> (Inl (Refused n), st, s)
      | Inr ctx \<Rightarrow>
     (case require_single_file_field form of
        Inl e \<Rightarrow> (Inl (Raised e), st, s)
      | Inr _ \<Rightarrow>
          let (filename, source) = form_file form in
          (case create_upload ucd sha256 put delete max_upload_bytes fault now ids (o_id (ctx_organization ctx))
                  (m_user_id (ctx_membership ctx)) filename source st (others s) of
             (Inl e, st', s') \<Rightarrow> (Inl (Raised (upload_exception e)), st', s')
           | (Inr created, st', s') \<Rightarrow>
               (Inr (document_location (d_id (fst created)), document_status_response created), st', s'))))"

definition get_document_status :: "'tok jwt_lib \<Rightarrow> token_manager \<Rightarrow> instant \<Rightarrow> (string \<times> 'tok) option \<Rightarrow> uuid \<Rightarrow>
    uuid \<Rightarrow> db \<Rightarrow> document_failure + document_status_view" where
  "get_document_status lib mg now credentials organization_id document_id s =
     (case authorize lib mg now [ADMIN] credentials organization_id s of
        Inl n \<Rightarrow> Inl (Refused n)
      | Inr ctx \<Rightarrow>
          (case get_status (o_id (ctx_organization ctx)) document_id s of
             Inl DocumentNotFoundError \<Rightarrow> Inl (Raised (http_error 404 ''Document not found''))
           | Inr result \<Rightarrow> Inr (document_status_response result)))"

subsection \<open>What the endpoints see\<close>

lemma single_file_form: "require_single_file_field form = Inr x \<longleftrightarrow> (\<exists>filename source. form = [(''file'', FileField filename source)])"
proof
  assume ok: "require_single_file_field form = Inr x"
  then have keys: "set (map fst form) = {''file''}" by (simp add: require_single_file_field_def Let_def split: if_splits)
  have named: "fst f = ''file''" if "f \<in> set form" for f
    using keys that by (metis image_eqI set_map singletonD)
  then have all: "filter (\<lambda>(name, _). name = ''file'') form = form"
    by (simp add: filter_id_conv split_beta)
  from ok have one: "length form = 1" and upload: "is_upload_file (hd (map snd form))"
    unfolding require_single_file_field_def Let_def all by (simp_all split: if_splits)
  from one obtain f where f: "form = [f]" by (auto simp: length_Suc_conv)
  with upload obtain filename source where "snd f = FileField filename source"
    by (auto simp: is_upload_file_def split: form_value.splits)
  with f named [of f] have "form = [(''file'', FileField filename source)]" by (simp add: prod_eq_iff)
  then show "\<exists>filename source. form = [(''file'', FileField filename source)]" by blast
qed (auto simp: require_single_file_field_def is_upload_file_def)

lemma set_order_by_desc: "set (order_by_desc key rows) = set rows"
  by (simp add: order_by_desc_def)

lemma order_by_desc_hd:
  assumes "order_by_desc key rows = x # rest" "y \<in> set rows"
  shows "key y \<le> key x"
proof -
  have eq: "sort_key key rows = rev rest @ [x]" using arg_cong [OF assms(1), of rev] by (simp add: order_by_desc_def)
  have "sorted (map key (rev rest @ [x]))" unfolding eq [symmetric] by simp
  moreover have "y \<in> set (rev rest @ [x])" using assms(2) unfolding eq [symmetric] by simp
  ultimately show ?thesis by (auto simp: sorted_append)
qed

lemma first_row: "(case rows of [] \<Rightarrow> None | row # _ \<Rightarrow> Some row) = Some x \<Longrightarrow> \<exists>rest. rows = x # rest"
  by (cases rows) simp_all

lemma get_status_visible:
  assumes "get_status org document_id s = Inr (d, v)"
  shows "d \<in> set (documents s) \<and> d_organization_id d = org \<and> d_id d = document_id \<and>
    v \<in> set (document_versions s) \<and> v_organization_id v = org \<and> v_document_id v = document_id \<and>
    (\<forall>w \<in> set (document_versions s). v_organization_id w = org \<and> v_document_id w = document_id \<longrightarrow>
       v_version_number w \<le> v_version_number v)"
proof -
  let ?rows = "filter (\<lambda>(d, v). v_organization_id v = d_organization_id d \<and> v_document_id v = d_id d \<and>
             d_organization_id d = org \<and> d_id d = document_id \<and> v_organization_id v = org)
           (List.product (documents s) (document_versions s))"
  have "get_with_latest_version org document_id s = Some (d, v)"
    using assms unfolding get_status_def by (simp split: option.splits)
  then have "\<exists>rest. order_by_desc (\<lambda>(d, v). v_version_number v) ?rows = (d, v) # rest"
    unfolding get_with_latest_version_def by (rule first_row)
  then obtain rest where head: "order_by_desc (\<lambda>(d, v). v_version_number v) ?rows = (d, v) # rest" ..
  have "(d, v) \<in> set (order_by_desc (\<lambda>(d, v). v_version_number v) ?rows)" unfolding head by simp
  then have mem: "(d, v) \<in> set ?rows" unfolding set_order_by_desc .
  have "v_version_number w \<le> v_version_number v"
    if "w \<in> set (document_versions s)" "v_organization_id w = org" "v_document_id w = document_id" for w
  proof -
    have "(d, w) \<in> set ?rows" using mem that by auto
    from order_by_desc_hd [OF head this] show ?thesis by simp
  qed
  with mem show ?thesis by auto
qed

lemma document_status_authorized:
  "get_document_status lib mg now credentials oid document_id s = Inr view \<longleftrightarrow>
    (\<exists>ctx d v. authorize lib mg now [ADMIN] credentials oid s = Inr ctx \<and>
       get_status (o_id (ctx_organization ctx)) document_id s = Inr (d, v) \<and> view = document_status_response (d, v))"
  by (auto simp: get_document_status_def split: sum.splits status_exn.splits)

lemma authorize_organization:
  assumes "authorize lib mg now roles credentials oid s = Inr ctx"
  shows "o_id (ctx_organization ctx) = oid"
proof -
  obtain user where "bindE (get_organization_context oid user s) (require_roles roles) = Inr ctx"
    using assms by (auto simp: authorize_def split: sum.splits)
  then have "get_organization_context oid user s = Inr ctx"
    by (auto simp: bindE_Inr_iff require_roles_def split: if_splits)
  then obtain r x where rows: "context_rows oid (u_id user) s = [(r, x)]" "ctx = \<lparr>ctx_organization = r, ctx_membership = x\<rparr>"
    by (auto simp: get_organization_context_def split: list.splits)
  then have "(r, x) \<in> set (context_rows oid (u_id user) s)" by simp
  with rows(2) show ?thesis unfolding context_rows_mem by simp
qed

lemma upload_document_Inr:
  assumes "upload_document lib mg now credentials oid form ucd sha256 put delete max_bytes fault ids others st s =
      (Inr (location, view), st', s')"
  shows "\<exists>ctx filename source d v. authorize lib mg now [ADMIN] credentials oid s = Inr ctx \<and>
    form = [(''file'', FileField filename source)] \<and>
    create_upload ucd sha256 put delete max_bytes fault now ids oid (m_user_id (ctx_membership ctx)) filename source st (others s) =
      (Inr (d, v), st', s') \<and> location = document_location (d_id d) \<and> view = document_status_response (d, v)"
proof -
  from assms obtain ctx where ctx: "authorize lib mg now [ADMIN] credentials oid s = Inr ctx"
    by (auto simp: upload_document_def split: sum.splits)
  from assms ctx obtain u where "require_single_file_field form = Inr u"
    by (auto simp: upload_document_def split: sum.splits)
  then obtain filename source where form: "form = [(''file'', FileField filename source)]"
    using single_file_form by blast
  have "require_single_file_field form = Inr ()" unfolding form by (simp add: require_single_file_field_def is_upload_file_def)
  with assms ctx authorize_organization [OF ctx] show ?thesis
    by (auto simp: upload_document_def form form_file_def split: prod.splits sum.splits)
qed

lemma created_rows:
  assumes "create_upload ucd sha256 put delete max_bytes fault now ids org actor filename source st s = (Inr (d, v), st', s')"
  shows "s' = upload_rows now ids org d v s \<and> db_ok s' \<and> d_id d = f_document ids \<and> d_organization_id d = org \<and>
    d_created_by_user_id d = actor \<and> v_organization_id v = org \<and> v_document_id v = f_document ids \<and> v_status v = QUEUED"
  using assms unfolding create_upload_def
  by (auto simp: Let_def new_document_def new_version_def dest!: stage_upload_Inr split: sum.splits db_fault.splits)

lemma failed_upload_keeps_rows:
  assumes "create_upload ucd sha256 put delete max_bytes fault now ids org actor filename source st s = (Inl e, st', s')"
    and "fault \<noteq> AckLost"
  shows "s' = s"
  using assms unfolding create_upload_def by (auto simp: Let_def split: sum.splits db_fault.splits)

lemma document_hidden:
  assumes "d_organization_id d \<noteq> org" and "\<And>x. x \<in> set (documents s) \<Longrightarrow> d_id x = d_id d \<Longrightarrow> x = d"
  shows "get_status org (d_id d) s = Inl DocumentNotFoundError"
proof (cases "get_status org (d_id d) s")
  case (Inl e)
  then show ?thesis by (cases e) simp
next
  case (Inr r)
  obtain x v where r: "r = (x, v)" by fastforce
  from get_status_visible [OF Inr [unfolded r]] assms show ?thesis by auto
qed

lemma get_document_status_cases:
  "get_document_status lib mg now credentials oid document_id s =
     (case authorize lib mg now [ADMIN] credentials oid s of
        Inl n \<Rightarrow> Inl (Refused n)
      | Inr ctx \<Rightarrow> (case get_status oid document_id s of
          Inl _ \<Rightarrow> Inl (Raised (http_error 404 ''Document not found'')) | Inr result \<Rightarrow> Inr (document_status_response result)))"
proof (cases "authorize lib mg now [ADMIN] credentials oid s")
  case (Inr ctx)
  then show ?thesis using authorize_organization [OF Inr]
    by (simp add: get_document_status_def split: sum.split status_exn.split)
qed (simp add: get_document_status_def)

lemma upload_document_failed:
  assumes "upload_document lib mg now credentials oid form ucd sha256 put delete max_bytes fault ids others st s =
      (Inl e, st', s')"
  shows "(\<forall>n. e = Refused n \<longrightarrow> s' = s \<and> st' = st) \<and> (fault \<noteq> AckLost \<longrightarrow> s' = s \<or> s' = others s)"
  using assms unfolding upload_document_def
  by (auto simp: Let_def dest: failed_upload_keeps_rows split: sum.splits prod.splits)

subsection \<open>After the upload\<close>

text \<open>
  What other requests and processes do afterwards: steps of the pipeline (further uploads, deliveries,
  the relay, the operator), and transactions that leave the two document tables alone, which are all
  those of the other components, whatever else they change.
\<close>

definition document_traffic :: "relay_policy \<Rightarrow> int \<Rightarrow> db \<Rightarrow> db \<Rightarrow> bool" where
  "document_traffic pol m = (\<lambda>a b. pipeline_step pol m a b \<or>
     db_ok b \<and> documents b = documents a \<and> document_versions b = document_versions a)\<^sup>*\<^sup>*"

definition same_document :: "document_status_view \<Rightarrow> document_status_view \<Rightarrow> bool" where
  \<comment> \<open>they differ at most in the progress of the version\<close>
  "same_document view view' \<longleftrightarrow> view'\<lparr>ds_version := ds_version view\<rparr> = view \<and>
     (ds_version view')\<lparr>vs_status := vs_status (ds_version view), vs_error_code := vs_error_code (ds_version view),
       vs_error_message := vs_error_message (ds_version view), vs_updated_at := vs_updated_at (ds_version view)\<rparr> =
     ds_version view"

definition only_version :: "document \<Rightarrow> document_version \<Rightarrow> db \<Rightarrow> bool" where
  "only_version d v s \<longleftrightarrow> db_ok s \<and> d \<in> set (documents s) \<and>
     (\<exists>w \<in> set (document_versions s). same_identity v w) \<and>
     (\<forall>w \<in> set (document_versions s). v_document_id w = d_id d \<longrightarrow> same_identity v w)"

lemma saved_documents [simp]: "documents (save_version now v s) = documents s"
  by (simp add: save_version_def)

lemma saved_identity:
  assumes "v \<in> set (document_versions s)" and "same_identity v v'"
  shows "\<forall>w \<in> set (document_versions (save_version now v' s)). \<exists>x \<in> set (document_versions s). same_identity x w"
proof
  fix w assume "w \<in> set (document_versions (save_version now v' s))"
  from saved_versionsD [OF this] show "\<exists>x \<in> set (document_versions s). same_identity x w"
    using assms by (auto simp: same_identity_def)
qed

lemma ingest_step_documents:
  assumes "ingest_step m s s'"
  shows "documents s' = documents s \<and>
     (\<forall>w \<in> set (document_versions s'). \<exists>x \<in> set (document_versions s). same_identity x w)"
  using assms
proof cases
  case (Begin v now task)
  with saved_identity [OF Begin(1), of "extracting_version now task v" now] show ?thesis by simp
next
  case (Requeue v now code)
  with saved_identity [OF Requeue(1), of "retry_version code v" now] show ?thesis by simp
next
  case (Complete v e now t)
  with saved_identity [OF Complete(1), of "ready_version t v" now] show ?thesis by simp
next
  case (Abandon v e now code)
  with saved_identity [OF Abandon(1), of "failed_version code v" now] show ?thesis by simp
qed

lemma pipeline_step_documents:
  assumes "pipeline_step pol m s s'"
  shows "documents s' = documents s \<and>
       (\<forall>w \<in> set (document_versions s'). \<exists>x \<in> set (document_versions s). same_identity x w) \<or>
     (\<exists>d v. documents s' = documents s @ [d] \<and> document_versions s' = document_versions s @ [v] \<and> v_document_id v = d_id d)"
proof -
  have same: ?thesis if "documents s' = documents s" "document_versions s' = document_versions s"
    unfolding that using same_identity_refl by blast
  from assms show ?thesis
  proof cases
    case (Upload d now ids org name actor v key staged)
    from stage_upload_Inr [OF Upload(3)] show ?thesis
      by (intro disjI2 exI [of _ d] exI [of _ v]) (simp add: upload_rows_def Upload(1,2) new_document_def new_version_def)
  next
    case Worker
    from ingest_step_documents [OF this] show ?thesis ..
  next
    case (Claim t r)
    then show ?thesis by (intro same)
      (auto simp: relay_claim_def save_intent_def dest!: relay_commitD split: option.splits prod.splits)
  next
    case (Finish t pub ok r')
    then show ?thesis by (intro same) (auto simp: finish_def save_intent_def dest!: relay_commitD split: option.splits)
  next
    case (Settle t n)
    then show ?thesis by (intro same) (auto simp: settle_terminal_def Let_def dest!: relay_commitD)
  next
    case (Cleanup t limit n)
    then show ?thesis by (intro same) (auto simp: cleanup_def Let_def dest!: relay_commitD split: if_splits)
  next
    case (Backfill t cutoff limit fresh n)
    have "documents (fold (insert_intent now) rs s) = documents s" for now rs
      using fold_insert_intent [of now rs s] by auto
    with Backfill show ?thesis
      by (intro same) (auto simp: backfill_def Let_def fold_insert_versions dest!: relay_commitD split: if_splits)
  next
    case (Rearm t dep busy ext max_att org iid actor g)
    then show ?thesis using rearm_state [OF Rearm] by (intro same) (cases "s' = s"; auto simp: save_intent_def)+
  qed
qed

lemma only_version_step:
  assumes "pipeline_step pol m s s' \<or> db_ok s' \<and> documents s' = documents s \<and> document_versions s' = document_versions s"
    and "only_version d v s"
  shows "only_version d v s'"
  using assms(1)
proof
  assume step: "pipeline_step pol m s s'"
  have ok: "db_ok s'" "keeps_versions s s'"
    using pipeline_step_basic [OF step] assms(2) by (simp_all add: only_version_def)
  have kept: "\<exists>w \<in> set (document_versions s'). same_identity v w"
    using ok(2) assms(2) same_identity_trans unfolding only_version_def keeps_versions_def by metis
  from pipeline_step_documents [OF step] show ?thesis
  proof (elim disjE exE conjE)
    assume docs: "documents s' = documents s"
      and old: "\<forall>w \<in> set (document_versions s'). \<exists>x \<in> set (document_versions s). same_identity x w"
    have "same_identity v w" if w: "w \<in> set (document_versions s')" "v_document_id w = d_id d" for w
    proof -
      obtain x where x: "x \<in> set (document_versions s)" "same_identity x w" using old w(1) by blast
      then have "same_identity v x" using assms(2) w(2) by (simp add: only_version_def same_identity_def)
      with x(2) show ?thesis by (rule same_identity_trans [rotated])
    qed
    with docs kept ok(1) assms(2) show ?thesis by (simp add: only_version_def)
  next
    fix d' v'
    assume new: "documents s' = documents s @ [d']" "document_versions s' = document_versions s @ [v']"
      "v_document_id v' = d_id d'"
    have "distinct (map d_id (documents s'))" using ok(1) by (simp add: db_ok_defs)
    then have "d_id d' \<noteq> d_id d" using assms(2) by (auto simp: new(1) only_version_def)
    with new kept ok(1) assms(2) show ?thesis by (auto simp: only_version_def)
  qed
qed (use assms(2) in \<open>simp add: only_version_def\<close>)

lemma only_version_traffic: "document_traffic pol m s s' \<Longrightarrow> only_version d v s \<Longrightarrow> only_version d v s'"
  unfolding document_traffic_def
proof (induction rule: rtranclp_induct)
  case (step y z)
  show ?case by (rule only_version_step [OF step.hyps(2) step.IH [OF step.prems]])
qed

lemma only_version_status:
  assumes "only_version d v s" and "v_organization_id v = d_organization_id d" and "v_document_id v = d_id d"
  shows "\<exists>w. get_status (d_organization_id d) (d_id d) s = Inr (d, w) \<and> same_identity v w"
proof -
  define rows where "rows = filter (\<lambda>(x, w). v_organization_id w = d_organization_id x \<and> v_document_id w = d_id x \<and>
             d_organization_id x = d_organization_id d \<and> d_id x = d_id d \<and> v_organization_id w = d_organization_id d)
           (List.product (documents s) (document_versions s))"
  obtain w where w: "w \<in> set (document_versions s)" "same_identity v w" using assms(1) by (auto simp: only_version_def)
  then have "(d, w) \<in> set rows" using assms by (auto simp: rows_def only_version_def same_identity_def)
  then have "set (order_by_desc (\<lambda>(d, v). v_version_number v) rows) \<noteq> {}" unfolding set_order_by_desc by auto
  then obtain r rest where "order_by_desc (\<lambda>(d, v). v_version_number v) rows = r # rest" by (auto simp: neq_Nil_conv)
  then have r: "get_status (d_organization_id d) (d_id d) s = Inr r"
    unfolding get_status_def get_with_latest_version_def rows_def by simp
  obtain x y where "r = (x, y)" by (cases r)
  with get_status_visible [OF r [unfolded this]] assms(1) have
    "x \<in> set (documents s)" "d_id x = d_id d" "same_identity v y" by (auto simp: only_version_def)
  moreover have "distinct (map d_id (documents s))" "d \<in> set (documents s)"
    using assms(1) by (simp_all add: only_version_def db_ok_defs)
  ultimately show ?thesis using r \<open>r = (x, y)\<close> distinct_key_unique by metis
qed

lemma upload_fresh:
  assumes "db_ok s" and "fresh_for ids oid s"
  shows "f_document ids \<notin> d_id ` set (documents s)" "f_document ids \<notin> v_document_id ` set (document_versions s)"
proof -
  show "f_document ids \<notin> d_id ` set (documents s)" using assms(2) by (simp add: fresh_for_def)
  with version_document_exists [OF assms(1)] show "f_document ids \<notin> v_document_id ` set (document_versions s)" by force
qed

lemma upload_only_version:
  assumes "s' = upload_rows now ids oid d v s" and "db_ok s" and "fresh_for ids oid s" and "db_ok s'"
    and "d_id d = f_document ids"
  shows "only_version d v s'"
proof -
  have "v_document_id w \<noteq> f_document ids" if "w \<in> set (document_versions s)" for w
    using upload_fresh(2) [OF assms(2,3)] that by force
  with assms(1,4,5) show ?thesis by (auto simp: only_version_def upload_rows_def)
qed

lemma document_answers:
  assumes "only_version d v s" and "get_status oid (d_id d) s = Inr (d, w)" and "d_organization_id d = oid"
  shows "get_document_status lib mg now credentials oid' (d_id d) s =
      (case authorize lib mg now [ADMIN] credentials oid' s of Inl n \<Rightarrow> Inl (Refused n)
       | Inr _ \<Rightarrow> if oid' = oid then Inr (document_status_response (d, w))
           else Inl (Raised (http_error 404 ''Document not found'')))"
proof -
  have "distinct (map d_id (documents s))" "d \<in> set (documents s)"
    using assms(1) by (simp_all add: only_version_def db_ok_defs)
  then have "get_status oid' (d_id d) s = Inl DocumentNotFoundError" if "oid' \<noteq> oid"
    using that assms(3) by (intro document_hidden) (auto dest: distinct_key_unique)
  then show ?thesis
    unfolding get_document_status_cases by (cases "oid' = oid") (simp_all add: assms(2) split: sum.split)
qed

text \<open>
  C10. The document endpoints serve only administrators, and only their own organization. A refused
  upload changes nothing, and a failed one adds no row unless the acknowledgement of its commit is lost; an
  accepted one adds exactly its rows for the organization and the user of the token, whatever other
  sessions commit meanwhile. Right after it the status endpoint gives the response of the upload to every
  administrator of that organization, and 404 to every other organization; and so it does at any later
  time, after any further uploads, deliveries, relay and operator transactions and any requests of the
  other components, except that the status, error and update time of the version may have changed.
\<close>

theorem document_requests_guarded:
  assumes "upload_document lib mg now credentials oid form ucd sha256 put delete max_bytes fault ids others st s = (r, st', s')"
    and "db_ok (others s)" and "fresh_for ids oid (others s)"
  shows "case r of
      Inl e \<Rightarrow> (\<forall>n. e = Refused n \<longrightarrow> s' = s \<and> st' = st) \<and> (fault \<noteq> AckLost \<longrightarrow> s' = s \<or> s' = others s)
    | Inr (location, view) \<Rightarrow>
        (\<exists>ctx d v. authorize lib mg now [ADMIN] credentials oid s = Inr ctx \<and> s' = upload_rows now ids oid d v (others s) \<and>
           db_ok s' \<and> d_organization_id d = oid \<and> d_created_by_user_id d = m_user_id (ctx_membership ctx) \<and>
           location = document_location (d_id d) \<and> ds_id view = d_id d \<and> vs_status (ds_version view) = QUEUED) \<and>
        (\<forall>now' credentials' oid'. get_document_status lib mg now' credentials' oid' (ds_id view) s' =
           (case authorize lib mg now' [ADMIN] credentials' oid' s' of
              Inl n \<Rightarrow> Inl (Refused n)
            | Inr _ \<Rightarrow> if oid' = oid then Inr view else Inl (Raised (http_error 404 ''Document not found'')))) \<and>
        (\<forall>pol m s''. document_traffic pol m s' s'' \<longrightarrow> (\<exists>view'. same_document view view' \<and>
          (\<forall>now' credentials' oid'. get_document_status lib mg now' credentials' oid' (ds_id view) s'' =
           (case authorize lib mg now' [ADMIN] credentials' oid' s'' of
              Inl n \<Rightarrow> Inl (Refused n)
            | Inr _ \<Rightarrow> if oid' = oid then Inr view' else Inl (Raised (http_error 404 ''Document not found''))))))"
proof (cases r)
  case (Inl e)
  from upload_document_failed [OF assms(1) [unfolded Inl]] show ?thesis by (simp add: Inl)
next
  case (Inr p)
  obtain location view where p: "p = (location, view)" by fastforce
  from upload_document_Inr [OF assms(1) [unfolded Inr p]] obtain ctx filename source d v where
    ctx: "authorize lib mg now [ADMIN] credentials oid s = Inr ctx" and
    run: "create_upload ucd sha256 put delete max_bytes fault now ids oid (m_user_id (ctx_membership ctx)) filename source st
      (others s) = (Inr (d, v), st', s')" and
    reply: "location = document_location (d_id d)" "view = document_status_response (d, v)" by blast
  note rows = created_rows [OF run]
  have id: "ds_id view = d_id d" "vs_status (ds_version view) = QUEUED"
    using rows by (simp_all add: reply(2) document_status_response_def)
  have only: "only_version d v s'"
    using upload_only_version [OF _ assms(2,3), of s' now d v] rows by blast
  have org: "d_organization_id d = oid" "v_organization_id v = d_organization_id d" "v_document_id v = d_id d"
    using rows by simp_all
  have own: "get_status oid (d_id d) s' = Inr (d, v)"
    using get_status_after_upload [of d "others s" v oid] upload_fresh [OF assms(2,3)] rows by simp
  have now: "get_document_status lib mg now' credentials' oid' (ds_id view) s' =
      (case authorize lib mg now' [ADMIN] credentials' oid' s' of Inl n \<Rightarrow> Inl (Refused n)
       | Inr _ \<Rightarrow> if oid' = oid then Inr view else Inl (Raised (http_error 404 ''Document not found'')))" for now' credentials' oid'
    unfolding id(1) document_answers [OF only own org(1)] reply(2) [symmetric] by (rule refl)
  have later: "\<exists>view'. same_document view view' \<and> (\<forall>now' credentials' oid'.
      get_document_status lib mg now' credentials' oid' (ds_id view) s'' =
      (case authorize lib mg now' [ADMIN] credentials' oid' s'' of Inl n \<Rightarrow> Inl (Refused n)
       | Inr _ \<Rightarrow> if oid' = oid then Inr view' else Inl (Raised (http_error 404 ''Document not found''))))"
    if "document_traffic pol m s' s''" for pol m s''
  proof -
    note only' = only_version_traffic [OF that only]
    obtain w where w: "get_status oid (d_id d) s'' = Inr (d, w)" "same_identity v w"
      using only_version_status [OF only' org(2,3)] by (auto simp: org(1))
    have "same_document view (document_status_response (d, w))"
      using w(2) by (simp add: reply(2) same_document_def document_status_response_def same_identity_def)
    then show ?thesis unfolding id(1) using document_answers [OF only' w(1) org(1)] by blast
  qed
  show ?thesis using ctx rows id reply(1) now later by (auto simp: Inr p)
qed

lemma sample_authorized:
  assumes "decode_user_id lib mg now token = Inr 10"
  shows "authorize lib mg now [ADMIN] (Some (''Bearer'', token)) 1 sample_db =
    Inr \<lparr>ctx_organization = hd (organizations sample_db), ctx_membership = hd (organization_members sample_db)\<rparr>"
proof -
  have "lower_s ''Bearer'' = ''bearer''" by code_simp
  with assms show ?thesis
    by (simp add: authorize_def get_current_user_def get_organization_context_def context_rows_def require_roles_def
      bindE_def sample_db_def)
qed

theorem document_requests_guarded_witness:
  "\<exists>location view st' s'. upload_document transparent_jwt sample_manager 7
      (Some (''Bearer'', fst (issue transparent_jwt sample_manager 6 50 10))) 1
      [(''file'', FileField (Some (u ''a.md'')) [Some [104, 105]])] sample_ucd sample_sha memory_put memory_delete 100 NoFault
      sample_ids id Map.empty sample_db = (Inr (location, view), st', s') \<and> ds_id view = 100 \<and>
    get_document_status transparent_jwt sample_manager 8 None 1 100 (snd (relay_claim default_policy (sample_rtx 8 900) s')) =
      Inl (Refused 401)"
proof -
  let ?token = "fst (issue transparent_jwt sample_manager 6 50 10)"
  let ?form = "[(''file'', FileField (Some (u ''a.md'')) [Some [104, 105 :: nat]])]"
  have dec: "decode_user_id transparent_jwt sample_manager 7 ?token = Inr 10"
    unfolding decode_issued [OF transparent_jwt_ok sample_uuid_range(1,2)] by (simp add: sample_manager_def seconds_def)
  define d where "d = new_document 7 (f_document sample_ids) 1 (vu_display_filename sample_staged) 10"
  define v where "v = new_version 7 (f_version sample_ids) 1 (f_document sample_ids)
    (build_storage_key 1 (f_document sample_ids) (f_version sample_ids)) sample_staged"
  have stage: "stage_upload_with_intent 7 sample_ids 1 d v sample_db = Inr (upload_rows 7 sample_ids 1 d v sample_db)"
    by (rule stage_upload_ok(1) [OF sample_db_ok sample_members(1) sample_laws(3,1) _ _ sample_stage d_def v_def])
      (simp_all add: sample_laws MAX_DOCUMENT_BYTES_def)
  obtain st1 where put: "memory_put (build_storage_key 1 (f_document sample_ids) (f_version sample_ids))
      (vu_stream sample_staged) Map.empty = Inr st1"
    by (simp add: memory_put_def validate_built_key)
  have upload: "create_upload sample_ucd sample_sha memory_put memory_delete 100 NoFault 7 sample_ids 1 10 (Some (u ''a.md''))
      [Some [104, 105]] Map.empty sample_db = (Inr (d, v), st1, upload_rows 7 sample_ids 1 d v sample_db)"
    using stage put by (simp add: create_upload_def sample_stage Let_def flip: d_def v_def del: One_nat_def)
  have caller: "o_id (hd (organizations sample_db)) = 1" "m_user_id (hd (organization_members sample_db)) = 10"
    by (simp_all add: sample_db_def)
  have form: "require_single_file_field ?form = Inr ()" "form_file ?form = (Some (u ''a.md''), [Some [104, 105]])"
    by (simp_all add: require_single_file_field_def is_upload_file_def form_file_def)
  have run: "upload_document transparent_jwt sample_manager 7 (Some (''Bearer'', ?token)) 1 ?form sample_ucd sample_sha
      memory_put memory_delete 100 NoFault sample_ids id Map.empty sample_db =
      (Inr (document_location (d_id d), document_status_response (d, v)), st1, upload_rows 7 sample_ids 1 d v sample_db)"
    unfolding upload_document_def sample_authorized [OF dec] form by (simp add: caller upload del: One_nat_def)
  have id: "ds_id (document_status_response (d, v)) = 100"
    by (simp add: document_status_response_def d_def new_document_def sample_ids_def)
  let ?s1 = "upload_rows 7 sample_ids 1 d v sample_db"
  have traffic: "document_traffic default_policy 4 ?s1 (snd (relay_claim default_policy (sample_rtx 8 900) ?s1))"
    unfolding document_traffic_def
    by (rule r_into_rtranclp) (rule disjI1, rule pipeline_step.Claim, rule surjective_pairing)
  from document_requests_guarded [OF run] sample_db_ok sample_laws(3) traffic
  have "get_document_status transparent_jwt sample_manager 8 None 1 (ds_id (document_status_response (d, v)))
      (snd (relay_claim default_policy (sample_rtx 8 900) ?s1)) = Inl (Refused 401)"
    by (fastforce simp: authorize_def get_current_user_def)
  with run id show ?thesis by metis
qed

end
