(* ===== verification/Spec2Isabelle.thy ===== *)
theory Spec2Isabelle
  imports SF_Service SF_Classification SF_Ui SF_Release SF_S3 SF_Migrations SF_Evaluation
    SF_RelayProcess SF_DocumentsApi
begin

text \<open>
  SupportFlow is a multi-tenant support desk: an HTTP API over PostgreSQL, a document pipeline
  (upload, transactional outbox, relay, Celery worker), browser sessions in Redis and a ticket
  classifier behind a provider port. This library models the application code under \<open>src/app\<close> and
  proves what makes it correct. It has one theory per component.

  \<^bold>\<open>Theories\<close>

  \<^item> \<open>SF_Prelude\<close>: identifiers, instants, strings, results as sums, tables as lists of rows with the SQL
    fragments the repositories use, and the contract of paged listings (locale \<open>paged_listing\<close>).
  \<^item> \<open>SF_Models\<close>: the enumerations, one record per mapped class of the \<open>models.py\<close> files, the declared
    \<open>CHECK\<close>, foreign-key and \<open>UNIQUE\<close> constraints and column types (\<open>db_ok\<close>), and \<open>commit\<close>.
  \<^item> \<open>SF_Audit\<close>: \<open>app/audit\<close> and its endpoint; every recording operation with its allowlist.
  \<^item> \<open>SF_Http\<close>: \<open>app/errors.py\<close>; what a client sees of an exception.
  \<^item> \<open>SF_Extraction\<close>, \<open>SF_Storage\<close>: \<open>documents/extraction.py\<close> and \<open>documents/storage.py\<close>; UTF-8 decoding
    is executable, the PDF library a parameter; both storage adapters meet one contract (locale
    \<open>document_storage\<close>), in which a removal may also be refused.
  \<^item> \<open>SF_Upload\<close>: \<open>validation.py\<close>, \<open>outbox.py\<close>, \<open>service.py\<close>, \<open>repository.py\<close> of \<open>app/documents\<close> and
    the error mapping of \<open>api/documents.py\<close>; what an upload leaves behind is proved from the storage contract.
  \<^item> \<open>SF_DocumentsApi\<close>: the endpoints of \<open>api/documents.py\<close>, from the dependency chain and the form to the
    response, with the sessions that commit in between.
  \<^item> \<open>SF_S3\<close>: \<open>documents/s3_storage.py\<close>; the adapter over the client of the AWS library, a parameter with
    the laws of the locale \<open>s3_service\<close> (no call is assumed to succeed).
  \<^item> \<open>SF_Ingestion\<close>, \<open>SF_Delivery\<close>: \<open>documents/ingestion.py\<close> and \<open>documents/tasks.py\<close>; every transaction
    of the worker, the abstract transition relation it refines, and whole deliveries with retries.
  \<^item> \<open>SF_Relay\<close>: \<open>documents/relay.py\<close> and \<open>documents/recovery.py\<close>; leases, budgets, settlement, clean-up,
    backfill and operator recovery.
  \<^item> \<open>SF_Pipeline\<close>: the abstract pipeline (\<open>pipeline_step\<close>): the transitions of \<open>SF_Delivery\<close> interleaved with
    the transactions of the relay, and its invariants.
  \<^item> \<open>SF_Service\<close>: the calls of the service themselves (\<open>service_step\<close>: uploads, each transaction of the worker
    with any claim it holds in memory, relay, operator) in any order; a simulation shows that they implement the
    pipeline, and the outcome of versions and the exclusiveness of leases are stated over them.
  \<^item> \<open>SF_Tickets\<close>: \<open>app/tickets\<close> and \<open>api/tickets.py\<close>.
  \<^item> \<open>SF_Identity\<close>: \<open>app/auth\<close>, \<open>app/identity\<close>, \<open>api/auth.py\<close>, \<open>api/dependencies.py\<close> and
    \<open>api/organization_members.py\<close>.
  \<^item> \<open>SF_Sessions\<close>: \<open>app/ui/session.py\<close>; the locale \<open>session_store\<close> is the abstract specification (a map
    of live sessions) that the in-memory and the Redis store both refine.
  \<^item> \<open>SF_Classification\<close>: \<open>app/classification\<close> and \<open>api/classification.py\<close>.
  \<^item> \<open>SF_Evaluation\<close>: \<open>classification/evaluation.py\<close> and \<open>scripts/evaluate_classification.py\<close>; the scripted
    offline evaluation with its fixture checks, confusion matrix and metrics.
  \<^item> \<open>SF_Scanner\<close>: \<open>documents/clamd.py\<close>; the client of the malware daemon over a connection whose clock,
    writes and replies are parameters, and an adapter for the scanner of the worker.
  \<^item> \<open>SF_Settings\<close>: \<open>config.py\<close> and \<open>documents/composition.py\<close>; field bounds, the validator of deployed
    settings, the URL checks and the choice of adapters.
  \<^item> \<open>SF_Ui\<close>: \<open>ui/router.py\<close>; every page and form of the agent interface over the session store, the
    authentication service and the ticket service.
  \<^item> \<open>SF_Json\<close>, \<open>SF_Release\<close>: \<open>scripts/aws/release_contract.py\<close>; the checks of a deployment, the rendering
    of task definitions and the evidence, over an executable \<open>json.loads\<close> and \<open>json.dumps\<close>.

  \<^item> \<open>SF_Schema\<close>, \<open>SF_Migrations\<close>: the tables the \<open>models.py\<close> files declare, with the naming convention
    of \<open>infrastructure/database.py\<close>, the scripts under \<open>alembic/versions\<close> as schema operations with their
    documented effect on tables and on the values in their rows, and \<open>alembic/env.py\<close>, which runs them in
    one transaction beside other sessions; which rows meet a \<open>CHECK\<close> expression is the parameter \<open>holds\<close>.
  \<^item> \<open>SF_Runtime\<close>: \<open>documents/worker_runtime.py\<close> (the engine and S3 client of a worker process as handles
    it holds open), the fake scanner of \<open>documents/ports.py\<close>, \<open>infrastructure/readiness.py\<close>,
    \<open>api/health.py\<close>, \<open>observability.py\<close> and what \<open>main.py\<close>, \<open>worker.py\<close>, \<open>infrastructure/database.py\<close> and
    \<open>infrastructure/redis.py\<close> choose from the settings.
  \<^item> \<open>SF_RelayProcess\<close>: \<open>documents/relay_runtime.py\<close> and \<open>documents/dispatch.py\<close>; the options, the rounds of
    the polling loop over the transactions of \<open>SF_Relay\<close>, and the health endpoint.

  \<^bold>\<open>How state and operations correspond\<close>

  The database is the record \<open>db\<close> of its tables; an operation of a service takes the state and
  returns a sum (\<open>Inl\<close> the exception) with the new state. A transaction computes a pending state and
  ends in \<open>commit\<close>, which accepts it exactly when every declared constraint holds; \<open>db_fault\<close> says
  whether the commit also fails for outside reasons (\<open>Aborted\<close>) or succeeds without its
  acknowledgement reaching the process (\<open>AckLost\<close>). Fresh identifiers, clocks and random bytes are
  arguments. What other sessions do between two transactions, or between an unlocked read and the
  write that follows, is the function \<open>tx_others\<close> or \<open>others\<close> and is arbitrary unless a theorem says
  otherwise. The handlers of the agent interface also thread the state of the session store. Code that
  is not in the repository is a parameter with its documented behaviour as a
  named predicate: \<open>jwt_ok\<close>, \<open>digest_ok\<close>, \<open>codec_ok\<close>, \<open>digests_ok\<close>, \<open>trims\<close>, the PDF reader, the scanner and
  the broker. No definition needs fuel: the loops of the modelled code run over finite lists (the replies
  of a connection included). Only a user who follows the next links of the ticket list may go on for
  ever; this is the \<open>partial_function\<close> \<open>browse\<close>, proved to return.

  \<^bold>\<open>What is shown\<close>

  \<^item> Pipeline: after any run of the service each document version has exactly the terminal audit events of
    its status, an unfinished version has an unsettled intent, terminal versions never change,
    publications stay within budget; a delivery with any faults refines the abstract pipeline; a
    version becomes ready only with text from verified, scanned bytes; a text comes back unchanged.
  \<^item> Scanner: a clean verdict needs a healthy daemon with fresh signatures that received exactly the
    bytes of the version; every fault ends in an error, never in a clean verdict.
  \<^item> Upload and relay: acceptance, atomicity across database and storage (and the one case in which an object is left
    over), leases exclusive until they are finished or expire, progress,
    and the exact outcome of finishing, settling, cleaning up and rearming; the document endpoints serve
    only administrators of the organization a document belongs to.
  \<^item> Identity: registration leads to a working administrator, authorization is characterised exactly,
    token lifetimes are bounded, login failures are uniform, members are added with their event.
  \<^item> Tickets: exact effect of creation and status requests, tenant isolation, and an audit trail that
    counts the steps of every ticket when requests are serialised; without the lock they are not.
  \<^item> Sessions: a session survives everything but its own end, old cookies die, and the two stores are
    indistinguishable.
  \<^item> Classification: an undisturbed request succeeds, a returned result is either the stored success for the
    current input or what the provider answered for it while the operation was open, and a settled operation
    answers for good. The evaluation counts every planned case exactly once.
  \<^item> Settings: accepted staging and production settings are hardened and their time limits nested.
  \<^item> Agent interface: a request changes data only for an active member with the token of the session,
    as the one ticket operation it names; login, browsing and the offered status steps work.
  \<^item> Release: printed JSON reads back; what the tool renders it later accepts and differs from its source in one image, accepted deployments are
    bound to one repository and environment, and written evidence holds only references.

  \<^item> Migrations: upgrading builds exactly the declared schema, upgrades can be taken back with every value of
    every row, and no downgrade drops an ingestion intent whatever other sessions write meanwhile.
  \<^item> Processes: a worker holds open exactly what its current service uses (and what an earlier failure to
    release it left open) and only serves what it built itself; the relay process never leaves the pipeline and reports its own state truthfully; deployed
    settings compose into an application without fakes and with verified connections.

  \<^bold>\<open>Not modelled\<close>

  HTML templates and static files; logging; the registration of routes, tasks and signal handlers with
  the frameworks, and the closing of clients when the API or the relay process ends (straight sequences
  of library calls); offline migrations, which print SQL; and the operational scripts, which drive
  running services or write documents and hold no logic of the application. The ranges of \<open>Integer\<close> columns are not among the
  checked column types (\<open>types_ok\<close>): counters are unbounded integers. Row locks and
  \<open>SKIP LOCKED\<close> appear as predicates on rows, isolation as the granularity of transactions; timing of
  password hashing appears as the list of verifications performed.
\<close>

end
